(* ===== verification/Prelude.thy ===== *)
theory Prelude
  imports Complex_Main "HOL-Library.Word"
begin

section \<open>Shared vocabulary: JavaScript strings, numbers and values\<close>

text \<open>
  What every component of the terminal client uses of its language.
  A JavaScript string is a list of 16-bit code units (\<open>jsstring\<close>); \<open>js ''abc''\<close> is the
  string literal \<open>"abc"\<close>.  A number is a \<open>jsnum\<close>: not-a-number, one of the two
  infinities, or a finite double, which is a rational number (the sign of a zero is not
  kept: no code modelled here observes it).  A value of type \<open>unknown\<close> is a \<open>jsval\<close>;
  \<open>J_error m\<close> is an \<open>Error\<close> object with message \<open>m\<close>.
  Counters, byte counts and times in milliseconds, which the code only ever fills with
  whole numbers, are \<open>nat\<close> or \<open>int\<close>.
  The named collections \<open>js_simps\<close> and \<open>frame\<close> gather the rewrite rules that component
  proofs pass to the simplifier.
\<close>

named_theorems js_simps
named_theorems frame

type_synonym code_unit = "16 word"

type_synonym jsstring = "code_unit list"

definition js :: "string \<Rightarrow> jsstring" where
  "js s = map of_char s"

datatype jsnum = Not_a_number | Pos_infinity | Neg_infinity | Finite rat

datatype jsval =
    J_undefined
  | J_null
  | J_bool bool
  | J_num jsnum
  | J_str jsstring
  | J_arr "jsval list"
  | J_obj "(jsstring \<times> jsval) list"
  | J_error jsstring

text \<open>\<open>typeof v === "object"\<close> and \<open>v\<close> is not null.\<close>

fun is_object :: "jsval \<Rightarrow> bool" where
  "is_object (J_arr _) = True"
| "is_object (J_obj _) = True"
| "is_object (J_error _) = True"
| "is_object _ = False"

text \<open>
  Reading a property that no prototype defines (no name used by the client is one of
  \<open>Object.prototype\<close> or \<open>Array.prototype\<close>): \<open>undefined\<close> when it is not an own property.
\<close>

fun get_prop :: "jsval \<Rightarrow> jsstring \<Rightarrow> jsval" where
  "get_prop (J_obj kvs) k = (case map_of kvs k of None \<Rightarrow> J_undefined | Some v \<Rightarrow> v)"
| "get_prop _ k = J_undefined"

fun has_own :: "jsval \<Rightarrow> jsstring \<Rightarrow> bool" where
  "has_own (J_obj kvs) k = (k \<in> fst ` set kvs)"
| "has_own _ k = False"

subsection \<open>Strings\<close>

text \<open>The white space and line terminators that \<open>String.prototype.trim\<close> removes.\<close>

definition is_space :: "code_unit \<Rightarrow> bool" where
  "is_space u \<longleftrightarrow> u \<in> {9, 10, 11, 12, 13, 32, 0xA0, 0x1680, 0x2028, 0x2029, 0x202F, 0x205F, 0x3000, 0xFEFF}
     \<or> 0x2000 \<le> u \<and> u \<le> 0x200A"

definition trim :: "jsstring \<Rightarrow> jsstring" where
  "trim s = rev (dropWhile is_space (rev (dropWhile is_space s)))"

text \<open>Decimal rendering of whole numbers, as in a template literal.\<close>

fun nat_digits :: "nat \<Rightarrow> string" where
  "nat_digits n = (if n < 10 then [char_of (48 + n)] else nat_digits (n div 10) @ [char_of (48 + n mod 10)])"

declare nat_digits.simps [simp del]

definition int_digits :: "int \<Rightarrow> string" where
  "int_digits i = (if i < 0 then CHR ''-'' # nat_digits (nat (- i)) else nat_digits (nat i))"

subsection \<open>The host\<close>

text \<open>
  Functions of the JavaScript host that the client calls and whose tables or grammars are
  not part of it: Unicode case mapping, the text of a number, JSON and the URL parser.
  They are the argument \<open>H\<close> of the definitions that use them.  A function that may throw
  returns \<open>Inl\<close> of the thrown value.
\<close>

record url =
  url_protocol :: jsstring
  url_host :: jsstring
  url_pathname :: jsstring
  url_search :: jsstring
  url_params :: "(jsstring \<times> jsstring) list"
  url_rest :: jsstring

record host =
  lower_case :: "jsstring \<Rightarrow> jsstring"
  number_text :: "rat \<Rightarrow> jsstring"
  json_parse :: "jsstring \<Rightarrow> jsval + jsval"
  json_stringify :: "jsval \<Rightarrow> jsval + jsstring"
  url_parse :: "jsstring \<Rightarrow> url option"
  url_set_param :: "url \<Rightarrow> jsstring \<Rightarrow> jsstring \<Rightarrow> url"
  url_text :: "url \<Rightarrow> jsstring"

subsection \<open>Facts about strings\<close>

lemma of_char_code_unit_inj: "of_char c = (of_char d :: code_unit) \<longleftrightarrow> c = d"
proof
  assume eq: "of_char c = (of_char d :: code_unit)"
  have "unat (of_char x :: code_unit) = of_char x" for x :: char
  proof -
    have "(of_char x :: nat) < 2 ^ LENGTH(16)"
      by (rule order.strict_trans [OF nat_of_char_less_256]) simp
    then have "unat (of_nat (of_char x) :: code_unit) = of_char x"
      by (simp only: unsigned_of_nat take_bit_nat_eq_self_iff of_nat_id)
    then show ?thesis by (simp only: of_nat_of_char)
  qed
  with eq have "(of_char c :: nat) = of_char d" by metis
  then show "c = d" by simp
qed simp

lemma js_eq_iff [simp, js_simps]: "js a = js b \<longleftrightarrow> a = b"
  unfolding js_def by (rule inj_map_eq_map) (simp add: inj_def of_char_code_unit_inj)

lemma js_Nil [simp, js_simps]: "js [] = []"
  by (simp add: js_def)

lemma js_eq_Nil [simp, js_simps]: "js s = [] \<longleftrightarrow> s = []" "[] = js s \<longleftrightarrow> s = []"
  by (auto simp: js_def)

lemma length_js [simp, js_simps]: "length (js s) = length s"
  by (simp add: js_def)

lemma take_js [simp, js_simps]: "take n (js s) = js (take n s)"
  and drop_js [simp, js_simps]: "drop n (js s) = js (drop n s)"
  by (simp_all add: js_def take_map drop_map)

lemma trim_Nil [simp]: "trim [] = []"
  by (simp add: trim_def)

lemma dropWhile_idem_suffix: "dropWhile P (dropWhile P xs) = dropWhile P xs"
  by (rule dropWhile_idem)

lemma trim_length: "length (trim s) \<le> length s"
  unfolding trim_def by (metis length_dropWhile_le length_rev order_trans)

lemma nat_digits_nonempty [simp]: "nat_digits n \<noteq> []"
  by (subst nat_digits.simps) simp

end
