(* ===== verification/Scheduler.thy ===== *)
theory Scheduler
  imports Prelude
begin

section \<open>The scheduler\<close>

text \<open>
  \<open>platform/scheduler.ts\<close>: the \<open>Scheduler\<close> interface and its browser implementation.
  A callback given to a timer is one of finitely many closures, named by a value of the
  parameter \<open>'t\<close>.  \<open>now\<close> reads the wall clock (\<open>Date.now\<close>), which may jump; timers run on a
  clock of their own, as in the browser.  \<open>armed\<close> is the table of live timers.
\<close>

record 't timer =
  due :: int
  period :: "int option"
  callback :: 't

record 't scheduler =
  wall :: int
  mono :: int
  next_handle :: nat
  armed :: "nat \<Rightarrow> 't timer option"

definition now :: "'t scheduler \<Rightarrow> int" where
  "now sc = wall sc"

definition add_timer :: "'t timer \<Rightarrow> 't scheduler \<Rightarrow> nat \<times> 't scheduler" where
  "add_timer tm sc = (next_handle sc, sc\<lparr>next_handle := Suc (next_handle sc), armed := (armed sc)(next_handle sc \<mapsto> tm)\<rparr>)"

definition setTimeout :: "'t \<Rightarrow> int \<Rightarrow> 't scheduler \<Rightarrow> nat \<times> 't scheduler" where
  "setTimeout task delayMs sc = add_timer \<lparr>due = mono sc + max 0 delayMs, period = None, callback = task\<rparr> sc"

definition setInterval :: "'t \<Rightarrow> int \<Rightarrow> 't scheduler \<Rightarrow> nat \<times> 't scheduler" where
  "setInterval task intervalMs sc =
     add_timer \<lparr>due = mono sc + max 0 intervalMs, period = Some (max 0 intervalMs), callback = task\<rparr> sc"

definition clearTimeout :: "nat \<Rightarrow> 't scheduler \<Rightarrow> 't scheduler" where
  "clearTimeout h sc = sc\<lparr>armed := (armed sc)(h := None)\<rparr>"

definition clearInterval :: "nat \<Rightarrow> 't scheduler \<Rightarrow> 't scheduler" where
  "clearInterval h sc = clearTimeout h sc"

text \<open>The event loop: a due timer runs; a one-shot timer is gone before its callback runs.\<close>

definition fire :: "nat \<Rightarrow> 't scheduler \<Rightarrow> ('t \<times> 't scheduler) option" where
  "fire h sc =
     (case armed sc h of
        None \<Rightarrow> None
      | Some tm \<Rightarrow>
          if mono sc < due tm then None
          else Some (callback tm,
            sc\<lparr>armed := (armed sc)(h := (case period tm of None \<Rightarrow> None | Some p \<Rightarrow> Some (tm\<lparr>due := due tm + p\<rparr>)))\<rparr>))"

definition pass_time :: "nat \<Rightarrow> int \<Rightarrow> 't scheduler \<Rightarrow> 't scheduler" where
  "pass_time d w sc = sc\<lparr>mono := mono sc + int d, wall := w\<rparr>"

definition new_scheduler :: "int \<Rightarrow> 't scheduler" where
  "new_scheduler w = \<lparr>wall = w, mono = 0, next_handle = 0, armed = Map.empty\<rparr>"

subsection \<open>The timer interface\<close>

text \<open>A live timer seen from outside: its callback, and whether it repeats.\<close>

definition pending :: "'t scheduler \<Rightarrow> nat \<Rightarrow> ('t \<times> bool) option" where
  "pending sc h = map_option (\<lambda>tm. (callback tm, period tm \<noteq> None)) (armed sc h)"

definition issued :: "'t scheduler \<Rightarrow> nat set" where
  "issued sc = {..<next_handle sc}"

text \<open>
  A client keeps handles in slots, one per label.  Every live timer is the one in the slot of
  its label; a strict slot holds a live timer, any other slot a live or a finished one.
\<close>

definition slot_inv :: "'l set \<Rightarrow> ('l \<Rightarrow> nat option) \<Rightarrow> (nat \<Rightarrow> 'l option) \<Rightarrow> nat set \<Rightarrow> bool" where
  "slot_inv strict slots live used \<longleftrightarrow>
     (\<forall>h. h \<notin> used \<longrightarrow> live h = None) \<and>
     (\<forall>h l. live h = Some l \<longrightarrow> slots l = Some h) \<and>
     (\<forall>h l. slots l = Some h \<longrightarrow> h \<in> used \<and> (live h = Some l \<or> live h = None \<and> l \<notin> strict))"

lemma slot_live: "slot_inv S sl live used \<Longrightarrow> live h = Some l \<Longrightarrow> sl l = Some h"
  and slot_used: "slot_inv S sl live used \<Longrightarrow> sl l = Some h \<Longrightarrow> h \<in> used"
  and slot_unused: "slot_inv S sl live used \<Longrightarrow> h \<notin> used \<Longrightarrow> live h = None"
  and slot_held: "slot_inv S sl live used \<Longrightarrow> sl l = Some h \<Longrightarrow> live h = Some l \<or> live h = None \<and> l \<notin> S"
  unfolding slot_inv_def by blast+

lemma slot_strict: "slot_inv S sl live used \<Longrightarrow> l \<in> S \<Longrightarrow> sl l = Some h \<Longrightarrow> live h = Some l"
  using slot_held by fast

lemma slot_empty: "slot_inv S (\<lambda>l. None) live used \<Longrightarrow> live = Map.empty"
  by (rule ext) (metis slot_live not_None_eq)

lemma slot_invI:
  assumes "\<And>h. h \<notin> used \<Longrightarrow> live h = None" "\<And>h l. live h = Some l \<Longrightarrow> slots l = Some h"
    "\<And>h l. slots l = Some h \<Longrightarrow> h \<in> used"
    "\<And>h l. slots l = Some h \<Longrightarrow> live h = Some l \<or> live h = None \<and> l \<notin> S"
  shows "slot_inv S slots live used"
  using assms unfolding slot_inv_def by blast

text \<open>Filling an empty slot with an unused handle, and emptying a slot.\<close>

lemma slot_fill:
  assumes inv: "slot_inv S sl live used" and new: "sl l = None" "h \<notin> used"
  shows "slot_inv S (sl(l := Some h)) (live(h \<mapsto> l)) (insert h used)"
proof -
  have none: "live h = None" using slot_unused [OF inv new(2)] .
  have ne: "h' \<noteq> h" if "sl m = Some h'" for m h' using slot_used [OF inv that] new(2) by blast
  show ?thesis
  proof (rule slot_invI)
    fix h' assume "h' \<notin> insert h used"
    then show "(live(h \<mapsto> l)) h' = None" using slot_unused [OF inv] by simp
  next
    fix h' m assume "(live(h \<mapsto> l)) h' = Some m"
    then show "(sl(l := Some h)) m = Some h'"
      using slot_live [OF inv, of h' m] new(1) by (cases "h' = h"; cases "m = l") simp_all
  next
    fix h' m assume a: "(sl(l := Some h)) m = Some h'"
    then show "h' \<in> insert h used" using slot_used [OF inv, of m h'] by (cases "m = l") simp_all
    show "(live(h \<mapsto> l)) h' = Some m \<or> (live(h \<mapsto> l)) h' = None \<and> m \<notin> S"
      using a ne [of m h'] slot_held [OF inv, of m h'] by (cases "m = l") simp_all
  qed
qed

lemma slot_drop:
  assumes inv: "slot_inv S sl live used" and l: "sl l = Some h"
  shows "slot_inv S (sl(l := None)) (live(h := None)) used"
    and "l \<notin> S \<Longrightarrow> slot_inv S sl (live(h := None)) used"
proof -
  have other: "live h = None" "m \<notin> S" if "sl m = Some h" "m \<noteq> l" for m
    using slot_held [OF inv l] slot_held [OF inv that(1)] that(2) by auto
  have off: "m \<noteq> l" if "live h' = Some m" "h' \<noteq> h" for h' m
    using slot_live [OF inv that(1)] that(2) l by auto
  show "slot_inv S (sl(l := None)) (live(h := None)) used"
  proof (rule slot_invI)
    fix h' m assume a: "(sl(l := None)) m = Some h'"
    then have m: "sl m = Some h'" "m \<noteq> l" by (simp_all split: if_splits)
    show "h' \<in> used" using slot_used [OF inv m(1)] .
    show "(live(h := None)) h' = Some m \<or> (live(h := None)) h' = None \<and> m \<notin> S"
      using slot_held [OF inv m(1)] other [of m] m by (cases "h' = h") simp_all
  qed (use slot_unused [OF inv] slot_live [OF inv] off in \<open>simp_all split: if_splits\<close>)
  show "slot_inv S sl (live(h := None)) used" if "l \<notin> S"
  proof (rule slot_invI)
    fix h' m assume m: "sl m = Some h'"
    show "h' \<in> used" using slot_used [OF inv m] .
    show "(live(h := None)) h' = Some m \<or> (live(h := None)) h' = None \<and> m \<notin> S"
      using slot_held [OF inv m] other(2) [of m] m that by (cases "h' = h"; cases "m = l") simp_all
  qed (use slot_unused [OF inv] slot_live [OF inv] in \<open>simp_all split: if_splits\<close>)
qed

text \<open>What a client of the scheduler relies on: a new timer gets a handle that was never
  issued; arming, clearing or firing one timer changes no other.\<close>

locale timer_service =
  fixes set_timeout :: "'t \<Rightarrow> int \<Rightarrow> 's \<Rightarrow> nat \<times> 's"
    and set_interval :: "'t \<Rightarrow> int \<Rightarrow> 's \<Rightarrow> nat \<times> 's"
    and clear_timer :: "nat \<Rightarrow> 's \<Rightarrow> 's"
    and fire_timer :: "nat \<Rightarrow> 's \<Rightarrow> ('t \<times> 's) option"
    and live :: "'s \<Rightarrow> nat \<Rightarrow> ('t \<times> bool) option"
    and used :: "'s \<Rightarrow> nat set"
  assumes set_timeout_law: "set_timeout t d s = (h, s') \<Longrightarrow>
      h \<notin> used s \<and> live s' = (live s)(h \<mapsto> (t, False)) \<and> used s' = insert h (used s)"
    and set_interval_law: "set_interval t d s = (h, s') \<Longrightarrow>
      h \<notin> used s \<and> live s' = (live s)(h \<mapsto> (t, True)) \<and> used s' = insert h (used s)"
    and clear_law: "live (clear_timer h s) = (live s)(h := None) \<and> used (clear_timer h s) = used s"
    and fire_law: "fire_timer h s = Some (t, s') \<Longrightarrow> used s' = used s \<and>
      (\<exists>rep. live s h = Some (t, rep) \<and> live s' = (live s)(h := if rep then Some (t, rep) else None))"
begin

lemma slot_timeout:
  "slot_inv S sl (live s) (used s) \<Longrightarrow> sl (t, False) = None \<Longrightarrow> set_timeout t d s = (h, s') \<Longrightarrow>
   slot_inv S (sl((t, False) := Some h)) (live s') (used s')"
  using set_timeout_law [of t d s h s'] by (simp add: slot_fill)

lemma slot_interval:
  "slot_inv S sl (live s) (used s) \<Longrightarrow> sl (t, True) = None \<Longrightarrow> set_interval t d s = (h, s') \<Longrightarrow>
   slot_inv S (sl((t, True) := Some h)) (live s') (used s')"
  using set_interval_law [of t d s h s'] by (simp add: slot_fill)

lemma slot_clear:
  "slot_inv S sl (live s) (used s) \<Longrightarrow> sl l = Some h \<Longrightarrow>
   slot_inv S (sl(l := None)) (live (clear_timer h s)) (used (clear_timer h s))"
  using clear_law [of h s] by (simp add: slot_drop)

lemma slot_fire:
  assumes "slot_inv S sl (live s) (used s)" "fire_timer h s = Some (t, s')"
  obtains (again) "sl (t, True) = Some h" "slot_inv S sl (live s') (used s')"
    | (once) "sl (t, False) = Some h" "slot_inv S (sl((t, False) := None)) (live s') (used s')"
        "(t, False) \<notin> S \<Longrightarrow> slot_inv S sl (live s') (used s')"
proof -
  from fire_law [OF assms(2)] obtain rep where rep: "live s h = Some (t, rep)" "used s' = used s"
    "live s' = (live s)(h := if rep then Some (t, rep) else None)" by blast
  show thesis
  proof (cases rep)
    case True
    have same: "live s' = live s" using rep(1,3) True by (simp add: fun_upd_idem)
    have "sl (t, True) = Some h" using slot_live [OF assms(1)] rep(1) True by simp
    then show thesis using assms(1) unfolding same [symmetric] rep(2) [symmetric] by (rule again)
  next
    case False
    have gone: "live s' = (live s)(h := None)" using rep(3) False by simp
    have sl: "sl (t, False) = Some h" using slot_live [OF assms(1)] rep(1) False by simp
    have "slot_inv S (sl((t, False) := None)) (live s') (used s')"
      unfolding gone rep(2) by (rule slot_drop(1) [OF assms(1) sl])
    moreover have "slot_inv S sl (live s') (used s')" if "(t, False) \<notin> S"
      unfolding gone rep(2) by (rule slot_drop(2) [OF assms(1) sl that])
    ultimately show thesis using sl by (intro once)
  qed
qed

end

interpretation browser: timer_service setTimeout setInterval clearTimeout fire pending issued
proof
  fix sc sc' :: "'t scheduler" and t :: 't and d :: int and h :: nat
  show "setTimeout t d sc = (h, sc') \<Longrightarrow>
    h \<notin> issued sc \<and> pending sc' = (pending sc)(h \<mapsto> (t, False)) \<and> issued sc' = insert h (issued sc)"
    by (auto simp: setTimeout_def add_timer_def pending_def issued_def fun_eq_iff)
  show "setInterval t d sc = (h, sc') \<Longrightarrow>
    h \<notin> issued sc \<and> pending sc' = (pending sc)(h \<mapsto> (t, True)) \<and> issued sc' = insert h (issued sc)"
    by (auto simp: setInterval_def add_timer_def pending_def issued_def fun_eq_iff)
  show "pending (clearTimeout h sc) = (pending sc)(h := None) \<and> issued (clearTimeout h sc) = issued sc"
    by (auto simp: clearTimeout_def pending_def issued_def fun_eq_iff)
  show "fire h sc = Some (t, sc') \<Longrightarrow> issued sc' = issued sc \<and>
    (\<exists>rep. pending sc h = Some (t, rep) \<and> pending sc' = (pending sc)(h := if rep then Some (t, rep) else None))"
    by (cases "armed sc h") (auto simp: fire_def pending_def issued_def fun_eq_iff split: option.split if_splits)
qed

lemma pass_time_timers [simp]: "pending (pass_time d w sc) = pending sc" "issued (pass_time d w sc) = issued sc"
  by (simp_all add: pass_time_def pending_def issued_def fun_eq_iff)

end
