(* ===== verification/Transport_State.thy ===== *)
theory Transport_State
  imports Prelude
begin

section \<open>Transport state, policy and close plan\<close>

text \<open>
  \<open>state/transport-state-machine.ts\<close> (the reducer), \<open>state/transport-policy.ts\<close> (close codes,
  heartbeat and back-off constants), the pure half of \<open>lifecycle/transport-close-plan-executor.ts\<close>
  and the contracts they share (\<open>contracts/connection.ts\<close>, \<open>contracts/transport/*.ts\<close>).
  Numbers in events are finite doubles, so rationals.
\<close>

datatype connection_status = Connecting | Connected | Reconnecting | Closed | Error

datatype close_intent = Normal | Fresh | Manual | Dispose

datatype failure_source = From_error | From_close

datatype transport_reason =
    Send_failed
  | Endpoint_unavailable
  | Endpoint_invalid_format
  | Endpoint_unsupported_protocol
  | Bootstrap_failed
  | Socket_failure

datatype transport_failure_code = Code_string jsstring | Code_number rat

record failure_context =
  fc_source :: failure_source
  fc_reasonCode :: "transport_reason option"
  fc_code :: "transport_failure_code option"
  fc_technicalDetail :: "jsstring option"

record transport_state =
  ts_status :: connection_status
  reconnectAttempt :: nat
  latencyMs :: "int option"
  lastSocketFailure :: "failure_context option"

definition initialTransportState :: transport_state where
  "initialTransportState =
     \<lparr>ts_status = Connecting, reconnectAttempt = 0, latencyMs = None, lastSocketFailure = None\<rparr>"

datatype transport_event =
    Set_connecting bool
  | Ev_connected
  | Socket_closed
  | Socket_error
  | Latency int
  | Ev_socket_failure failure_context
  | Schedule_reconnect nat
  | Clear_reconnect_attempts

fun reduceTransportState :: "transport_state \<Rightarrow> transport_event \<Rightarrow> transport_state" where
  "reduceTransportState s (Set_connecting reconnecting) =
     s\<lparr>ts_status := if reconnecting then Reconnecting else Connecting\<rparr>"
| "reduceTransportState s Ev_connected =
     s\<lparr>ts_status := Connected, reconnectAttempt := 0, latencyMs := None, lastSocketFailure := None\<rparr>"
| "reduceTransportState s Socket_closed = s\<lparr>ts_status := Closed\<rparr>"
| "reduceTransportState s Socket_error = s\<lparr>ts_status := Error\<rparr>"
| "reduceTransportState s (Latency ms) = s\<lparr>latencyMs := Some ms\<rparr>"
| "reduceTransportState s (Ev_socket_failure c) = s\<lparr>lastSocketFailure := Some c\<rparr>"
| "reduceTransportState s (Schedule_reconnect n) = s\<lparr>ts_status := Reconnecting, reconnectAttempt := n\<rparr>"
| "reduceTransportState s Clear_reconnect_attempts = s\<lparr>reconnectAttempt := 0\<rparr>"

subsection \<open>Policy\<close>

definition CLOSE_MANUAL_RECONNECT :: rat where "CLOSE_MANUAL_RECONNECT = 4101"

definition CLOSE_START_FRESH_SESSION :: rat where "CLOSE_START_FRESH_SESSION = 4102"

definition CLOSE_PONG_TIMEOUT :: rat where "CLOSE_PONG_TIMEOUT = 4103"

definition HEARTBEAT_INTERVAL :: int where "HEARTBEAT_INTERVAL = 12000"

definition PONG_TIMEOUT :: int where "PONG_TIMEOUT = 12000"

definition MAX_ATTEMPTS :: nat where "MAX_ATTEMPTS = 8"

definition NON_RECOVERABLE_CLOSE_CODES :: "rat set" where
  "NON_RECOVERABLE_CLOSE_CODES = {1000, 1001, 1002, 1003, 1007, 1008, 1009, 1010, 1011}"

definition isRecoverableTransportClose :: "rat \<Rightarrow> bool" where
  "isRecoverableTransportClose code \<longleftrightarrow> code \<notin> NON_RECOVERABLE_CLOSE_CODES"

text \<open>
  \<open>300 * 1.8 ** attempt\<close> is computed here without rounding; for the attempts that stay under
  the cap (0 to 4) the floor is the same in double precision, beyond it the cap applies.
\<close>

definition reconnectDelayMs :: "nat \<Rightarrow> int" where
  "reconnectDelayMs attempt = min 5000 \<lfloor>300 * (9 / 5 :: rat) ^ attempt\<rfloor>"

subsection \<open>The plan for a closed socket\<close>

datatype close_plan =
    Disposed
  | Reconnect_immediate
  | Nonrecoverable
  | Reconnect_exhausted nat
  | Plan_reconnect nat int

definition resolveTransportClosePlan :: "close_intent \<Rightarrow> rat \<Rightarrow> nat \<Rightarrow> close_plan" where
  "resolveTransportClosePlan closeIntent closeCode attempt =
     (if closeIntent = Dispose then Disposed
      else if closeIntent = Fresh \<or> closeIntent = Manual then Reconnect_immediate
      else if \<not> isRecoverableTransportClose closeCode then Nonrecoverable
      else if attempt \<ge> MAX_ATTEMPTS then Reconnect_exhausted attempt
      else Plan_reconnect (attempt + 1) (reconnectDelayMs attempt))"

subsection \<open>Facts\<close>

lemma reconnectDelay_values:
  "reconnectDelayMs 0 = 300" "reconnectDelayMs 1 = 540" "reconnectDelayMs 2 = 972"
  "reconnectDelayMs 3 = 1749" "reconnectDelayMs 4 = 3149" "reconnectDelayMs 5 = 5000"
  by (simp_all add: reconnectDelayMs_def power_divide) (simp_all add: floor_eq_iff)

lemma reconnectDelay_mono: "m \<le> n \<Longrightarrow> reconnectDelayMs m \<le> reconnectDelayMs n"
  unfolding reconnectDelayMs_def
  by (intro min.mono order_refl floor_mono mult_left_mono power_increasing) simp_all

lemma reconnectDelay_bounds: "300 \<le> reconnectDelayMs n" "reconnectDelayMs n \<le> 5000"
proof -
  have "reconnectDelayMs 0 \<le> reconnectDelayMs n" by (rule reconnectDelay_mono) simp
  then show "300 \<le> reconnectDelayMs n" by (simp only: reconnectDelay_values)
  show "reconnectDelayMs n \<le> 5000" by (simp add: reconnectDelayMs_def)
qed

lemma reconnectDelay_cap: "5 \<le> n \<Longrightarrow> reconnectDelayMs n = 5000"
  using reconnectDelay_mono [of 5 n] reconnectDelay_bounds(2) [of n]
  by (simp add: reconnectDelay_values)

subsection \<open>Properties\<close>

text \<open>What follows a closed socket: a disposed one ends, a manual or fresh close reconnects at once, and otherwise
  only a recoverable code with attempts left schedules a retry, whose delay grows with the attempt from 300 ms and
  never exceeds 5 s.\<close>

theorem close_plan_and_back_off:
  "(resolveTransportClosePlan intent code n = Disposed) = (intent = Dispose) \<and>
   (resolveTransportClosePlan intent code n = Reconnect_immediate) = (intent \<in> {Fresh, Manual}) \<and>
   (\<exists>d. resolveTransportClosePlan intent code n = Plan_reconnect (n + 1) d) =
     (intent = Normal \<and> isRecoverableTransportClose code \<and> n < MAX_ATTEMPTS) \<and>
   (\<forall>m d. resolveTransportClosePlan intent code n = Plan_reconnect m d \<longrightarrow>
      m = n + 1 \<and> d = reconnectDelayMs n \<and> 300 \<le> d \<and> d \<le> 5000 \<and> d \<le> reconnectDelayMs m)"
proof -
  have "reconnectDelayMs n \<le> reconnectDelayMs (n + 1)" by (rule reconnectDelay_mono) simp
  then show ?thesis
    using reconnectDelay_bounds [of n] by (cases intent) (auto simp: resolveTransportClosePlan_def)
qed

theorem close_plan_and_back_off_witness:
  "resolveTransportClosePlan Normal 1006 2 = Plan_reconnect 3 972 \<and> reconnectDelayMs 2 \<le> reconnectDelayMs 3"
proof -
  have "resolveTransportClosePlan Normal 1006 2 = Plan_reconnect 3 972"
    by (simp add: resolveTransportClosePlan_def isRecoverableTransportClose_def NON_RECOVERABLE_CLOSE_CODES_def
        MAX_ATTEMPTS_def reconnectDelay_values)
  then show ?thesis using close_plan_and_back_off [of Normal 1006 2] by (auto simp: reconnectDelay_values)
qed

end
