(* ===== verification/Throttle.thy ===== *)
theory Throttle
  imports Prelude
begin

section \<open>Throttling of failure notices\<close>

text \<open>
  \<open>shared/reliability/failure-notice-throttle.ts\<close>: a failure that repeats under the same
  key is announced at most once per cooldown, with the number of repetitions; a failure
  under a new key is announced at once.  \<open>notify\<close> is a callback, a state transformer.
\<close>

record failure_notice =
  notice_key :: jsstring
  notice_count :: nat
  lastNoticeAt :: int

type_synonym failure_notice_state = "failure_notice option"

definition registerFailureNotice ::
  "failure_notice_state \<Rightarrow> jsstring \<Rightarrow> int \<Rightarrow> int \<Rightarrow> failure_notice_state \<times> bool \<times> nat" where
  "registerFailureNotice current key nowMs cooldownMs =
     (let repeatedFailure = (case current of None \<Rightarrow> False | Some c \<Rightarrow> notice_key c = key);
          count = (case current of Some c \<Rightarrow> if repeatedFailure then notice_count c + 1 else 1 | None \<Rightarrow> 1);
          last = (case current of Some c \<Rightarrow> if repeatedFailure then lastNoticeAt c else 0 | None \<Rightarrow> 0);
          shouldNotify = (\<not> (repeatedFailure \<and> nowMs - last < cooldownMs))
      in (Some \<lparr>notice_key = key, notice_count = count, lastNoticeAt = if shouldNotify then nowMs else last\<rparr>,
          shouldNotify, count))"

definition defaultRepeatedMessage :: "jsstring \<Rightarrow> nat \<Rightarrow> jsstring" where
  "defaultRepeatedMessage baseMessage count =
     baseMessage @ js '' (repeated '' @ js (nat_digits count) @ js '' times)''"

definition notifyWithFailureThrottle ::
  "(jsstring \<Rightarrow> nat \<Rightarrow> jsstring) \<Rightarrow> failure_notice_state \<Rightarrow> jsstring \<Rightarrow> int \<Rightarrow> int \<Rightarrow> jsstring \<Rightarrow>
   (jsstring \<Rightarrow> 's \<Rightarrow> 's) \<Rightarrow> 's \<Rightarrow> failure_notice_state \<times> 's" where
  "notifyWithFailureThrottle repeatedMessage current key nowMs cooldownMs baseMessage notify s =
     (let (nxt, shouldNotify, count) = registerFailureNotice current key nowMs cooldownMs
      in (nxt, if shouldNotify then notify (if count > 1 then repeatedMessage baseMessage count else baseMessage) s
               else s))"

subsection \<open>Runs of failures\<close>

text \<open>The throttle over a sequence of failures (key and time), with what it answers to each.\<close>

fun throttle_run :: "int \<Rightarrow> failure_notice_state \<Rightarrow> (jsstring \<times> int) list \<Rightarrow> (int \<times> bool \<times> nat) list" where
  "throttle_run c st [] = []"
| "throttle_run c st ((k, t) # fs) =
     (let (st', b, n) = registerFailureNotice st k t c in (t, b, n) # throttle_run c st' fs)"

definition announced :: "(int \<times> bool \<times> nat) list \<Rightarrow> int list" where
  "announced xs = map fst (filter (\<lambda>(t, b, n). b) xs)"

lemma announced_simps [simp]:
  "announced [] = []" "announced ((t, b, n) # xs) = (if b then t # announced xs else announced xs)"
  by (simp_all add: announced_def)

lemma register_None [simp]:
  "registerFailureNotice None k t c = (Some \<lparr>notice_key = k, notice_count = 1, lastNoticeAt = t\<rparr>, True, 1)"
  by (simp add: registerFailureNotice_def)

lemma register_other [simp]:
  "notice_key n \<noteq> k \<Longrightarrow>
     registerFailureNotice (Some n) k t c = (Some \<lparr>notice_key = k, notice_count = 1, lastNoticeAt = t\<rparr>, True, 1)"
  by (simp add: registerFailureNotice_def)

lemma register_same [simp]:
  "registerFailureNotice (Some \<lparr>notice_key = k, notice_count = m, lastNoticeAt = l\<rparr>) k t c =
     (Some \<lparr>notice_key = k, notice_count = Suc m, lastNoticeAt = if t - l < c then l else t\<rparr>, \<not> t - l < c, Suc m)"
  by (simp add: registerFailureNotice_def)

lemma throttle_run_spacing:
  "\<forall>(k', t) \<in> set fs. k' = k \<Longrightarrow>
   successively (\<lambda>a b. c \<le> b - a)
     (l # announced (throttle_run c (Some \<lparr>notice_key = k, notice_count = m, lastNoticeAt = l\<rparr>) fs))"
proof (induction fs arbitrary: m l)
  case (Cons f fs)
  then obtain t where "f = (k, t)" by (cases f) auto
  with Cons show ?case by (auto simp: successively_Cons)
qed simp

lemma throttle_run_counts:
  "\<forall>(k', t) \<in> set fs. k' = k \<Longrightarrow>
   map (snd \<circ> snd) (throttle_run c (Some \<lparr>notice_key = k, notice_count = m, lastNoticeAt = l\<rparr>) fs)
     = [Suc m..<Suc m + length fs]"
proof (induction fs arbitrary: m l)
  case (Cons f fs)
  then obtain t where "f = (k, t)" by (cases f) auto
  with Cons show ?case by (simp add: upt_conv_Cons del: upt_Suc)
qed simp

subsection \<open>Properties\<close>

text \<open>A failure that repeats under one key is announced at once and then never twice within the cooldown, whatever
  the times of the repetitions are.\<close>

theorem throttle_spaces_announcements:
  assumes "\<forall>(k', t) \<in> set fs. k' = k"
  shows "successively (\<lambda>a b. cooldown \<le> b - a) (announced (throttle_run cooldown None ((k, t0) # fs)))"
  using throttle_run_spacing [OF assms, of cooldown t0 1] by simp

theorem throttle_spaces_announcements_witness:
  "announced (throttle_run 15 None [([1], 0), ([1], 5), ([1], 20), ([1], 30)]) = [0, 20] \<and>
   successively (\<lambda>a b. 15 \<le> b - a) (announced (throttle_run 15 None [([1], 0), ([1], 5), ([1], 20), ([1], 30)]))"
proof
  show "announced (throttle_run 15 None [([1], 0), ([1], 5), ([1], 20), ([1], 30)]) = [0, 20]"
    by simp
qed (rule throttle_spaces_announcements, simp)

text \<open>The repetition count in the announcements is the number of consecutive failures under the key, silent ones
  included; a failure under another key is announced at once and starts again at one.\<close>

theorem throttle_counts_repetitions:
  assumes "\<forall>(k', t) \<in> set fs. k' = k"
  shows "map (snd \<circ> snd) (throttle_run cooldown None ((k, t0) # fs)) = [1..<Suc (Suc (length fs))] \<and>
    (\<forall>q t. q \<noteq> k \<longrightarrow> registerFailureNotice (Some \<lparr>notice_key = k, notice_count = n, lastNoticeAt = l\<rparr>) q t cooldown =
        (Some \<lparr>notice_key = q, notice_count = 1, lastNoticeAt = t\<rparr>, True, 1))"
  using throttle_run_counts [OF assms, of cooldown 1 t0] by (simp add: upt_conv_Cons del: upt_Suc)

theorem throttle_counts_repetitions_witness:
  "map (snd \<circ> snd) (throttle_run 15 None [([1], 0), ([1], 5), ([1], 20)]) = [1, 2, 3]"
proof -
  have e: "[1..<Suc (Suc (length [([1 :: code_unit], 5 :: int), ([1], 20)]))] = [1, 2, 3]"
    by (simp add: upt_rec)
  show ?thesis by (rule trans [OF conjunct1 [OF throttle_counts_repetitions] e]) simp
qed

end
