(* ===== verification/Wire_Protocol.thy ===== *)
theory Wire_Protocol
  imports Prelude
begin

section \<open>The wire protocol\<close>

text \<open>
  \<open>protocol/generated-wire-contract.ts\<close>, \<open>server-error-codes.ts\<close>, \<open>terminal-wire-schema.ts\<close>,
  \<open>terminal-client-messages.ts\<close>, \<open>terminal-protocol.ts\<close>, \<open>policies/server-error-policy.ts\<close>
  and \<open>validation/non-negative-integer.ts\<close>.  \<open>JSON.parse\<close> is the argument \<open>parse_json\<close>:
  \<open>Inl e\<close> when it throws the error \<open>e\<close>, \<open>Inr v\<close> when it returns \<open>v\<close>.
\<close>

definition TERMINAL_WIRE_CONTRACT_VERSION :: rat where
  "TERMINAL_WIRE_CONTRACT_VERSION = 1"

definition DIMENSION_MIN :: int where "DIMENSION_MIN = 1"

definition DIMENSION_MAX :: int where "DIMENSION_MAX = 2000"

subsection \<open>Error codes\<close>

datatype server_error_code =
    Session_not_found
  | Attach_forbidden
  | Incompatible_version_code
  | Attach_required
  | Read_only_forbidden
  | Session_not_writable
  | Session_not_resizable

fun error_code_name :: "server_error_code \<Rightarrow> jsstring" where
  "error_code_name Session_not_found = js ''session_not_found''"
| "error_code_name Attach_forbidden = js ''attach_forbidden''"
| "error_code_name Incompatible_version_code = js ''incompatible_version''"
| "error_code_name Attach_required = js ''attach_required''"
| "error_code_name Read_only_forbidden = js ''read_only_forbidden''"
| "error_code_name Session_not_writable = js ''session_not_writable''"
| "error_code_name Session_not_resizable = js ''session_not_resizable''"

definition TERMINAL_SERVER_ERROR_CODES :: "server_error_code list" where
  "TERMINAL_SERVER_ERROR_CODES =
     [Session_not_found, Attach_forbidden, Incompatible_version_code, Attach_required,
      Read_only_forbidden, Session_not_writable, Session_not_resizable]"

subsection \<open>Client messages\<close>

text \<open>The object literals that the creators return, one constructor per message type.\<close>

datatype client_message =
    Attach (attach_cols: int) (attach_rows: int) (attach_session: "jsstring option") (attach_watch: "bool option")
  | Input jsstring
  | Resize int int
  | Ping
  | Rename jsstring

fun normalizeTerminalDimension :: "jsnum \<Rightarrow> int" where
  "normalizeTerminalDimension (Finite q) = min DIMENSION_MAX (max DIMENSION_MIN \<lfloor>q\<rfloor>)"
| "normalizeTerminalDimension _ = DIMENSION_MIN"

definition createAttachMessage :: "jsnum \<Rightarrow> jsnum \<Rightarrow> jsstring option \<Rightarrow> bool option \<Rightarrow> client_message" where
  "createAttachMessage cols rows sessionId watch =
     Attach (normalizeTerminalDimension cols) (normalizeTerminalDimension rows) sessionId watch"

definition createInputMessage :: "jsstring \<Rightarrow> client_message" where
  "createInputMessage d = Input d"

definition createResizeMessage :: "jsnum \<Rightarrow> jsnum \<Rightarrow> client_message" where
  "createResizeMessage cols rows = Resize (normalizeTerminalDimension cols) (normalizeTerminalDimension rows)"

definition createPingMessage :: client_message where
  "createPingMessage = Ping"

definition createRenameMessage :: "jsstring \<Rightarrow> client_message" where
  "createRenameMessage name = Rename name"

subsection \<open>Server messages\<close>

datatype server_message =
    Ready jsstring bool
  | Output jsstring
  | Exit nat nat
  | Server_error jsstring "server_error_code option" "jsstring option"
  | Pong

datatype failure_reason = Malformed_payload | Unsupported_type | Incompatible_version

datatype failure_detail =
    Non_text_frame
  | Json_parse_error
  | Payload_not_object
  | Invalid_message_type
  | Unsupported_message_type
  | Missing_ready_session_id
  | Invalid_ready_read_only
  | Invalid_output_data
  | Invalid_exit_payload
  | Missing_error_message
  | Wire_version_mismatch

record protocol_failure =
  pf_reason :: failure_reason
  pf_detail :: "failure_detail option"
  pf_rawType :: "jsstring option"
  pf_cause :: "jsval option"

definition malformedPayload :: "failure_detail \<Rightarrow> jsval option \<Rightarrow> protocol_failure + server_message" where
  "malformedPayload d c =
     Inl \<lparr>pf_reason = Malformed_payload, pf_detail = Some d, pf_rawType = None, pf_cause = c\<rparr>"

definition field_value :: "string \<Rightarrow> jsval \<Rightarrow> jsval" where
  "field_value f v = J_obj [(js ''field'', J_str (js f)), (js ''value'', v)]"

fun parseNonNegativeInteger :: "jsval \<Rightarrow> nat option" where
  "parseNonNegativeInteger (J_num (Finite q)) =
     (if of_int \<lfloor>q\<rfloor> \<noteq> q \<or> q < 0 then None else Some (nat \<lfloor>q\<rfloor>))"
| "parseNonNegativeInteger _ = None"

definition parseReadyMessage :: "jsval \<Rightarrow> protocol_failure + server_message" where
  "parseReadyMessage m =
     (case get_prop m (js ''sessionId'') of
        J_str sid \<Rightarrow>
          if sid = [] then malformedPayload Missing_ready_session_id (Some (field_value ''sessionId'' (J_str sid)))
          else (case get_prop m (js ''readOnly'') of
             J_bool ro \<Rightarrow>
               if get_prop m (js ''version'') \<noteq> J_num (Finite TERMINAL_WIRE_CONTRACT_VERSION)
               then Inl \<lparr>pf_reason = Incompatible_version, pf_detail = Some Wire_version_mismatch,
                         pf_rawType = None, pf_cause = None\<rparr>
               else Inr (Ready sid ro)
           | v \<Rightarrow> malformedPayload Invalid_ready_read_only (Some (field_value ''readOnly'' v)))
      | v \<Rightarrow> malformedPayload Missing_ready_session_id (Some (field_value ''sessionId'' v)))"

definition parseOutputMessage :: "jsval \<Rightarrow> server_message option" where
  "parseOutputMessage m = (case get_prop m (js ''data'') of J_str d \<Rightarrow> Some (Output d) | _ \<Rightarrow> None)"

definition parseExitMessage :: "jsval \<Rightarrow> server_message option" where
  "parseExitMessage m =
     (case (parseNonNegativeInteger (get_prop m (js ''code'')), parseNonNegativeInteger (get_prop m (js ''signal''))) of
        (Some c, Some sg) \<Rightarrow> Some (Exit c sg)
      | _ \<Rightarrow> None)"

definition parseServerErrorCode :: "jsval \<Rightarrow> server_error_code option \<times> jsstring option" where
  "parseServerErrorCode v =
     (case v of
        J_str s \<Rightarrow>
          (case find (\<lambda>c. error_code_name c = s) TERMINAL_SERVER_ERROR_CODES of
             Some c \<Rightarrow> (Some c, None)
           | None \<Rightarrow> (None, if s \<noteq> [] then Some s else None))
      | _ \<Rightarrow> (None, None))"

definition parseErrorMessage :: "jsval \<Rightarrow> server_message option" where
  "parseErrorMessage m =
     (case get_prop m (js ''message'') of
        J_str msg \<Rightarrow> (let (c, r) = parseServerErrorCode (get_prop m (js ''code'')) in Some (Server_error msg c r))
      | _ \<Rightarrow> None)"

definition parseKnownMessage :: "jsval \<Rightarrow> protocol_failure + server_message" where
  "parseKnownMessage m =
     (let type = get_prop m (js ''type'') in
      if type = J_str (js ''ready'') then parseReadyMessage m
      else if type = J_str (js ''output'') then
        (case parseOutputMessage m of
           Some p \<Rightarrow> Inr p
         | None \<Rightarrow> malformedPayload Invalid_output_data (Some (field_value ''data'' (get_prop m (js ''data'')))))
      else if type = J_str (js ''exit'') then
        (case parseExitMessage m of
           Some p \<Rightarrow> Inr p
         | None \<Rightarrow> malformedPayload Invalid_exit_payload (Some (field_value ''code|signal''
             (J_obj [(js ''code'', get_prop m (js ''code'')), (js ''signal'', get_prop m (js ''signal''))]))))
      else if type = J_str (js ''error'') then
        (case parseErrorMessage m of
           Some p \<Rightarrow> Inr p
         | None \<Rightarrow> malformedPayload Missing_error_message (Some (field_value ''message'' (get_prop m (js ''message'')))))
      else if type = J_str (js ''pong'') then Inr Pong
      else (case type of
          J_str t \<Rightarrow>
            (let normalizedType = trim t in
             Inl \<lparr>pf_reason = Unsupported_type, pf_detail = Some Unsupported_message_type,
                  pf_rawType = if normalizedType \<noteq> [] then Some (take 64 normalizedType) else None,
                  pf_cause = None\<rparr>)
        | _ \<Rightarrow> malformedPayload Invalid_message_type (Some (field_value ''type'' type))))"

definition parseServerMessageWithReason ::
  "(jsstring \<Rightarrow> jsval + jsval) \<Rightarrow> jsval \<Rightarrow> protocol_failure + server_message" where
  "parseServerMessageWithReason parse_json raw =
     (case raw of
        J_str s \<Rightarrow>
          (case parse_json s of
             Inl e \<Rightarrow> malformedPayload Json_parse_error (Some e)
           | Inr parsed \<Rightarrow>
               if \<not> is_object parsed then malformedPayload Payload_not_object None
               else parseKnownMessage parsed)
      | _ \<Rightarrow> malformedPayload Non_text_frame None)"

subsection \<open>The policy for server errors\<close>

datatype server_notice_reason = Known_code server_error_code | Missing_code | Raw_code jsstring

datatype connection_status_flag = Runtime_error | Protocol_incompatible | Flag_session_not_found | Remote_exit

datatype attach_mode = Control | Watch

record server_error_policy =
  sp_notice :: server_notice_reason
  sp_statusFlag :: "connection_status_flag option"
  sp_nextAttachMode :: "attach_mode option"
  sp_clearMissingSession :: bool
  sp_refreshSessions :: bool

definition plain_policy :: "server_notice_reason \<Rightarrow> server_error_policy" where
  "plain_policy n = \<lparr>sp_notice = n, sp_statusFlag = None, sp_nextAttachMode = None,
     sp_clearMissingSession = False, sp_refreshSessions = False\<rparr>"

fun side_effects :: "server_error_code \<Rightarrow> server_error_policy \<Rightarrow> server_error_policy" where
  "side_effects Session_not_found p =
     p\<lparr>sp_statusFlag := Some Flag_session_not_found, sp_clearMissingSession := True, sp_refreshSessions := True\<rparr>"
| "side_effects Attach_forbidden p = p\<lparr>sp_nextAttachMode := Some Watch\<rparr>"
| "side_effects Incompatible_version_code p = p\<lparr>sp_statusFlag := Some Protocol_incompatible\<rparr>"
| "side_effects _ p = p"

text \<open>An empty raw code is falsy and counts as missing.\<close>

definition resolveServerErrorPolicy :: "server_error_code option \<Rightarrow> jsstring option \<Rightarrow> server_error_policy" where
  "resolveServerErrorPolicy code rawCode =
     (case code of
        Some c \<Rightarrow> side_effects c (plain_policy (Known_code c))
      | None \<Rightarrow>
          (case rawCode of
             Some r \<Rightarrow> if r \<noteq> [] then plain_policy (Raw_code r) else plain_policy Missing_code
           | None \<Rightarrow> plain_policy Missing_code))"

subsection \<open>Vocabulary and facts\<close>

text \<open>What a parsed object must say for the parser to accept it as a given message.\<close>

fun carries :: "jsval \<Rightarrow> server_message \<Rightarrow> bool" where
  "carries v (Ready sid ro) \<longleftrightarrow>
     get_prop v (js ''type'') = J_str (js ''ready'') \<and> sid \<noteq> [] \<and>
     get_prop v (js ''sessionId'') = J_str sid \<and> get_prop v (js ''readOnly'') = J_bool ro \<and>
     get_prop v (js ''version'') = J_num (Finite 1)"
| "carries v (Output d) \<longleftrightarrow>
     get_prop v (js ''type'') = J_str (js ''output'') \<and> get_prop v (js ''data'') = J_str d"
| "carries v (Exit c sg) \<longleftrightarrow>
     get_prop v (js ''type'') = J_str (js ''exit'') \<and>
     get_prop v (js ''code'') = J_num (Finite (of_nat c)) \<and> get_prop v (js ''signal'') = J_num (Finite (of_nat sg))"
| "carries v (Server_error msg code raw) \<longleftrightarrow>
     get_prop v (js ''type'') = J_str (js ''error'') \<and> get_prop v (js ''message'') = J_str msg \<and>
     (case (code, raw) of
        (Some c, None) \<Rightarrow> get_prop v (js ''code'') = J_str (error_code_name c)
      | (None, Some r) \<Rightarrow> get_prop v (js ''code'') = J_str r \<and> r \<noteq> [] \<and> r \<notin> range error_code_name
      | (None, None) \<Rightarrow> (\<forall>s. get_prop v (js ''code'') = J_str s \<longrightarrow> s = [])
      | _ \<Rightarrow> False)"
| "carries v Pong \<longleftrightarrow> get_prop v (js ''type'') = J_str (js ''pong'')"

definition server_message_value :: "server_message \<Rightarrow> jsval" where
  "server_message_value m =
     (case m of
        Ready sid ro \<Rightarrow> J_obj [(js ''type'', J_str (js ''ready'')), (js ''sessionId'', J_str sid),
            (js ''readOnly'', J_bool ro), (js ''version'', J_num (Finite 1))]
      | Output d \<Rightarrow> J_obj [(js ''type'', J_str (js ''output'')), (js ''data'', J_str d)]
      | Exit c sg \<Rightarrow> J_obj [(js ''type'', J_str (js ''exit'')), (js ''code'', J_num (Finite (of_nat c))),
            (js ''signal'', J_num (Finite (of_nat sg)))]
      | Server_error msg code raw \<Rightarrow> J_obj ([(js ''type'', J_str (js ''error'')), (js ''message'', J_str msg)] @
            (case code of Some c \<Rightarrow> [(js ''code'', J_str (error_code_name c))]
             | None \<Rightarrow> (case raw of Some r \<Rightarrow> [(js ''code'', J_str r)] | None \<Rightarrow> [])))
      | Pong \<Rightarrow> J_obj [(js ''type'', J_str (js ''pong''))])"

lemma error_code_name_inj [simp]: "error_code_name c = error_code_name d \<longleftrightarrow> c = d"
  by (cases c; cases d) simp_all

lemma error_code_name_nonempty [simp]: "error_code_name c \<noteq> []"
  by (cases c) simp_all

lemma set_error_codes [simp]: "set TERMINAL_SERVER_ERROR_CODES = UNIV"
proof -
  have "c \<in> set TERMINAL_SERVER_ERROR_CODES" for c
    by (cases c) (simp_all add: TERMINAL_SERVER_ERROR_CODES_def)
  then show ?thesis by auto
qed

lemma parseServerErrorCode_known [simp]:
  "parseServerErrorCode (J_str (error_code_name c)) = (Some c, None)"
  by (cases c) (simp_all add: parseServerErrorCode_def TERMINAL_SERVER_ERROR_CODES_def)

lemma parseServerErrorCode_unknown:
  assumes "s \<notin> range error_code_name"
  shows "parseServerErrorCode (J_str s) = (None, if s \<noteq> [] then Some s else None)"
proof -
  have "find (\<lambda>c. error_code_name c = s) TERMINAL_SERVER_ERROR_CODES = None"
    using assms by (auto simp: find_None_iff)
  then show ?thesis by (simp add: parseServerErrorCode_def)
qed

lemma parseServerErrorCode_other:
  "v \<notin> range J_str \<Longrightarrow> parseServerErrorCode v = (None, None)"
  by (cases v) (simp_all add: parseServerErrorCode_def)

lemma parseServerErrorCode_cases:
  "parseServerErrorCode v = (Some c, r) \<longleftrightarrow> v = J_str (error_code_name c) \<and> r = None"
  "parseServerErrorCode v = (None, Some s) \<longleftrightarrow> v = J_str s \<and> s \<noteq> [] \<and> s \<notin> range error_code_name"
  "parseServerErrorCode v = (None, None) \<longleftrightarrow> (\<forall>s. v = J_str s \<longrightarrow> s = [])"
proof -
  consider (known) d where "v = J_str (error_code_name d)"
    | (unknown) t where "v = J_str t" "t \<notin> range error_code_name"
    | (other) "v \<notin> range J_str" by blast
  then have "(parseServerErrorCode v = (Some c, r) \<longleftrightarrow> v = J_str (error_code_name c) \<and> r = None) \<and>
    (parseServerErrorCode v = (None, Some s) \<longleftrightarrow> v = J_str s \<and> s \<noteq> [] \<and> s \<notin> range error_code_name) \<and>
    (parseServerErrorCode v = (None, None) \<longleftrightarrow> (\<forall>s. v = J_str s \<longrightarrow> s = []))"
  proof cases
    case known
    then show ?thesis by auto
  next
    case unknown
    then show ?thesis by (auto simp: parseServerErrorCode_unknown)
  next
    case other
    then show ?thesis by (auto simp: parseServerErrorCode_other)
  qed
  then show "parseServerErrorCode v = (Some c, r) \<longleftrightarrow> v = J_str (error_code_name c) \<and> r = None"
    "parseServerErrorCode v = (None, Some s) \<longleftrightarrow> v = J_str s \<and> s \<noteq> [] \<and> s \<notin> range error_code_name"
    "parseServerErrorCode v = (None, None) \<longleftrightarrow> (\<forall>s. v = J_str s \<longrightarrow> s = [])"
    by blast+
qed

lemma parseNonNegativeInteger_Some:
  "parseNonNegativeInteger v = Some n \<longleftrightarrow> v = J_num (Finite (of_nat n))"
proof (cases v rule: parseNonNegativeInteger.cases)
  case (1 q)
  have "q = of_nat (nat \<lfloor>q\<rfloor>)" if "of_int \<lfloor>q\<rfloor> = q" "0 \<le> q"
  proof -
    from that(2) have "0 \<le> \<lfloor>q\<rfloor>" by simp
    then have "(of_nat (nat \<lfloor>q\<rfloor>) :: rat) = of_int \<lfloor>q\<rfloor>" by (simp only: of_nat_nat)
    with that(1) show ?thesis by metis
  qed
  then have "(of_int \<lfloor>q\<rfloor> = q \<and> 0 \<le> q \<and> nat \<lfloor>q\<rfloor> = n) \<longleftrightarrow> q = of_nat n"
    by (metis floor_of_nat nat_int of_int_of_nat_eq of_nat_0_le_iff)
  moreover have "parseNonNegativeInteger v = Some n \<longleftrightarrow> of_int \<lfloor>q\<rfloor> = q \<and> 0 \<le> q \<and> nat \<lfloor>q\<rfloor> = n"
    unfolding 1 parseNonNegativeInteger.simps by (meson not_less option.distinct(1) option.inject)
  ultimately show ?thesis using 1 by simp
qed simp_all

lemma malformed_not_Inr [simp]: "malformedPayload d c \<noteq> Inr m"
  by (simp add: malformedPayload_def)

lemma parseReady_iff:
  "parseReadyMessage v = Inr m \<longleftrightarrow>
    (\<exists>sid ro. m = Ready sid ro \<and> sid \<noteq> [] \<and> get_prop v (js ''sessionId'') = J_str sid \<and>
       get_prop v (js ''readOnly'') = J_bool ro \<and> get_prop v (js ''version'') = J_num (Finite 1))"
  by (cases "get_prop v (js ''sessionId'')"; cases "get_prop v (js ''readOnly'')")
    (auto simp: parseReadyMessage_def TERMINAL_WIRE_CONTRACT_VERSION_def)

lemma parseOutput_iff:
  "parseOutputMessage v = Some m \<longleftrightarrow> (\<exists>d. m = Output d \<and> get_prop v (js ''data'') = J_str d)"
  by (cases "get_prop v (js ''data'')") (auto simp: parseOutputMessage_def)

lemma parseExit_iff:
  "parseExitMessage v = Some m \<longleftrightarrow>
    (\<exists>c sg. m = Exit c sg \<and> get_prop v (js ''code'') = J_num (Finite (of_nat c)) \<and>
       get_prop v (js ''signal'') = J_num (Finite (of_nat sg)))"
  by (auto simp: parseExitMessage_def parseNonNegativeInteger_Some split: option.splits)

lemma parseError_iff:
  "parseErrorMessage v = Some m \<longleftrightarrow>
    (\<exists>msg c r. m = Server_error msg c r \<and> get_prop v (js ''message'') = J_str msg \<and>
       parseServerErrorCode (get_prop v (js ''code'')) = (c, r))"
  by (cases "get_prop v (js ''message'')") (auto simp: parseErrorMessage_def split: prod.splits)

lemma case_malformed_Inr [simp]:
  "(case x of None \<Rightarrow> malformedPayload d c | Some p \<Rightarrow> Inr p) = Inr m \<longleftrightarrow> x = Some m"
  by (cases x) simp_all

lemma parseKnown_by_type:
  "get_prop v (js ''type'') = J_str (js ''ready'') \<Longrightarrow> parseKnownMessage v = parseReadyMessage v"
  "get_prop v (js ''type'') = J_str (js ''output'') \<Longrightarrow> parseKnownMessage v = Inr m \<longleftrightarrow> parseOutputMessage v = Some m"
  "get_prop v (js ''type'') = J_str (js ''exit'') \<Longrightarrow> parseKnownMessage v = Inr m \<longleftrightarrow> parseExitMessage v = Some m"
  "get_prop v (js ''type'') = J_str (js ''error'') \<Longrightarrow> parseKnownMessage v = Inr m \<longleftrightarrow> parseErrorMessage v = Some m"
  "get_prop v (js ''type'') = J_str (js ''pong'') \<Longrightarrow> parseKnownMessage v = Inr m \<longleftrightarrow> m = Pong"
  by (auto simp: parseKnownMessage_def Let_def)

lemma parseKnown_other_type:
  assumes "get_prop v (js ''type'') \<notin> J_str ` js ` {''ready'', ''output'', ''exit'', ''error'', ''pong''}"
  shows "parseKnownMessage v \<noteq> Inr m"
  using assms by (cases "get_prop v (js ''type'')") (simp_all add: parseKnownMessage_def Let_def)

lemma parseKnown_iff: "parseKnownMessage v = Inr m \<longleftrightarrow> carries v m"
proof (cases "get_prop v (js ''type'') \<in> J_str ` js ` {''ready'', ''output'', ''exit'', ''error'', ''pong''}")
  case False
  then show ?thesis using parseKnown_other_type [OF False, of m]
    by (cases m) simp_all
next
  case True
  then consider "get_prop v (js ''type'') = J_str (js ''ready'')" | "get_prop v (js ''type'') = J_str (js ''output'')"
    | "get_prop v (js ''type'') = J_str (js ''exit'')" | "get_prop v (js ''type'') = J_str (js ''error'')"
    | "get_prop v (js ''type'') = J_str (js ''pong'')" by auto
  then show ?thesis
  proof cases
    case 4
    then show ?thesis
      by (cases m) (auto simp: parseKnown_by_type(4) parseError_iff parseServerErrorCode_cases split: option.splits)
  qed (cases m; simp add: parseKnown_by_type parseReady_iff parseOutput_iff parseExit_iff; fail)+
qed

subsection \<open>Properties\<close>

text \<open>C28: The parser of server frames accepts exactly the well-formed messages: a text is taken as message \<open>m\<close> if
  and only if it is JSON for an object that carries \<open>m\<close>; in particular a ready message needs a session id, a boolean
  read-only flag and the wire version 1.\<close>

theorem parser_accepts_exactly:
  "parseServerMessageWithReason parse_json (J_str s) = Inr m \<longleftrightarrow>
     (\<exists>v. parse_json s = Inr v \<and> is_object v \<and> carries v m)"
  by (cases "parse_json s") (auto simp: parseServerMessageWithReason_def parseKnown_iff)



text \<open>Every size that leaves the client is a whole number between 1 and 2000, whatever number the widget reports
  (not-a-number and infinities included), and a whole number in that range is sent unchanged.\<close>

theorem client_dimensions_in_range:
  "createResizeMessage cols rows \<in> {Resize c r |c r. DIMENSION_MIN \<le> c \<and> c \<le> DIMENSION_MAX \<and> DIMENSION_MIN \<le> r \<and> r \<le> DIMENSION_MAX} \<and>
   createAttachMessage cols rows sid watch \<in>
     {Attach c r sid watch |c r. DIMENSION_MIN \<le> c \<and> c \<le> DIMENSION_MAX \<and> DIMENSION_MIN \<le> r \<and> r \<le> DIMENSION_MAX} \<and>
   {n. DIMENSION_MIN \<le> n \<and> n \<le> DIMENSION_MAX} \<subseteq> {n. normalizeTerminalDimension (Finite (of_int n)) = n}"
proof -
  have "DIMENSION_MIN \<le> normalizeTerminalDimension q \<and> normalizeTerminalDimension q \<le> DIMENSION_MAX" for q
    by (cases q) (auto simp: DIMENSION_MIN_def DIMENSION_MAX_def)
  then show ?thesis by (auto simp: createResizeMessage_def createAttachMessage_def DIMENSION_MIN_def DIMENSION_MAX_def)
qed

text \<open>What a server error makes the client do, by its code: only a missing session clears the session and asks for
  a refresh, only a forbidden attach changes the attach mode (to watching), and only an incompatible version or a
  missing session raises a status flag.\<close>

theorem server_error_policy_table:
  "sp_clearMissingSession (resolveServerErrorPolicy code raw) = (code = Some Session_not_found) \<and>
   sp_refreshSessions (resolveServerErrorPolicy code raw) = (code = Some Session_not_found) \<and>
   sp_nextAttachMode (resolveServerErrorPolicy code raw) = (if code = Some Attach_forbidden then Some Watch else None) \<and>
   sp_statusFlag (resolveServerErrorPolicy code raw) =
     (if code = Some Session_not_found then Some Flag_session_not_found
      else if code = Some Incompatible_version_code then Some Protocol_incompatible else None)"
proof (cases code)
  case None
  then show ?thesis by (simp add: resolveServerErrorPolicy_def plain_policy_def split: option.split)
next
  case (Some c)
  then show ?thesis by (cases c) (simp_all add: resolveServerErrorPolicy_def plain_policy_def)
qed

end
