(* ===== verification/Sanitize.thy ===== *)
theory Sanitize
  imports Prelude
begin

section \<open>Redaction of access tokens\<close>

text \<open>
  \<open>shared/sanitization/redact-token-in-url.ts\<close>, \<open>normalize-cause-message.ts\<close> and
  \<open>validation/websocket-endpoint.ts\<close>.  The regular expressions \<open>([?&]token=)[^&]+\<close> and
  \<open>([?&]token=)[^&\s]+\<close>, global and case-insensitive, are one scanner whose argument says
  which characters end the token's value.
\<close>

definition ascii_fold :: "code_unit \<Rightarrow> code_unit" where
  "ascii_fold u = (if 65 \<le> u \<and> u \<le> 90 then u + 32 else u)"

text \<open>Does a match of \<open>[?&]token=\<close> start here?\<close>

definition token_prefix :: "jsstring \<Rightarrow> bool" where
  "token_prefix s \<longleftrightarrow> 7 \<le> length s \<and> hd s \<in> set (js ''?&'') \<and>
     map ascii_fold (take 6 (tl s)) = js ''token=''"

definition REDACTED :: jsstring where
  "REDACTED = js ''[redacted]''"

definition token_match :: "(code_unit \<Rightarrow> bool) \<Rightarrow> jsstring \<Rightarrow> bool" where
  "token_match stop s \<longleftrightarrow> token_prefix s \<and> (case drop 7 s of [] \<Rightarrow> False | u # _ \<Rightarrow> \<not> stop u)"

text \<open>\<open>s.replace(/([?&]token=)[^...]+/gi, "$1[redacted]")\<close>: leftmost matches, none overlapping.\<close>

function replace_tokens :: "(code_unit \<Rightarrow> bool) \<Rightarrow> jsstring \<Rightarrow> jsstring" where
  "replace_tokens stop s =
     (if token_match stop s
      then take 7 s @ REDACTED @ replace_tokens stop (dropWhile (\<lambda>u. \<not> stop u) (drop 7 s))
      else (case s of [] \<Rightarrow> [] | u # rest \<Rightarrow> u # replace_tokens stop rest))"
  by pat_completeness auto
termination
proof (relation "measure (\<lambda>(stop, s). length s)", goal_cases)
  case (2 stop s)
  then have "7 \<le> length s" by (simp add: token_match_def token_prefix_def)
  then have "length (drop 7 s) < length s" by simp
  then have "length (dropWhile (\<lambda>u. \<not> stop u) (drop 7 s)) < length s"
    using length_dropWhile_le order_le_less_trans by blast
  then show ?case by simp
qed auto

declare replace_tokens.simps [simp del]

definition amp :: code_unit where "amp = 38"

definition redactTokenInUrlForNotice :: "host \<Rightarrow> jsstring \<Rightarrow> jsstring" where
  "redactTokenInUrlForNotice H rawUrl =
     (case url_parse H rawUrl of
        Some parsed \<Rightarrow>
          url_text H (if js ''token'' \<in> fst ` set (url_params parsed)
                      then url_set_param H parsed (js ''token'') REDACTED else parsed)
      | None \<Rightarrow> replace_tokens (\<lambda>u. u = amp) rawUrl)"

subsection \<open>Messages of causes\<close>

definition MAX_CAUSE_MESSAGE_LENGTH :: nat where "MAX_CAUSE_MESSAGE_LENGTH = 180"

definition redactCauseMessage :: "jsstring \<Rightarrow> jsstring" where
  "redactCauseMessage v = replace_tokens (\<lambda>u. u = amp \<or> is_space u) v"

definition truncateCauseMessage :: "jsstring \<Rightarrow> jsstring" where
  "truncateCauseMessage v =
     (if length v \<le> MAX_CAUSE_MESSAGE_LENGTH then v
      else take (MAX_CAUSE_MESSAGE_LENGTH - 3) v @ js ''...'')"

text \<open>\<open>replace(/%5Bredacted%5D/gi, "[redacted]")\<close>\<close>

definition ENCODED_REDACTED :: jsstring where
  "ENCODED_REDACTED = js ''%5bredacted%5d''"

fun decode_redacted :: "nat \<Rightarrow> jsstring \<Rightarrow> jsstring" where
  "decode_redacted skip [] = []"
| "decode_redacted (Suc skip) (u # s) = decode_redacted skip s"
| "decode_redacted 0 (u # s) =
     (if map ascii_fold (take 14 (u # s)) = ENCODED_REDACTED
      then REDACTED @ decode_redacted 13 s
      else u # decode_redacted 0 s)"

definition normalizeText :: "host \<Rightarrow> jsstring \<Rightarrow> jsstring option" where
  "normalizeText H v =
     (let trimmed = trim v in
      if trimmed = [] then None
      else Some (truncateCauseMessage (decode_redacted 0 (redactTokenInUrlForNotice H (redactCauseMessage trimmed)))))"

text \<open>
  \<open>String(n)\<close> of a special number; \<open>JSON.stringify\<close> of an object may throw, and returns no
  string for none of the objects that reach it.
\<close>

definition number_string :: "host \<Rightarrow> jsnum \<Rightarrow> jsstring" where
  "number_string H n =
     (case n of Not_a_number \<Rightarrow> js ''NaN'' | Pos_infinity \<Rightarrow> js ''Infinity''
      | Neg_infinity \<Rightarrow> js ''-Infinity'' | Finite q \<Rightarrow> number_text H q)"

definition normalizeCauseToMessage :: "host \<Rightarrow> jsval \<Rightarrow> jsstring option" where
  "normalizeCauseToMessage H cause =
     (case cause of
        J_null \<Rightarrow> None
      | J_undefined \<Rightarrow> None
      | J_str s \<Rightarrow> normalizeText H s
      | J_error m \<Rightarrow> normalizeText H m
      | J_num n \<Rightarrow> Some (number_string H n)
      | J_bool b \<Rightarrow> Some (if b then js ''true'' else js ''false'')
      | v \<Rightarrow> (case json_stringify H v of Inr s \<Rightarrow> normalizeText H s | Inl _ \<Rightarrow> None))"

subsection \<open>Websocket endpoints\<close>

datatype endpoint_problem = Unavailable | Invalid_format | Unsupported_protocol jsstring

definition validateWebsocketEndpoint :: "host \<Rightarrow> jsstring option \<Rightarrow> endpoint_problem + jsstring" where
  "validateWebsocketEndpoint H endpoint =
     (let normalized = map_option trim endpoint in
      case normalized of
        None \<Rightarrow> Inl Unavailable
      | Some e \<Rightarrow>
          if e = [] then Inl Unavailable
          else (case url_parse H e of
                  None \<Rightarrow> Inl Invalid_format
                | Some parsed \<Rightarrow>
                    if url_protocol parsed = js ''ws:'' \<or> url_protocol parsed = js ''wss:'' then Inr e
                    else Inl (Unsupported_protocol (url_protocol parsed))))"

end
