(* ===== verification/Socket_Session.thy ===== *)
theory Socket_Session
  imports Scheduler Transport_State Throttle Wire_Protocol Sanitize
begin

section \<open>Browser sockets and the socket session\<close>

text \<open>
  The state of the transport is built up by record extension, one layer per class, so that
  an operation of a class is polymorphic in what the classes above it add.  This theory
  holds the layers that every class shares (the scheduler and the transport state, with
  \<open>dispatchEvent\<close> of \<open>connection-coordinator.ts\<close>), the browser's sockets, and
  \<open>lifecycle/transport-socket-session.ts\<close>.

  A socket is a number.  The browser part of the state says what each socket's \<open>readyState\<close>
  is, which bound handler bundles listen to which socket, which frames were sent and which
  closes requested, and whether the browser currently refuses to create a socket or to send
  (the value it throws).  A handler bundle is identified by what its closures captured: the
  socket and the generation.
\<close>

datatype transport_task = Ping_tick | Pong_deadline | Reconnect_task

record transport_base =
  sched :: "transport_task scheduler"
  tstate :: transport_state

definition dispatchEvent :: "transport_event \<Rightarrow> 'a transport_base_scheme \<Rightarrow> 'a transport_base_scheme" where
  "dispatchEvent e s = s\<lparr>tstate := reduceTransportState (tstate s) e\<rparr>"

subsection \<open>Ready states\<close>

datatype ready_state = RS_connecting | RS_open | RS_closing | RS_closed

fun ready_code :: "ready_state \<Rightarrow> nat" where
  "ready_code RS_connecting = 0"
| "ready_code RS_open = 1"
| "ready_code RS_closing = 2"
| "ready_code RS_closed = 3"

lemma ready_code_inj: "ready_code a = ready_code b \<longleftrightarrow> a = b"
  by (cases a; cases b) simp_all

instantiation ready_state :: linorder
begin

definition less_eq_ready_state :: "ready_state \<Rightarrow> ready_state \<Rightarrow> bool" where
  "less_eq_ready_state a b \<longleftrightarrow> ready_code a \<le> ready_code b"

definition less_ready_state :: "ready_state \<Rightarrow> ready_state \<Rightarrow> bool" where
  "less_ready_state a b \<longleftrightarrow> ready_code a < ready_code b"

instance
  by standard (auto simp: less_eq_ready_state_def less_ready_state_def ready_code_inj)

end

subsection \<open>State\<close>

record browser = transport_base +
  ready :: "nat \<Rightarrow> ready_state"
  next_socket :: nat
  opened_urls :: "(nat \<times> jsstring) list"
  listeners :: "(nat \<times> nat) list"
  wire :: "(nat \<times> client_message) list"
  close_calls :: "(nat \<times> rat \<times> jsstring) list"
  create_throws :: "jsval option"
  send_throws :: "jsval option"

record socket_session = browser +
  socket :: "nat option"
  detachListeners :: "(nat \<times> nat) option"
  generation :: nat
  closeIntent :: close_intent

subsection \<open>The browser's sockets\<close>

text \<open>\<open>socket.close\<close> starts the closing handshake; the close event comes later.\<close>

definition socket_close :: "nat \<Rightarrow> rat \<Rightarrow> jsstring \<Rightarrow> 'a browser_scheme \<Rightarrow> 'a browser_scheme" where
  "socket_close k code reason s =
     s\<lparr>close_calls := close_calls s @ [(k, code, reason)],
       ready := (ready s)(k := max RS_closing (ready s k))\<rparr>"

definition createTransport :: "jsstring \<Rightarrow> 'a browser_scheme \<Rightarrow> (jsval + nat) \<times> 'a browser_scheme" where
  "createTransport u s =
     (case create_throws s of
        Some e \<Rightarrow> (Inl e, s)
      | None \<Rightarrow> (Inr (next_socket s),
          s\<lparr>ready := (ready s)(next_socket s := RS_connecting), next_socket := Suc (next_socket s),
            opened_urls := opened_urls s @ [(next_socket s, u)]\<rparr>))"

subsection \<open>TransportSocketSession\<close>

definition current :: "'a socket_session_scheme \<Rightarrow> nat option" where
  "current s = socket s"

definition hasActiveConnection :: "'a socket_session_scheme \<Rightarrow> bool" where
  "hasActiveConnection s = (case socket s of None \<Rightarrow> False | Some k \<Rightarrow> ready s k \<le> RS_open)"

definition isCurrent :: "nat \<Rightarrow> nat \<Rightarrow> 'a socket_session_scheme \<Rightarrow> bool" where
  "isCurrent k g s \<longleftrightarrow> socket s = Some k \<and> generation s = g"

definition clear_session :: "'a socket_session_scheme \<Rightarrow> 'a socket_session_scheme" where
  "clear_session s =
     (let s1 = (case detachListeners s of
                  None \<Rightarrow> s
                | Some b \<Rightarrow> s\<lparr>listeners := removeAll b (listeners s), detachListeners := None\<rparr>)
      in s1\<lparr>socket := None, closeIntent := Normal\<rparr>)"

definition bindSocketHandlers :: "nat \<Rightarrow> 'a socket_session_scheme \<Rightarrow> 'a socket_session_scheme" where
  "bindSocketHandlers k s =
     s\<lparr>listeners := listeners s @ [(k, generation s)], detachListeners := Some (k, generation s)\<rparr>"

definition attach :: "nat \<Rightarrow> 'a socket_session_scheme \<Rightarrow> 'a socket_session_scheme" where
  "attach k s =
     (let s1 = clear_session s;
          s2 = s1\<lparr>generation := generation s1 + 1\<rparr>;
          s3 = s2\<lparr>socket := Some k\<rparr>
      in bindSocketHandlers k s3)"

definition closeActive ::
  "rat \<Rightarrow> jsstring \<Rightarrow> close_intent \<Rightarrow> 'a socket_session_scheme \<Rightarrow> bool \<times> 'a socket_session_scheme" where
  "closeActive code reason intent s =
     (case socket s of
        None \<Rightarrow> (False, s)
      | Some k \<Rightarrow>
          if ready s k \<ge> RS_closing then (False, s)
          else (True, socket_close k code reason (s\<lparr>closeIntent := intent\<rparr>)))"

definition detachForSocketSwap :: "'a socket_session_scheme \<Rightarrow> nat option \<times> 'a socket_session_scheme" where
  "detachForSocketSwap s = (socket s, clear_session s)"

text \<open>Whether the socket was released, and the close intent it had.\<close>

definition releaseIfCurrentWithIntent ::
  "nat \<Rightarrow> nat \<Rightarrow> 'a socket_session_scheme \<Rightarrow> (bool \<times> close_intent) \<times> 'a socket_session_scheme" where
  "releaseIfCurrentWithIntent k g s =
     (if \<not> isCurrent k g s then ((False, Normal), s)
      else ((True, closeIntent s), clear_session s))"

text \<open>The browser runs the handlers bound to a socket; a bundle knows its socket and generation.\<close>

definition deliver ::
  "(nat \<Rightarrow> nat \<Rightarrow> 'a socket_session_scheme \<Rightarrow> 'a socket_session_scheme) \<Rightarrow> nat \<Rightarrow>
   'a socket_session_scheme \<Rightarrow> 'a socket_session_scheme" where
  "deliver handler k s = fold (\<lambda>(k', g). if k' = k then handler k g else id) (listeners s) s"

subsection \<open>The session invariant\<close>

text \<open>
  The only bound handlers are those of the current socket and generation; every other
  socket that was ever created is closing or closed; a close intent is only remembered
  for a current socket on which close was called.
\<close>

definition session_inv :: "'a socket_session_scheme \<Rightarrow> bool" where
  "session_inv s \<longleftrightarrow>
     detachListeners s = map_option (\<lambda>k. (k, generation s)) (socket s) \<and>
     listeners s = (case socket s of None \<Rightarrow> [] | Some k \<Rightarrow> [(k, generation s)]) \<and>
     (\<forall>k. socket s = Some k \<longrightarrow> k < next_socket s) \<and>
     (\<forall>k < next_socket s. socket s \<noteq> Some k \<longrightarrow> RS_closing \<le> ready s k) \<and>
     (closeIntent s \<noteq> Normal \<longrightarrow> (\<exists>k. socket s = Some k \<and> RS_closing \<le> ready s k))"

lemma rs_le [simp]:
  "RS_closing \<le> r \<longleftrightarrow> r = RS_closing \<or> r = RS_closed"
  "r \<le> RS_open \<longleftrightarrow> r = RS_connecting \<or> r = RS_open"
  "RS_closing \<le> max RS_closing r"
  by (cases r; simp add: less_eq_ready_state_def max_def)+

lemma not_open_iff: "\<not> r \<le> RS_open \<longleftrightarrow> RS_closing \<le> r"
  by (cases r) (simp_all add: less_eq_ready_state_def)

lemma session_inv_cases:
  assumes "session_inv s"
  obtains (none) "socket s = None" "detachListeners s = None" "listeners s = []" "closeIntent s = Normal"
    | (some) k where "socket s = Some k" "detachListeners s = Some (k, generation s)"
        "listeners s = [(k, generation s)]" "k < next_socket s"
  using assms by (cases "socket s") (auto simp: session_inv_def)

lemma session_inv_others: "session_inv s \<Longrightarrow> j < next_socket s \<Longrightarrow> socket s \<noteq> Some j \<Longrightarrow> RS_closing \<le> ready s j"
  by (simp add: session_inv_def)

lemma deliver_current:
  assumes "session_inv s"
  shows "deliver f k s = (if socket s = Some k then f k (generation s) s else s)"
  using assms by (cases rule: session_inv_cases) (auto simp: deliver_def)

text \<open>Clearing loses track of the socket, so it must already be closing.\<close>

lemma clear_session_fields [simp]:
  "socket (clear_session s) = None" "closeIntent (clear_session s) = Normal"
  "generation (clear_session s) = generation s" "detachListeners (clear_session s) = None"
  "ready (clear_session s) = ready s" "next_socket (clear_session s) = next_socket s"
  "sched (clear_session s) = sched s" "tstate (clear_session s) = tstate s"
  "wire (clear_session s) = wire s" "close_calls (clear_session s) = close_calls s"
  "opened_urls (clear_session s) = opened_urls s"
  "create_throws (clear_session s) = create_throws s" "send_throws (clear_session s) = send_throws s"
  "socket_session.more (clear_session s) = socket_session.more s"
  by (auto simp: clear_session_def Let_def split: option.split)

lemma clear_listeners: "session_inv s \<Longrightarrow> listeners (clear_session s) = []"
  by (erule session_inv_cases) (auto simp: clear_session_def)

definition abandoned :: "'a socket_session_scheme \<Rightarrow> bool" where
  "abandoned s \<longleftrightarrow> (\<forall>k. socket s = Some k \<longrightarrow> RS_closing \<le> ready s k)"

lemma abandoned_iff: "abandoned s \<longleftrightarrow> \<not> hasActiveConnection s"
  by (auto simp: abandoned_def hasActiveConnection_def not_open_iff simp del: rs_le split: option.splits)

lemma clear_session_inv: "session_inv s \<Longrightarrow> abandoned s \<Longrightarrow> session_inv (clear_session s)"
  using clear_listeners [of s] by (auto simp: session_inv_def abandoned_def)

lemma attach_fields [simp]:
  "socket (attach k s) = Some k" "closeIntent (attach k s) = Normal"
  "generation (attach k s) = Suc (generation s)"
  "ready (attach k s) = ready s" "next_socket (attach k s) = next_socket s"
  "sched (attach k s) = sched s" "tstate (attach k s) = tstate s"
  "wire (attach k s) = wire s" "close_calls (attach k s) = close_calls s"
  "opened_urls (attach k s) = opened_urls s"
  "create_throws (attach k s) = create_throws s" "send_throws (attach k s) = send_throws s"
  "socket_session.more (attach k s) = socket_session.more s"
  by (simp_all add: attach_def bindSocketHandlers_def Let_def)

lemma clear_listeners_eq:
  "detachListeners s = map_option (\<lambda>k. (k, generation s)) (socket s) \<Longrightarrow>
   listeners s = (case socket s of None \<Rightarrow> [] | Some k \<Rightarrow> [(k, generation s)]) \<Longrightarrow> listeners (clear_session s) = []"
  by (cases "socket s") (simp_all add: clear_session_def)

lemma attach_inv:
  assumes "session_inv s"
    "socket t = socket s" "listeners t = listeners s" "detachListeners t = detachListeners s" "generation t = generation s"
    "k < next_socket t" "\<And>j. j < next_socket t \<Longrightarrow> j \<noteq> k \<Longrightarrow> RS_closing \<le> ready t j"
  shows "session_inv (attach k t)"
proof -
  have "listeners (clear_session t) = []"
    using assms by (cases "socket s"; intro clear_listeners_eq) (simp_all add: session_inv_def)
  then have "listeners (attach k t) = [(k, Suc (generation t))]" "detachListeners (attach k t) = Some (k, Suc (generation t))"
    by (simp_all add: attach_def bindSocketHandlers_def Let_def)
  with assms show ?thesis by (auto simp: session_inv_def simp del: rs_le)
qed

lemma socket_close_fields [simp]:
  "ready (socket_close k c r s) = (ready s)(k := max RS_closing (ready s k))"
  "next_socket (socket_close k c r s) = next_socket s" "listeners (socket_close k c r s) = listeners s"
  "sched (socket_close k c r s) = sched s" "tstate (socket_close k c r s) = tstate s"
  "wire (socket_close k c r s) = wire s" "opened_urls (socket_close k c r s) = opened_urls s"
  "create_throws (socket_close k c r s) = create_throws s" "send_throws (socket_close k c r s) = send_throws s"
  "close_calls (socket_close k c r s) = close_calls s @ [(k, c, r)]"
  "browser.more (socket_close k c r s) = browser.more s"
  by (simp_all add: socket_close_def)

lemma socket_close_session [simp]:
  "socket (socket_close k c r s) = socket s" "detachListeners (socket_close k c r s) = detachListeners s"
  "generation (socket_close k c r s) = generation s" "closeIntent (socket_close k c r s) = closeIntent s"
  "socket_session.more (socket_close k c r s) = socket_session.more s"
  by (simp_all add: socket_close_def)

lemma closeActive_cases:
  obtains (refused) "closeActive c r i s = (False, s)" "abandoned s"
    | (closed) k where "socket s = Some k" "\<not> RS_closing \<le> ready s k"
        "closeActive c r i s = (True, socket_close k c r (s\<lparr>closeIntent := i\<rparr>))"
  by (cases "socket s") (auto simp: closeActive_def abandoned_def simp del: rs_le)

lemma closeActive_inv: "session_inv s \<Longrightarrow> session_inv (snd (closeActive c r i s))"
  by (cases rule: closeActive_cases [of c r i s]) (auto simp: session_inv_def simp del: rs_le(1))

end
