(* ===== verification/Reliability.thy ===== *)
theory Reliability
  imports Socket_Session
begin

section \<open>Heartbeat, failure reports and socket reliability\<close>

text \<open>
  \<open>reliability/transport-heartbeat-monitor.ts\<close>, \<open>transport-failure-reporter.ts\<close> and
  \<open>transport-socket-reliability-coordinator.ts\<close>.  The monitor's timers carry the closures
  \<open>Ping_tick\<close> (the interval) and \<open>Pong_deadline\<close> (the time-out); their bodies are
  \<open>ping_tick\<close> and, through \<open>onPongTimeout\<close>, \<open>closeActive\<close>.  A dependency injected by the
  code (\<open>onPing\<close>, \<open>onSocketFailure\<close>) is a state transformer passed as an argument.
\<close>

record heartbeat = socket_session +
  pingTimer :: "nat option"
  pongTimeout :: "nat option"
  pingSentAt :: "int option"

record reliability = heartbeat +
  socketFailureNotice :: failure_notice_state
  socketErrorGeneration :: "nat option"

subsection \<open>TransportHeartbeatMonitor\<close>

definition clearPongTimeout :: "'a heartbeat_scheme \<Rightarrow> 'a heartbeat_scheme" where
  "clearPongTimeout s =
     (case pongTimeout s of
        None \<Rightarrow> s
      | Some h \<Rightarrow> s\<lparr>sched := clearTimeout h (sched s), pongTimeout := None\<rparr>)"

definition hb_stop :: "'a heartbeat_scheme \<Rightarrow> 'a heartbeat_scheme" where
  "hb_stop s =
     clearPongTimeout
       (case pingTimer s of
          None \<Rightarrow> s
        | Some h \<Rightarrow> s\<lparr>sched := clearInterval h (sched s), pingTimer := None\<rparr>)"

definition hb_start :: "'a heartbeat_scheme \<Rightarrow> 'a heartbeat_scheme" where
  "hb_start s =
     (let s1 = hb_stop s;
          (h, sc) = setInterval Ping_tick HEARTBEAT_INTERVAL (sched s1)
      in s1\<lparr>sched := sc, pingTimer := Some h\<rparr>)"

definition ping_tick :: "('a heartbeat_scheme \<Rightarrow> 'a heartbeat_scheme) \<Rightarrow> 'a heartbeat_scheme \<Rightarrow> 'a heartbeat_scheme" where
  "ping_tick onPing s =
     (if pongTimeout s \<noteq> None then s
      else let s1 = onPing (s\<lparr>pingSentAt := Some (now (sched s))\<rparr>);
               (h, sc) = setTimeout Pong_deadline PONG_TIMEOUT (sched s1)
           in s1\<lparr>sched := sc, pongTimeout := Some h\<rparr>)"

definition hb_markPong :: "'a heartbeat_scheme \<Rightarrow> 'a heartbeat_scheme" where
  "hb_markPong s =
     clearPongTimeout
       (case pingSentAt s of
          None \<Rightarrow> s
        | Some t \<Rightarrow> (dispatchEvent (Latency (now (sched s) - t)) s)\<lparr>pingSentAt := None\<rparr>)"

subsection \<open>TransportFailureReporter\<close>

record transport_failure =
  tf_source :: failure_source
  tf_code :: "transport_failure_code option"
  tf_reasonCode :: "transport_reason option"
  tf_technicalDetail :: "jsstring option"
  tf_cause :: "jsval option"
  tf_noticeMessage :: "jsstring option"

definition SOCKET_FAILURE_NOTICE_COOLDOWN_MS :: int where
  "SOCKET_FAILURE_NOTICE_COOLDOWN_MS = 15000"

fun source_name :: "failure_source \<Rightarrow> jsstring" where
  "source_name From_error = js ''error''"
| "source_name From_close = js ''close''"

fun reason_name :: "transport_reason \<Rightarrow> jsstring" where
  "reason_name Send_failed = js ''send_failed''"
| "reason_name Endpoint_unavailable = js ''endpoint_unavailable''"
| "reason_name Endpoint_invalid_format = js ''endpoint_invalid_format''"
| "reason_name Endpoint_unsupported_protocol = js ''endpoint_unsupported_protocol''"
| "reason_name Bootstrap_failed = js ''bootstrap_failed''"
| "reason_name Socket_failure = js ''socket_failure''"

definition toFailureContext :: "transport_failure \<Rightarrow> failure_context" where
  "toFailureContext f =
     \<lparr>fc_source = tf_source f, fc_reasonCode = tf_reasonCode f, fc_code = tf_code f,
      fc_technicalDetail = tf_technicalDetail f\<rparr>"

definition stableFailureCode :: "host \<Rightarrow> transport_failure_code option \<Rightarrow> jsstring" where
  "stableFailureCode H code =
     (case code of
        Some (Code_number q) \<Rightarrow> number_text H q
      | Some (Code_string s) \<Rightarrow> take 64 (lower_case H (trim s))
      | None \<Rightarrow> [])"

definition failure_notice_key :: "host \<Rightarrow> transport_failure \<Rightarrow> jsstring" where
  "failure_notice_key H f =
     source_name (tf_source f) @ js ''|'' @
     (case tf_reasonCode f of Some r \<Rightarrow> reason_name r | None \<Rightarrow> js ''socket_failure'') @ js ''|'' @
     stableFailureCode H (tf_code f)"

definition failure_base_reason :: "transport_failure \<Rightarrow> jsstring" where
  "failure_base_reason f =
     (case tf_technicalDetail f of
        Some d \<Rightarrow> if d \<noteq> [] then d
                  else (case tf_reasonCode f of Some r \<Rightarrow> reason_name r | None \<Rightarrow> js ''transport failure'')
      | None \<Rightarrow> (case tf_reasonCode f of Some r \<Rightarrow> reason_name r | None \<Rightarrow> js ''transport failure''))"

definition reporter_reset :: "'a reliability_scheme \<Rightarrow> 'a reliability_scheme" where
  "reporter_reset s = s\<lparr>socketFailureNotice := None\<rparr>"

definition report ::
  "host \<Rightarrow> (transport_failure \<Rightarrow> 'a reliability_scheme \<Rightarrow> 'a reliability_scheme) \<Rightarrow>
   transport_failure \<Rightarrow> 'a reliability_scheme \<Rightarrow> 'a reliability_scheme" where
  "report H onSocketFailure f s =
     (let s1 = dispatchEvent (Ev_socket_failure (toFailureContext f)) s;
          (nxt, s2) = notifyWithFailureThrottle defaultRepeatedMessage (socketFailureNotice s1)
             (failure_notice_key H f) (now (sched s1)) SOCKET_FAILURE_NOTICE_COOLDOWN_MS (failure_base_reason f)
             (\<lambda>message. onSocketFailure (f\<lparr>tf_noticeMessage := Some message\<rparr>)) s1
      in s2\<lparr>socketFailureNotice := nxt\<rparr>)"

subsection \<open>TransportSocketReliabilityCoordinator\<close>

record transport_error_event =
  ee_message :: jsstring
  ee_code :: "transport_failure_code option"
  ee_cause :: "jsval option"

definition rel_onConnected :: "'a reliability_scheme \<Rightarrow> 'a reliability_scheme" where
  "rel_onConnected s = hb_start (reporter_reset (s\<lparr>socketErrorGeneration := None\<rparr>))"

definition rel_markPong :: "'a reliability_scheme \<Rightarrow> 'a reliability_scheme" where
  "rel_markPong s = hb_markPong s"

definition clearLifecycleTimers :: "'a reliability_scheme \<Rightarrow> 'a reliability_scheme" where
  "clearLifecycleTimers s = hb_stop s"

definition normalizeFailureReason :: "jsstring \<Rightarrow> jsstring" where
  "normalizeFailureReason reason = (if reason \<noteq> [] then reason else js ''transport send failed'')"

definition reportSendFailure ::
  "host \<Rightarrow> (transport_failure \<Rightarrow> 'a reliability_scheme \<Rightarrow> 'a reliability_scheme) \<Rightarrow>
   jsval \<Rightarrow> 'a reliability_scheme \<Rightarrow> 'a reliability_scheme" where
  "reportSendFailure H onSocketFailure error s =
     (let reason = (case error of J_error m \<Rightarrow> normalizeFailureReason m | _ \<Rightarrow> js ''transport send failed'')
      in dispatchEvent Socket_error
           (report H onSocketFailure
             \<lparr>tf_source = From_error, tf_code = None, tf_reasonCode = Some Send_failed,
              tf_technicalDetail = Some reason, tf_cause = Some error, tf_noticeMessage = None\<rparr> s))"

definition handleSocketError ::
  "host \<Rightarrow> (transport_failure \<Rightarrow> 'a reliability_scheme \<Rightarrow> 'a reliability_scheme) \<Rightarrow>
   nat \<Rightarrow> transport_error_event \<Rightarrow> 'a reliability_scheme \<Rightarrow> 'a reliability_scheme" where
  "handleSocketError H onSocketFailure g ev s =
     dispatchEvent Socket_error
       (report H onSocketFailure
         \<lparr>tf_source = From_error, tf_code = ee_code ev, tf_reasonCode = Some Socket_failure,
          tf_technicalDetail = Some (ee_message ev), tf_cause = ee_cause ev, tf_noticeMessage = None\<rparr>
         (s\<lparr>socketErrorGeneration := Some g\<rparr>))"

text \<open>The flag answers whether the close itself still has to be reported.\<close>

definition handleSocketClose :: "nat \<Rightarrow> 'a reliability_scheme \<Rightarrow> bool \<times> 'a reliability_scheme" where
  "handleSocketClose g s =
     (let s1 = hb_stop s
      in (socketErrorGeneration s1 \<noteq> Some g, s1\<lparr>socketErrorGeneration := None\<rparr>))"

definition reportCloseFailure ::
  "host \<Rightarrow> (transport_failure \<Rightarrow> 'a reliability_scheme \<Rightarrow> 'a reliability_scheme) \<Rightarrow>
   rat \<Rightarrow> jsstring \<Rightarrow> 'a reliability_scheme \<Rightarrow> 'a reliability_scheme" where
  "reportCloseFailure H onSocketFailure closeCode closeReason s =
     report H onSocketFailure
       \<lparr>tf_source = From_close, tf_code = Some (Code_number closeCode), tf_reasonCode = Some Socket_failure,
        tf_technicalDetail = Some closeReason, tf_cause = None, tf_noticeMessage = None\<rparr> s"

definition reportBootstrapFailure ::
  "host \<Rightarrow> (transport_failure \<Rightarrow> 'a reliability_scheme \<Rightarrow> 'a reliability_scheme) \<Rightarrow>
   transport_reason \<Rightarrow> jsstring \<Rightarrow> jsval option \<Rightarrow> 'a reliability_scheme \<Rightarrow> 'a reliability_scheme" where
  "reportBootstrapFailure H onSocketFailure reasonCode debugDetail cause s =
     dispatchEvent Socket_error
       (report H onSocketFailure
         \<lparr>tf_source = From_error, tf_code = None, tf_reasonCode = Some reasonCode,
          tf_technicalDetail = Some debugDetail, tf_cause = cause, tf_noticeMessage = None\<rparr> s)"

end
