(* ===== verification/Lifecycle.thy ===== *)
theory Lifecycle
  imports Reliability
begin

section \<open>The transport lifecycle service\<close>

text \<open>
  \<open>transport-connection-bootstrap.ts\<close>, the executing half of
  \<open>lifecycle/transport-close-plan-executor.ts\<close> and \<open>lifecycle/transport-lifecycle-service.ts\<close>.
  The runtime context of the service is the two fields \<open>wsUrl\<close> and \<open>hasSessionContext\<close> and
  the record \<open>handlers\<close>, whose functions act on the whole state, including whatever the
  owner of the service adds to it.
\<close>

record lifecycle = reliability +
  reconnectTimer :: "nat option"
  wsUrl :: "jsstring option"
  hasSessionContext :: bool

record message_event =
  me_data :: jsstring
  me_malformed :: "jsstring option"

record 's handlers =
  h_open :: "'s \<Rightarrow> 's"
  h_message :: "message_event \<Rightarrow> 's \<Rightarrow> 's"
  h_failure :: "transport_failure \<Rightarrow> 's \<Rightarrow> 's"

subsection \<open>TransportConnectionBootstrap\<close>

definition endpointFailure ::
  "host \<Rightarrow> jsstring option \<Rightarrow> endpoint_problem \<Rightarrow> transport_reason \<times> jsstring \<times> jsval option" where
  "endpointFailure H endpoint reason =
     (case reason of
        Unavailable \<Rightarrow> (Endpoint_unavailable, js ''websocket endpoint unavailable'', None)
      | Unsupported_protocol p \<Rightarrow>
          (Endpoint_unsupported_protocol, js ''invalid websocket endpoint protocol '' @ [39] @ p @ [39], None)
      | Invalid_format \<Rightarrow>
          (Endpoint_invalid_format,
           case endpoint of
             Some e \<Rightarrow> if e \<noteq> [] then js ''invalid websocket endpoint '' @ [39] @ redactTokenInUrlForNotice H e @ [39]
                       else js ''invalid websocket endpoint format''
           | None \<Rightarrow> js ''invalid websocket endpoint format'', None))"

definition createSocket ::
  "host \<Rightarrow> jsstring option \<Rightarrow> 'a browser_scheme \<Rightarrow>
   ((transport_reason \<times> jsstring \<times> jsval option) + nat) \<times> 'a browser_scheme" where
  "createSocket H endpoint s =
     (case validateWebsocketEndpoint H endpoint of
        Inl reason \<Rightarrow> (Inl (endpointFailure H endpoint reason), s)
      | Inr e \<Rightarrow>
          (case createTransport e s of
             (Inr k, s') \<Rightarrow> (Inr k, s')
           | (Inl error, s') \<Rightarrow>
               (let reason = (case error of J_error m \<Rightarrow> if m \<noteq> [] then m else js ''transport bootstrap failed''
                              | _ \<Rightarrow> js ''transport bootstrap failed'')
                in (Inl (Bootstrap_failed, redactTokenInUrlForNotice H reason, Some error), s'))))"

subsection \<open>Sending\<close>

definition sendPayload ::
  "host \<Rightarrow> (transport_failure \<Rightarrow> 'a lifecycle_scheme \<Rightarrow> 'a lifecycle_scheme) \<Rightarrow>
   client_message \<Rightarrow> 'a lifecycle_scheme \<Rightarrow> bool \<times> 'a lifecycle_scheme" where
  "sendPayload H onSocketFailure payload s =
     (case current s of
        None \<Rightarrow> (False, s)
      | Some k \<Rightarrow>
          if ready s k \<noteq> RS_open then (False, s)
          else (case send_throws s of
                  None \<Rightarrow> (True, s\<lparr>wire := wire s @ [(k, payload)]\<rparr>)
                | Some error \<Rightarrow> (False, reportSendFailure H onSocketFailure error s)))"

definition lc_markPong :: "'a lifecycle_scheme \<Rightarrow> 'a lifecycle_scheme" where
  "lc_markPong s = rel_markPong s"

definition updateRuntime :: "jsstring option \<Rightarrow> bool \<Rightarrow> 'a lifecycle_scheme \<Rightarrow> 'a lifecycle_scheme" where
  "updateRuntime u ctx s = s\<lparr>wsUrl := u, hasSessionContext := ctx\<rparr>"

subsection \<open>Connecting\<close>

definition connect ::
  "host \<Rightarrow> 'a lifecycle_scheme handlers \<Rightarrow> 'a lifecycle_scheme \<Rightarrow> 'a lifecycle_scheme" where
  "connect H cb s =
     (if hasActiveConnection s then s
      else let s1 = dispatchEvent (Set_connecting (hasSessionContext s)) s in
        case createSocket H (wsUrl s1) s1 of
          (Inl (reasonCode, debugDetail, cause), s2) \<Rightarrow>
            reportBootstrapFailure H (h_failure cb) reasonCode debugDetail cause s2
        | (Inr ws, s2) \<Rightarrow> attach ws s2)"

subsection \<open>Reconnect timer\<close>

definition clearReconnectTimer :: "'a lifecycle_scheme \<Rightarrow> 'a lifecycle_scheme" where
  "clearReconnectTimer s =
     (case reconnectTimer s of
        None \<Rightarrow> s
      | Some h \<Rightarrow> s\<lparr>sched := clearTimeout h (sched s), reconnectTimer := None\<rparr>)"

definition scheduleReconnect :: "int \<Rightarrow> 'a lifecycle_scheme \<Rightarrow> 'a lifecycle_scheme" where
  "scheduleReconnect delayMs s =
     (let s1 = clearReconnectTimer s;
          (h, sc) = setTimeout Reconnect_task delayMs (sched s1)
      in s1\<lparr>sched := sc, reconnectTimer := Some h\<rparr>)"

subsection \<open>Commands\<close>

definition executeLifecycleCommand ::
  "bool \<Rightarrow> ('a lifecycle_scheme \<Rightarrow> bool \<times> 'a lifecycle_scheme) \<Rightarrow> ('a lifecycle_scheme \<Rightarrow> 'a lifecycle_scheme) \<Rightarrow>
   'a lifecycle_scheme \<Rightarrow> 'a lifecycle_scheme" where
  "executeLifecycleCommand clearReconnectAttempts tryClose fallback s =
     (let s1 = clearReconnectTimer s;
          s2 = (if clearReconnectAttempts then dispatchEvent Clear_reconnect_attempts s1 else s1);
          s3 = clearLifecycleTimers s2;
          (done, s4) = tryClose s3
      in if done then s4 else fallback s4)"

definition reconnectNow :: "host \<Rightarrow> 'a lifecycle_scheme handlers \<Rightarrow> 'a lifecycle_scheme \<Rightarrow> 'a lifecycle_scheme" where
  "reconnectNow H cb =
     executeLifecycleCommand True (closeActive CLOSE_MANUAL_RECONNECT (js ''manual reconnect'') Manual) (connect H cb)"

definition reconnectWithEndpointChange ::
  "host \<Rightarrow> 'a lifecycle_scheme handlers \<Rightarrow> 'a lifecycle_scheme \<Rightarrow> 'a lifecycle_scheme" where
  "reconnectWithEndpointChange H cb =
     executeLifecycleCommand True
       (\<lambda>s. case detachForSocketSwap s of
              (Some k, s1) \<Rightarrow>
                if ready s1 k < RS_closing
                then (True, connect H cb (socket_close k CLOSE_MANUAL_RECONNECT (js ''endpoint changed'') s1))
                else (False, s1)
            | (None, s1) \<Rightarrow> (False, s1))
       (connect H cb)"

definition scheduleFreshConnection ::
  "host \<Rightarrow> 'a lifecycle_scheme handlers \<Rightarrow> 'a lifecycle_scheme \<Rightarrow> 'a lifecycle_scheme" where
  "scheduleFreshConnection H cb =
     executeLifecycleCommand True (closeActive CLOSE_START_FRESH_SESSION (js ''start fresh session'') Fresh) (connect H cb)"

definition dispose :: "'a lifecycle_scheme \<Rightarrow> 'a lifecycle_scheme" where
  "dispose =
     executeLifecycleCommand False (closeActive 1000 (js ''component unmount'') Dispose)
       (\<lambda>s. dispatchEvent Socket_closed (clear_session s))"

subsection \<open>Socket events\<close>

definition withCurrentSocket ::
  "nat \<Rightarrow> nat \<Rightarrow> ('a lifecycle_scheme \<Rightarrow> 'a lifecycle_scheme) \<Rightarrow> 'a lifecycle_scheme \<Rightarrow> 'a lifecycle_scheme" where
  "withCurrentSocket k g task s = (if \<not> isCurrent k g s then s else task s)"

definition onSocketOpen ::
  "'a lifecycle_scheme handlers \<Rightarrow> nat \<Rightarrow> nat \<Rightarrow> 'a lifecycle_scheme \<Rightarrow> 'a lifecycle_scheme" where
  "onSocketOpen cb k g = withCurrentSocket k g (\<lambda>s. h_open cb (dispatchEvent Ev_connected (rel_onConnected s)))"

definition onSocketMessage ::
  "'a lifecycle_scheme handlers \<Rightarrow> message_event \<Rightarrow> nat \<Rightarrow> nat \<Rightarrow> 'a lifecycle_scheme \<Rightarrow> 'a lifecycle_scheme" where
  "onSocketMessage cb ev k g = withCurrentSocket k g (h_message cb ev)"

definition onSocketError ::
  "host \<Rightarrow> 'a lifecycle_scheme handlers \<Rightarrow> transport_error_event \<Rightarrow> nat \<Rightarrow> nat \<Rightarrow>
   'a lifecycle_scheme \<Rightarrow> 'a lifecycle_scheme" where
  "onSocketError H cb ev k g = withCurrentSocket k g (handleSocketError H (h_failure cb) g ev)"

definition executeTransportClosePlan ::
  "host \<Rightarrow> 'a lifecycle_scheme handlers \<Rightarrow> close_intent \<Rightarrow> rat \<Rightarrow> jsstring \<Rightarrow> nat \<Rightarrow> bool \<Rightarrow>
   'a lifecycle_scheme \<Rightarrow> 'a lifecycle_scheme" where
  "executeTransportClosePlan H cb intent closeCode closeReason attempt shouldReportCloseFailure s =
     (case resolveTransportClosePlan intent closeCode attempt of
        Disposed \<Rightarrow> dispatchEvent Socket_closed s
      | Reconnect_immediate \<Rightarrow> connect H cb (dispatchEvent (Set_connecting False) s)
      | plan \<Rightarrow>
          (let s1 = (if shouldReportCloseFailure then reportCloseFailure H (h_failure cb) closeCode closeReason s else s)
           in case plan of
                Nonrecoverable \<Rightarrow> dispatchEvent Socket_error s1
              | Reconnect_exhausted n \<Rightarrow>
                  dispatchEvent Socket_error
                    (dispatchEvent (Ev_socket_failure
                       \<lparr>fc_source = From_close, fc_reasonCode = Some Socket_failure, fc_code = None,
                        fc_technicalDetail = Some (js ''reconnect exhausted attempts='' @ js (nat_digits n))\<rparr>) s1)
              | Plan_reconnect n delayMs \<Rightarrow>
                  scheduleReconnect delayMs (dispatchEvent (Schedule_reconnect n) s1)
              | _ \<Rightarrow> s1))"

definition onSocketClose ::
  "host \<Rightarrow> 'a lifecycle_scheme handlers \<Rightarrow> rat \<Rightarrow> jsstring \<Rightarrow> nat \<Rightarrow> nat \<Rightarrow>
   'a lifecycle_scheme \<Rightarrow> 'a lifecycle_scheme" where
  "onSocketClose H cb code reason k g s =
     (case releaseIfCurrentWithIntent k g s of
        ((released, intent), s1) \<Rightarrow>
          if \<not> released then s1
          else (case handleSocketClose g s1 of
                  (shouldReport, s2) \<Rightarrow>
                    executeTransportClosePlan H cb intent code reason (reconnectAttempt (tstate s2)) shouldReport s2))"

subsection \<open>The closures behind the timers\<close>

definition sendPing :: "host \<Rightarrow> 'a lifecycle_scheme handlers \<Rightarrow> 'a lifecycle_scheme \<Rightarrow> 'a lifecycle_scheme" where
  "sendPing H cb s = snd (sendPayload H (h_failure cb) createPingMessage s)"

definition onPongTimeout :: "'a lifecycle_scheme \<Rightarrow> 'a lifecycle_scheme" where
  "onPongTimeout s = snd (closeActive CLOSE_PONG_TIMEOUT (js ''pong timeout'') Normal s)"

fun run_task ::
  "host \<Rightarrow> 'a lifecycle_scheme handlers \<Rightarrow> transport_task \<Rightarrow> 'a lifecycle_scheme \<Rightarrow> 'a lifecycle_scheme" where
  "run_task H cb Ping_tick s = ping_tick (sendPing H cb) s"
| "run_task H cb Pong_deadline s = onPongTimeout s"
| "run_task H cb Reconnect_task s = connect H cb (s\<lparr>reconnectTimer := None\<rparr>)"

subsection \<open>Steps\<close>

text \<open>
  A step is a call of the service by its owner or a move of the browser: time passes, a due
  timer fires, a socket changes state or an event is delivered, the browser starts or stops
  refusing to create sockets or to send.
\<close>

datatype transport_step =
    Connect
  | Reconnect_now
  | Endpoint_changed
  | Start_fresh
  | Dispose_service
  | Update_runtime "jsstring option" bool
  | Mark_pong
  | Send client_message
  | Pass_time nat int
  | Fire nat
  | Socket_open nat
  | Socket_message nat message_event
  | Socket_failed nat transport_error_event
  | Socket_closing nat
  | Socket_close rat jsstring nat
  | Weather "jsval option" "jsval option"

definition set_ready :: "nat \<Rightarrow> ready_state \<Rightarrow> 'a browser_scheme \<Rightarrow> 'a browser_scheme" where
  "set_ready k r s = s\<lparr>ready := (ready s)(k := max r (ready s k))\<rparr>"

fun transport_run_step ::
  "host \<Rightarrow> 'a lifecycle_scheme handlers \<Rightarrow> transport_step \<Rightarrow> 'a lifecycle_scheme \<Rightarrow> 'a lifecycle_scheme" where
  "transport_run_step H cb Connect s = connect H cb s"
| "transport_run_step H cb Reconnect_now s = reconnectNow H cb s"
| "transport_run_step H cb Endpoint_changed s = reconnectWithEndpointChange H cb s"
| "transport_run_step H cb Start_fresh s = scheduleFreshConnection H cb s"
| "transport_run_step H cb Dispose_service s = dispose s"
| "transport_run_step H cb (Update_runtime u ctx) s = updateRuntime u ctx s"
| "transport_run_step H cb Mark_pong s = lc_markPong s"
| "transport_run_step H cb (Send p) s = snd (sendPayload H (h_failure cb) p s)"
| "transport_run_step H cb (Pass_time d w) s = s\<lparr>sched := pass_time d w (sched s)\<rparr>"
| "transport_run_step H cb (Fire h) s =
     (case fire h (sched s) of None \<Rightarrow> s | Some (t, sc) \<Rightarrow> run_task H cb t (s\<lparr>sched := sc\<rparr>))"
| "transport_run_step H cb (Socket_open k) s =
     (if k < next_socket s \<and> ready s k = RS_connecting
      then deliver (onSocketOpen cb) k (set_ready k RS_open s) else s)"
| "transport_run_step H cb (Socket_message k ev) s = deliver (onSocketMessage cb ev) k s"
| "transport_run_step H cb (Socket_failed k ev) s = deliver (onSocketError H cb ev) k s"
| "transport_run_step H cb (Socket_closing k) s = (if k < next_socket s then set_ready k RS_closing s else s)"
| "transport_run_step H cb (Socket_close code reason k) s =
     (if k < next_socket s then deliver (onSocketClose H cb code reason) k (set_ready k RS_closed s) else s)"
| "transport_run_step H cb (Weather c sd) s = s\<lparr>create_throws := c, send_throws := sd\<rparr>"

inductive transport_reachable ::
  "host \<Rightarrow> 'a lifecycle_scheme handlers \<Rightarrow> 'a lifecycle_scheme \<Rightarrow> 'a lifecycle_scheme \<Rightarrow> bool"
  for H cb s0 where
  start: "transport_reachable H cb s0 s0"
| step: "transport_reachable H cb s0 s \<Longrightarrow> transport_reachable H cb s0 (transport_run_step H cb e s)"

end
