(* ===== verification/Outbox.thy ===== *)
theory Outbox
  imports Prelude
begin

section \<open>The input outbox\<close>

text \<open>
  \<open>lib/terminal-outbox.ts\<close> and the byte counter of \<open>lib/terminal-format.ts\<close>.
  The outbox buffers keyboard input while the socket is down.  It is an array of chunks
  with a \<open>head\<close> index (chunks before it are spent), a running byte count and a count of
  dropped bytes.  The model keeps the array and the index as the code has them;
  \<open>live\<close> is the abstraction, the queue of chunks still to be sent.
\<close>

subsection \<open>Counting UTF-8 bytes\<close>

definition high_surrogate :: "code_unit \<Rightarrow> bool" where
  "high_surrogate u \<longleftrightarrow> 0xD800 \<le> u \<and> u \<le> 0xDBFF"

definition low_surrogate :: "code_unit \<Rightarrow> bool" where
  "low_surrogate u \<longleftrightarrow> 0xDC00 \<le> u \<and> u \<le> 0xDFFF"

text \<open>A lone surrogate is encoded as the three bytes of the replacement character.\<close>

definition unit_bytes :: "code_unit \<Rightarrow> nat" where
  "unit_bytes u = (if u < 0x80 then 1 else if u < 0x800 then 2 else 3)"

fun utf8ByteLength :: "jsstring \<Rightarrow> nat" where
  "utf8ByteLength [] = 0"
| "utf8ByteLength [u] = unit_bytes u"
| "utf8ByteLength (u # v # rest) =
     (if high_surrogate u \<and> low_surrogate v then 4 + utf8ByteLength rest
      else unit_bytes u + utf8ByteLength (v # rest))"

subsection \<open>The data structure\<close>

definition OUTBOX_MAX_BYTES :: int where
  "OUTBOX_MAX_BYTES = 512 * 2 ^ 10"

record outbox_chunk =
  chunk_data :: jsstring
  chunk_bytes :: int

record outbox_state =
  chunks :: "outbox_chunk list"
  head :: nat
  ob_bytes :: int
  droppedBytes :: int

definition createOutbox :: outbox_state where
  "createOutbox = \<lparr>chunks = [], head = 0, ob_bytes = 0, droppedBytes = 0\<rparr>"

definition compactOutbox :: "outbox_state \<Rightarrow> outbox_state" where
  "compactOutbox ob =
     (if head ob = 0 then ob
      else if head ob \<ge> length (chunks ob) then ob\<lparr>chunks := [], head := 0\<rparr>
      else if head ob < 128 \<and> head ob * 2 < length (chunks ob) then ob
      else ob\<lparr>chunks := drop (head ob) (chunks ob), head := 0\<rparr>)"

text \<open>The eviction loop of \<open>enqueueOutbox\<close>; inside the guard the array read is in range.\<close>

function evict :: "int \<Rightarrow> outbox_state \<Rightarrow> outbox_state" where
  "evict maxBytes ob =
     (if ob_bytes ob > maxBytes \<and> head ob < length (chunks ob)
      then let removed = chunks ob ! head ob in
           evict maxBytes (ob\<lparr>head := head ob + 1,
                              ob_bytes := ob_bytes ob - chunk_bytes removed,
                              droppedBytes := droppedBytes ob + chunk_bytes removed\<rparr>)
      else ob)"
  by pat_completeness auto
termination
  by (relation "measure (\<lambda>(m, ob). length (chunks ob) - head ob)") auto

declare evict.simps [simp del]

definition enqueueOutbox :: "int \<Rightarrow> outbox_state \<Rightarrow> jsstring \<Rightarrow> outbox_state" where
  "enqueueOutbox maxBytes ob chunk =
     (if chunk = [] then ob
      else let queuedChunk = \<lparr>chunk_data = chunk, chunk_bytes = int (utf8ByteLength chunk)\<rparr> in
        if chunk_bytes queuedChunk > maxBytes
        then ob\<lparr>droppedBytes := droppedBytes ob + chunk_bytes queuedChunk\<rparr>
        else compactOutbox (evict maxBytes
               (ob\<lparr>chunks := chunks ob @ [queuedChunk], ob_bytes := ob_bytes ob + chunk_bytes queuedChunk\<rparr>)))"

text \<open>
  \<open>flushOutbox\<close> calls its \<open>send\<close> argument, which acts on a state of its own: \<open>send\<close> maps
  that state and a chunk to the answer and the next state.  The loop returns the bytes
  sent, the outbox and the sender's state.
\<close>

function flush_loop ::
  "('s \<Rightarrow> jsstring \<Rightarrow> bool \<times> 's) \<Rightarrow> outbox_state \<Rightarrow> int \<Rightarrow> 's \<Rightarrow> int \<times> outbox_state \<times> 's" where
  "flush_loop send ob sentBytes s =
     (if head ob < length (chunks ob)
      then let queuedChunk = chunks ob ! head ob;
               (delivered, s') = send s (chunk_data queuedChunk) in
           if \<not> delivered then (sentBytes, ob, s')
           else flush_loop send (ob\<lparr>head := head ob + 1, ob_bytes := ob_bytes ob - chunk_bytes queuedChunk\<rparr>)
                  (sentBytes + chunk_bytes queuedChunk) s'
      else (sentBytes, ob, s))"
  by pat_completeness auto
termination
  by (relation "measure (\<lambda>(send, ob, n, s). length (chunks ob) - head ob)") auto

declare flush_loop.simps [simp del]

definition flushOutbox ::
  "('s \<Rightarrow> jsstring \<Rightarrow> bool \<times> 's) \<Rightarrow> outbox_state \<Rightarrow> 's \<Rightarrow> int \<times> outbox_state \<times> 's" where
  "flushOutbox send ob s =
     (let (sentBytes, ob', s') = flush_loop send ob 0 s
      in (sentBytes, compactOutbox (ob'\<lparr>ob_bytes := max 0 (ob_bytes ob')\<rparr>), s'))"

definition resetOutbox :: "outbox_state \<Rightarrow> outbox_state" where
  "resetOutbox ob = ob\<lparr>chunks := [], head := 0, ob_bytes := 0, droppedBytes := 0\<rparr>"

subsection \<open>Specification vocabulary\<close>

definition live :: "outbox_state \<Rightarrow> outbox_chunk list" where
  "live ob = drop (head ob) (chunks ob)"

definition queued :: "outbox_state \<Rightarrow> jsstring list" where
  "queued ob = map chunk_data (live ob)"

definition total_bytes :: "outbox_chunk list \<Rightarrow> int" where
  "total_bytes cs = sum_list (map chunk_bytes cs)"

definition chunk_ok :: "outbox_chunk \<Rightarrow> bool" where
  "chunk_ok c \<longleftrightarrow> chunk_data c \<noteq> [] \<and> chunk_bytes c = int (utf8ByteLength (chunk_data c))"

definition outbox_inv :: "int \<Rightarrow> outbox_state \<Rightarrow> bool" where
  "outbox_inv maxBytes ob \<longleftrightarrow>
     head ob \<le> length (chunks ob) \<and> ob_bytes ob = total_bytes (live ob) \<and>
     (\<forall>c \<in> set (live ob). chunk_ok c) \<and> ob_bytes ob \<le> maxBytes \<and> 0 \<le> droppedBytes ob"

text \<open>
  The abstract bounded queue: append, then drop from the front while over the limit;
  a chunk that alone exceeds the limit is refused.
\<close>

fun trim_front :: "int \<Rightarrow> outbox_chunk list \<Rightarrow> outbox_chunk list" where
  "trim_front m [] = []"
| "trim_front m (c # cs) = (if total_bytes (c # cs) > m then trim_front m cs else c # cs)"

definition as_chunk :: "jsstring \<Rightarrow> outbox_chunk" where
  "as_chunk d = \<lparr>chunk_data = d, chunk_bytes = int (utf8ByteLength d)\<rparr>"

definition spec_enqueue :: "int \<Rightarrow> outbox_chunk list \<Rightarrow> jsstring \<Rightarrow> outbox_chunk list" where
  "spec_enqueue m q d =
     (if d = [] \<or> int (utf8ByteLength d) > m then q else trim_front m (q @ [as_chunk d]))"

subsection \<open>Byte counts\<close>

lemma unit_bytes_bounds: "1 \<le> unit_bytes u \<and> unit_bytes u \<le> 3"
  by (simp add: unit_bytes_def)

lemma utf8_bounds: "length s \<le> utf8ByteLength s \<and> utf8ByteLength s \<le> 3 * length s"
proof (induction s rule: utf8ByteLength.induct)
  case (2 u)
  then show ?case using unit_bytes_bounds [of u] by simp
next
  case (3 u v rest)
  then show ?case using unit_bytes_bounds [of u] by auto
qed simp

lemma utf8_pos [simp]: "s \<noteq> [] \<Longrightarrow> 0 < utf8ByteLength s"
  using utf8_bounds [of s] by (cases s) auto

lemma total_bytes_simps [simp]:
  "total_bytes [] = 0" "total_bytes (c # cs) = chunk_bytes c + total_bytes cs"
  "total_bytes (cs @ ds) = total_bytes cs + total_bytes ds"
  by (simp_all add: total_bytes_def)

lemma chunk_ok_pos: "chunk_ok c \<Longrightarrow> 0 < chunk_bytes c"
  by (simp add: chunk_ok_def)

lemma chunk_ok_as_chunk [simp]: "chunk_ok (as_chunk d) \<longleftrightarrow> d \<noteq> []"
  by (auto simp: chunk_ok_def as_chunk_def)

lemma total_bytes_nonneg: "\<forall>c \<in> set cs. chunk_ok c \<Longrightarrow> 0 \<le> total_bytes cs"
  by (induction cs) (auto dest: chunk_ok_pos)

lemma total_bytes_zero_iff: "\<forall>c \<in> set cs. chunk_ok c \<Longrightarrow> 0 < total_bytes cs \<longleftrightarrow> cs \<noteq> []"
  by (cases cs) (auto intro!: add_pos_nonneg chunk_ok_pos total_bytes_nonneg)

subsection \<open>The abstract eviction\<close>

lemma trim_front_suffix: "\<exists>n. trim_front m q = drop n q"
proof (induction q)
  case (Cons c q)
  then obtain n where "trim_front m q = drop n q" by blast
  then show ?case by (cases "total_bytes (c # q) > m") (auto intro: exI [of _ "Suc n"] exI [of _ 0])
qed simp

lemma trim_front_set: "set (trim_front m q) \<subseteq> set q"
  using trim_front_suffix [of m q] set_drop_subset by metis

lemma trim_front_fits: "0 \<le> m \<Longrightarrow> total_bytes (trim_front m q) \<le> m"
  by (induction q) auto

lemma trim_front_id: "total_bytes q \<le> m \<Longrightarrow> trim_front m q = q"
  by (cases q) auto

lemma trim_front_longest:
  "k < length q - length (trim_front m q) \<Longrightarrow> m < total_bytes (drop k q)"
proof (induction q arbitrary: k)
  case (Cons c q)
  show ?case
  proof (cases "total_bytes (c # q) > m")
    case True
    with Cons show ?thesis
      by (cases k) (auto simp: Suc_diff_le less_diff_conv)
  next
    case False
    with Cons.prems show ?thesis by simp
  qed
qed simp

lemma trim_front_keeps_last:
  "chunk_bytes c \<le> m \<Longrightarrow> \<exists>p. trim_front m (q @ [c]) = p @ [c]"
  by (induction q) auto

subsection \<open>The operations in terms of the queue\<close>

lemma live_create [simp]: "live createOutbox = []"
  by (simp add: live_def createOutbox_def)

lemma live_reset [simp]: "live (resetOutbox ob) = []"
  by (simp add: live_def resetOutbox_def)

lemma compact_frame [simp]:
  "ob_bytes (compactOutbox ob) = ob_bytes ob" "droppedBytes (compactOutbox ob) = droppedBytes ob"
  "live (compactOutbox ob) = live ob"
  "head ob \<le> length (chunks ob) \<Longrightarrow> head (compactOutbox ob) \<le> length (chunks (compactOutbox ob))"
  by (simp_all add: compactOutbox_def live_def)

lemma outbox_inv_compact [simp]: "outbox_inv m ob \<Longrightarrow> outbox_inv m (compactOutbox ob)"
  by (simp add: outbox_inv_def)

lemma live_step:
  "head ob < length (chunks ob) \<Longrightarrow>
     live ob = chunks ob ! head ob # drop (Suc (head ob)) (chunks ob)"
  by (simp add: live_def Cons_nth_drop_Suc)

lemma evict_spec:
  assumes "ob_bytes ob = total_bytes (live ob)" "head ob \<le> length (chunks ob)" "0 \<le> m"
  shows "live (evict m ob) = trim_front m (live ob) \<and>
     ob_bytes (evict m ob) = total_bytes (live (evict m ob)) \<and>
     head (evict m ob) \<le> length (chunks (evict m ob)) \<and>
     droppedBytes (evict m ob) = droppedBytes ob + total_bytes (live ob) - total_bytes (live (evict m ob))"
  using assms
proof (induction m ob rule: evict.induct)
  case (1 m ob)
  show ?case
  proof (cases "ob_bytes ob > m \<and> head ob < length (chunks ob)")
    case True
    define ob' where "ob' = ob\<lparr>head := head ob + 1, ob_bytes := ob_bytes ob - chunk_bytes (chunks ob ! head ob),
      droppedBytes := droppedBytes ob + chunk_bytes (chunks ob ! head ob)\<rparr>"
    from True have e: "evict m ob = evict m ob'"
      by (simp add: evict.simps [of m ob] ob'_def Let_def)
    from True have l: "live ob = chunks ob ! head ob # live ob'"
      by (simp add: live_step) (simp add: ob'_def live_def)
    have b: "ob_bytes ob' = ob_bytes ob - chunk_bytes (chunks ob ! head ob)"
      by (simp add: ob'_def)
    from l "1.prems"(1) b have "ob_bytes ob' = total_bytes (live ob')" by simp
    moreover from True have "head ob' \<le> length (chunks ob')" by (simp add: ob'_def)
    ultimately have
      "live (evict m ob') = trim_front m (live ob')"
      "ob_bytes (evict m ob') = total_bytes (live (evict m ob'))"
      "head (evict m ob') \<le> length (chunks (evict m ob'))"
      "droppedBytes (evict m ob') = droppedBytes ob' + total_bytes (live ob') - total_bytes (live (evict m ob'))"
      using "1.IH" [OF True refl, folded ob'_def] "1.prems"(3) by simp_all
    moreover have "droppedBytes ob' = droppedBytes ob + chunk_bytes (chunks ob ! head ob)"
      by (simp add: ob'_def)
    moreover have "m < chunk_bytes (chunks ob ! head ob) + total_bytes (live ob')"
      using True "1.prems"(1) l by simp
    ultimately show ?thesis by (simp add: e l)
  next
    case False
    then have "evict m ob = ob" by (subst evict.simps) (simp only: if_False)
    moreover have "trim_front m (live ob) = live ob"
    proof (cases "head ob < length (chunks ob)")
      case True
      with False "1.prems"(1) show ?thesis by (simp add: trim_front_id)
    qed (simp add: live_def)
    ultimately show ?thesis using "1.prems" by simp
  qed
qed

lemma enqueue_spec:
  assumes "outbox_inv m ob" "0 \<le> m"
  shows "live (enqueueOutbox m ob d) = spec_enqueue m (live ob) d"
    and "outbox_inv m (enqueueOutbox m ob d)"
    and "droppedBytes (enqueueOutbox m ob d) =
      droppedBytes ob + ob_bytes ob + int (utf8ByteLength d) - ob_bytes (enqueueOutbox m ob d)"
proof -
  define ob' where "ob' = ob\<lparr>chunks := chunks ob @ [as_chunk d], ob_bytes := ob_bytes ob + int (utf8ByteLength d)\<rparr>"
  have l: "live ob' = live ob @ [as_chunk d]"
    using assms(1) by (simp add: ob'_def live_def outbox_inv_def)
  have pre: "ob_bytes ob' = total_bytes (live ob')" "head ob' \<le> length (chunks ob')"
    using assms(1) l by (simp_all add: outbox_inv_def) (simp_all add: ob'_def as_chunk_def)
  note ev = evict_spec [OF pre assms(2)]
  have acc: "enqueueOutbox m ob d = compactOutbox (evict m ob')"
    if "d \<noteq> []" "\<not> int (utf8ByteLength d) > m"
    using that by (simp add: enqueueOutbox_def ob'_def as_chunk_def Let_def)
  have rej: "enqueueOutbox m ob d = (if d = [] then ob else ob\<lparr>droppedBytes := droppedBytes ob + int (utf8ByteLength d)\<rparr>)"
    if "d = [] \<or> int (utf8ByteLength d) > m"
    using that by (auto simp: enqueueOutbox_def)
  show "live (enqueueOutbox m ob d) = spec_enqueue m (live ob) d"
    using acc rej ev l by (auto simp: spec_enqueue_def) (simp_all add: live_def)
  have old: "\<forall>c \<in> set (live ob). chunk_ok c" using assms(1) by (simp add: outbox_inv_def)
  have good: "\<forall>c \<in> set (live (evict m ob')). chunk_ok c" if "d \<noteq> []"
    using that ev l old trim_front_set [of m "live ob'"] by auto
  have fits: "total_bytes (live (evict m ob')) \<le> m"
    using ev trim_front_fits [OF assms(2)] by simp
  have grow: "0 \<le> droppedBytes (evict m ob')" if "d \<noteq> []"
  proof -
    obtain n where n: "live (evict m ob') = drop n (live ob')" using ev trim_front_suffix by metis
    have "total_bytes (live ob') = total_bytes (take n (live ob')) + total_bytes (drop n (live ob'))"
      by (metis append_take_drop_id total_bytes_simps(3))
    moreover have "0 \<le> total_bytes (take n (live ob'))"
      using that l old by (intro total_bytes_nonneg) (auto dest!: in_set_takeD)
    ultimately show ?thesis using ev n assms(1) by (simp add: outbox_inv_def ob'_def)
  qed
  show "outbox_inv m (enqueueOutbox m ob d)"
  proof (cases "d = [] \<or> int (utf8ByteLength d) > m")
    case True
    with rej assms(1) show ?thesis by (auto simp: outbox_inv_def live_def)
  next
    case False
    then have "outbox_inv m (evict m ob')"
      using ev good fits grow by (simp add: outbox_inv_def)
    with acc False show ?thesis by simp
  qed
  show "droppedBytes (enqueueOutbox m ob d) =
      droppedBytes ob + ob_bytes ob + int (utf8ByteLength d) - ob_bytes (enqueueOutbox m ob d)"
  proof (cases "d = [] \<or> int (utf8ByteLength d) > m")
    case True
    with rej show ?thesis by auto
  next
    case False
    with acc ev l assms(1) show ?thesis by (simp add: outbox_inv_def as_chunk_def ob'_def)
  qed
qed

subsection \<open>Flushing through a sender\<close>

text \<open>
  The interface between the outbox and the transport: a sender answers whether it took
  the chunk, and its \<open>log\<close> of taken chunks grows by exactly the chunk it took.
\<close>

locale sink =
  fixes send :: "'s \<Rightarrow> jsstring \<Rightarrow> bool \<times> 's"
    and log :: "'s \<Rightarrow> jsstring list"
  assumes send_log: "send s d = (ok, s') \<Longrightarrow> log s' = log s @ (if ok then [d] else [])"
begin

lemma flush_loop_spec:
  assumes "flush_loop send ob n s = (n', ob', s')"
    and "head ob \<le> length (chunks ob)" "ob_bytes ob = total_bytes (live ob)"
  shows "\<exists>k \<le> length (live ob). live ob' = drop k (live ob) \<and> log s' = log s @ take k (queued ob) \<and>
      n' = n + total_bytes (take k (live ob)) \<and> ob_bytes ob' = total_bytes (live ob') \<and>
      head ob' \<le> length (chunks ob') \<and> droppedBytes ob' = droppedBytes ob \<and>
      (live ob' \<noteq> [] \<longrightarrow> (\<exists>s1. send s1 (hd (queued ob')) = (False, s')))"
  using assms
proof (induction "length (chunks ob) - head ob" arbitrary: ob n s n' ob' s' rule: less_induct)
  case less
  show ?case
  proof (cases "head ob < length (chunks ob)")
    case False
    with less.prems show ?thesis
      by (intro exI [of _ 0]) (simp add: flush_loop.simps [of send ob n s] live_def)
  next
    case True
    obtain ok s1 where snd: "send s (chunk_data (chunks ob ! head ob)) = (ok, s1)" by fastforce
    show ?thesis
    proof (cases ok)
      case False
      with True snd less.prems show ?thesis
        by (intro exI [of _ 0])
          (auto simp: flush_loop.simps [of send ob n s] Let_def queued_def live_step dest: send_log)
    next
      case ok: True
      define ob1 where "ob1 = ob\<lparr>head := head ob + 1, ob_bytes := ob_bytes ob - chunk_bytes (chunks ob ! head ob)\<rparr>"
      have l: "live ob = chunks ob ! head ob # live ob1"
        using True by (simp add: live_step) (simp add: ob1_def live_def)
      have b: "ob_bytes ob1 = ob_bytes ob - chunk_bytes (chunks ob ! head ob)"
        "droppedBytes ob1 = droppedBytes ob"
        by (simp_all add: ob1_def)
      have "flush_loop send ob1 (n + chunk_bytes (chunks ob ! head ob)) s1 = (n', ob', s')"
        using less.prems(1) True snd ok by (simp add: flush_loop.simps [of send ob n s] ob1_def Let_def)
      moreover have "head ob1 \<le> length (chunks ob1)" using True by (simp add: ob1_def)
      moreover have "ob_bytes ob1 = total_bytes (live ob1)" using l b less.prems(3) by simp
      moreover have "length (chunks ob1) - head ob1 < length (chunks ob) - head ob"
        using True by (simp add: ob1_def)
      ultimately obtain k where k: "k \<le> length (live ob1)" "live ob' = drop k (live ob1)"
        "log s' = log s1 @ take k (queued ob1)"
        "n' = n + chunk_bytes (chunks ob ! head ob) + total_bytes (take k (live ob1))"
        "ob_bytes ob' = total_bytes (live ob')" "head ob' \<le> length (chunks ob')"
        "droppedBytes ob' = droppedBytes ob1"
        "live ob' \<noteq> [] \<longrightarrow> (\<exists>s1. send s1 (hd (queued ob')) = (False, s'))"
        using less.hyps by blast
      have "log s1 = log s @ [chunk_data (chunks ob ! head ob)]"
        using send_log snd ok by force
      with k l b show ?thesis
        by (intro exI [of _ "Suc k"]) (simp add: queued_def)
    qed
  qed
qed

text \<open>
  Flushing delivers a prefix of the queue in order, keeps the rest, and stops early only
  because the sender refused the next chunk.
\<close>

lemma flush_spec:
  assumes "flushOutbox send ob s = (n, ob', s')" "outbox_inv m ob" "0 \<le> m"
  obtains k where "k \<le> length (live ob)" "live ob' = drop k (live ob)"
    "log s' = log s @ take k (queued ob)" "n = total_bytes (take k (live ob))"
    "outbox_inv m ob'" "droppedBytes ob' = droppedBytes ob"
    "live ob' \<noteq> [] \<Longrightarrow> \<exists>s1. send s1 (hd (queued ob')) = (False, s')"
proof -
  obtain n1 ob1 s1 where l: "flush_loop send ob 0 s = (n1, ob1, s1)" by (metis prod_cases3)
  with assms(1) have r: "n = n1" "s' = s1" "ob' = compactOutbox (ob1\<lparr>ob_bytes := max 0 (ob_bytes ob1)\<rparr>)"
    by (auto simp: flushOutbox_def)
  have pre: "head ob \<le> length (chunks ob)" "ob_bytes ob = total_bytes (live ob)"
    using assms(2) by (simp_all add: outbox_inv_def)
  obtain k where k: "k \<le> length (live ob)"
    "live ob1 = drop k (live ob)" "log s1 = log s @ take k (queued ob)"
    "n1 = 0 + total_bytes (take k (live ob))" "ob_bytes ob1 = total_bytes (live ob1)"
    "head ob1 \<le> length (chunks ob1)" "droppedBytes ob1 = droppedBytes ob"
    "live ob1 \<noteq> [] \<longrightarrow> (\<exists>s0. send s0 (hd (queued ob1)) = (False, s1))"
    using flush_loop_spec [OF l pre] by (elim exE conjE) (rule that)
  have old: "\<forall>c \<in> set (live ob). chunk_ok c" using assms(2) by (simp add: outbox_inv_def)
  have good: "\<forall>c \<in> set (live ob1). chunk_ok c" using old k(2) by (auto dest: in_set_dropD)
  have "total_bytes (live ob) = total_bytes (take k (live ob)) + total_bytes (live ob1)"
    using k(2) by (metis append_take_drop_id total_bytes_simps(3))
  moreover have "0 \<le> total_bytes (take k (live ob))"
    using old by (intro total_bytes_nonneg) (auto dest: in_set_takeD)
  ultimately have "ob_bytes ob1 \<le> m" using assms(2) k(5) by (simp add: outbox_inv_def)
  moreover have "0 \<le> ob_bytes ob1" using good k(5) by (simp add: total_bytes_nonneg)
  ultimately have "outbox_inv m ob1" "ob1\<lparr>ob_bytes := max 0 (ob_bytes ob1)\<rparr> = ob1"
    using good k assms(2) by (simp_all add: outbox_inv_def)
  with that [of k] k r show thesis by (simp add: queued_def)
qed

end

text \<open>What every send does to the sender's state, a flush does.\<close>

lemma flush_loop_frame:
  assumes send: "\<And>s d. R s (snd (send s d))" and refl: "\<And>s. R s s"
    and trans: "\<And>a b c. R a b \<Longrightarrow> R b c \<Longrightarrow> R a c"
  shows "R s (snd (snd (flush_loop send ob n s)))"
proof (induction "length (chunks ob) - head ob" arbitrary: ob n s rule: less_induct)
  case less
  show ?case
  proof (cases "head ob < length (chunks ob)")
    case True
    obtain ok s1 where s1: "send s (chunk_data (chunks ob ! head ob)) = (ok, s1)" by fastforce
    then have "R s s1" using send [of s] by (metis snd_conv)
    moreover have "length (chunks ob) - (head ob + 1) < length (chunks ob) - head ob" using True by simp
    ultimately show ?thesis
      using True s1 less by (auto simp: flush_loop.simps [of send ob n s] Let_def intro: trans)
  qed (simp add: flush_loop.simps [of send ob n s] refl)
qed

lemma flush_frame:
  assumes "\<And>s d. R s (snd (send s d))" "\<And>s. R s s" "\<And>a b c. R a b \<Longrightarrow> R b c \<Longrightarrow> R a c"
    and "flushOutbox send ob s = (n, ob', s')"
  shows "R s s'"
  using flush_loop_frame [of R send s ob 0, OF assms(1-3)] assms(4)
  by (auto simp: flushOutbox_def split: prod.splits)

text \<open>A sender that takes every chunk empties the outbox.\<close>

lemma flush_loop_all:
  assumes good: "\<And>s d. P s \<Longrightarrow> send s d = (True, g s d)" "\<And>s d. P s \<Longrightarrow> P (g s d)"
  shows "P s \<Longrightarrow> head ob \<le> length (chunks ob) \<Longrightarrow>
    snd (snd (flush_loop send ob n s)) = fold (\<lambda>d s. g s d) (queued ob) s \<and>
    live (fst (snd (flush_loop send ob n s))) = []"
proof (induction "length (chunks ob) - head ob" arbitrary: ob n s rule: less_induct)
  case less
  show ?case
  proof (cases "head ob < length (chunks ob)")
    case True
    define c where "c = chunks ob ! head ob"
    define ob1 where "ob1 = ob\<lparr>head := head ob + 1, ob_bytes := ob_bytes ob - chunk_bytes c\<rparr>"
    have step: "flush_loop send ob n s = flush_loop send ob1 (n + chunk_bytes c) (g s (chunk_data c))"
      using True good(1) [OF less.prems(1)] by (simp add: flush_loop.simps [of send ob n s] ob1_def c_def Let_def)
    have q: "queued ob = chunk_data c # queued ob1"
      using True by (simp add: queued_def live_step c_def) (simp add: ob1_def live_def)
    have "length (chunks ob1) - head ob1 < length (chunks ob) - head ob" "head ob1 \<le> length (chunks ob1)"
      using True by (simp_all add: ob1_def)
    then show ?thesis using less.hyps good(2) [OF less.prems(1)] by (simp add: step q)
  next
    case False
    then have "live ob = []" using less.prems(2) by (simp add: live_def)
    then show ?thesis using False by (simp add: flush_loop.simps [of send ob n s] queued_def)
  qed
qed

lemma flush_all:
  assumes "\<And>s d. P s \<Longrightarrow> send s d = (True, g s d)" "\<And>s d. P s \<Longrightarrow> P (g s d)"
    and "P s" "head ob \<le> length (chunks ob)" "flushOutbox send ob s = (n, ob', s')"
  shows "s' = fold (\<lambda>d s. g s d) (queued ob) s \<and> live ob' = []"
proof -
  obtain n1 ob1 s1 where l: "flush_loop send ob 0 s = (n1, ob1, s1)" by (metis prod_cases3)
  have "s1 = fold (\<lambda>d s. g s d) (queued ob) s \<and> live ob1 = []"
    using flush_loop_all [of P send g s ob 0] assms(1-4) l by simp
  moreover have "live ob' = live ob1" "s' = s1"
    using assms(5) l by (auto simp: flushOutbox_def) (simp add: live_def)
  ultimately show ?thesis by simp
qed

lemma queued_Nil_iff: "queued ob = [] \<longleftrightarrow> live ob = []"
  by (simp add: queued_def)

lemma outbox_pending_iff: "outbox_inv m ob \<Longrightarrow> 0 < ob_bytes ob \<longleftrightarrow> queued ob \<noteq> []"
  by (simp add: outbox_inv_def queued_Nil_iff total_bytes_zero_iff)

lemma outbox_inv_create [simp]: "0 \<le> m \<Longrightarrow> outbox_inv m createOutbox"
  by (simp add: outbox_inv_def) (simp add: createOutbox_def)

lemma outbox_inv_reset [simp]: "0 \<le> m \<Longrightarrow> outbox_inv m (resetOutbox ob)"
  by (simp add: outbox_inv_def) (simp add: resetOutbox_def)

subsection \<open>Properties\<close>

text \<open>C27: The array with a head index is a bounded queue: enqueueing appends the chunk and drops the oldest chunks
  only while the total exceeds the limit (a chunk that alone exceeds it is refused), every invariant of the
  representation is kept, and every byte is either queued or counted as dropped.\<close>

theorem outbox_refines_bounded_queue:
  assumes "outbox_inv m ob" "0 \<le> m"
  shows "live (enqueueOutbox m ob d) = spec_enqueue m (live ob) d \<and> outbox_inv m (enqueueOutbox m ob d) \<and>
    droppedBytes (enqueueOutbox m ob d) + ob_bytes (enqueueOutbox m ob d) =
      droppedBytes ob + ob_bytes ob + int (utf8ByteLength d)"
  using enqueue_spec [OF assms, of d] by simp

theorem outbox_refines_bounded_queue_witness:
  "live (enqueueOutbox 3 (enqueueOutbox 3 createOutbox (js ''ab'')) (js ''cd'')) =
     spec_enqueue 3 (spec_enqueue 3 [] (js ''ab'')) (js ''cd'')"
  using outbox_refines_bounded_queue [of 3 "enqueueOutbox 3 createOutbox (js ''ab'')" "js ''cd''"]
    enqueue_spec [of 3 createOutbox "js ''ab''"] by simp

text \<open>Eviction is minimal and never touches the newest chunk: what is kept is the longest suffix of the queue that
  fits, and it ends in the chunk just enqueued.\<close>

theorem eviction_is_minimal:
  assumes "outbox_inv m ob" "d \<noteq> []" "int (utf8ByteLength d) \<le> m"
  shows "\<exists>n. live (enqueueOutbox m ob d) = drop n (live ob) @ [as_chunk d] \<and>
    total_bytes (live (enqueueOutbox m ob d)) \<le> m \<and>
    (\<forall>k < n. m < total_bytes (drop k (live ob) @ [as_chunk d]))"
proof -
  have m: "0 \<le> m" using assms(3) by linarith
  let ?q = "live ob @ [as_chunk d]"
  have l: "live (enqueueOutbox m ob d) = trim_front m ?q"
    using enqueue_spec(1) [OF assms(1) m, of d] assms(2,3) by (simp add: spec_enqueue_def)
  obtain n where n: "trim_front m ?q = drop n ?q" using trim_front_suffix by metis
  obtain p where p: "trim_front m ?q = p @ [as_chunk d]"
    using trim_front_keeps_last [of "as_chunk d" m "live ob"] assms(3) by (auto simp: as_chunk_def)
  then have "n \<le> length (live ob)" using n by (metis append_is_Nil_conv drop_eq_Nil length_append_singleton list.discI not_less_eq_eq)
  moreover from this have "drop n ?q = drop n (live ob) @ [as_chunk d]" by simp
  moreover have "m < total_bytes (drop k (live ob) @ [as_chunk d])" if "k < n" for k
  proof -
    have "k < length ?q - length (trim_front m ?q)" using that n calculation(1) by simp
    then have "m < total_bytes (drop k ?q)" by (rule trim_front_longest)
    then show ?thesis using that calculation(1) by simp
  qed
  ultimately show ?thesis using l n trim_front_fits [OF m, of ?q] by (intro exI [of _ n]) simp
qed

theorem eviction_is_minimal_witness:
  "live (enqueueOutbox 3 (enqueueOutbox 3 createOutbox (js ''ab'')) (js ''cd'')) = [as_chunk (js ''cd'')]"
proof -
  have len: "utf8ByteLength (js ''ab'') = 2" "utf8ByteLength (js ''cd'') = 2" by code_simp+
  let ?ob = "enqueueOutbox 3 createOutbox (js ''ab'')"
  have ob: "outbox_inv 3 ?ob" "live ?ob = [as_chunk (js ''ab'')]"
    using enqueue_spec(1,2) [of 3 createOutbox "js ''ab''"] len by (simp_all add: spec_enqueue_def as_chunk_def)
  obtain n where "live (enqueueOutbox 3 ?ob (js ''cd'')) = drop n [as_chunk (js ''ab'')] @ [as_chunk (js ''cd'')]"
    "total_bytes (live (enqueueOutbox 3 ?ob (js ''cd''))) \<le> 3"
    using eviction_is_minimal [OF ob(1), of "js ''cd''"] len ob(2) by auto
  then show ?thesis using len by (cases n) (simp_all add: as_chunk_def)
qed

end
