(* ===== verification/Notices.thy ===== *)
theory Notices
  imports Sanitize Wire_Protocol Transport_State
begin

section \<open>Notices\<close>

text \<open>
  \<open>notifications/\<close>: the notices the client publishes (\<open>contracts/\<close>), their construction from
  failures (\<open>mappers/\<close>) and their wording (\<open>formatters/\<close>, \<open>user-notice.ts\<close>), with the failure
  types they come from (\<open>contracts/storage-access.ts\<close>, \<open>contracts/backend-resolution.ts\<close>,
  \<open>session/protocol/session-refresh-failure-contract.ts\<close>).  An absent optional cause is
  \<open>undefined\<close>.
\<close>

subsection \<open>Failures\<close>

datatype storage_operation = Op_read | Op_write | Op_remove | Op_parse

datatype storage_reason = Schema_mismatch | Invalid_value

record storage_failure =
  sf_operation :: storage_operation
  sf_key :: jsstring
  sf_reason :: "storage_reason option"
  sf_cause :: jsval

datatype backend_issue_code =
    Env_socket_url_invalid_format
  | Env_socket_url_requires_window_host
  | Env_socket_url_unsupported_protocol
  | Env_socket_url_required
  | Socket_url_invalid_format
  | Socket_url_unsupported_protocol

record backend_issue =
  bi_code :: backend_issue_code
  bi_details :: jsstring

datatype refresh_failure =
    Http_error int
  | Bootstrap_error backend_issue
  | Json_parse_failure jsval
  | Network_error jsval
  | Invalid_payload
  | Missing_sessions_array
  | All_sessions_invalid nat nat
  | Too_many_invalid_sessions nat nat
  | Request_timeout int
  | Request_aborted
  | Request_superseded
  | Refresh_pipeline_error jsval

subsection \<open>Notices\<close>

datatype refresh_notice =
    RN_generic
  | RN_timeout int
  | RN_http int
  | RN_cause jsval
  | RN_invalid_payload
  | RN_missing_sessions_array
  | RN_all_sessions_invalid nat
  | RN_too_many_invalid_sessions nat nat
  | RN_invalid_entries nat
  | RN_paused_after_failures nat

datatype protocol_notice =
    PN_unsupported_type "jsstring option"
  | PN_malformed_payload "failure_detail option" "jsval option"
  | PN_empty_transport_message
  | PN_incompatible_version
  | PN_malformed_transport_event jsstring

datatype transport_notice_reason = Attach_handshake_send_failed | Transport_failed transport_reason

record transport_notice =
  tn_reasonCode :: transport_notice_reason
  tn_source :: "failure_source option"
  tn_code :: "transport_failure_code option"
  tn_debugDetail :: "jsstring option"
  tn_noticeMessage :: "jsstring option"
  tn_cause :: jsval

datatype notice =
    N_refresh refresh_notice
  | N_storage storage_operation jsstring "jsstring option"
  | N_fullscreen jsval
  | N_runtime "jsstring option" jsval
  | N_protocol protocol_notice
  | N_transport transport_notice
  | N_server server_notice_reason
  | N_bootstrap jsstring "backend_issue_code option"

subsection \<open>Mappers\<close>

definition toProtocolFailureNotice :: "protocol_failure \<Rightarrow> notice" where
  "toProtocolFailureNotice f =
     N_protocol (case pf_reason f of
       Unsupported_type \<Rightarrow> PN_unsupported_type (pf_rawType f)
     | Malformed_payload \<Rightarrow> PN_malformed_payload (pf_detail f) (pf_cause f)
     | Incompatible_version \<Rightarrow> PN_incompatible_version)"

definition toServerPolicyNotice :: "server_notice_reason \<Rightarrow> notice" where
  "toServerPolicyNotice payload = N_server payload"

definition toBackendResolutionNotice :: "backend_issue \<Rightarrow> notice" where
  "toBackendResolutionNotice issue = N_bootstrap (bi_details issue) (Some (bi_code issue))"

definition describeStorageFailureReason :: "host \<Rightarrow> storage_failure \<Rightarrow> jsstring option" where
  "describeStorageFailureReason H f =
     (case sf_reason f of
        Some Schema_mismatch \<Rightarrow> Some (js ''stored value schema mismatch'')
      | Some Invalid_value \<Rightarrow> Some (js ''stored value invalid'')
      | None \<Rightarrow> (case normalizeCauseToMessage H (sf_cause f) of
                   Some c \<Rightarrow> if c \<noteq> [] then Some c else None
                 | None \<Rightarrow> None))"

definition toStorageFailureNoticeDetails :: "host \<Rightarrow> storage_failure \<Rightarrow> notice" where
  "toStorageFailureNoticeDetails H f =
     N_storage (sf_operation f) (sf_key f) (describeStorageFailureReason H f)"

text \<open>A refresh failure is either ignored or a notice under a key for the throttle.\<close>

fun toSessionRefreshFailureNotice :: "refresh_failure \<Rightarrow> (jsstring \<times> notice) option" where
  "toSessionRefreshFailureNotice Invalid_payload =
     Some (js ''payload:invalid_payload'', N_refresh RN_invalid_payload)"
| "toSessionRefreshFailureNotice Missing_sessions_array =
     Some (js ''payload:missing_sessions_array'', N_refresh RN_missing_sessions_array)"
| "toSessionRefreshFailureNotice (All_sessions_invalid n t) =
     Some (js ''payload:all_sessions_invalid'', N_refresh (RN_all_sessions_invalid n))"
| "toSessionRefreshFailureNotice (Too_many_invalid_sessions n t) =
     Some (js ''payload:too_many_invalid_sessions'', N_refresh (RN_too_many_invalid_sessions n t))"
| "toSessionRefreshFailureNotice (Http_error st) =
     Some (js ''http:'' @ js (int_digits st), N_refresh (RN_http st))"
| "toSessionRefreshFailureNotice (Bootstrap_error issue) =
     Some (js ''bootstrap:backend_resolution_failed'', toBackendResolutionNotice issue)"
| "toSessionRefreshFailureNotice (Json_parse_failure c) = Some (js ''json_parse_error'', N_refresh (RN_cause c))"
| "toSessionRefreshFailureNotice (Network_error c) = Some (js ''network_error'', N_refresh (RN_cause c))"
| "toSessionRefreshFailureNotice (Request_timeout ms) = Some (js ''request_timeout'', N_refresh (RN_timeout ms))"
| "toSessionRefreshFailureNotice Request_aborted = None"
| "toSessionRefreshFailureNotice Request_superseded = None"
| "toSessionRefreshFailureNotice (Refresh_pipeline_error c) =
     Some (js ''refresh_pipeline_error'', N_refresh (RN_cause c))"

subsection \<open>Wording\<close>

fun issue_code_name :: "backend_issue_code \<Rightarrow> jsstring" where
  "issue_code_name Env_socket_url_invalid_format = js ''env_socket_url_invalid_format''"
| "issue_code_name Env_socket_url_requires_window_host = js ''env_socket_url_requires_window_host''"
| "issue_code_name Env_socket_url_unsupported_protocol = js ''env_socket_url_unsupported_protocol''"
| "issue_code_name Env_socket_url_required = js ''env_socket_url_required''"
| "issue_code_name Socket_url_invalid_format = js ''socket_url_invalid_format''"
| "issue_code_name Socket_url_unsupported_protocol = js ''socket_url_unsupported_protocol''"

fun detail_name :: "failure_detail \<Rightarrow> jsstring" where
  "detail_name Non_text_frame = js ''non_text_frame''"
| "detail_name Json_parse_error = js ''json_parse_error''"
| "detail_name Payload_not_object = js ''payload_not_object''"
| "detail_name Invalid_message_type = js ''invalid_message_type''"
| "detail_name Unsupported_message_type = js ''unsupported_message_type''"
| "detail_name Missing_ready_session_id = js ''missing_ready_session_id''"
| "detail_name Invalid_ready_read_only = js ''invalid_ready_read_only''"
| "detail_name Invalid_output_data = js ''invalid_output_data''"
| "detail_name Invalid_exit_payload = js ''invalid_exit_payload''"
| "detail_name Missing_error_message = js ''missing_error_message''"
| "detail_name Wire_version_mismatch = js ''wire_version_mismatch''"

fun operation_name :: "storage_operation \<Rightarrow> jsstring" where
  "operation_name Op_read = js ''read''"
| "operation_name Op_write = js ''write''"
| "operation_name Op_remove = js ''remove''"
| "operation_name Op_parse = js ''parse''"

text \<open>A string that is used as a condition is false when empty.\<close>

definition truthy :: "jsstring option \<Rightarrow> jsstring option" where
  "truthy t = (case t of Some s \<Rightarrow> if s \<noteq> [] then Some s else None | None \<Rightarrow> None)"

definition with_cause :: "string \<Rightarrow> jsstring option \<Rightarrow> jsstring" where
  "with_cause text cause =
     (case truthy cause of Some c \<Rightarrow> js text @ js '' ('' @ c @ js '').'' | None \<Rightarrow> js text @ js ''.'')"

definition toBootstrapNotice :: "jsstring \<Rightarrow> backend_issue_code option \<Rightarrow> jsstring" where
  "toBootstrapNotice details code =
     js ''Terminal bootstrap configuration error'' @
     (case code of Some c \<Rightarrow> js '' [code='' @ issue_code_name c @ js '']'' | None \<Rightarrow> []) @
     js '' ('' @ details @ js '').''"

definition toFullscreenNotice :: "host \<Rightarrow> jsval \<Rightarrow> jsstring" where
  "toFullscreenNotice H cause = with_cause ''Unable to toggle fullscreen mode'' (normalizeCauseToMessage H cause)"

definition toRuntimeNotice :: "host \<Rightarrow> jsstring option \<Rightarrow> jsval \<Rightarrow> jsstring" where
  "toRuntimeNotice H reason cause =
     (case truthy reason of
        Some r \<Rightarrow> js ''Unable to start terminal runtime ('' @ r @ js '').''
      | None \<Rightarrow> with_cause ''Unable to start terminal runtime'' (normalizeCauseToMessage H cause))"

fun toProtocolNotice :: "host \<Rightarrow> protocol_notice \<Rightarrow> jsstring" where
  "toProtocolNotice H (PN_unsupported_type rawType) =
     js ''Received an unsupported server message type'' @
     (case truthy rawType of Some t \<Rightarrow> js '' (type='' @ t @ js '')'' | None \<Rightarrow> []) @ js ''.''"
| "toProtocolNotice H (PN_malformed_payload detail cause) =
     (let detailSuffix = (case detail of Some d \<Rightarrow> js '' [detail='' @ detail_name d @ js '']'' | None \<Rightarrow> []);
          start = js ''Received a malformed server payload'' @ detailSuffix
      in case truthy (normalizeCauseToMessage H (case cause of Some c \<Rightarrow> c | None \<Rightarrow> J_undefined)) of
           Some c \<Rightarrow> start @ js '' ('' @ c @ js '').''
         | None \<Rightarrow> start @ js ''.'')"
| "toProtocolNotice H PN_empty_transport_message =
     js ''Received an empty transport payload; expected a JSON server message.''"
| "toProtocolNotice H PN_incompatible_version =
     js ''Server and client protocol versions are incompatible. Refresh to load the latest app version.''"
| "toProtocolNotice H (PN_malformed_transport_event d) = js ''Received malformed transport event ('' @ d @ js '').''"

fun toServerNotice :: "server_notice_reason \<Rightarrow> jsstring" where
  "toServerNotice Missing_code =
     js ''Server rejected request without an error code. Check server logs for details.''"
| "toServerNotice (Raw_code c) =
     js ''Server rejected request with code '' @ [39] @ c @ [39] @ js ''. Check server logs for details.''"
| "toServerNotice (Known_code Session_not_found) =
     js ''Selected session is no longer running on the server. Start a new session.''"
| "toServerNotice (Known_code Attach_forbidden) =
     js ''Server denied control attach. Switched to watch mode for safety.''"
| "toServerNotice (Known_code Incompatible_version_code) =
     js ''Client/server protocol versions are incompatible. Refresh the page and retry.''"
| "toServerNotice (Known_code Attach_required) =
     js ''Server requires an active session attach before sending terminal input or resize events.''"
| "toServerNotice (Known_code Read_only_forbidden) =
     js ''Server denied the action because this session is read-only.''"
| "toServerNotice (Known_code Session_not_writable) = js ''Server reported the active session is not writable.''"
| "toServerNotice (Known_code Session_not_resizable) = js ''Server reported the active session is not resizable.''"

text \<open>\<open>Math.round(ms / 1000)\<close>\<close>

definition round_seconds :: "int \<Rightarrow> int" where
  "round_seconds ms = \<lfloor>of_int ms / 1000 + (1 / 2 :: rat)\<rfloor>"

fun toSessionRefreshNotice :: "host \<Rightarrow> refresh_notice \<Rightarrow> jsstring" where
  "toSessionRefreshNotice H RN_generic = js ''Unable to refresh live sessions.''"
| "toSessionRefreshNotice H (RN_timeout ms) =
     js ''Unable to refresh live sessions (request timed out after '' @ js (int_digits (round_seconds ms)) @ js ''s).''"
| "toSessionRefreshNotice H (RN_http st) =
     js ''Unable to refresh live sessions (HTTP '' @ js (int_digits st) @ js '').''"
| "toSessionRefreshNotice H (RN_cause c) = with_cause ''Unable to refresh live sessions'' (normalizeCauseToMessage H c)"
| "toSessionRefreshNotice H RN_invalid_payload =
     js ''Session list response was malformed. Keeping the existing list until the next refresh.''"
| "toSessionRefreshNotice H RN_missing_sessions_array = js ''Session list response did not include a sessions array.''"
| "toSessionRefreshNotice H (RN_all_sessions_invalid n) =
     js ''Session list response contained only malformed entries ('' @ js (nat_digits n) @ js '').''"
| "toSessionRefreshNotice H (RN_too_many_invalid_sessions n t) =
     js ''Session list response contained too many malformed entries ('' @ js (nat_digits n) @ js ''/'' @
     js (nat_digits t) @ js '').''"
| "toSessionRefreshNotice H (RN_invalid_entries n) =
     js ''Skipped '' @ js (nat_digits n) @ js '' malformed session entr'' @ js (if n = 1 then ''y'' else ''ies'') @ js ''.''"
| "toSessionRefreshNotice H (RN_paused_after_failures n) =
     js ''Automatic session refresh paused after '' @ js (nat_digits n) @
     js '' consecutive failures. Retry by reopening the session menu.''"

definition toStorageNotice :: "storage_operation \<Rightarrow> jsstring \<Rightarrow> jsstring option \<Rightarrow> jsstring" where
  "toStorageNotice op key reason =
     js ''Browser storage '' @ operation_name op @ js '' failed for '' @ [39] @ key @ [39] @
     (case truthy reason of Some r \<Rightarrow> js '' ('' @ r @ js '')'' | None \<Rightarrow> []) @ js ''. In-memory state remains active.''"

fun transport_notice_text :: "transport_notice_reason \<Rightarrow> jsstring" where
  "transport_notice_text Attach_handshake_send_failed = js ''Connection problem during attach handshake.''"
| "transport_notice_text (Transport_failed Send_failed) = js ''Connection problem while sending terminal data.''"
| "transport_notice_text (Transport_failed Endpoint_unavailable) =
     js ''Connection problem: websocket endpoint unavailable.''"
| "transport_notice_text (Transport_failed Endpoint_invalid_format) =
     js ''Connection problem: websocket endpoint format is invalid.''"
| "transport_notice_text (Transport_failed Endpoint_unsupported_protocol) =
     js ''Connection problem: websocket endpoint protocol is unsupported.''"
| "transport_notice_text (Transport_failed Bootstrap_failed) = js ''Connection problem during transport bootstrap.''"
| "transport_notice_text (Transport_failed Socket_failure) = js ''Connection problem (transport failure).''"

fun join_spaces :: "jsstring list \<Rightarrow> jsstring" where
  "join_spaces [] = []"
| "join_spaces [p] = p"
| "join_spaces (p # q # ps) = p @ js '' '' @ join_spaces (q # ps)"

definition toTransportNotice :: "host \<Rightarrow> transport_notice \<Rightarrow> jsstring" where
  "toTransportNotice H n =
     (let message = transport_notice_text (tn_reasonCode n);
          detailMessage = (case (tn_noticeMessage n, tn_debugDetail n) of
              (Some m, _) \<Rightarrow> normalizeCauseToMessage H (J_str m)
            | (None, Some d) \<Rightarrow> normalizeCauseToMessage H (J_str d)
            | (None, None) \<Rightarrow> None);
          source_part = (case tn_source n of Some From_error \<Rightarrow> [js ''error''] | Some From_close \<Rightarrow> [js ''close''] | None \<Rightarrow> []);
          code_part = (case tn_code n of Some (Code_number q) \<Rightarrow> [js ''code='' @ number_text H q]
                       | Some (Code_string c) \<Rightarrow> [js ''code='' @ c] | None \<Rightarrow> []);
          detail_part = (case truthy detailMessage of Some d \<Rightarrow> [js ''detail='' @ d] | None \<Rightarrow> []);
          cause_part = (case truthy (normalizeCauseToMessage H (tn_cause n)) of
              Some c \<Rightarrow> if truthy detailMessage = None \<or> detailMessage \<noteq> Some c then [js ''cause='' @ c] else []
            | None \<Rightarrow> []);
          suffix = join_spaces (source_part @ code_part @ detail_part @ cause_part)
      in if suffix \<noteq> [] then message @ js '' ('' @ suffix @ js '')'' else message)"

fun toUserNotice :: "host \<Rightarrow> notice \<Rightarrow> jsstring" where
  "toUserNotice H (N_refresh d) = toSessionRefreshNotice H d"
| "toUserNotice H (N_storage op key reason) = toStorageNotice op key reason"
| "toUserNotice H (N_fullscreen c) = toFullscreenNotice H c"
| "toUserNotice H (N_runtime r c) = toRuntimeNotice H r c"
| "toUserNotice H (N_protocol d) = toProtocolNotice H d"
| "toUserNotice H (N_transport d) = toTransportNotice H d"
| "toUserNotice H (N_server d) = toServerNotice d"
| "toUserNotice H (N_bootstrap d code) = toBootstrapNotice d code"

end
