(* ===== verification/Io_Bridge.thy ===== *)
theory Io_Bridge
  imports Lifecycle Outbox Notices
begin

section \<open>Terminal runtime and input/output bridge\<close>

text \<open>
  \<open>runtime/runtime-orchestrator.ts\<close>, \<open>runtime/connection-input-backpressure.ts\<close> and
  \<open>runtime/connection-runtime-io-bridge.ts\<close>.  The React refs and states of the three hooks are
  fields of one record on top of the transport's.  The terminal widget (xterm) is third-party:
  the model keeps the calls made on it and its size; its \<open>fit\<close> is a parameter.  A hook's
  callback closes over the attach mode of the render it was made in, which is an explicit
  argument here, as is \<open>sendNow\<close>.
\<close>

datatype terminal_call = Term_write jsstring | Term_writeln jsstring | Term_clear

record terminal =
  term_cols :: int
  term_rows :: int
  term_font :: int
  term_calls :: "terminal_call list"

record io_bridge = lifecycle +
  termRef :: "terminal option"
  terminalReady :: bool
  outbox :: outbox_state
  pendingResize :: "(int \<times> int) option"
  runtimeFitSize :: "int \<times> int"
  queuedInputBytes :: int
  droppedInputBytes :: int
  outputBytes :: int

text \<open>A size is passed to the message creators as numbers.\<close>

definition as_num :: "int \<Rightarrow> jsnum" where
  "as_num i = Finite (of_int i)"

subsection \<open>useRuntimeOrchestrator\<close>

definition on_term :: "(terminal \<Rightarrow> terminal) \<Rightarrow> 'a io_bridge_scheme \<Rightarrow> 'a io_bridge_scheme" where
  "on_term f s = s\<lparr>termRef := map_option f (termRef s)\<rparr>"

definition term_call :: "terminal_call \<Rightarrow> terminal \<Rightarrow> terminal" where
  "term_call c t = t\<lparr>term_calls := term_calls t @ [c]\<rparr>"

definition clearTerminal :: "'a io_bridge_scheme \<Rightarrow> 'a io_bridge_scheme" where
  "clearTerminal s = on_term (term_call Term_clear) s"

text \<open>The escape sequence \<open>ESC c\<close>.\<close>

definition resetTerminal :: "'a io_bridge_scheme \<Rightarrow> 'a io_bridge_scheme" where
  "resetTerminal s = on_term (term_call (Term_write [0x1B, 99])) s"

definition writeOutput :: "jsstring \<Rightarrow> 'a io_bridge_scheme \<Rightarrow> nat \<times> 'a io_bridge_scheme" where
  "writeOutput d s =
     (case termRef s of
        None \<Rightarrow> (0, s)
      | Some _ \<Rightarrow> (utf8ByteLength d, on_term (term_call (Term_write d)) s))"

definition writeExit :: "nat \<Rightarrow> nat \<Rightarrow> 'a io_bridge_scheme \<Rightarrow> 'a io_bridge_scheme" where
  "writeExit code signal s =
     on_term (term_call (Term_writeln
       ([13, 10, 0x1B] @ js ''[33m[session ended: code='' @ js (nat_digits code) @ js '' signal='' @
        js (nat_digits signal) @ js '']'' @ [0x1B] @ js ''[0m''))) s"

definition writeServerError :: "jsstring \<Rightarrow> 'a io_bridge_scheme \<Rightarrow> 'a io_bridge_scheme" where
  "writeServerError message s =
     on_term (term_call (Term_writeln
       ([13, 10, 0x1B] @ js ''[31m[server error] '' @ message @ [0x1B] @ js ''[0m''))) s"

definition fitRuntimeAndSyncSize ::
  "(terminal \<Rightarrow> terminal) \<Rightarrow> (int \<Rightarrow> int \<Rightarrow> 'a io_bridge_scheme \<Rightarrow> 'a io_bridge_scheme) \<Rightarrow>
   'a io_bridge_scheme \<Rightarrow> 'a io_bridge_scheme" where
  "fitRuntimeAndSyncSize fit onResize s =
     (case termRef s of
        None \<Rightarrow> s
      | Some t \<Rightarrow> onResize (term_cols (fit t)) (term_rows (fit t)) (s\<lparr>termRef := Some (fit t)\<rparr>))"

definition updateFontSize ::
  "int \<Rightarrow> ('a io_bridge_scheme \<Rightarrow> 'a io_bridge_scheme) \<Rightarrow> 'a io_bridge_scheme \<Rightarrow> 'a io_bridge_scheme" where
  "updateFontSize fontSize onResized s =
     (case termRef s of
        None \<Rightarrow> s
      | Some t \<Rightarrow> onResized (s\<lparr>termRef := Some (t\<lparr>term_font := fontSize\<rparr>)\<rparr>))"

definition disposeRuntime :: "'a io_bridge_scheme \<Rightarrow> 'a io_bridge_scheme" where
  "disposeRuntime s = s\<lparr>termRef := None\<rparr>"

text \<open>
  What follows \<open>await loadRuntime()\<close>: the outcome is the mounted and fitted terminal or the value
  thrown; \<open>cancelled\<close> says that the effect was cleaned up in the meantime.
\<close>

definition finishSetup ::
  "(jsstring \<Rightarrow> jsval \<Rightarrow> 'a io_bridge_scheme \<Rightarrow> 'a io_bridge_scheme) \<Rightarrow> bool \<Rightarrow> jsval + terminal \<Rightarrow>
   'a io_bridge_scheme \<Rightarrow> 'a io_bridge_scheme" where
  "finishSetup onBootError cancelled outcome s =
     (if cancelled then s
      else case outcome of
          Inr t \<Rightarrow> s\<lparr>termRef := Some t, terminalReady := True\<rparr>
        | Inl error \<Rightarrow>
            (let s1 = disposeRuntime s;
                 reason = (case error of J_error m \<Rightarrow> if m \<noteq> [] then m else js ''runtime bootstrap failed''
                           | _ \<Rightarrow> js ''runtime bootstrap failed'');
                 s2 = onBootError reason error s1
             in s2\<lparr>terminalReady := False\<rparr>))"

definition cleanupRuntime :: "'a io_bridge_scheme \<Rightarrow> 'a io_bridge_scheme" where
  "cleanupRuntime s = disposeRuntime (s\<lparr>terminalReady := False\<rparr>)"

text \<open>
  \<open>readTranscript\<close> over the lines of the widget's buffer: a line is absent, or says whether it
  continues the line above and has a text.
\<close>

type_synonym buffer_line = "(bool \<times> jsstring) option"

fun transcript_loop ::
  "nat \<Rightarrow> buffer_line list \<Rightarrow> jsstring list \<Rightarrow> jsstring \<Rightarrow> jsstring list \<times> jsstring" where
  "transcript_loop i [] lines currentLine = (lines, currentLine)"
| "transcript_loop i (None # rest) lines currentLine = transcript_loop (Suc i) rest lines currentLine"
| "transcript_loop i (Some (isWrapped, text) # rest) lines currentLine =
     (if isWrapped then transcript_loop (Suc i) rest lines (currentLine @ text)
      else transcript_loop (Suc i) rest (if i > 0 then lines @ [currentLine] else lines) text)"

function pop_blank_lines :: "jsstring list \<Rightarrow> jsstring list" where
  "pop_blank_lines lines =
     (if length lines > 1 \<and> last lines = [] then pop_blank_lines (butlast lines) else lines)"
  by pat_completeness auto
termination by (relation "measure length") auto

declare pop_blank_lines.simps [simp del]

fun join_lines :: "jsstring list \<Rightarrow> jsstring" where
  "join_lines [] = []"
| "join_lines [l] = l"
| "join_lines (l # m # ls) = l @ [10] @ join_lines (m # ls)"

definition readTranscript :: "buffer_line list option \<Rightarrow> jsstring" where
  "readTranscript buffer =
     (case buffer of
        None \<Rightarrow> []
      | Some b \<Rightarrow> (let (lines, currentLine) = transcript_loop 0 b [] []
                  in join_lines (pop_blank_lines (lines @ [currentLine]))))"

subsection \<open>useConnectionInputBackpressure\<close>

definition sendResize ::
  "attach_mode \<Rightarrow> (client_message \<Rightarrow> 'a io_bridge_scheme \<Rightarrow> bool \<times> 'a io_bridge_scheme) \<Rightarrow>
   int \<Rightarrow> int \<Rightarrow> 'a io_bridge_scheme \<Rightarrow> 'a io_bridge_scheme" where
  "sendResize attachMode sendNow cols rows s =
     (let s1 = s\<lparr>runtimeFitSize := (cols, rows)\<rparr> in
      if attachMode = Watch then s1\<lparr>pendingResize := None\<rparr>
      else let (sent, s2) = sendNow (createResizeMessage (as_num cols) (as_num rows)) s1
           in s2\<lparr>pendingResize := if sent then None else Some (cols, rows)\<rparr>)"

definition flushPendingResize ::
  "(client_message \<Rightarrow> 'a io_bridge_scheme \<Rightarrow> bool \<times> 'a io_bridge_scheme) \<Rightarrow>
   'a io_bridge_scheme \<Rightarrow> 'a io_bridge_scheme" where
  "flushPendingResize sendNow s =
     (case pendingResize s of
        None \<Rightarrow> s
      | Some (cols, rows) \<Rightarrow>
          (let (sent, s1) = sendNow (createResizeMessage (as_num cols) (as_num rows)) s
           in if sent then s1\<lparr>pendingResize := None\<rparr> else s1))"

text \<open>\<open>flushOutbox\<close> on the hook's outbox, sending through \<open>sendNow\<close>.\<close>

definition flush_input ::
  "(client_message \<Rightarrow> 'a io_bridge_scheme \<Rightarrow> bool \<times> 'a io_bridge_scheme) \<Rightarrow>
   'a io_bridge_scheme \<Rightarrow> int \<times> 'a io_bridge_scheme" where
  "flush_input sendNow s =
     (case flushOutbox (\<lambda>t chunk. sendNow (createInputMessage chunk) t) (outbox s) s of
        (sentBytes, ob, s1) \<Rightarrow> (sentBytes, s1\<lparr>outbox := ob\<rparr>))"

definition show_outbox :: "'a io_bridge_scheme \<Rightarrow> 'a io_bridge_scheme" where
  "show_outbox s = s\<lparr>queuedInputBytes := ob_bytes (outbox s), droppedInputBytes := droppedBytes (outbox s)\<rparr>"

definition handleRuntimeInput ::
  "attach_mode \<Rightarrow> (client_message \<Rightarrow> 'a io_bridge_scheme \<Rightarrow> bool \<times> 'a io_bridge_scheme) \<Rightarrow>
   jsstring \<Rightarrow> 'a io_bridge_scheme \<Rightarrow> 'a io_bridge_scheme" where
  "handleRuntimeInput attachMode sendNow d s =
     (if attachMode = Watch then s
      else let (_, s1) = flush_input sendNow s;
               (sent, s2) = (if ob_bytes (outbox s1) > 0 then (False, s1) else sendNow (createInputMessage d) s1);
               s3 = (if sent then s2 else s2\<lparr>outbox := enqueueOutbox OUTBOX_MAX_BYTES (outbox s2) d\<rparr>)
           in show_outbox s3)"

definition flushQueuedInput ::
  "attach_mode \<Rightarrow> (client_message \<Rightarrow> 'a io_bridge_scheme \<Rightarrow> bool \<times> 'a io_bridge_scheme) \<Rightarrow>
   'a io_bridge_scheme \<Rightarrow> 'a io_bridge_scheme" where
  "flushQueuedInput attachMode sendNow s =
     (if attachMode = Watch
      then s\<lparr>outbox := resetOutbox (outbox s), queuedInputBytes := 0, droppedInputBytes := 0\<rparr>
      else let (sentBytes, s1) = flush_input sendNow s
           in if sentBytes > 0 then show_outbox s1 else s1)"

definition resetQueuedBuffers :: "'a io_bridge_scheme \<Rightarrow> 'a io_bridge_scheme" where
  "resetQueuedBuffers s =
     s\<lparr>outbox := resetOutbox (outbox s), pendingResize := None, queuedInputBytes := 0, droppedInputBytes := 0\<rparr>"

subsection \<open>useConnectionRuntimeIoBridge\<close>

definition handleRuntimeBootError ::
  "(notice \<Rightarrow> 's \<Rightarrow> 's) \<Rightarrow> ('s \<Rightarrow> 's) \<Rightarrow> jsstring \<Rightarrow> jsval \<Rightarrow> 's \<Rightarrow> 's" where
  "handleRuntimeBootError publishNotice onRuntimeBootError reason cause s =
     onRuntimeBootError (publishNotice (N_runtime (Some reason) cause) s)"

definition fitAndSyncSize ::
  "(terminal \<Rightarrow> terminal) \<Rightarrow> attach_mode \<Rightarrow>
   (client_message \<Rightarrow> 'a io_bridge_scheme \<Rightarrow> bool \<times> 'a io_bridge_scheme) \<Rightarrow>
   'a io_bridge_scheme \<Rightarrow> 'a io_bridge_scheme" where
  "fitAndSyncSize fit attachMode sendNow = fitRuntimeAndSyncSize fit (sendResize attachMode sendNow)"

definition flushAfterReady ::
  "attach_mode \<Rightarrow> (client_message \<Rightarrow> 'a io_bridge_scheme \<Rightarrow> bool \<times> 'a io_bridge_scheme) \<Rightarrow>
   bool \<Rightarrow> 'a io_bridge_scheme \<Rightarrow> 'a io_bridge_scheme" where
  "flushAfterReady attachMode sendNow readOnly s =
     (let s1 = (resetTerminal s)\<lparr>outputBytes := 0\<rparr> in
      if readOnly then resetQueuedBuffers s1
      else flushPendingResize sendNow (flushQueuedInput attachMode sendNow s1))"

definition writeOutputAndTrackBytes :: "jsstring \<Rightarrow> 'a io_bridge_scheme \<Rightarrow> 'a io_bridge_scheme" where
  "writeOutputAndTrackBytes d s =
     (let (bytes, s1) = writeOutput d s in s1\<lparr>outputBytes := outputBytes s1 + int bytes\<rparr>)"

definition resetRuntimeBuffers :: "'a io_bridge_scheme \<Rightarrow> 'a io_bridge_scheme" where
  "resetRuntimeBuffers s = (resetQueuedBuffers (resetTerminal s))\<lparr>outputBytes := 0\<rparr>"

subsection \<open>The transcript\<close>

text \<open>A logical line as the widget stores it: the first row, then the rows it wraps into.\<close>

definition wrapped_rows :: "jsstring \<times> jsstring list \<Rightarrow> buffer_line list" where
  "wrapped_rows l = Some (False, fst l) # map (\<lambda>t. Some (True, t)) (snd l)"

definition logical_text :: "jsstring \<times> jsstring list \<Rightarrow> jsstring" where
  "logical_text l = fst l @ concat (snd l)"

lemma transcript_conts:
  "transcript_loop i (map (\<lambda>t. Some (True, t)) ts @ rest) ls c = transcript_loop (i + length ts) rest ls (c @ concat ts)"
  by (induction ts arbitrary: i c) simp_all

lemma transcript_rows:
  "transcript_loop (Suc i) (concat (map wrapped_rows lines)) acc c =
     (acc @ butlast (c # map logical_text lines), last (c # map logical_text lines))"
proof (induction lines arbitrary: i acc c)
  case (Cons l lines)
  have "transcript_loop (Suc i) (concat (map wrapped_rows (l # lines))) acc c =
      transcript_loop (Suc (Suc (i + length (snd l)))) (concat (map wrapped_rows lines)) (acc @ [c]) (logical_text l)"
    by (simp add: wrapped_rows_def transcript_conts logical_text_def)
  then show ?case using Cons.IH by simp
qed simp

text \<open>The transcript does not depend on how the widget wrapped the lines: for any rows that come from logical lines,
  it is these lines joined by newlines, without the blank lines at the end.\<close>

theorem transcript_ignores_wrapping:
  "readTranscript (Some (concat (map wrapped_rows (l # lines)))) =
     join_lines (pop_blank_lines (map logical_text (l # lines)))"
proof -
  have "transcript_loop 0 (concat (map wrapped_rows (l # lines))) [] [] =
      transcript_loop (Suc (length (snd l))) (concat (map wrapped_rows lines)) [] (logical_text l)"
    by (simp add: wrapped_rows_def transcript_conts logical_text_def)
  also have "\<dots> = (butlast (map logical_text (l # lines)), last (map logical_text (l # lines)))"
    by (simp only: transcript_rows list.map append_Nil)
  finally show ?thesis
    by (simp add: readTranscript_def append_butlast_last_id del: concat.simps butlast.simps last.simps)
qed

end
