(* ===== verification/Coordinator.thy ===== *)
theory Coordinator
  imports Io_Bridge
begin

section \<open>Message gateway and connection coordinator\<close>

text \<open>
  \<open>protocol/connection-status-projector.ts\<close>, \<open>protocol/connection-message-policy.ts\<close>,
  \<open>protocol/connection-message-gateway.ts\<close> and \<open>connection-coordinator.ts\<close>.  The calls made on the
  session orchestrator, another component, go to a log, in their order; publishing a notice is one of them.
  What the handlers close over at render time is the record \<open>render_view\<close>.
\<close>

subsection \<open>The status projector\<close>

record status_state =
  ss_transportStatus :: connection_status
  ss_statusFlag :: "connection_status_flag option"
  ss_status :: connection_status

datatype status_event = Transport_status connection_status | Status_flag "connection_status_flag option"

definition initialConnectionStatusState :: status_state where
  "initialConnectionStatusState =
     \<lparr>ss_transportStatus = Connecting, ss_statusFlag = None, ss_status = Connecting\<rparr>"

definition projectStatus :: "connection_status \<Rightarrow> connection_status_flag option \<Rightarrow> connection_status" where
  "projectStatus transportStatus statusFlag =
     (case statusFlag of
        None \<Rightarrow> transportStatus
      | Some f \<Rightarrow>
          if f = Runtime_error \<or> f = Protocol_incompatible then Error
          else if f = Flag_session_not_found \<or> f = Remote_exit
               then (if transportStatus = Connected then Closed else transportStatus)
          else transportStatus)"

fun reduceConnectionStatusState :: "status_state \<Rightarrow> status_event \<Rightarrow> status_state" where
  "reduceConnectionStatusState s (Transport_status next) =
     (let nextFlag = (if next = Connected then None else ss_statusFlag s);
          nextStatus = projectStatus next nextFlag
      in if next = ss_transportStatus s \<and> nextFlag = ss_statusFlag s \<and> nextStatus = ss_status s then s
         else \<lparr>ss_transportStatus = next, ss_statusFlag = nextFlag, ss_status = nextStatus\<rparr>)"
| "reduceConnectionStatusState s (Status_flag nextFlag) =
     (let nextStatus = projectStatus (ss_transportStatus s) nextFlag
      in if nextFlag = ss_statusFlag s \<and> nextStatus = ss_status s then s
         else s\<lparr>ss_statusFlag := nextFlag, ss_status := nextStatus\<rparr>)"

subsection \<open>State\<close>

datatype session_call =
    Apply_ready_session jsstring bool
  | Clear_missing_session
  | Set_session_mode attach_mode
  | Request_transport_refresh
  | Publish_notice notice

record coordinator = io_bridge +
  statusState :: status_state
  session_calls :: "session_call list"
  previousWsUrl :: "jsstring option"

record render_view =
  rv_sessionId :: "jsstring option"
  rv_attachMode :: attach_mode

definition call_session :: "session_call \<Rightarrow> 'a coordinator_scheme \<Rightarrow> 'a coordinator_scheme" where
  "call_session c s = s\<lparr>session_calls := session_calls s @ [c]\<rparr>"

definition publishNotice :: "notice \<Rightarrow> 'a coordinator_scheme \<Rightarrow> 'a coordinator_scheme" where
  "publishNotice n = call_session (Publish_notice n)"

definition dispatchStatusEvent :: "status_event \<Rightarrow> 'a coordinator_scheme \<Rightarrow> 'a coordinator_scheme" where
  "dispatchStatusEvent e s = s\<lparr>statusState := reduceConnectionStatusState (statusState s) e\<rparr>"

definition setStatusFlag :: "connection_status_flag option \<Rightarrow> 'a coordinator_scheme \<Rightarrow> 'a coordinator_scheme" where
  "setStatusFlag f = dispatchStatusEvent (Status_flag f)"

subsection \<open>Sending\<close>

definition reportSocketFailure :: "transport_failure \<Rightarrow> 'a coordinator_scheme \<Rightarrow> 'a coordinator_scheme" where
  "reportSocketFailure f =
     publishNotice (N_transport
       \<lparr>tn_reasonCode = Transport_failed (case tf_reasonCode f of Some r \<Rightarrow> r | None \<Rightarrow> Socket_failure),
        tn_source = Some (tf_source f), tn_code = tf_code f, tn_debugDetail = tf_technicalDetail f,
        tn_noticeMessage = tf_noticeMessage f,
        tn_cause = (case tf_cause f of Some c \<Rightarrow> c | None \<Rightarrow> J_undefined)\<rparr>)"

definition sendNow :: "host \<Rightarrow> client_message \<Rightarrow> 'a coordinator_scheme \<Rightarrow> bool \<times> 'a coordinator_scheme" where
  "sendNow H p s = sendPayload H reportSocketFailure p s"

subsection \<open>The message policy\<close>

definition handleIncomingServerMessage ::
  "host \<Rightarrow> ('s \<Rightarrow> 's) \<Rightarrow> (protocol_failure \<Rightarrow> 's \<Rightarrow> 's) \<Rightarrow> (jsstring \<Rightarrow> bool \<Rightarrow> 's \<Rightarrow> 's) \<Rightarrow> (jsstring \<Rightarrow> 's \<Rightarrow> 's) \<Rightarrow>
   (nat \<Rightarrow> nat \<Rightarrow> 's \<Rightarrow> 's) \<Rightarrow> (jsstring \<Rightarrow> server_error_code option \<Rightarrow> jsstring option \<Rightarrow> 's \<Rightarrow> 's) \<Rightarrow> ('s \<Rightarrow> 's) \<Rightarrow>
   jsstring \<Rightarrow> 's \<Rightarrow> 's" where
  "handleIncomingServerMessage H onEmptyPayload onProtocolFailure onReady onOutput onExit onServerError onPong rawData s =
     (if rawData = [] then onEmptyPayload s
      else case parseServerMessageWithReason (json_parse H) (J_str rawData) of
          Inl failure \<Rightarrow> onProtocolFailure failure s
        | Inr (Ready sid readOnly) \<Rightarrow> onReady sid readOnly s
        | Inr (Output d) \<Rightarrow> onOutput d s
        | Inr (Exit code signal) \<Rightarrow> onExit code signal s
        | Inr (Server_error message code rawCode) \<Rightarrow> onServerError message code rawCode s
        | Inr Pong \<Rightarrow> onPong s)"

subsection \<open>The message gateway\<close>

definition handleServerError ::
  "jsstring \<Rightarrow> server_error_code option \<Rightarrow> jsstring option \<Rightarrow> 'a coordinator_scheme \<Rightarrow> 'a coordinator_scheme" where
  "handleServerError message code rawCode s =
     (let s1 = writeServerError message s;
          policy = resolveServerErrorPolicy code rawCode;
          s2 = publishNotice (toServerPolicyNotice (sp_notice policy)) s1;
          s3 = (if sp_clearMissingSession policy then call_session Clear_missing_session s2 else s2);
          s4 = (case sp_nextAttachMode policy of Some m \<Rightarrow> call_session (Set_session_mode m) s3 | None \<Rightarrow> s3);
          s5 = (case sp_statusFlag policy of Some f \<Rightarrow> setStatusFlag (Some f) s4 | None \<Rightarrow> s4)
      in if sp_refreshSessions policy then call_session Request_transport_refresh s5 else s5)"

definition onReady ::
  "host \<Rightarrow> render_view \<Rightarrow> jsstring \<Rightarrow> bool \<Rightarrow> 'a coordinator_scheme \<Rightarrow> 'a coordinator_scheme" where
  "onReady H rv sid readOnly s =
     call_session Request_transport_refresh
       (flushAfterReady (rv_attachMode rv) (sendNow H) readOnly
         (setStatusFlag None (call_session (Apply_ready_session sid readOnly) s)))"

definition onProtocolFailure :: "protocol_failure \<Rightarrow> 'a coordinator_scheme \<Rightarrow> 'a coordinator_scheme" where
  "onProtocolFailure f s =
     (let s1 = publishNotice (toProtocolFailureNotice f) s
      in if pf_reason f = Incompatible_version then setStatusFlag (Some Protocol_incompatible) s1 else s1)"

definition handleSocketMessage ::
  "host \<Rightarrow> render_view \<Rightarrow> jsstring \<Rightarrow> 'a coordinator_scheme \<Rightarrow> 'a coordinator_scheme" where
  "handleSocketMessage H rv =
     handleIncomingServerMessage H
       (publishNotice (N_protocol PN_empty_transport_message))
       onProtocolFailure
       (onReady H rv)
       writeOutputAndTrackBytes
       (\<lambda>code signal s. setStatusFlag (Some Remote_exit) (writeExit code signal s))
       handleServerError
       lc_markPong"

subsection \<open>The coordinator's handlers\<close>

definition onOpen :: "host \<Rightarrow> render_view \<Rightarrow> 'a coordinator_scheme \<Rightarrow> 'a coordinator_scheme" where
  "onOpen H rv s =
     (let s1 = setStatusFlag None s;
          (attachSent, s2) = sendNow H (createAttachMessage (as_num (fst (runtimeFitSize s1)))
             (as_num (snd (runtimeFitSize s1))) (rv_sessionId rv) (Some (rv_attachMode rv = Watch))) s1
      in if attachSent then s2
         else publishNotice (N_transport
           \<lparr>tn_reasonCode = Attach_handshake_send_failed, tn_source = None, tn_code = None, tn_debugDetail = None,
            tn_noticeMessage = None, tn_cause = J_undefined\<rparr>) s2)"

definition onMessage :: "host \<Rightarrow> render_view \<Rightarrow> message_event \<Rightarrow> 'a coordinator_scheme \<Rightarrow> 'a coordinator_scheme" where
  "onMessage H rv ev s =
     (case truthy (me_malformed ev) of
        Some d \<Rightarrow> publishNotice (N_protocol (PN_malformed_transport_event d)) s
      | None \<Rightarrow> handleSocketMessage H rv (me_data ev) s)"

definition transportHandlers :: "host \<Rightarrow> render_view \<Rightarrow> 'a coordinator_scheme handlers" where
  "transportHandlers H rv = \<lparr>h_open = onOpen H rv, h_message = onMessage H rv, h_failure = reportSocketFailure\<rparr>"

subsection \<open>Commands and effects of the coordinator\<close>

definition coordinatorBootError :: "'a coordinator_scheme \<Rightarrow> 'a coordinator_scheme" where
  "coordinatorBootError s = dispatchStatusEvent (Status_flag (Some Runtime_error)) s"

definition coordinatorReconnectNow :: "host \<Rightarrow> render_view \<Rightarrow> 'a coordinator_scheme \<Rightarrow> 'a coordinator_scheme" where
  "coordinatorReconnectNow H rv s =
     reconnectNow H (transportHandlers H rv) (dispatchStatusEvent (Status_flag None) s)"

definition coordinatorFreshConnection :: "host \<Rightarrow> render_view \<Rightarrow> 'a coordinator_scheme \<Rightarrow> 'a coordinator_scheme" where
  "coordinatorFreshConnection H rv s =
     scheduleFreshConnection H (transportHandlers H rv) (dispatchStatusEvent (Status_flag None) s)"

definition connectEffect ::
  "host \<Rightarrow> render_view \<Rightarrow> bool \<Rightarrow> 'a coordinator_scheme \<Rightarrow> 'a coordinator_scheme" where
  "connectEffect H rv transportEnabled s =
     (if \<not> terminalReady s \<or> \<not> transportEnabled then s else connect H (transportHandlers H rv) s)"

definition endpointEffect ::
  "host \<Rightarrow> render_view \<Rightarrow> bool \<Rightarrow> jsstring option \<Rightarrow> 'a coordinator_scheme \<Rightarrow> 'a coordinator_scheme" where
  "endpointEffect H rv transportEnabled u s =
     (if \<not> terminalReady s \<or> \<not> transportEnabled then s\<lparr>previousWsUrl := u\<rparr>
      else if previousWsUrl s = u then s
      else reconnectWithEndpointChange H (transportHandlers H rv) (s\<lparr>previousWsUrl := u\<rparr>))"

definition statusEffect :: "'a coordinator_scheme \<Rightarrow> 'a coordinator_scheme" where
  "statusEffect s = dispatchStatusEvent (Transport_status (ts_status (tstate s))) s"

definition coordinatorStatus :: "bool \<Rightarrow> 'a coordinator_scheme \<Rightarrow> connection_status" where
  "coordinatorStatus bootstrapFailure s = (if bootstrapFailure then Error else ss_status (statusState s))"

definition initialCoordinator :: "int \<Rightarrow> jsstring option \<Rightarrow> coordinator" where
  "initialCoordinator wallClock u =
     \<lparr>sched = new_scheduler wallClock, tstate = initialTransportState,
      ready = (\<lambda>_. RS_closed), next_socket = 0, opened_urls = [], listeners = [], wire = [], close_calls = [],
      create_throws = None, send_throws = None,
      socket = None, detachListeners = None, generation = 0, closeIntent = Normal,
      pingTimer = None, pongTimeout = None, pingSentAt = None,
      socketFailureNotice = None, socketErrorGeneration = None,
      reconnectTimer = None, wsUrl = None, hasSessionContext = False,
      termRef = None, terminalReady = False, outbox = createOutbox, pendingResize = None, runtimeFitSize = (80, 24),
      queuedInputBytes = 0, droppedInputBytes = 0, outputBytes = 0,
      statusState = initialConnectionStatusState, session_calls = [], previousWsUrl = u\<rparr>"

subsection \<open>Runs of the coordinator\<close>

text \<open>
  A step is a step of the transport under it, a command or effect of the hook, or an event of
  the terminal widget.  Each step comes with the render view its closures captured.
\<close>

datatype coordinator_step =
    Transport_step transport_step
  | User_reconnect
  | User_fresh_session
  | Connect_effect bool
  | Endpoint_effect bool "jsstring option"
  | Status_effect
  | Key_input jsstring
  | Fit
  | Font_size int
  | Setup_settled bool "jsval + terminal"
  | Runtime_cleanup
  | Clear_screen
  | Reset_buffers

fun coordinator_run_step ::
  "host \<Rightarrow> (terminal \<Rightarrow> terminal) \<Rightarrow> render_view \<Rightarrow> coordinator_step \<Rightarrow>
   'a coordinator_scheme \<Rightarrow> 'a coordinator_scheme" where
  "coordinator_run_step H fit rv (Transport_step e) s = transport_run_step H (transportHandlers H rv) e s"
| "coordinator_run_step H fit rv User_reconnect s = coordinatorReconnectNow H rv s"
| "coordinator_run_step H fit rv User_fresh_session s = coordinatorFreshConnection H rv s"
| "coordinator_run_step H fit rv (Connect_effect enabled) s = connectEffect H rv enabled s"
| "coordinator_run_step H fit rv (Endpoint_effect enabled u) s = endpointEffect H rv enabled u s"
| "coordinator_run_step H fit rv Status_effect s = statusEffect s"
| "coordinator_run_step H fit rv (Key_input d) s = handleRuntimeInput (rv_attachMode rv) (sendNow H) d s"
| "coordinator_run_step H fit rv Fit s = fitAndSyncSize fit (rv_attachMode rv) (sendNow H) s"
| "coordinator_run_step H fit rv (Font_size n) s =
     updateFontSize n (fitAndSyncSize fit (rv_attachMode rv) (sendNow H)) s"
| "coordinator_run_step H fit rv (Setup_settled cancelled outcome) s =
     finishSetup (handleRuntimeBootError publishNotice coordinatorBootError) cancelled outcome s"
| "coordinator_run_step H fit rv Runtime_cleanup s = cleanupRuntime s"
| "coordinator_run_step H fit rv Clear_screen s = clearTerminal s"
| "coordinator_run_step H fit rv Reset_buffers s = resetRuntimeBuffers s"

definition coordinator_run ::
  "host \<Rightarrow> (terminal \<Rightarrow> terminal) \<Rightarrow> (render_view \<times> coordinator_step) list \<Rightarrow>
   'a coordinator_scheme \<Rightarrow> 'a coordinator_scheme" where
  "coordinator_run H fit es s = fold (\<lambda>(rv, e). coordinator_run_step H fit rv e) es s"

end
