(* ===== verification/Lifecycle_Laws.thy ===== *)
theory Lifecycle_Laws
  imports Lifecycle
begin

section \<open>Laws of the transport lifecycle\<close>

text \<open>
  The invariant of the service, the interface \<open>transport_client\<close> its owner has to meet, and
  inside that interface: every step keeps the invariant.
\<close>

subsection \<open>Specification vocabulary\<close>

text \<open>The timers of the service, by label; the ping interval and the reconnect timer are live
  for as long as the service holds their handle.\<close>

definition slots_of :: "nat option \<Rightarrow> nat option \<Rightarrow> nat option \<Rightarrow> transport_task \<times> bool \<Rightarrow> nat option" where
  "slots_of p q r =
     (\<lambda>l. None)((Ping_tick, True) := p, (Pong_deadline, False) := q, (Reconnect_task, False) := r)"

definition live_slots :: "(transport_task \<times> bool) set" where
  "live_slots = {(Ping_tick, True), (Reconnect_task, False)}"

definition slots_ok :: "'a lifecycle_scheme \<Rightarrow> transport_task scheduler \<Rightarrow> bool" where
  "slots_ok s sc \<longleftrightarrow>
     slot_inv live_slots (slots_of (pingTimer s) (pongTimeout s) (reconnectTimer s)) (pending sc) (issued sc)"

definition timers_inv :: "'a lifecycle_scheme \<Rightarrow> bool" where
  "timers_inv s \<longleftrightarrow> slots_ok s (sched s) \<and>
     (pongTimeout s \<noteq> None \<longrightarrow> pingTimer s \<noteq> None) \<and> (pingTimer s \<noteq> None \<longrightarrow> socket s \<noteq> None)"

lemma slots_of_simps [simp]:
  "slots_of p q r (Ping_tick, b) = (if b then p else None)"
  "slots_of p q r (Pong_deadline, b) = (if b then None else q)"
  "slots_of p q r (Reconnect_task, b) = (if b then None else r)"
  "(slots_of p q r)((Ping_tick, True) := x) = slots_of x q r"
  "(slots_of p q r)((Pong_deadline, False) := x) = slots_of p x r"
  "(slots_of p q r)((Reconnect_task, False) := x) = slots_of p q x"
  by (auto simp: slots_of_def fun_eq_iff)

lemma slots_of_none: "slots_of None None None = (\<lambda>l. None)"
  by (simp add: slots_of_def fun_eq_iff)

definition websocket_url :: "host \<Rightarrow> jsstring \<Rightarrow> bool" where
  "websocket_url H u \<longleftrightarrow> (case url_parse H u of None \<Rightarrow> False | Some p \<Rightarrow> url_protocol p \<in> {js ''ws:'', js ''wss:''})"

definition core_inv :: "host \<Rightarrow> 'a lifecycle_scheme \<Rightarrow> bool" where
  "core_inv H s \<longleftrightarrow> session_inv s \<and> timers_inv s \<and> reconnectAttempt (tstate s) \<le> MAX_ATTEMPTS \<and>
     (\<forall>(k, u) \<in> set (opened_urls s). websocket_url H u)"

definition lc_inv :: "host \<Rightarrow> 'a lifecycle_scheme \<Rightarrow> bool" where
  "lc_inv H s \<longleftrightarrow> core_inv H s \<and> (ts_status (tstate s) = Connected \<longrightarrow> socket s \<noteq> None)"

text \<open>What the callbacks of the owner leave alone: sockets, timers other than the pong time-out,
  and the reconnect counter.\<close>

definition same_sockets :: "'a lifecycle_scheme \<Rightarrow> 'b lifecycle_scheme \<Rightarrow> bool" where
  "same_sockets s t \<longleftrightarrow>
     socket t = socket s \<and> detachListeners t = detachListeners s \<and> generation t = generation s \<and>
     closeIntent t = closeIntent s \<and> listeners t = listeners s \<and> ready t = ready s \<and>
     next_socket t = next_socket s \<and> opened_urls t = opened_urls s \<and>
     reconnectTimer t = reconnectTimer s \<and> pingTimer t = pingTimer s \<and>
     reconnectAttempt (tstate t) = reconnectAttempt (tstate s)"

definition same_timers :: "'a lifecycle_scheme \<Rightarrow> 'b lifecycle_scheme \<Rightarrow> bool" where
  "same_timers s t \<longleftrightarrow> sched t = sched s \<and> pongTimeout t = pongTimeout s"

lemma same_sockets_refl [simp]: "same_sockets s s" and same_timers_refl [simp]: "same_timers s s"
  by (simp_all add: same_sockets_def same_timers_def)

lemma same_sockets_trans: "same_sockets s t \<Longrightarrow> same_sockets t u \<Longrightarrow> same_sockets s u"
  and same_timers_trans: "same_timers s t \<Longrightarrow> same_timers t u \<Longrightarrow> same_timers s u"
  by (simp_all add: same_sockets_def same_timers_def)

lemma session_inv_cong:
  "socket t = socket s \<Longrightarrow> detachListeners t = detachListeners s \<Longrightarrow> generation t = generation s \<Longrightarrow>
   closeIntent t = closeIntent s \<Longrightarrow> listeners t = listeners s \<Longrightarrow> ready t = ready s \<Longrightarrow>
   next_socket t = next_socket s \<Longrightarrow> session_inv t = session_inv s"
  by (cases "socket s") (auto simp: session_inv_def)

lemma core_attempts: "core_inv H s \<Longrightarrow> reconnectAttempt (tstate s) \<le> MAX_ATTEMPTS"
  by (simp add: core_inv_def)

lemma session_inv_same: "same_sockets s t \<Longrightarrow> session_inv t = session_inv s"
  by (rule session_inv_cong) (simp_all add: same_sockets_def)

lemma timers_inv_same: "same_sockets s t \<Longrightarrow> same_timers s t \<Longrightarrow> timers_inv t = timers_inv s"
  by (simp add: same_sockets_def same_timers_def timers_inv_def slots_ok_def)

lemma core_inv_same: "same_sockets s t \<Longrightarrow> same_timers s t \<Longrightarrow> core_inv H s \<Longrightarrow> core_inv H t"
  using session_inv_same [of s t] timers_inv_same [of s t] by (simp add: core_inv_def same_sockets_def)

lemma lc_inv_same:
  "same_sockets s t \<Longrightarrow> same_timers s t \<Longrightarrow>
   (ts_status (tstate t) = Connected \<Longrightarrow> socket s \<noteq> None) \<Longrightarrow> lc_inv H s \<Longrightarrow> lc_inv H t"
  using core_inv_same [of s t H] by (auto simp: lc_inv_def same_sockets_def)

lemma core_inv_dispatch:
  "core_inv H s \<Longrightarrow> reconnectAttempt (reduceTransportState (tstate s) e) \<le> MAX_ATTEMPTS \<Longrightarrow> core_inv H (dispatchEvent e s)"
  by (cases "socket s") (auto simp: core_inv_def timers_inv_def slots_ok_def session_inv_def dispatchEvent_def simp del: rs_le)

text \<open>The operations of the socket session do not touch the layers above it.\<close>

lemma session_upper [simp]:
  "pingTimer (clear_session s) = pingTimer s" "pongTimeout (clear_session s) = pongTimeout s"
  "reconnectTimer (clear_session t) = reconnectTimer t" "wsUrl (clear_session t) = wsUrl t"
  "hasSessionContext (clear_session t) = hasSessionContext t"
  "pingTimer (attach k s) = pingTimer s" "pongTimeout (attach k s) = pongTimeout s"
  "reconnectTimer (attach k t) = reconnectTimer t" "wsUrl (attach k t) = wsUrl t"
  "hasSessionContext (attach k t) = hasSessionContext t"
  "pingTimer (socket_close k c r s) = pingTimer s" "pongTimeout (socket_close k c r s) = pongTimeout s"
  "reconnectTimer (socket_close k c r t) = reconnectTimer t" "wsUrl (socket_close k c r t) = wsUrl t"
  "hasSessionContext (socket_close k c r t) = hasSessionContext t"
  by (simp_all add: attach_def bindSocketHandlers_def clear_session_def socket_close_def Let_def split: option.split)

lemma abandoned_same: "same_sockets s t \<Longrightarrow> abandoned t = abandoned s"
  by (simp add: same_sockets_def abandoned_def)

subsection \<open>Heartbeat\<close>

definition stop_sched :: "'a heartbeat_scheme \<Rightarrow> transport_task scheduler" where
  "stop_sched s =
     (let sc = (case pingTimer s of None \<Rightarrow> sched s | Some h \<Rightarrow> clearTimeout h (sched s))
      in case pongTimeout s of None \<Rightarrow> sc | Some h \<Rightarrow> clearTimeout h sc)"

lemma hb_stop_eq: "hb_stop s = s\<lparr>sched := stop_sched s, pingTimer := None, pongTimeout := None\<rparr>"
  by (simp add: hb_stop_def clearPongTimeout_def stop_sched_def Let_def clearInterval_def split: option.split)

lemma hb_start_eq:
  "hb_start s = s\<lparr>sched := snd (setInterval Ping_tick HEARTBEAT_INTERVAL (stop_sched s)),
     pingTimer := Some (fst (setInterval Ping_tick HEARTBEAT_INTERVAL (stop_sched s))), pongTimeout := None\<rparr>"
  by (simp add: hb_start_def hb_stop_eq Let_def split: prod.split)

lemma markPong_eq:
  "hb_markPong s = s\<lparr>
     sched := (case pongTimeout s of None \<Rightarrow> sched s | Some h \<Rightarrow> clearTimeout h (sched s)), pongTimeout := None,
     tstate := (case pingSentAt s of None \<Rightarrow> tstate s
                | Some t \<Rightarrow> reduceTransportState (tstate s) (Latency (now (sched s) - t))),
     pingSentAt := None\<rparr>"
  by (auto simp: hb_markPong_def clearPongTimeout_def dispatchEvent_def split: option.split)

lemma stop_slots: "slots_ok s (sched s) \<Longrightarrow> slots_ok (hb_stop s) (stop_sched s)"
proof -
  assume ok: "slots_ok s (sched s)"
  let ?sc = "case pingTimer s of None \<Rightarrow> sched s | Some h \<Rightarrow> clearTimeout h (sched s)"
  have "slot_inv live_slots (slots_of None (pongTimeout s) (reconnectTimer s)) (pending ?sc) (issued ?sc)"
    using ok browser.slot_clear [where l = "(Ping_tick, True)" and s = "sched s"]
    by (fastforce simp: slots_ok_def split: option.split)
  then show ?thesis
    using browser.slot_clear [where l = "(Pong_deadline, False)" and s = ?sc]
    by (fastforce simp: slots_ok_def hb_stop_eq stop_sched_def Let_def split: option.split)
qed

lemma timers_inv_stop: "timers_inv s \<Longrightarrow> timers_inv (hb_stop s)"
  using stop_slots [of s] by (simp add: timers_inv_def hb_stop_eq)

lemma timers_inv_start: "timers_inv s \<Longrightarrow> socket s \<noteq> None \<Longrightarrow> timers_inv (hb_start s)"
proof -
  assume inv: "timers_inv s" and sock: "socket s \<noteq> None"
  obtain h sc where hs: "setInterval Ping_tick HEARTBEAT_INTERVAL (stop_sched s) = (h, sc)" by fastforce
  have "slot_inv live_slots (slots_of (Some h) None (reconnectTimer s)) (pending sc) (issued sc)"
    using browser.slot_interval [OF _ _ hs, of live_slots "slots_of None None (reconnectTimer s)"] stop_slots [of s] inv
    by (simp add: timers_inv_def slots_ok_def hb_stop_eq)
  with hs sock show ?thesis by (simp add: timers_inv_def slots_ok_def hb_start_eq)
qed

lemma timers_inv_markPong: "timers_inv s \<Longrightarrow> timers_inv (hb_markPong s)"
  using browser.slot_clear [where l = "(Pong_deadline, False)" and s = "sched s"]
  by (cases "pongTimeout s") (fastforce simp: timers_inv_def slots_ok_def markPong_eq)+

lemma markPong_same: "same_sockets s (hb_markPong s)"
  by (simp add: same_sockets_def markPong_eq split: option.split)

subsection \<open>Timers of the commands\<close>

lemma core_inv_stop: "core_inv H s \<Longrightarrow> core_inv H (hb_stop s)"
  using timers_inv_stop [of s] session_inv_cong [of "hb_stop s" s] by (simp add: core_inv_def hb_stop_eq)

lemma core_inv_start: "core_inv H s \<Longrightarrow> socket s \<noteq> None \<Longrightarrow> core_inv H (hb_start s)"
  using timers_inv_start [of s] session_inv_cong [of "hb_start s" s] by (simp add: core_inv_def hb_start_eq)

lemma clearReconnect_eq:
  "clearReconnectTimer s =
     s\<lparr>sched := (case reconnectTimer s of None \<Rightarrow> sched s | Some h \<Rightarrow> clearTimeout h (sched s)), reconnectTimer := None\<rparr>"
  by (simp add: clearReconnectTimer_def split: option.split)

lemma core_inv_clearReconnect: "core_inv H s \<Longrightarrow> core_inv H (clearReconnectTimer s)"
proof -
  assume inv: "core_inv H s"
  then have "timers_inv (clearReconnectTimer s)"
    using browser.slot_clear [where l = "(Reconnect_task, False)" and s = "sched s"]
    by (cases "reconnectTimer s") (fastforce simp: core_inv_def timers_inv_def slots_ok_def clearReconnect_eq)+
  with inv show ?thesis by (auto simp: core_inv_def session_inv_def clearReconnect_eq split: option.split)
qed

lemma core_inv_schedule: "core_inv H s \<Longrightarrow> core_inv H (scheduleReconnect d s)"
proof -
  assume inv: "core_inv H s"
  let ?s1 = "clearReconnectTimer s"
  obtain h sc where hs: "setTimeout Reconnect_task d (sched ?s1) = (h, sc)" by fastforce
  have inv1: "core_inv H ?s1" "reconnectTimer ?s1 = None"
    using core_inv_clearReconnect [OF inv] by simp (simp add: clearReconnect_eq)
  then have "slot_inv live_slots (slots_of (pingTimer ?s1) (pongTimeout ?s1) (Some h)) (pending sc) (issued sc)"
    using browser.slot_timeout [OF _ _ hs, of live_slots "slots_of (pingTimer ?s1) (pongTimeout ?s1) None"]
    by (simp add: core_inv_def timers_inv_def slots_ok_def)
  with inv1 hs show ?thesis
    by (auto simp: core_inv_def timers_inv_def slots_ok_def session_inv_def scheduleReconnect_def Let_def split: option.splits)
qed

text \<open>Every command first drops all timers.\<close>

definition quiesce :: "bool \<Rightarrow> 'a lifecycle_scheme \<Rightarrow> 'a lifecycle_scheme" where
  "quiesce b s = hb_stop (if b then dispatchEvent Clear_reconnect_attempts (clearReconnectTimer s) else clearReconnectTimer s)"

lemma command_eq:
  "executeLifecycleCommand b tryClose fallback s =
     (case tryClose (quiesce b s) of (done, s1) \<Rightarrow> if done then s1 else fallback s1)"
  by (simp add: executeLifecycleCommand_def quiesce_def clearLifecycleTimers_def Let_def)

lemma quiesce_core: "core_inv H s \<Longrightarrow> core_inv H (quiesce b s)"
  by (simp add: quiesce_def core_inv_stop core_inv_dispatch core_inv_clearReconnect)

lemma quiesce_fields [simp]:
  "pingTimer (quiesce b s) = None" "pongTimeout (quiesce b s) = None" "reconnectTimer (quiesce b s) = None"
  "socket (quiesce b s) = socket s" "ready (quiesce b s) = ready s" "next_socket (quiesce b s) = next_socket s"
  "generation (quiesce b s) = generation s" "listeners (quiesce b s) = listeners s"
  "detachListeners (quiesce b s) = detachListeners s" "closeIntent (quiesce b s) = closeIntent s"
  "opened_urls (quiesce b s) = opened_urls s" "wire (quiesce b s) = wire s" "close_calls (quiesce b s) = close_calls s"
  "create_throws (quiesce b s) = create_throws s" "wsUrl (quiesce b s) = wsUrl s"
  "hasSessionContext (quiesce b s) = hasSessionContext s"
  "ts_status (tstate (quiesce b s)) = ts_status (tstate s)"
  by (simp_all add: quiesce_def hb_stop_eq clearReconnect_eq dispatchEvent_def)

lemma quiesce_attempts: "reconnectAttempt (tstate (quiesce b s)) = (if b then 0 else reconnectAttempt (tstate s))"
  by (simp add: quiesce_def hb_stop_eq clearReconnect_eq dispatchEvent_def)

lemma quiesce_silent: "core_inv H s \<Longrightarrow> pending (sched (quiesce b s)) = Map.empty"
  using quiesce_core [of H s b] slot_empty
  by (fastforce simp: core_inv_def timers_inv_def slots_ok_def slots_of_none)

lemma lc_inv_quiesce: "lc_inv H s \<Longrightarrow> lc_inv H (quiesce b s)"
  by (simp add: lc_inv_def quiesce_core)

lemma lc_inv_closeActive: "lc_inv H s \<Longrightarrow> lc_inv H (snd (closeActive c r i s))"
proof (cases rule: closeActive_cases [of c r i s])
  case (closed k)
  assume "lc_inv H s"
  with closed closeActive_inv [of s c r i] show ?thesis
    by (simp add: lc_inv_def core_inv_def timers_inv_def slots_ok_def)
qed simp

lemma swap_inv:
  assumes "session_inv s" "socket s = Some k"
  shows "session_inv (socket_close k c r (clear_session s))"
  using assms clear_listeners [of s] by (auto simp: session_inv_def simp del: rs_le(1,2))

subsection \<open>What the owner of the service has to guarantee\<close>

text \<open>The failure sink only touches the owner's own part of the state.\<close>

locale transport_failure_sink =
  fixes H :: host and onFailure :: "transport_failure \<Rightarrow> 'a lifecycle_scheme \<Rightarrow> 'a lifecycle_scheme"
  assumes failure_law: "lifecycle.truncate (onFailure f s) = lifecycle.truncate s"
begin

lemma failure_fields:
  "same_sockets s (onFailure f s)" "same_timers s (onFailure f s)"
  "tstate (onFailure f s) = tstate s" "wire (onFailure f s) = wire s"
  "close_calls (onFailure f s) = close_calls s"
  using failure_law [of f s]
  by (simp_all add: lifecycle.truncate_def same_sockets_def same_timers_def)

lemma report_fields:
  "same_sockets s (report H onFailure f s)" "same_timers s (report H onFailure f s)"
  "tstate (report H onFailure f s) = (tstate s)\<lparr>lastSocketFailure := Some (toFailureContext f)\<rparr>"
  "wire (report H onFailure f s) = wire s"
  "close_calls (report H onFailure f s) = close_calls s"
proof -
  let ?s1 = "dispatchEvent (Ev_socket_failure (toFailureContext f)) s"
  obtain nxt b n where reg: "registerFailureNotice (socketFailureNotice ?s1) (failure_notice_key H f)
      (now (sched ?s1)) SOCKET_FAILURE_NOTICE_COOLDOWN_MS = (nxt, b, n)" by (metis prod_cases3)
  obtain m where "report H onFailure f s = (if b then onFailure m ?s1 else ?s1)\<lparr>socketFailureNotice := nxt\<rparr>"
    using reg by (auto simp: report_def notifyWithFailureThrottle_def Let_def)
  moreover have "same_sockets s ?s1" "same_timers s ?s1" "wire ?s1 = wire s" "close_calls ?s1 = close_calls s"
    "tstate ?s1 = (tstate s)\<lparr>lastSocketFailure := Some (toFailureContext f)\<rparr>"
    by (simp_all add: same_sockets_def same_timers_def dispatchEvent_def)
  ultimately show "same_sockets s (report H onFailure f s)" "same_timers s (report H onFailure f s)"
    "tstate (report H onFailure f s) = (tstate s)\<lparr>lastSocketFailure := Some (toFailureContext f)\<rparr>"
    "wire (report H onFailure f s) = wire s" "close_calls (report H onFailure f s) = close_calls s"
    using failure_fields [where s = ?s1 and f = m] by (auto simp: same_sockets_def same_timers_def)
qed

lemma dispatch_same:
  "same_timers s (dispatchEvent e s)" "wire (dispatchEvent e s) = wire s"
  "close_calls (dispatchEvent e s) = close_calls s"
  "reconnectAttempt (reduceTransportState (tstate s) e) = reconnectAttempt (tstate s) \<Longrightarrow> same_sockets s (dispatchEvent e s)"
  by (simp_all add: same_sockets_def same_timers_def dispatchEvent_def)

text \<open>The four reports: the failure context is recorded and the status becomes an error,
  except for a plain close report.\<close>

definition failing :: "connection_status \<Rightarrow> 'a lifecycle_scheme \<Rightarrow> 'a lifecycle_scheme \<Rightarrow> bool" where
  "failing st s t \<longleftrightarrow> same_sockets s t \<and> same_timers s t \<and> wire t = wire s \<and>
     close_calls t = close_calls s \<and> ts_status (tstate t) = st"

lemma failing_error:
  assumes "same_sockets s t" "same_timers s t" "wire t = wire s" "close_calls t = close_calls s"
  shows "failing Error s (dispatchEvent Socket_error (report H onFailure f t))"
  using assms report_fields [where s = t and f = f]
  by (simp add: failing_def same_sockets_def same_timers_def dispatchEvent_def)

lemma failing_reports:
  "failing Error s (reportSendFailure H onFailure e s)"
  "failing Error s (handleSocketError H onFailure g ev s)"
  "failing Error s (reportBootstrapFailure H onFailure r d c s)"
  "failing (ts_status (tstate s)) s (reportCloseFailure H onFailure code why s)"
  by (simp_all add: reportSendFailure_def handleSocketError_def reportBootstrapFailure_def
      reportCloseFailure_def Let_def failing_error same_sockets_def same_timers_def)
    (simp add: failing_def report_fields)

lemma failing_inv: "failing st s t \<Longrightarrow> st = Error \<or> st = ts_status (tstate s) \<Longrightarrow> lc_inv H s \<Longrightarrow> lc_inv H t"
  by (rule lc_inv_same [of s t]) (auto simp: failing_def lc_inv_def)

subsection \<open>Sending\<close>

lemma sendPayload_cases:
  obtains (silent) "sendPayload H onFailure p s = (False, s)" "\<forall>k. socket s = Some k \<longrightarrow> ready s k \<noteq> RS_open"
    | (sent) k where "socket s = Some k" "ready s k = RS_open" "send_throws s = None"
        "sendPayload H onFailure p s = (True, s\<lparr>wire := wire s @ [(k, p)]\<rparr>)"
    | (thrown) e where "send_throws s = Some e"
        "sendPayload H onFailure p s = (False, reportSendFailure H onFailure e s)"
proof (cases "\<exists>k. socket s = Some k \<and> ready s k = RS_open")
  case False
  then show ?thesis using silent by (auto simp: sendPayload_def current_def split: option.split)
next
  case True
  then obtain k where k: "socket s = Some k" "ready s k = RS_open" by blast
  show ?thesis
  proof (cases "send_throws s")
    case None
    then show ?thesis using k sent by (simp add: sendPayload_def current_def)
  next
    case (Some e)
    then show ?thesis using k thrown by (simp add: sendPayload_def current_def)
  qed
qed

lemma sendPayload_same:
  "same_sockets s (snd (sendPayload H onFailure p s))"
  "same_timers s (snd (sendPayload H onFailure p s))"
  "ts_status (tstate (snd (sendPayload H onFailure p s))) \<in> {Error, ts_status (tstate s)}"
proof (atomize (full), cases rule: sendPayload_cases [of p s])
  case (thrown e)
  then show "same_sockets s (snd (sendPayload H onFailure p s)) \<and>
    same_timers s (snd (sendPayload H onFailure p s)) \<and>
    ts_status (tstate (snd (sendPayload H onFailure p s))) \<in> {Error, ts_status (tstate s)}"
    using failing_reports(1) [of s e] by (simp add: failing_def)
qed (simp_all add: same_sockets_def same_timers_def)

lemma lc_inv_connected: "lc_inv H s \<Longrightarrow> ts_status (tstate s) = Connected \<Longrightarrow> socket s \<noteq> None"
  by (simp add: lc_inv_def)

lemma sendPayload_inv: "lc_inv H s \<Longrightarrow> lc_inv H (snd (sendPayload H onFailure p s))"
  using sendPayload_same [where s = s and p = p] lc_inv_connected [of s]
  by (intro lc_inv_same [OF sendPayload_same(1,2)]) auto

end

text \<open>The open and message handlers keep the invariant and leave sockets and reconnection alone.\<close>

locale transport_client = transport_failure_sink H "h_failure cb"
  for H :: host and cb :: "'a lifecycle_scheme handlers" +
  assumes open_law: "lc_inv H s \<Longrightarrow> lc_inv H (h_open cb s) \<and> same_sockets s (h_open cb s)"
    and message_law: "lc_inv H s \<Longrightarrow> lc_inv H (h_message cb ev s) \<and> same_sockets s (h_message cb ev s)"
begin

subsection \<open>Connecting\<close>

text \<open>\<open>fresh_socket\<close> is the state in which a new socket is attached.\<close>

definition fresh_socket :: "jsstring \<Rightarrow> 'a lifecycle_scheme \<Rightarrow> 'a lifecycle_scheme" where
  "fresh_socket u s =
     (let s1 = dispatchEvent (Set_connecting (hasSessionContext s)) s
      in s1\<lparr>ready := (ready s)(next_socket s := RS_connecting), next_socket := Suc (next_socket s),
            opened_urls := opened_urls s @ [(next_socket s, u)]\<rparr>)"

lemma connect_cases:
  obtains (active) "hasActiveConnection s" "connect H cb s = s"
    | (failed) "\<not> hasActiveConnection s"
        "failing Error (dispatchEvent (Set_connecting (hasSessionContext s)) s) (connect H cb s)"
    | (opened) u where "\<not> hasActiveConnection s" "websocket_url H u" "create_throws s = None"
        "connect H cb s = attach (next_socket s) (fresh_socket u s)"
proof (cases "hasActiveConnection s")
  case True
  then show ?thesis using active by (simp add: connect_def)
next
  case idle: False
  let ?s1 = "dispatchEvent (Set_connecting (hasSessionContext s)) s"
  have fields: "ready ?s1 = ready s" "next_socket ?s1 = next_socket s" "opened_urls ?s1 = opened_urls s"
    "create_throws ?s1 = create_throws s" by (simp_all add: dispatchEvent_def)
  show ?thesis
  proof (cases "createSocket H (wsUrl ?s1) ?s1")
    case (Pair r s2)
    show ?thesis
    proof (cases r)
      case (Inl f)
      obtain rc d c where f: "f = (rc, d, c)" by (metis prod_cases3)
      have "s2 = ?s1"
        using Pair Inl by (auto simp: createSocket_def createTransport_def Let_def split: sum.splits option.splits prod.splits)
      then have "connect H cb s = reportBootstrapFailure H (h_failure cb) rc d c ?s1"
        using idle Pair Inl f by (simp add: connect_def Let_def)
      then show ?thesis using failed idle failing_reports(3) by metis
    next
      case (Inr k)
      then obtain e where e: "validateWebsocketEndpoint H (wsUrl ?s1) = Inr e" "createTransport e ?s1 = (Inr k, s2)"
        using Pair by (auto simp: createSocket_def Let_def split: sum.splits prod.splits)
      have "websocket_url H e"
        using e(1) by (auto simp: validateWebsocketEndpoint_def websocket_url_def Let_def split: option.splits if_splits)
      moreover have "k = next_socket s" "s2 = fresh_socket e s" "create_throws s = None"
        using e(2) by (auto simp: createTransport_def fresh_socket_def fields Let_def split: option.splits)
      ultimately show ?thesis using opened idle Pair Inr by (simp add: connect_def Let_def)
    qed
  qed
qed

lemma fresh_core: "core_inv H s \<Longrightarrow> abandoned s \<Longrightarrow> websocket_url H u \<Longrightarrow>
   core_inv H (attach (next_socket s) (fresh_socket u s))"
proof -
  assume inv: "core_inv H s" and ab: "abandoned s" and u: "websocket_url H u"
  from inv have sess: "session_inv s" and tm: "timers_inv s" by (simp_all add: core_inv_def)
  have o: "socket (fresh_socket u s) = socket s" "ready (fresh_socket u s) = (ready s)(next_socket s := RS_connecting)"
    "next_socket (fresh_socket u s) = Suc (next_socket s)" "listeners (fresh_socket u s) = listeners s"
    "detachListeners (fresh_socket u s) = detachListeners s" "generation (fresh_socket u s) = generation s"
    "closeIntent (fresh_socket u s) = closeIntent s" "sched (fresh_socket u s) = sched s"
    "opened_urls (fresh_socket u s) = opened_urls s @ [(next_socket s, u)]"
    "pingTimer (fresh_socket u s) = pingTimer s" "pongTimeout (fresh_socket u s) = pongTimeout s"
    "reconnectTimer (fresh_socket u s) = reconnectTimer s"
    "reconnectAttempt (tstate (fresh_socket u s)) = reconnectAttempt (tstate s)"
    by (simp_all add: fresh_socket_def dispatchEvent_def Let_def)
  have cl: "RS_closing \<le> ready s j" if "j < next_socket s" for j
    using session_inv_others [OF sess that] ab by (auto simp: abandoned_def simp del: rs_le)
  have "session_inv (attach (next_socket s) (fresh_socket u s))"
    by (rule attach_inv [OF sess]) (auto simp: o less_Suc_eq simp del: rs_le intro: cl)
  moreover have "timers_inv (attach (next_socket s) (fresh_socket u s))"
    using tm by (simp add: timers_inv_def slots_ok_def o)
  ultimately show ?thesis using inv u by (auto simp: core_inv_def o)
qed

lemma connect_inv:
  assumes "core_inv H s" "hasActiveConnection s \<Longrightarrow> lc_inv H s"
  shows "lc_inv H (connect H cb s)"
proof (cases rule: connect_cases [of s])
  case active
  then show ?thesis using assms(2) by simp
next
  case failed
  let ?s1 = "dispatchEvent (Set_connecting (hasSessionContext s)) s"
  have "core_inv H ?s1" using assms(1) by (intro core_inv_dispatch) (simp_all add: core_inv_def)
  then have "lc_inv H ?s1" by (simp add: lc_inv_def dispatchEvent_def)
  then show ?thesis using failing_inv [OF failed(2)] by simp
next
  case (opened u)
  then have "core_inv H (connect H cb s)"
    using assms(1) fresh_core [of s u] by (simp add: abandoned_iff)
  then show ?thesis using opened by (simp add: lc_inv_def)
qed

lemma connect_lc: "lc_inv H s \<Longrightarrow> lc_inv H (connect H cb s)"
  by (rule connect_inv) (simp add: lc_inv_def)

lemma command_close_inv:
  "lc_inv H s \<Longrightarrow> lc_inv H (executeLifecycleCommand b (closeActive c r i) (connect H cb) s)"
  using lc_inv_closeActive [OF lc_inv_quiesce, of H s c r i b]
  by (auto simp: command_eq connect_lc split: prod.split)

lemma endpoint_change_inv: "lc_inv H s \<Longrightarrow> lc_inv H (reconnectWithEndpointChange H cb s)"
proof -
  assume inv: "lc_inv H s"
  let ?q = "quiesce True s"
  have q: "core_inv H ?q" using inv by (simp add: lc_inv_def quiesce_core)
  then have sess: "session_inv ?q" by (simp add: core_inv_def)
  show ?thesis
  proof (cases "\<exists>k. socket ?q = Some k \<and> ready ?q k < RS_closing")
    case True
    then obtain k where k: "socket ?q = Some k" "ready ?q k < RS_closing" by blast
    let ?c = "socket_close k CLOSE_MANUAL_RECONNECT (js ''endpoint changed'') (clear_session ?q)"
    have "core_inv H ?c"
      using q swap_inv [OF sess k(1)] by (simp add: core_inv_def timers_inv_def slots_ok_def)
    then have "lc_inv H (connect H cb ?c)" by (rule connect_inv) (simp add: hasActiveConnection_def)
    then show ?thesis using k by (simp add: reconnectWithEndpointChange_def command_eq detachForSocketSwap_def)
  next
    case False
    then have "abandoned ?q" by (auto simp: abandoned_def not_less [symmetric] simp del: rs_le quiesce_fields)
    then have "core_inv H (clear_session ?q)"
      using q clear_session_inv [OF sess] by (simp add: core_inv_def timers_inv_def slots_ok_def)
    then have "lc_inv H (connect H cb (clear_session ?q))" by (rule connect_inv) (simp add: hasActiveConnection_def)
    then show ?thesis using False
      by (auto simp: reconnectWithEndpointChange_def command_eq detachForSocketSwap_def split: option.split simp del: quiesce_fields)
  qed
qed

end

lemma dispose_inv: "lc_inv H s \<Longrightarrow> lc_inv H (dispose s)"
proof -
  assume inv: "lc_inv H s"
  let ?q = "quiesce False s"
  have q: "lc_inv H ?q" using inv by (rule lc_inv_quiesce)
  then have core: "core_inv H ?q" by (simp add: lc_inv_def)
  show ?thesis
  proof (cases rule: closeActive_cases [of 1000 "js ''component unmount''" Dispose ?q])
    case refused
    then have "core_inv H (clear_session ?q)"
      using core clear_session_inv [of ?q] by (simp add: core_inv_def timers_inv_def slots_ok_def)
    then have "core_inv H (dispatchEvent Socket_closed (clear_session ?q))"
      by (intro core_inv_dispatch) (simp_all add: core_inv_def)
    with refused show ?thesis by (simp add: dispose_def command_eq lc_inv_def dispatchEvent_def)
  next
    case (closed k)
    with lc_inv_closeActive [OF q, of 1000 "js ''component unmount''" Dispose] show ?thesis
      by (simp add: dispose_def command_eq)
  qed
qed

end
