(* ===== verification/Lifecycle_Steps.thy ===== *)
theory Lifecycle_Steps
  imports Lifecycle_Laws
begin

section \<open>Runs of the transport\<close>

text \<open>
  Inside the interface \<open>transport_client\<close>: every step keeps the invariant of
  \<open>Lifecycle_Laws\<close>, a disposed service stays silent, an attempt to recover ends.
\<close>

lemma schedule_fields [simp]:
  "tstate (scheduleReconnect d s) = tstate s" "opened_urls (scheduleReconnect d s) = opened_urls s"
  "closeIntent (scheduleReconnect d s) = closeIntent s" "socket (scheduleReconnect d s) = socket s"
  "ready (scheduleReconnect d s) = ready s" "next_socket (scheduleReconnect d s) = next_socket s"
  "reconnectTimer (scheduleReconnect d s) \<noteq> None" "wire (scheduleReconnect d s) = wire s"
  by (simp_all add: scheduleReconnect_def clearReconnect_eq Let_def split: prod.split)

lemma core_inv_ready: "core_inv H s \<Longrightarrow> core_inv H (set_ready k r s)"
proof -
  assume inv: "core_inv H s"
  have up: "RS_closing \<le> ready (set_ready k r s) j" if "RS_closing \<le> ready s j" for j
    using that order.trans [OF that max.cobounded2 [of "ready s j" r]] by (auto simp: set_ready_def simp del: rs_le)
  have same: "socket (set_ready k r s) = socket s" "detachListeners (set_ready k r s) = detachListeners s"
    "generation (set_ready k r s) = generation s" "closeIntent (set_ready k r s) = closeIntent s"
    "listeners (set_ready k r s) = listeners s" "next_socket (set_ready k r s) = next_socket s"
    by (simp_all add: set_ready_def)
  have "session_inv (set_ready k r s)"
    using inv up unfolding core_inv_def session_inv_def same by blast
  with inv show ?thesis by (simp add: core_inv_def timers_inv_def slots_ok_def) (simp add: set_ready_def)
qed

lemma lc_inv_ready: "lc_inv H s \<Longrightarrow> lc_inv H (set_ready k r s)"
  using core_inv_ready [of H s k r] by (simp add: lc_inv_def set_ready_def)

lemma release_core:
  assumes "core_inv H s" "abandoned s"
  shows "core_inv H (snd (handleSocketClose g (clear_session s)))"
proof -
  have "session_inv (clear_session s)" using assms by (intro clear_session_inv) (simp_all add: core_inv_def)
  moreover have "slots_ok s (sched s)" using assms by (simp add: core_inv_def timers_inv_def)
  then have "slots_ok (hb_stop (clear_session s)) (stop_sched (clear_session s))"
    by (intro stop_slots) (simp add: slots_ok_def)
  ultimately show ?thesis
    using assms by (simp add: handleSocketClose_def core_inv_def session_inv_def timers_inv_def slots_ok_def hb_stop_eq)
qed

lemma release_fields [simp]:
  "socket (snd (handleSocketClose g s)) = socket s" "ready (snd (handleSocketClose g s)) = ready s"
  "tstate (snd (handleSocketClose g s)) = tstate s" "next_socket (snd (handleSocketClose g s)) = next_socket s"
  "opened_urls (snd (handleSocketClose g s)) = opened_urls s"
  "reconnectTimer (snd (handleSocketClose g t)) = reconnectTimer t"
  "pingTimer (snd (handleSocketClose g s)) = None"
  by (simp_all add: handleSocketClose_def hb_stop_eq Let_def)

lemma markPong_inv: "lc_inv H s \<Longrightarrow> lc_inv H (lc_markPong s)"
proof -
  assume inv: "lc_inv H s"
  obtain t where t: "t = hb_markPong s" by simp
  have "timers_inv t" using inv timers_inv_markPong [of s] by (simp add: t lc_inv_def core_inv_def)
  moreover have "session_inv t" using inv session_inv_same [OF markPong_same, of s] by (simp add: t lc_inv_def core_inv_def)
  moreover have "ts_status (tstate t) = ts_status (tstate s)"
    by (simp add: t markPong_eq split: option.split)
  ultimately have "lc_inv H t"
    using inv markPong_same [of s] unfolding t [symmetric] by (simp add: lc_inv_def core_inv_def same_sockets_def)
  then show ?thesis by (simp add: t lc_markPong_def rel_markPong_def)
qed

text \<open>A service that claims to be connecting or connected.\<close>

definition unstalled :: "'a lifecycle_scheme \<Rightarrow> bool" where
  "unstalled s \<longleftrightarrow> (ts_status (tstate s) \<in> {Connecting, Connected, Reconnecting} \<longrightarrow>
     socket s \<noteq> None \<or> reconnectTimer s \<noteq> None)"

lemma unstalled_same:
  "same_sockets s t \<Longrightarrow> ts_status (tstate t) \<in> {Error, ts_status (tstate s)} \<Longrightarrow> unstalled s \<Longrightarrow> unstalled t"
  by (auto simp: unstalled_def same_sockets_def)

text \<open>
  The steps in which nobody asks for a connection and no socket opens.  \<open>budget\<close> bounds how many
  sockets such steps can still create.
\<close>

fun unattended :: "transport_step \<Rightarrow> bool" where
  "unattended Connect = False"
| "unattended Reconnect_now = False"
| "unattended Endpoint_changed = False"
| "unattended Start_fresh = False"
| "unattended Dispose_service = False"
| "unattended (Socket_open k) = False"
| "unattended _ = True"

definition budget :: "'a lifecycle_scheme \<Rightarrow> nat" where
  "budget s = (MAX_ATTEMPTS - reconnectAttempt (tstate s)) + (if reconnectTimer s = None then 0 else 1) +
     (if closeIntent s \<in> {Fresh, Manual} then 1 else 0)"

definition weight :: "'a lifecycle_scheme \<Rightarrow> nat" where
  "weight s = length (opened_urls s) + budget s"

lemma weight_same: "same_sockets s t \<Longrightarrow> weight t = weight s"
  by (simp add: same_sockets_def weight_def budget_def)

text \<open>A disposed service: no timer to come back with, and a socket that is on its way out.\<close>

definition quiet :: "'a lifecycle_scheme \<Rightarrow> bool" where
  "quiet s \<longleftrightarrow> reconnectTimer s = None \<and> pingTimer s = None \<and> pongTimeout s = None \<and>
     (\<forall>k. socket s = Some k \<longrightarrow> RS_closing \<le> ready s k \<and> closeIntent s = Dispose)"

context transport_client
begin

lemma lc_inv_same_status: "same_sockets s t \<Longrightarrow> same_timers s t \<Longrightarrow> tstate t = tstate s \<Longrightarrow> lc_inv H s \<Longrightarrow> lc_inv H t"
  by (rule lc_inv_same) (simp_all add: lc_inv_def)

lemma report_core: "failing st s t \<Longrightarrow> core_inv H s \<Longrightarrow> core_inv H t"
  by (rule core_inv_same [of s t]) (simp_all add: failing_def)

lemma not_connected: "core_inv H s \<Longrightarrow> ts_status (tstate s) \<noteq> Connected \<Longrightarrow> lc_inv H s"
  by (simp add: lc_inv_def)

text \<open>The close plan runs on a state whose socket is gone.\<close>

lemma close_plan_inv:
  assumes inv: "core_inv H s" and gone: "socket s = None"
  shows "lc_inv H (executeTransportClosePlan H cb intent code why (reconnectAttempt (tstate s)) rep s)"
proof -
  define t where "t = (if rep then reportCloseFailure H (h_failure cb) code why s else s)"
  define r where "r = executeTransportClosePlan H cb intent code why (reconnectAttempt (tstate s)) rep s"
  have t: "core_inv H t"
    using inv failing_reports(4) [where s = s and code = code and why = why] report_core by (simp add: t_def)
  have ev: "core_inv H (dispatchEvent e u)"
    if "core_inv H u" "reconnectAttempt (reduceTransportState (tstate u) e) = reconnectAttempt (tstate u)"
    for e and u :: "'a lifecycle_scheme"
    using that core_attempts [OF that(1)] by (intro core_inv_dispatch) simp_all
  have "lc_inv H r"
  proof (cases "resolveTransportClosePlan intent code (reconnectAttempt (tstate s))")
    case Disposed
    then have "r = dispatchEvent Socket_closed s" by (simp add: r_def executeTransportClosePlan_def)
    then show ?thesis using ev [OF inv, of Socket_closed] by (simp add: not_connected dispatchEvent_def)
  next
    case Reconnect_immediate
    then have r: "r = connect H cb (dispatchEvent (Set_connecting False) s)"
      by (simp add: r_def executeTransportClosePlan_def)
    show ?thesis unfolding r
      by (rule connect_inv [OF ev [OF inv]]) (simp_all add: gone hasActiveConnection_def dispatchEvent_def)
  next
    case Nonrecoverable
    then have "r = dispatchEvent Socket_error t" by (simp add: r_def t_def executeTransportClosePlan_def)
    then show ?thesis using ev [OF t, of Socket_error] by (simp add: not_connected dispatchEvent_def)
  next
    case (Reconnect_exhausted n)
    then obtain f where r: "r = dispatchEvent Socket_error (dispatchEvent (Ev_socket_failure f) t)"
      by (simp add: r_def t_def executeTransportClosePlan_def)
    have "core_inv H r" unfolding r by (intro ev t) simp_all
    then show ?thesis by (rule not_connected) (simp add: r dispatchEvent_def)
  next
    case (Plan_reconnect n d)
    then have r: "r = scheduleReconnect d (dispatchEvent (Schedule_reconnect n) t)"
      by (simp add: r_def t_def executeTransportClosePlan_def)
    have "n \<le> MAX_ATTEMPTS"
      using Plan_reconnect core_attempts [OF inv] by (auto simp: resolveTransportClosePlan_def split: if_splits)
    then have "core_inv H r"
      unfolding r by (intro core_inv_schedule core_inv_dispatch t) simp
    then show ?thesis
      by (rule not_connected) (simp add: r dispatchEvent_def Let_def scheduleReconnect_def clearReconnect_eq split: prod.split)
  qed
  then show ?thesis by (simp add: r_def)
qed

lemma onConnected_core:
  assumes "core_inv H s" "socket s \<noteq> None"
  shows "core_inv H (rel_onConnected s)" "socket (rel_onConnected s) = socket s"
proof -
  obtain u where u: "u = reporter_reset (s\<lparr>socketErrorGeneration := None\<rparr>)" by simp
  have "same_sockets s u" "same_timers s u"
    by (simp_all add: u reporter_reset_def same_sockets_def same_timers_def)
  then have "core_inv H u" "socket u = socket s"
    using core_inv_same assms(1) by (blast, simp add: same_sockets_def)
  then show "core_inv H (rel_onConnected s)" "socket (rel_onConnected s) = socket s"
    using core_inv_start [of H u] assms(2) by (simp_all add: rel_onConnected_def u [symmetric]) (simp add: hb_start_eq)
qed

lemma onSocketOpen_inv: "lc_inv H s \<Longrightarrow> lc_inv H (onSocketOpen cb k g s)"
proof (cases "isCurrent k g s")
  case True
  assume inv: "lc_inv H s"
  have sock: "socket s \<noteq> None" using True by (simp add: isCurrent_def)
  let ?t = "rel_onConnected s"
  have "core_inv H ?t" "socket ?t = socket s"
    using onConnected_core [OF _ sock] inv by (simp_all add: lc_inv_def)
  then have "core_inv H (dispatchEvent Ev_connected ?t)" "socket (dispatchEvent Ev_connected ?t) \<noteq> None"
    using sock by (intro core_inv_dispatch, simp_all) (simp add: dispatchEvent_def)
  then have "lc_inv H (dispatchEvent Ev_connected ?t)" by (simp add: lc_inv_def)
  then show ?thesis using True open_law by (simp add: onSocketOpen_def withCurrentSocket_def)
qed (simp add: onSocketOpen_def withCurrentSocket_def)

lemma onSocketMessage_inv: "lc_inv H s \<Longrightarrow> lc_inv H (onSocketMessage cb ev k g s)"
  using message_law by (simp add: onSocketMessage_def withCurrentSocket_def)

lemma onSocketError_inv: "lc_inv H s \<Longrightarrow> lc_inv H (onSocketError H cb ev k g s)"
  using failing_inv [OF failing_reports(2)] by (simp add: onSocketError_def withCurrentSocket_def)

lemma onSocketClose_inv:
  assumes "lc_inv H s" "abandoned s"
  shows "lc_inv H (onSocketClose H cb code why k g s)"
proof (cases "isCurrent k g s")
  case True
  obtain rep s2 where h: "handleSocketClose g (clear_session s) = (rep, s2)" by fastforce
  have "core_inv H s2" using assms release_core [of H s g] h by (simp add: lc_inv_def)
  moreover have "socket s2 = None" using release_fields(1) [of g "clear_session s"] h by simp
  ultimately show ?thesis
    using True h close_plan_inv [of s2]
    by (simp add: onSocketClose_def releaseIfCurrentWithIntent_def)
qed (simp add: onSocketClose_def releaseIfCurrentWithIntent_def assms)

subsection \<open>Timers that fire\<close>

lemma ping_tick_inv: "lc_inv H s \<Longrightarrow> pingTimer s \<noteq> None \<Longrightarrow> lc_inv H (ping_tick (sendPing H cb) s)"
proof (cases "pongTimeout s")
  case None
  assume inv: "lc_inv H s" and ping: "pingTimer s \<noteq> None"
  obtain u where u: "u = s\<lparr>pingSentAt := Some (now (sched s))\<rparr>" by simp
  obtain v where v: "v = sendPing H cb u" by simp
  obtain h sc where hs: "setTimeout Pong_deadline PONG_TIMEOUT (sched v) = (h, sc)" by fastforce
  have su: "same_sockets s u" "same_timers s u" "tstate u = tstate s"
    by (simp_all add: u same_sockets_def same_timers_def)
  then have "lc_inv H u" using inv lc_inv_same_status by blast
  then have lv: "lc_inv H v" by (simp add: v sendPing_def sendPayload_inv)
  have "same_sockets u v" "same_timers u v" by (simp_all add: v sendPing_def sendPayload_same)
  then have fv: "pongTimeout v = None" "pingTimer v \<noteq> None"
    using su None ping by (simp_all add: same_sockets_def same_timers_def)
  obtain w where w: "w = v\<lparr>sched := sc, pongTimeout := Some h\<rparr>" by simp
  have "slots_ok v (sched v)" using lv by (simp add: lc_inv_def core_inv_def timers_inv_def)
  then have "slots_ok w (sched w)"
    using browser.slot_timeout [OF _ _ hs, of live_slots "slots_of (pingTimer v) None (reconnectTimer v)"] fv
    by (simp add: slots_ok_def w)
  moreover have "session_inv w = session_inv v" by (rule session_inv_cong) (simp_all add: w)
  ultimately have "lc_inv H w" using lv fv by (simp add: lc_inv_def core_inv_def timers_inv_def) (simp add: w)
  moreover have "ping_tick (sendPing H cb) s = w"
    using None hs by (simp add: ping_tick_def u [symmetric] v [symmetric] w)
  ultimately show ?thesis by simp
qed (simp add: ping_tick_def)

text \<open>Which timer fired, and what is left of it.\<close>

lemma fire_task:
  assumes inv: "lc_inv H s" and f: "fire h (sched s) = Some (t, sc)"
  obtains (ping) "t = Ping_tick" "lc_inv H (s\<lparr>sched := sc\<rparr>)" "pingTimer s = Some h"
    | (pong) "t = Pong_deadline" "lc_inv H (s\<lparr>sched := sc\<rparr>)" "pongTimeout s = Some h"
    | (reconnect) "t = Reconnect_task" "lc_inv H (s\<lparr>sched := sc, reconnectTimer := None\<rparr>)" "reconnectTimer s = Some h"
proof -
  let ?sl = "slots_of (pingTimer s) (pongTimeout s) (reconnectTimer s)"
  have slots: "slot_inv live_slots ?sl (pending (sched s)) (issued (sched s))"
    using inv by (simp add: lc_inv_def core_inv_def timers_inv_def slots_ok_def)
  obtain u where u: "u = s\<lparr>sched := sc\<rparr>" by simp
  obtain v where v: "v = s\<lparr>sched := sc, reconnectTimer := None\<rparr>" by simp
  have su: "session_inv u = session_inv s" and sv: "session_inv v = session_inv s"
    by (rule session_inv_cong; simp add: u v)+
  have keep: "lc_inv H u" if "slot_inv live_slots ?sl (pending sc) (issued sc)"
    using inv su that by (simp add: lc_inv_def core_inv_def timers_inv_def slots_ok_def) (simp add: u)
  have drop: "lc_inv H v" if "slot_inv live_slots (slots_of (pingTimer s) (pongTimeout s) None) (pending sc) (issued sc)"
    using inv sv that by (simp add: lc_inv_def core_inv_def timers_inv_def slots_ok_def) (simp add: v)
  from slots f show ?thesis
  proof (cases rule: browser.slot_fire)
    case again
    then have "t = Ping_tick" by (cases t) simp_all
    then show ?thesis using ping again keep by (simp add: u)
  next
    case once
    show ?thesis
    proof (cases t)
      case Pong_deadline
      then show ?thesis using pong once keep by (simp add: u live_slots_def)
    next
      case Reconnect_task
      then show ?thesis using reconnect once drop by (simp add: v)
    qed (use once in simp)
  qed
qed

lemma fire_inv: "lc_inv H s \<Longrightarrow> fire h (sched s) = Some (t, sc) \<Longrightarrow> lc_inv H (run_task H cb t (s\<lparr>sched := sc\<rparr>))"
  by (erule (1) fire_task)
    (simp_all add: ping_tick_inv onPongTimeout_def lc_inv_closeActive connect_lc)

subsection \<open>Every step keeps the invariant\<close>

lemma deliver_inv:
  "lc_inv H s \<Longrightarrow> (\<And>g. lc_inv H s \<Longrightarrow> socket s = Some k \<Longrightarrow> lc_inv H (f k g s)) \<Longrightarrow> lc_inv H (deliver f k s)"
  by (simp add: deliver_current lc_inv_def core_inv_def)

lemma close_step_inv:
  assumes "lc_inv H s" shows "lc_inv H (deliver (onSocketClose H cb code why) k (set_ready k RS_closed s))"
proof (rule deliver_inv [OF lc_inv_ready [OF assms]])
  fix g
  assume "lc_inv H (set_ready k RS_closed s)" "socket (set_ready k RS_closed s) = Some k"
  moreover from this(2) have "abandoned (set_ready k RS_closed s)"
    by (cases "ready s k") (simp_all add: abandoned_def set_ready_def max_def less_eq_ready_state_def)
  ultimately show "lc_inv H (onSocketClose H cb code why k g (set_ready k RS_closed s))" by (intro onSocketClose_inv)
qed

lemma pass_inv: "lc_inv H s \<Longrightarrow> lc_inv H (s\<lparr>sched := pass_time d w (sched s)\<rparr>)"
proof -
  assume inv: "lc_inv H s"
  obtain t where t: "t = s\<lparr>sched := pass_time d w (sched s)\<rparr>" by simp
  have "session_inv t = session_inv s" by (rule session_inv_cong) (simp_all add: t)
  with inv have "lc_inv H t"
    by (simp add: lc_inv_def core_inv_def timers_inv_def slots_ok_def) (simp add: t)
  then show ?thesis by (simp add: t)
qed

theorem step_inv: "lc_inv H s \<Longrightarrow> lc_inv H (transport_run_step H cb e s)"
proof (cases e)
  case (Update_runtime u ctx)
  assume "lc_inv H s"
  then have "lc_inv H (updateRuntime u ctx s)"
    by (rule lc_inv_same_status [rotated -1]) (simp_all add: updateRuntime_def same_sockets_def same_timers_def)
  then show ?thesis using Update_runtime by simp
next
  case (Weather c sd)
  assume "lc_inv H s"
  then have "lc_inv H (s\<lparr>create_throws := c, send_throws := sd\<rparr>)"
    by (rule lc_inv_same_status [rotated -1]) (simp_all add: same_sockets_def same_timers_def)
  then show ?thesis using Weather by simp
next
  case (Fire h)
  assume "lc_inv H s"
  then show ?thesis using Fire fire_inv by (auto split: option.split prod.split)
next
  case (Socket_open k)
  assume "lc_inv H s"
  then show ?thesis using Socket_open by (simp add: deliver_inv lc_inv_ready onSocketOpen_inv)
qed (simp_all add: connect_lc reconnectNow_def scheduleFreshConnection_def command_close_inv endpoint_change_inv
  dispose_inv markPong_inv sendPayload_inv pass_inv deliver_inv onSocketMessage_inv onSocketError_inv
  lc_inv_ready close_step_inv)

theorem reachable_inv: "transport_reachable H cb s0 s \<Longrightarrow> lc_inv H s0 \<Longrightarrow> lc_inv H s"
  by (induction rule: transport_reachable.induct) (simp_all add: step_inv)

subsection \<open>No silent stall\<close>

text \<open>A service that claims to be connecting has a socket or a reconnect timer.\<close>

lemma unstalled_connect: "unstalled (connect H cb s)"
proof (cases rule: connect_cases [of s])
  case active
  then show ?thesis by (auto simp: unstalled_def hasActiveConnection_def split: option.splits)
qed (simp_all add: unstalled_def failing_def)

lemma unstalled_command: "unstalled (executeLifecycleCommand b (closeActive c r i) (connect H cb) s)"
  by (cases rule: closeActive_cases [of c r i "quiesce b s"])
    (simp_all add: command_eq unstalled_connect, simp add: unstalled_def)

lemma unstalled_endpoint: "unstalled (reconnectWithEndpointChange H cb s)"
  by (simp add: reconnectWithEndpointChange_def command_eq unstalled_connect split: prod.split option.split)

lemma unstalled_plan: "unstalled (executeTransportClosePlan H cb intent code why n rep s)"
proof (cases "resolveTransportClosePlan intent code n")
  case (Plan_reconnect m d)
  then show ?thesis
    by (simp add: executeTransportClosePlan_def unstalled_def scheduleReconnect_def clearReconnect_eq Let_def split: prod.split)
qed (simp_all add: executeTransportClosePlan_def unstalled_connect Let_def, simp_all add: unstalled_def dispatchEvent_def)

lemma unstalled_close: "unstalled s \<Longrightarrow> unstalled (onSocketClose H cb code why k g s)"
  by (simp add: onSocketClose_def releaseIfCurrentWithIntent_def unstalled_plan split: prod.split)

lemma unstalled_task:
  assumes "lc_inv H s" "fire h (sched s) = Some (t, sc)" "unstalled s"
  shows "unstalled (run_task H cb t (s\<lparr>sched := sc\<rparr>))"
  using assms(1,2)
proof (cases rule: fire_task)
  case ping
  obtain u where u: "u = s\<lparr>sched := sc\<rparr>" by simp
  have "socket s \<noteq> None" using ping(3) assms(1) by (simp add: lc_inv_def core_inv_def timers_inv_def)
  then have "socket (sendPing H cb (u\<lparr>pingSentAt := x\<rparr>)) \<noteq> None" for x
    using sendPayload_same(1) [where s = "u\<lparr>pingSentAt := x\<rparr>" and p = createPingMessage]
    by (simp add: sendPing_def same_sockets_def u)
  then have "socket (ping_tick (sendPing H cb) u) \<noteq> None"
    using \<open>socket s \<noteq> None\<close> by (simp add: ping_tick_def Let_def u split: prod.split)
  then show ?thesis using ping(1) by (simp add: u unstalled_def)
next
  case pong
  have "socket s \<noteq> None"
    using pong(3) assms(1) by (simp add: lc_inv_def core_inv_def timers_inv_def)
  then show ?thesis using pong(1)
    by (cases rule: closeActive_cases [of CLOSE_PONG_TIMEOUT "js ''pong timeout''" Normal "s\<lparr>sched := sc\<rparr>"])
      (simp_all add: onPongTimeout_def unstalled_def)
qed (simp add: unstalled_connect)

lemma unstalled_deliver:
  "lc_inv H s \<Longrightarrow> unstalled s \<Longrightarrow>
   (\<And>g. socket s = Some k \<Longrightarrow> socket (f k g s) \<noteq> None \<or> unstalled (f k g s)) \<Longrightarrow> unstalled (deliver f k s)"
  by (auto simp: deliver_current lc_inv_def core_inv_def unstalled_def)

lemma deliver_socket:
  assumes "lc_inv H s"
  shows "socket (onSocketOpen cb k g s) = socket s" "socket (onSocketMessage cb ev k g s) = socket s"
    "socket (onSocketError H cb err k g s) = socket s"
proof -
  have "same_sockets s (h_message cb ev s)" using message_law assms by blast
  then show "socket (onSocketMessage cb ev k g s) = socket s"
    by (simp add: onSocketMessage_def withCurrentSocket_def same_sockets_def)
  show "socket (onSocketError H cb err k g s) = socket s"
    using failing_reports(2) by (simp add: onSocketError_def withCurrentSocket_def failing_def same_sockets_def)
  show "socket (onSocketOpen cb k g s) = socket s"
  proof (cases "isCurrent k g s")
    case True
    then have sock: "socket s \<noteq> None" by (simp add: isCurrent_def)
    let ?t = "dispatchEvent Ev_connected (rel_onConnected s)"
    have core: "core_inv H (rel_onConnected s)" "socket (rel_onConnected s) = socket s"
      using onConnected_core [OF _ sock] assms by (simp_all add: lc_inv_def)
    then have "core_inv H ?t" by (intro core_inv_dispatch) simp_all
    moreover have sock': "socket ?t = socket s" using core by (simp add: dispatchEvent_def)
    ultimately have "lc_inv H ?t" using sock by (simp add: lc_inv_def)
    then have "same_sockets ?t (h_open cb ?t)" using open_law by blast
    then show ?thesis using True sock' by (simp add: onSocketOpen_def withCurrentSocket_def same_sockets_def)
  qed (simp add: onSocketOpen_def withCurrentSocket_def)
qed

lemma unstalled_ready: "unstalled (set_ready k r s) = unstalled s"
  by (simp add: unstalled_def set_ready_def)

lemma unstalled_markPong: "unstalled (lc_markPong s) = unstalled s"
  by (simp add: unstalled_def lc_markPong_def rel_markPong_def markPong_eq split: option.split)

lemma unstalled_dispose: "unstalled (dispose s)"
  by (cases rule: closeActive_cases [of 1000 "js ''component unmount''" Dispose "quiesce False s"])
    (simp_all add: dispose_def command_eq unstalled_def dispatchEvent_def)

lemma unstalled_step: "lc_inv H s \<Longrightarrow> unstalled s \<Longrightarrow> unstalled (transport_run_step H cb e s)"
proof (cases e)
  case (Fire h)
  assume "lc_inv H s" "unstalled s"
  then show ?thesis using Fire unstalled_task by (auto split: option.split prod.split)
next
  case (Send p)
  assume "unstalled s"
  then have "unstalled (snd (sendPayload H (h_failure cb) p s))" by (rule unstalled_same [OF sendPayload_same(1,3)])
  then show ?thesis using Send by simp
qed (simp_all add: unstalled_connect reconnectNow_def scheduleFreshConnection_def unstalled_command unstalled_endpoint
  unstalled_dispose unstalled_markPong unstalled_deliver deliver_socket unstalled_ready lc_inv_ready unstalled_close,
  simp_all add: unstalled_def updateRuntime_def)

subsection \<open>Recovery is bounded\<close>

lemma weight_connect: "weight (connect H cb s) \<le> Suc (weight s)"
proof (cases rule: connect_cases [of s])
  case failed
  have "weight (connect H cb s) = weight (dispatchEvent (Set_connecting (hasSessionContext s)) s)"
    using failed(2) by (intro weight_same) (simp add: failing_def)
  then show ?thesis by (simp add: weight_def budget_def dispatchEvent_def)
next
  case (opened u)
  then show ?thesis by (simp add: weight_def budget_def fresh_socket_def dispatchEvent_def Let_def)
qed simp

lemma weight_closeActive: "weight (snd (closeActive c r Normal s)) \<le> weight s"
  by (cases rule: closeActive_cases [of c r Normal s]) (simp_all add: weight_def budget_def)

lemma weight_plan:
  assumes "reconnectAttempt (tstate s) \<le> MAX_ATTEMPTS"
  shows "weight (executeTransportClosePlan H cb intent code why (reconnectAttempt (tstate s)) rep s)
     \<le> weight s + (if intent \<in> {Fresh, Manual} then 1 else 0)"
proof -
  define t where "t = (if rep then reportCloseFailure H (h_failure cb) code why s else s)"
  define r where "r = executeTransportClosePlan H cb intent code why (reconnectAttempt (tstate s)) rep s"
  have keep: "weight (dispatchEvent e u) = weight u"
    if "reconnectAttempt (reduceTransportState (tstate u) e) = reconnectAttempt (tstate u)"
    for e and u :: "'a lifecycle_scheme"
    using that by (intro weight_same dispatch_same)
  have "same_sockets s t" using failing_reports(4) by (simp add: t_def failing_def)
  then have t: "weight t = weight s" "reconnectAttempt (tstate t) = reconnectAttempt (tstate s)"
    by (simp_all add: weight_same) (simp add: same_sockets_def)
  have "weight r \<le> weight s + (if intent \<in> {Fresh, Manual} then 1 else 0)"
  proof (cases "resolveTransportClosePlan intent code (reconnectAttempt (tstate s))")
    case Reconnect_immediate
    then have "r = connect H cb (dispatchEvent (Set_connecting False) s)" "intent \<in> {Fresh, Manual}"
      by (auto simp: r_def executeTransportClosePlan_def resolveTransportClosePlan_def split: if_splits)
    moreover have "weight (dispatchEvent (Set_connecting False) s) = weight s"
      by (simp add: weight_def budget_def dispatchEvent_def)
    ultimately show ?thesis using weight_connect [of "dispatchEvent (Set_connecting False) s"] by simp
  next
    case (Plan_reconnect n d)
    then have "r = scheduleReconnect d (dispatchEvent (Schedule_reconnect n) t)"
      "n = Suc (reconnectAttempt (tstate s))" "reconnectAttempt (tstate s) < MAX_ATTEMPTS"
      by (auto simp: r_def t_def executeTransportClosePlan_def resolveTransportClosePlan_def split: if_splits)
    then have r: "tstate r = tstate t\<lparr>ts_status := Reconnecting, reconnectAttempt := n\<rparr>"
      "opened_urls r = opened_urls t" "closeIntent r = closeIntent t"
      "MAX_ATTEMPTS - reconnectAttempt (tstate s) = Suc (MAX_ATTEMPTS - n)"
      by (simp_all add: dispatchEvent_def)
    then have "weight r \<le> weight t"
      using t(2) by (simp add: weight_def budget_def)
    then show ?thesis using t by simp
  qed (simp_all add: r_def executeTransportClosePlan_def Let_def t_def [symmetric] keep t(1))
  then show ?thesis by (simp add: r_def)
qed

lemma weight_close:
  assumes "lc_inv H s" shows "weight (onSocketClose H cb code why k g s) \<le> weight s"
proof (cases "isCurrent k g s")
  case True
  obtain rep s2 where h: "handleSocketClose g (clear_session s) = (rep, s2)" by fastforce
  then have s2: "s2 = snd (handleSocketClose g (clear_session s))" by simp
  have f: "tstate s2 = tstate s" "opened_urls s2 = opened_urls s" "reconnectTimer s2 = reconnectTimer s"
    "closeIntent s2 = Normal"
    by (simp_all add: s2) (simp add: handleSocketClose_def hb_stop_eq)
  then have "weight s2 + (if closeIntent s \<in> {Fresh, Manual} then 1 else 0) = weight s"
    by (simp add: weight_def budget_def)
  moreover have "reconnectAttempt (tstate s2) \<le> MAX_ATTEMPTS"
    using assms core_attempts [of H s] f by (simp add: lc_inv_def)
  then have "weight (executeTransportClosePlan H cb (closeIntent s) code why (reconnectAttempt (tstate s2)) rep s2)
    \<le> weight s2 + (if closeIntent s \<in> {Fresh, Manual} then 1 else 0)" by (rule weight_plan)
  ultimately show ?thesis
    using True h by (simp add: onSocketClose_def releaseIfCurrentWithIntent_def)
qed (simp add: onSocketClose_def releaseIfCurrentWithIntent_def)

lemma weight_ready: "weight (set_ready k r s) = weight s"
  by (simp add: weight_def budget_def set_ready_def)

lemma ping_tick_frame:
  obtains (due) "pongTimeout s = None"
      "same_sockets s (ping_tick (sendPing H cb) s)"
      "ts_status (tstate (ping_tick (sendPing H cb) s)) \<in> {Error, ts_status (tstate s)}"
    | (waiting) "pongTimeout s \<noteq> None" "ping_tick (sendPing H cb) s = s"
proof (cases "pongTimeout s")
  case None
  obtain u where u: "u = s\<lparr>pingSentAt := Some (now (sched s))\<rparr>" by simp
  obtain v where v: "v = sendPing H cb u" by simp
  have "same_sockets s u" by (simp add: u same_sockets_def)
  moreover have "same_sockets u v" "ts_status (tstate v) \<in> {Error, ts_status (tstate u)}"
    unfolding v sendPing_def by (rule sendPayload_same)+
  moreover obtain h sc where "setTimeout Pong_deadline PONG_TIMEOUT (sched v) = (h, sc)" by fastforce
  ultimately have "same_sockets s (ping_tick (sendPing H cb) s)"
    "ts_status (tstate (ping_tick (sendPing H cb) s)) \<in> {Error, ts_status (tstate u)}"
    using None by (simp_all add: ping_tick_def u [symmetric] v [symmetric] Let_def same_sockets_def)
  then show ?thesis using due None by (simp add: u)
qed (simp add: ping_tick_def waiting)

lemma weight_task:
  assumes "lc_inv H s" "fire h (sched s) = Some (t, sc)"
  shows "weight (run_task H cb t (s\<lparr>sched := sc\<rparr>)) \<le> weight s"
  using assms
proof (cases rule: fire_task)
  case ping
  have "weight (ping_tick (sendPing H cb) (s\<lparr>sched := sc\<rparr>)) = weight (s\<lparr>sched := sc\<rparr>)"
    by (cases rule: ping_tick_frame [of "s\<lparr>sched := sc\<rparr>"]) (simp_all add: weight_same)
  then show ?thesis using ping by (simp add: weight_def budget_def)
next
  case pong
  then show ?thesis
    using weight_closeActive [of CLOSE_PONG_TIMEOUT "js ''pong timeout''" "s\<lparr>sched := sc\<rparr>"]
    by (simp add: onPongTimeout_def) (simp add: weight_def budget_def)
next
  case reconnect
  then show ?thesis
    using weight_connect [of "s\<lparr>sched := sc, reconnectTimer := None\<rparr>"] by (simp add: weight_def budget_def)
qed

lemma weight_deliver:
  "lc_inv H s \<Longrightarrow> (\<And>g. weight (f k g s) \<le> weight s) \<Longrightarrow> weight (deliver f k s) \<le> weight s"
  by (simp add: deliver_current lc_inv_def core_inv_def)

lemma weight_message: "lc_inv H s \<Longrightarrow> weight (onSocketMessage cb ev k g s) \<le> weight s"
  using message_law [of s ev] weight_same [of s "h_message cb ev s"]
  by (simp add: onSocketMessage_def withCurrentSocket_def)

lemma weight_error: "weight (onSocketError H cb ev k g s) \<le> weight s"
  using failing_reports(2) [of s g ev] weight_same [of s "handleSocketError H (h_failure cb) g ev s"]
  by (simp add: onSocketError_def withCurrentSocket_def failing_def)

lemma weight_step:
  assumes "lc_inv H s" "unattended e"
  shows "weight (transport_run_step H cb e s) \<le> weight s"
proof (cases e)
  case (Fire h)
  then show ?thesis using weight_task assms by (auto split: option.split prod.split)
next
  case (Send p)
  then show ?thesis using weight_same [OF sendPayload_same(1)] by simp
next
  case Mark_pong
  then show ?thesis using weight_same [OF markPong_same [of s]] by (simp add: lc_markPong_def rel_markPong_def)
next
  case (Socket_close code why k)
  have inv: "lc_inv H (set_ready k RS_closed s)" using assms(1) by (rule lc_inv_ready)
  then have "weight (deliver (onSocketClose H cb code why) k (set_ready k RS_closed s)) \<le> weight s"
    using weight_deliver [OF inv, of "onSocketClose H cb code why"] weight_close [OF inv] weight_ready [of k RS_closed s] by simp
  then show ?thesis using Socket_close by simp
next
  case (Socket_message k ev)
  then show ?thesis using assms(1) by (simp add: weight_deliver weight_message)
next
  case (Socket_failed k ev)
  then show ?thesis using assms(1) by (simp add: weight_deliver weight_error)
next
  case (Socket_closing k)
  then show ?thesis by (simp add: weight_ready)
qed (use assms(2) in \<open>simp_all add: weight_def budget_def updateRuntime_def\<close>)

theorem bounded_recovery:
  "lc_inv H s \<Longrightarrow> list_all unattended es \<Longrightarrow>
   lc_inv H (fold (transport_run_step H cb) es s) \<and> weight (fold (transport_run_step H cb) es s) \<le> weight s"
proof (induction es arbitrary: s)
  case (Cons e es)
  then have "lc_inv H (transport_run_step H cb e s)" "weight (transport_run_step H cb e s) \<le> weight s"
    by (simp_all add: step_inv weight_step)
  with Cons show ?case using le_trans by fastforce
qed simp

subsection \<open>A disposed service stays silent\<close>

lemma dispose_quiet: "quiet (dispose s)" "opened_urls (dispose s) = opened_urls s"
  by (cases rule: closeActive_cases [of 1000 "js ''component unmount''" Dispose "quiesce False s"];
    simp add: dispose_def command_eq quiet_def dispatchEvent_def)+

lemma quiet_same:
  assumes "same_sockets s t" "lc_inv H t" "quiet s"
  shows "quiet t \<and> opened_urls t = opened_urls s"
  using assms by (cases "pongTimeout t") (auto simp: same_sockets_def quiet_def lc_inv_def core_inv_def timers_inv_def)

lemma quiet_ready: "quiet s \<Longrightarrow> quiet (set_ready k r s)"
  using max.cobounded2 order.trans by (fastforce simp: quiet_def set_ready_def simp del: rs_le)

lemma quiet_no_fire: "lc_inv H s \<Longrightarrow> quiet s \<Longrightarrow> fire h (sched s) = None"
proof (rule ccontr)
  assume inv: "lc_inv H s" and q: "quiet s" and "fire h (sched s) \<noteq> None"
  then obtain t sc where "fire h (sched s) = Some (t, sc)" by auto
  with inv show False using q by (cases rule: fire_task) (simp_all add: quiet_def)
qed

lemma quiet_close:
  assumes "quiet s"
  shows "quiet (onSocketClose H cb code why k g s) \<and> opened_urls (onSocketClose H cb code why k g s) = opened_urls s"
  using assms
  by (auto simp: onSocketClose_def releaseIfCurrentWithIntent_def isCurrent_def quiet_def handleSocketClose_def
      executeTransportClosePlan_def resolveTransportClosePlan_def dispatchEvent_def hb_stop_eq Let_def)

lemma quiet_deliver:
  "lc_inv H s \<Longrightarrow> quiet s \<Longrightarrow> (\<And>g. quiet (f k g s) \<and> opened_urls (f k g s) = opened_urls s) \<Longrightarrow>
   quiet (deliver f k s) \<and> opened_urls (deliver f k s) = opened_urls s"
  by (simp add: deliver_current lc_inv_def core_inv_def)

lemma quiet_step:
  assumes inv: "lc_inv H s" and q: "quiet s" and e: "unattended e \<or> (\<exists>k. e = Socket_open k)"
  shows "quiet (transport_run_step H cb e s) \<and> opened_urls (transport_run_step H cb e s) = opened_urls s"
  using e
proof (cases e)
  case (Fire h)
  then show ?thesis using quiet_no_fire [OF inv q] q by simp
next
  case (Send p)
  then show ?thesis using quiet_same [OF sendPayload_same(1) sendPayload_inv [OF inv] q] by simp
next
  case Mark_pong
  then show ?thesis
    using quiet_same [OF markPong_same markPong_inv [OF inv, unfolded lc_markPong_def rel_markPong_def] q]
    by (simp add: lc_markPong_def rel_markPong_def)
next
  case (Socket_open k)
  have "socket s \<noteq> Some k" if "ready s k = RS_connecting"
    using q that by (auto simp: quiet_def)
  then have "deliver (onSocketOpen cb) k (set_ready k RS_open s) = set_ready k RS_open s" if "ready s k = RS_connecting"
    using that deliver_current [of "set_ready k RS_open s"] lc_inv_ready [OF inv, of k RS_open]
    by (simp add: lc_inv_def core_inv_def) (simp add: set_ready_def)
  then show ?thesis using Socket_open q quiet_ready [OF q, of k RS_open] by (auto simp: set_ready_def)
next
  case (Socket_message k ev)
  have "quiet (onSocketMessage cb ev k g s) \<and> opened_urls (onSocketMessage cb ev k g s) = opened_urls s" for g
    using quiet_same [of s "h_message cb ev s"] message_law [OF inv, of ev] q
    by (simp add: onSocketMessage_def withCurrentSocket_def)
  then show ?thesis using Socket_message quiet_deliver [OF inv q] by simp
next
  case (Socket_failed k ev)
  have "quiet (onSocketError H cb ev k g s) \<and> opened_urls (onSocketError H cb ev k g s) = opened_urls s" for g
  proof (cases "isCurrent k g s")
    case True
    have "same_sockets s (handleSocketError H (h_failure cb) g ev s)"
      using failing_reports(2) [of s g ev] by (simp add: failing_def)
    then show ?thesis using quiet_same [OF _ onSocketError_inv [OF inv, of ev k g] q] True
      by (simp add: onSocketError_def withCurrentSocket_def)
  qed (simp add: q onSocketError_def withCurrentSocket_def)
  then show ?thesis using Socket_failed quiet_deliver [OF inv q] by simp
next
  case (Socket_closing k)
  then show ?thesis using q quiet_ready [OF q] by (simp add: set_ready_def)
next
  case (Socket_close code why k)
  have "quiet (deliver (onSocketClose H cb code why) k (set_ready k RS_closed s)) \<and>
    opened_urls (deliver (onSocketClose H cb code why) k (set_ready k RS_closed s)) = opened_urls (set_ready k RS_closed s)"
    by (intro quiet_deliver lc_inv_ready inv quiet_ready q quiet_close)
  then show ?thesis using Socket_close q by (simp add: set_ready_def)
qed (use q in \<open>simp_all add: quiet_def updateRuntime_def\<close>)

theorem disposed_silent:
  "lc_inv H s \<Longrightarrow> quiet s \<Longrightarrow> list_all (\<lambda>e. unattended e \<or> (\<exists>k. e = Socket_open k)) es \<Longrightarrow>
   quiet (fold (transport_run_step H cb) es s) \<and> opened_urls (fold (transport_run_step H cb) es s) = opened_urls s"
proof (induction es arbitrary: s)
  case (Cons e es)
  then have "lc_inv H (transport_run_step H cb e s)" "quiet (transport_run_step H cb e s)"
    "opened_urls (transport_run_step H cb e s) = opened_urls s"
    using quiet_step [of s e] by (simp_all add: step_inv)
  with Cons show ?case by simp
qed simp

subsection \<open>A manual reconnect\<close>

lemma connect_valid:
  assumes "\<not> hasActiveConnection s" "create_throws s = None" "validateWebsocketEndpoint H (wsUrl s) = Inr u"
  shows "connect H cb s = attach (next_socket s) (fresh_socket u s)"
  using assms by (simp add: connect_def createSocket_def createTransport_def fresh_socket_def dispatchEvent_def Let_def)

lemma manual_reconnect:
  assumes inv: "lc_inv H s" and sock: "socket s = Some k" "ready s k \<le> RS_open"
    and world: "create_throws s = None" "validateWebsocketEndpoint H (wsUrl s) = Inr u"
    and s1: "s1 = transport_run_step H cb Reconnect_now s"
    and s2: "s2 = transport_run_step H cb (Socket_close code why k) s1"
  shows "close_calls s1 = close_calls s @ [(k, CLOSE_MANUAL_RECONNECT, js ''manual reconnect'')]"
    "opened_urls s1 = opened_urls s" "pending (sched s1) = Map.empty"
    "opened_urls s2 = opened_urls s @ [(next_socket s, u)]" "socket s2 = Some (next_socket s)"
    "reconnectAttempt (tstate s2) = 0" "reconnectTimer s2 = None"
    "ts_status (tstate s2) = (if hasSessionContext s then Reconnecting else Connecting)"
proof -
  define q where "q = quiesce True s"
  have q: "socket q = Some k" "ready q = ready s" "close_calls q = close_calls s" "opened_urls q = opened_urls s"
    "next_socket q = next_socket s" "create_throws q = None" "wsUrl q = wsUrl s" "hasSessionContext q = hasSessionContext s"
    "reconnectTimer q = None" "reconnectAttempt (tstate q) = 0"
    using sock world by (simp_all add: q_def quiesce_attempts)
  have lq: "lc_inv H q" "pending (sched q) = Map.empty"
    using inv lc_inv_quiesce [of H s True] quiesce_silent [of H s True] by (simp_all add: q_def lc_inv_def)
  define m where "m = (q\<lparr>closeIntent := Manual\<rparr>)"
  have e1: "s1 = socket_close k CLOSE_MANUAL_RECONNECT (js ''manual reconnect'') m"
    using sock q unfolding s1 m_def
    by (simp add: reconnectNow_def command_eq closeActive_def q_def [symmetric] not_open_iff [symmetric] del: rs_le)
  show "close_calls s1 = close_calls s @ [(k, CLOSE_MANUAL_RECONNECT, js ''manual reconnect'')]"
    "opened_urls s1 = opened_urls s" "pending (sched s1) = Map.empty"
    using q lq by (simp_all add: e1 m_def)
  have l1: "lc_inv H s1" unfolding s1 by (rule step_inv [OF inv])
  define r where "r = set_ready k RS_closed s1"
  have lr: "session_inv r" using lc_inv_ready [OF l1] by (simp add: r_def lc_inv_def core_inv_def)
  have r: "socket r = Some k" "closeIntent r = Manual" "opened_urls r = opened_urls s" "next_socket r = next_socket s"
    "create_throws r = None" "wsUrl r = wsUrl s" "hasSessionContext r = hasSessionContext s" "reconnectTimer r = None"
    "reconnectAttempt (tstate r) = 0"
    using q by (simp_all add: r_def set_ready_def e1 m_def)
  obtain rep t where h: "handleSocketClose (generation r) (clear_session r) = (rep, t)" by fastforce
  then have te: "t = snd (handleSocketClose (generation r) (clear_session r))" by simp
  define c where "c = dispatchEvent (Set_connecting False) t"
  have c: "socket c = None" "opened_urls c = opened_urls s" "next_socket c = next_socket s" "create_throws c = None"
    "wsUrl c = wsUrl s" "hasSessionContext c = hasSessionContext s" "reconnectTimer c = None" "reconnectAttempt (tstate c) = 0"
    using r by (simp_all add: c_def dispatchEvent_def te) (simp_all add: handleSocketClose_def hb_stop_eq)
  have "k < next_socket s1" using l1 q(1) by (auto simp: e1 m_def lc_inv_def core_inv_def session_inv_def)
  then have "s2 = deliver (onSocketClose H cb code why) k r" by (simp add: s2 r_def)
  also have "\<dots> = connect H cb c"
    using r h by (simp add: deliver_current [OF lr] onSocketClose_def releaseIfCurrentWithIntent_def isCurrent_def
        executeTransportClosePlan_def resolveTransportClosePlan_def c_def)
  also have "\<dots> = attach (next_socket c) (fresh_socket u c)"
    using c world by (intro connect_valid) (simp_all add: hasActiveConnection_def)
  finally have e2: "s2 = attach (next_socket c) (fresh_socket u c)" .
  show "opened_urls s2 = opened_urls s @ [(next_socket s, u)]" "socket s2 = Some (next_socket s)"
    "reconnectAttempt (tstate s2) = 0" "reconnectTimer s2 = None"
    "ts_status (tstate s2) = (if hasSessionContext s then Reconnecting else Connecting)"
    using c by (simp_all add: e2 fresh_socket_def dispatchEvent_def Let_def)
qed

subsection \<open>The pong deadline\<close>

lemma ping_sent:
  assumes sock: "socket s = Some k" "ready s k = RS_open" "send_throws s = None" "pongTimeout s = None"
    and f: "fire h (sched s) = Some (Ping_tick, sc)"
    and s1: "s1 = transport_run_step H cb (Fire h) s"
  shows "wire s1 = wire s @ [(k, Ping)]" "pingSentAt s1 = Some (wall (sched s))" "socket s1 = Some k" "ready s1 = ready s"
    "close_calls s1 = close_calls s"
    "\<exists>p. pongTimeout s1 = Some p \<and>
       armed (sched s1) p = Some \<lparr>due = mono (sched s) + PONG_TIMEOUT, period = None, callback = Pong_deadline\<rparr>"
proof -
  have clock: "mono sc = mono (sched s)" "wall sc = wall (sched s)"
    using f by (auto simp: fire_def split: option.splits if_splits)
  have e: "s1 = s\<lparr>sched := snd (setTimeout Pong_deadline PONG_TIMEOUT sc), wire := wire s @ [(k, Ping)],
      pingSentAt := Some (wall (sched s)), pongTimeout := Some (next_handle sc)\<rparr>"
    using assms clock
    by (simp add: ping_tick_def sendPing_def sendPayload_def current_def createPingMessage_def now_def Let_def
        setTimeout_def add_timer_def)
  show "wire s1 = wire s @ [(k, Ping)]" "pingSentAt s1 = Some (wall (sched s))" "socket s1 = Some k" "ready s1 = ready s"
    "close_calls s1 = close_calls s"
    using sock by (simp_all add: e)
  show "\<exists>p. pongTimeout s1 = Some p \<and>
       armed (sched s1) p = Some \<lparr>due = mono (sched s) + PONG_TIMEOUT, period = None, callback = Pong_deadline\<rparr>"
    using clock by (simp add: e setTimeout_def add_timer_def PONG_TIMEOUT_def)
qed

lemma pong_missed:
  assumes "socket s = Some k" "ready s k = RS_open"
    and "armed (sched s) p = Some \<lparr>due = t, period = None, callback = Pong_deadline\<rparr>" "t \<le> mono (sched s) + int d"
    and "s1 = transport_run_step H cb (Fire p) (transport_run_step H cb (Pass_time d w) s)"
  shows "close_calls s1 = close_calls s @ [(k, CLOSE_PONG_TIMEOUT, js ''pong timeout'')]"
  using assms by (simp add: fire_def pass_time_def onPongTimeout_def closeActive_def)

lemma pong_received:
  assumes "pongTimeout s = Some p" "s1 = transport_run_step H cb Mark_pong s"
  shows "pongTimeout s1 = None" "pending (sched s1) p = None" "close_calls s1 = close_calls s"
    "pingSentAt s = Some t \<Longrightarrow> latencyMs (tstate s1) = Some (wall (sched s) - t)"
  using assms by (simp_all add: lc_markPong_def rel_markPong_def markPong_eq now_def browser.clear_law)

subsection \<open>A dropped connection\<close>

text \<open>The close of the current socket, up to the close plan: the socket is gone, the heartbeat is off.\<close>

lemma close_step:
  assumes inv: "lc_inv H s" and sock: "socket s = Some k"
  obtains t rep where
    "transport_run_step H cb (Socket_close code why k) s =
       executeTransportClosePlan H cb (closeIntent s) code why (reconnectAttempt (tstate s)) rep t"
    "core_inv H t" "socket t = None" "tstate t = tstate s" "opened_urls t = opened_urls s"
    "reconnectTimer t = reconnectTimer s" "mono (sched t) = mono (sched s)" "wire t = wire s"
    "pingTimer t = None" "pongTimeout t = None" "closeIntent t = Normal"
proof -
  define r where "r = set_ready k RS_closed s"
  have lr: "lc_inv H r" using inv by (simp add: r_def lc_inv_ready)
  have sr: "session_inv r" using lr by (simp add: lc_inv_def core_inv_def)
  have r: "socket r = Some k" "closeIntent r = closeIntent s" "tstate r = tstate s" "opened_urls r = opened_urls s"
    "reconnectTimer r = reconnectTimer s" "sched r = sched s" "wire r = wire s" "generation r = generation s"
    using sock by (simp_all add: r_def set_ready_def)
  have k: "k < next_socket s" using inv sock by (simp add: lc_inv_def core_inv_def session_inv_def)
  have ab: "abandoned r"
    using sock by (cases "ready s k") (simp_all add: r_def abandoned_def set_ready_def max_def less_eq_ready_state_def)
  obtain rep t where h: "handleSocketClose (generation s) (clear_session r) = (rep, t)" by fastforce
  then have t: "t = snd (handleSocketClose (generation s) (clear_session r))" by simp
  have "transport_run_step H cb (Socket_close code why k) s = deliver (onSocketClose H cb code why) k r"
    using k by (simp add: r_def)
  also have "\<dots> = executeTransportClosePlan H cb (closeIntent s) code why (reconnectAttempt (tstate t)) rep t"
    using r h by (simp add: deliver_current [OF sr] onSocketClose_def releaseIfCurrentWithIntent_def isCurrent_def)
  moreover have "core_inv H t" unfolding t using lr ab by (intro release_core) (simp_all add: lc_inv_def)
  moreover have f: "tstate t = tstate s" "socket t = None" "opened_urls t = opened_urls s" "reconnectTimer t = reconnectTimer s"
    "mono (sched t) = mono (sched s)" "wire t = wire s" "pingTimer t = None" "pongTimeout t = None" "closeIntent t = Normal"
    using r by (simp_all add: t) (simp_all add: handleSocketClose_def hb_stop_eq stop_sched_def Let_def clearTimeout_def split: option.split)
  ultimately show thesis using that by simp
qed

lemma drop_recovers:
  assumes "lc_inv H s" "socket s = Some k" "closeIntent s = Normal" "isRecoverableTransportClose code"
    "reconnectAttempt (tstate s) < MAX_ATTEMPTS"
    and s1: "s1 = transport_run_step H cb (Socket_close code why k) s"
  shows "socket s1 = None" "reconnectAttempt (tstate s1) = Suc (reconnectAttempt (tstate s))"
    "ts_status (tstate s1) = Reconnecting" "opened_urls s1 = opened_urls s"
    "\<exists>h. reconnectTimer s1 = Some h \<and> armed (sched s1) h =
       Some \<lparr>due = mono (sched s) + reconnectDelayMs (reconnectAttempt (tstate s)), period = None, callback = Reconnect_task\<rparr>"
proof -
  let ?n = "reconnectAttempt (tstate s)"
  obtain t rep where t: "s1 = executeTransportClosePlan H cb (closeIntent s) code why ?n rep t"
    "socket t = None" "tstate t = tstate s" "opened_urls t = opened_urls s" "mono (sched t) = mono (sched s)"
    using close_step [OF assms(1,2), of code why] s1 by metis
  define u where "u = (if rep then reportCloseFailure H (h_failure cb) code why t else t)"
  have same: "same_sockets t u" "same_timers t u"
    using failing_reports(4) [of t code why] by (simp_all add: u_def failing_def)
  have u: "socket u = None" "opened_urls u = opened_urls s" "mono (sched u) = mono (sched s)"
    using same t by (simp_all add: same_sockets_def same_timers_def)
  have e: "s1 = scheduleReconnect (reconnectDelayMs ?n) (dispatchEvent (Schedule_reconnect (Suc ?n)) u)"
    using assms(3-5) by (simp add: t(1) executeTransportClosePlan_def resolveTransportClosePlan_def u_def [symmetric])
  show "socket s1 = None" "reconnectAttempt (tstate s1) = Suc ?n" "ts_status (tstate s1) = Reconnecting"
    "opened_urls s1 = opened_urls s"
    using u by (simp_all add: e) (simp_all add: dispatchEvent_def)
  have "0 \<le> reconnectDelayMs ?n" using reconnectDelay_bounds(1) [of ?n] by simp
  then show "\<exists>h. reconnectTimer s1 = Some h \<and> armed (sched s1) h =
      Some \<lparr>due = mono (sched s) + reconnectDelayMs ?n, period = None, callback = Reconnect_task\<rparr>"
    using u(3) by (simp add: e scheduleReconnect_def setTimeout_def add_timer_def clearReconnect_eq dispatchEvent_def Let_def
        clearTimeout_def split: option.split)
qed

lemma drop_gives_up:
  assumes "lc_inv H s" "socket s = Some k" "closeIntent s = Normal"
    "\<not> isRecoverableTransportClose code \<or> reconnectAttempt (tstate s) = MAX_ATTEMPTS"
    and s1: "s1 = transport_run_step H cb (Socket_close code why k) s"
  shows "socket s1 = None" "ts_status (tstate s1) = Error" "opened_urls s1 = opened_urls s"
    "reconnectTimer s1 = reconnectTimer s"
proof -
  let ?n = "reconnectAttempt (tstate s)"
  obtain t rep where t: "s1 = executeTransportClosePlan H cb (closeIntent s) code why ?n rep t"
    "socket t = None" "tstate t = tstate s" "opened_urls t = opened_urls s" "reconnectTimer t = reconnectTimer s"
    using close_step [OF assms(1,2), of code why] s1 by metis
  define u where "u = (if rep then reportCloseFailure H (h_failure cb) code why t else t)"
  have same: "same_sockets t u"
    using failing_reports(4) [of t code why] by (simp add: u_def failing_def)
  have u: "socket u = None" "opened_urls u = opened_urls s" "reconnectTimer u = reconnectTimer s"
    using same t by (simp_all add: same_sockets_def)
  have "\<exists>f. s1 = dispatchEvent Socket_error (dispatchEvent (Ev_socket_failure f) u) \<or> s1 = dispatchEvent Socket_error u"
    using assms(3,4) by (auto simp: t(1) executeTransportClosePlan_def resolveTransportClosePlan_def u_def [symmetric] Let_def)
  then show "socket s1 = None" "ts_status (tstate s1) = Error" "opened_urls s1 = opened_urls s"
    "reconnectTimer s1 = reconnectTimer s"
    using u by (auto simp: dispatchEvent_def)
qed

end

end
