(* ===== verification/Lifecycle_Frame.thy ===== *)
theory Lifecycle_Frame
  imports Lifecycle_Laws
begin

section \<open>The owner's part of the state\<close>

text \<open>
  The service reaches the state of its owner through the three handlers only.  The interface
  \<open>owner_frame\<close> turns that into a rule: a predicate on the owner's part that the handlers for an open socket
  and a failure keep is kept by every step of the transport that delivers no message, or one whose handling keeps it;
  \<open>owner_invariant\<close> adds that every message keeps it.
\<close>

lemma more_ops:
  "lifecycle.more (dispatchEvent e s) = lifecycle.more s"
  "lifecycle.more (clear_session s) = lifecycle.more s"
  "lifecycle.more (attach k s) = lifecycle.more s"
  "lifecycle.more (socket_close k c r s) = lifecycle.more s"
  "lifecycle.more (snd (closeActive c r i s)) = lifecycle.more s"
  "lifecycle.more (hb_stop s) = lifecycle.more s"
  "lifecycle.more (hb_start s) = lifecycle.more s"
  "lifecycle.more (hb_markPong s) = lifecycle.more s"
  "lifecycle.more (clearReconnectTimer s) = lifecycle.more s"
  "lifecycle.more (scheduleReconnect d s) = lifecycle.more s"
  "lifecycle.more (set_ready k rs s) = lifecycle.more s"
  "lifecycle.more (snd (handleSocketClose g s)) = lifecycle.more s"
  "lifecycle.more (rel_onConnected s) = lifecycle.more s"
  "lifecycle.more (updateRuntime u ctx s) = lifecycle.more s"
  by (simp_all add: dispatchEvent_def clear_session_def attach_def bindSocketHandlers_def socket_close_def
      closeActive_def hb_stop_eq hb_start_eq markPong_eq clearReconnect_eq scheduleReconnect_def set_ready_def
      handleSocketClose_def rel_onConnected_def reporter_reset_def updateRuntime_def Let_def
      split: option.split prod.split)

lemma more_quiesce: "lifecycle.more (quiesce b s) = lifecycle.more s"
  by (simp add: quiesce_def more_ops)

locale owner_frame =
  fixes H :: host and cb :: "'a lifecycle_scheme handlers" and P :: "'a lifecycle_scheme \<Rightarrow> bool"
  assumes more_law: "lifecycle.more s = lifecycle.more t \<Longrightarrow> P s = P t"
    and failure_keeps: "P s \<Longrightarrow> P (h_failure cb f s)"
    and open_keeps: "P s \<Longrightarrow> P (h_open cb s)"
begin

lemma keeps_ops:
  "P (dispatchEvent e s) = P s" "P (clear_session s) = P s" "P (attach k s) = P s"
  "P (socket_close k c r s) = P s" "P (snd (closeActive c r i s)) = P s" "P (hb_stop s) = P s"
  "P (hb_markPong s) = P s" "P (clearReconnectTimer s) = P s"
  "P (scheduleReconnect d s) = P s" "P (set_ready k rs s) = P s" "P (snd (handleSocketClose g s)) = P s"
  "P (rel_onConnected s) = P s" "P (updateRuntime u ctx s) = P s" "P (quiesce b s) = P s"
  by (rule more_law; simp add: more_ops more_quiesce)+

lemma keeps_fields:
  "P (s\<lparr>sched := sc\<rparr>) = P s" "P (s\<lparr>pingSentAt := p\<rparr>) = P s" "P (s\<lparr>wire := w\<rparr>) = P s"
  "P (s\<lparr>sched := sc, pongTimeout := q\<rparr>) = P s" "P (s\<lparr>sched := sc, reconnectTimer := r\<rparr>) = P s"
  "P (s\<lparr>socketErrorGeneration := g\<rparr>) = P s" "P (s\<lparr>create_throws := c, send_throws := d\<rparr>) = P s"
  "P (s\<lparr>socketFailureNotice := n\<rparr>) = P s"
  by (rule more_law; simp)+

lemma keeps_report: "P s \<Longrightarrow> P (report H (h_failure cb) f s)"
proof -
  assume p: "P s"
  obtain nxt b n where reg: "registerFailureNotice (socketFailureNotice (dispatchEvent (Ev_socket_failure (toFailureContext f)) s))
      (failure_notice_key H f) (now (sched (dispatchEvent (Ev_socket_failure (toFailureContext f)) s)))
      SOCKET_FAILURE_NOTICE_COOLDOWN_MS = (nxt, b, n)" by (metis prod_cases3)
  then show ?thesis using p failure_keeps keeps_ops(1) keeps_fields(8)
    by (simp add: report_def notifyWithFailureThrottle_def Let_def)
qed

lemma keeps_reports:
  "P s \<Longrightarrow> P (reportSendFailure H (h_failure cb) e s)"
  "P s \<Longrightarrow> P (handleSocketError H (h_failure cb) g ev s)"
  "P s \<Longrightarrow> P (reportBootstrapFailure H (h_failure cb) r d c s)"
  "P s \<Longrightarrow> P (reportCloseFailure H (h_failure cb) code why s)"
  by (simp_all add: reportSendFailure_def handleSocketError_def reportBootstrapFailure_def reportCloseFailure_def
      Let_def keeps_ops keeps_report keeps_fields)

lemma keeps_send: "P s \<Longrightarrow> P (snd (sendPayload H (h_failure cb) p s))"
  by (simp add: sendPayload_def keeps_reports keeps_fields split: option.split)

lemma more_createSocket: "lifecycle.more (snd (createSocket H u s)) = lifecycle.more s"
  by (simp add: createSocket_def createTransport_def Let_def split: sum.split option.split)

lemma keeps_connect: "P s \<Longrightarrow> P (connect H cb s)"
proof -
  assume p: "P s"
  let ?s1 = "dispatchEvent (Set_connecting (hasSessionContext s)) s"
  obtain r s2 where c: "createSocket H (wsUrl ?s1) ?s1 = (r, s2)" by fastforce
  have "P s2" using p more_law [of s2 ?s1] more_createSocket [of "wsUrl ?s1" ?s1] c keeps_ops(1) by simp
  then show ?thesis using p c
    by (simp add: connect_def Let_def keeps_reports keeps_ops split: sum.split prod.split)
qed

lemma keeps_command: "P s \<Longrightarrow> P (executeLifecycleCommand b (closeActive c r i) (connect H cb) s)"
proof -
  assume p: "P s"
  obtain d s1 where c: "closeActive c r i (quiesce b s) = (d, s1)" by fastforce
  then have "P s1" using p keeps_ops by (metis snd_conv)
  then show ?thesis using c by (simp add: command_eq keeps_connect)
qed

lemma keeps_endpoint: "P s \<Longrightarrow> P (reconnectWithEndpointChange H cb s)"
  by (simp add: reconnectWithEndpointChange_def command_eq detachForSocketSwap_def keeps_connect keeps_ops
      split: option.split)

lemma keeps_dispose: "P s \<Longrightarrow> P (dispose s)"
proof -
  assume p: "P s"
  obtain d s1 where c: "closeActive 1000 (js ''component unmount'') Dispose (quiesce False s) = (d, s1)" by fastforce
  then have "P s1" using p keeps_ops by (metis snd_conv)
  then show ?thesis using c by (simp add: dispose_def command_eq keeps_ops)
qed

lemma keeps_plan: "P s \<Longrightarrow> P (executeTransportClosePlan H cb intent code why n rep s)"
  by (simp add: executeTransportClosePlan_def Let_def keeps_ops keeps_connect keeps_reports split: close_plan.split)

lemma keeps_close: "P s \<Longrightarrow> P (onSocketClose H cb code why k g s)"
proof -
  assume p: "P s"
  obtain rep s2 where h: "handleSocketClose g (clear_session s) = (rep, s2)" by fastforce
  have "P s2" using p keeps_ops(2) [of s] keeps_ops(11) [of g "clear_session s"] h by simp
  then show ?thesis using p h keeps_plan
    by (simp add: onSocketClose_def releaseIfCurrentWithIntent_def)
qed

lemma keeps_task: "P s \<Longrightarrow> P (run_task H cb t s)"
proof (cases t)
  case Ping_tick
  assume p: "P s"
  show ?thesis
  proof (cases "pongTimeout s")
    case None
    obtain u where u: "u = sendPing H cb (s\<lparr>pingSentAt := Some (now (sched s))\<rparr>)" by simp
    have "P u" unfolding u sendPing_def by (intro keeps_send) (simp add: keeps_fields p)
    then show ?thesis using Ping_tick None
      by (simp add: ping_tick_def u [symmetric] keeps_fields split: prod.split)
  qed (simp add: Ping_tick ping_tick_def p)
next
  case Reconnect_task
  assume "P s"
  moreover have "P (s\<lparr>reconnectTimer := None\<rparr>) = P s" by (rule more_law) simp
  ultimately show ?thesis using Reconnect_task keeps_connect by simp
qed (simp add: onPongTimeout_def keeps_ops)

lemma keeps_fold: "P s \<Longrightarrow> (\<And>g t. P t \<Longrightarrow> P (f k g t)) \<Longrightarrow> P (deliver f k s)"
proof -
  assume p: "P s" and f: "\<And>g t. P t \<Longrightarrow> P (f k g t)"
  have "P (fold (\<lambda>(k', g). if k' = k then f k g else id) ls s)" for ls
    using p by (induction ls arbitrary: s) (auto simp: f)
  then show ?thesis by (simp add: deliver_def)
qed

lemma keeps_step_if:
  assumes P: "P s" and m: "\<And>k ev t. e = Socket_message k ev \<Longrightarrow> P t \<Longrightarrow> P (h_message cb ev t)"
  shows "P (transport_run_step H cb e s)"
proof (cases e)
  case (Fire h)
  then show ?thesis using keeps_task P by (auto simp: keeps_fields split: option.split)
next
  case Mark_pong
  then show ?thesis using P by (simp add: lc_markPong_def rel_markPong_def keeps_ops)
next
  case (Weather c d)
  then show ?thesis using P keeps_fields(7) by simp
qed (simp_all add: P keeps_connect reconnectNow_def scheduleFreshConnection_def keeps_command keeps_endpoint keeps_dispose
    keeps_ops keeps_send keeps_fields keeps_fold onSocketOpen_def onSocketMessage_def onSocketError_def
    withCurrentSocket_def open_keeps m keeps_reports keeps_close)

end

locale owner_invariant = owner_frame H cb P for H and cb :: "'a lifecycle_scheme handlers" and P +
  assumes message_keeps: "P s \<Longrightarrow> P (h_message cb ev s)"
begin

theorem keeps_step: "P s \<Longrightarrow> P (transport_run_step H cb e s)"
  by (rule keeps_step_if) (simp_all add: message_keeps)

end

end
