(* ===== verification/Coordinator_Laws.thy ===== *)
theory Coordinator_Laws
  imports Coordinator Lifecycle_Steps Lifecycle_Frame
begin

section \<open>Laws of the coordinator\<close>

text \<open>
  The coordinator is a client of the transport: the interfaces \<open>transport_failure_sink\<close>,
  \<open>transport_client\<close> and \<open>sink\<close> are interpreted on its definitions.  Then: what each server
  message does, and the delivery of keyboard input.
\<close>

subsection \<open>The failure sink\<close>

interpretation failures: transport_failure_sink H "reportSocketFailure :: _ \<Rightarrow> 'a coordinator_scheme \<Rightarrow> _" for H
  by unfold_locales (simp add: reportSocketFailure_def publishNotice_def call_session_def lifecycle.truncate_def)

subsection \<open>Handlers that leave the transport alone\<close>

definition calm :: "host \<Rightarrow> 'a lifecycle_scheme \<Rightarrow> 'a lifecycle_scheme \<Rightarrow> bool" where
  "calm H s t \<longleftrightarrow> same_sockets s t \<and> (lc_inv H s \<longrightarrow> lc_inv H t) \<and>
     ts_status (tstate t) \<in> {Error, ts_status (tstate s)}"

lemma calm_refl: "calm H s s"
  by (simp add: calm_def)

lemma calm_trans: "calm H s t \<Longrightarrow> calm H t u \<Longrightarrow> calm H s u"
  using same_sockets_trans by (auto simp: calm_def)

lemma calm_upper: "lifecycle.truncate t = lifecycle.truncate s \<Longrightarrow> calm H s t"
proof -
  assume eq: "lifecycle.truncate t = lifecycle.truncate s"
  have "same_sockets s t" "same_timers s t" "tstate t = tstate s"
    using eq by (simp_all add: lifecycle.truncate_def same_sockets_def same_timers_def)
  then show ?thesis using lc_inv_same [of s t H] by (simp add: calm_def lc_inv_def)
qed

lemma calm_sendNow: "calm H s (snd (sendNow H p s))"
  unfolding calm_def sendNow_def
  by (intro conjI impI failures.sendPayload_same(1) failures.sendPayload_inv failures.sendPayload_same(3))

lemma calm_markPong: "calm H s (lc_markPong s)"
  using markPong_same [of s] markPong_inv [of H s] by (simp add: calm_def lc_markPong_def rel_markPong_def)
    (simp add: markPong_eq split: option.split)

lemmas upper_defs = publishNotice_def call_session_def setStatusFlag_def dispatchStatusEvent_def
  on_term_def resetQueuedBuffers_def show_outbox_def lifecycle.truncate_def

lemma calm_ops:
  "calm H s (publishNotice n s)" "calm H s (call_session c s)" "calm H s (setStatusFlag f s)"
  "calm H s (on_term g s)" "calm H s (resetQueuedBuffers s)" "calm H s (show_outbox s)"
  "calm H s (s\<lparr>outbox := ob\<rparr>)" "calm H s (s\<lparr>pendingResize := pr\<rparr>)" "calm H s (s\<lparr>outputBytes := nb\<rparr>)"
  "calm H s (s\<lparr>outbox := ob, queuedInputBytes := q, droppedInputBytes := d\<rparr>)"
  by (rule calm_upper; simp add: upper_defs)+

lemma calm_flush_input: "calm H s (snd (flush_input (sendNow H) s))"
proof -
  obtain n ob t where f: "flushOutbox (\<lambda>t chunk. sendNow H (createInputMessage chunk) t) (outbox s) s = (n, ob, t)"
    by (metis prod_cases3)
  have "calm H s t"
    by (rule flush_frame [where R = "calm H", OF calm_sendNow calm_refl calm_trans f])
  then have "calm H s (t\<lparr>outbox := ob\<rparr>)" using calm_ops(7) calm_trans by blast
  then show ?thesis using f by (simp add: flush_input_def)
qed

lemma calm_flushQueued: "calm H s (flushQueuedInput m (sendNow H) s)"
proof -
  obtain n t where f: "flush_input (sendNow H) s = (n, t)" by fastforce
  then have "calm H s t" using calm_flush_input [of H s] by simp
  moreover from this have "calm H s (show_outbox t)" using calm_ops(6) calm_trans by blast
  ultimately show ?thesis by (simp add: flushQueuedInput_def f calm_ops)
qed

lemma calm_flushResize: "calm H s (flushPendingResize (sendNow H) s)"
proof (cases "pendingResize s")
  case (Some p)
  obtain c r where p: "p = (c, r)" by fastforce
  obtain ok t where f: "sendNow H (createResizeMessage (as_num c) (as_num r)) s = (ok, t)" by fastforce
  then have "calm H s t" using calm_sendNow by (metis snd_conv)
  moreover from this have "calm H s (t\<lparr>pendingResize := None\<rparr>)" using calm_ops(8) calm_trans by blast
  ultimately show ?thesis using Some p f by (simp add: flushPendingResize_def)
qed (simp add: flushPendingResize_def calm_refl)

lemma calm_flushAfterReady: "calm H s (flushAfterReady m (sendNow H) ro s)"
proof -
  let ?t = "(resetTerminal s)\<lparr>outputBytes := 0\<rparr>"
  have t: "calm H s ?t" by (rule calm_upper) (simp add: resetTerminal_def upper_defs)
  have "calm H s (resetQueuedBuffers ?t)" by (rule calm_trans [OF t calm_ops(5)])
  moreover have "calm H s (flushPendingResize (sendNow H) (flushQueuedInput m (sendNow H) ?t))"
    by (rule calm_trans [OF calm_trans [OF t calm_flushQueued] calm_flushResize])
  ultimately show ?thesis by (simp add: flushAfterReady_def Let_def)
qed

lemma calm_serverError: "calm H s (handleServerError m c r s)"
  by (rule calm_upper)
    (simp add: handleServerError_def writeServerError_def upper_defs Let_def split: option.split)

lemma calm_message: "calm H s (handleSocketMessage H rv raw s)"
proof -
  have ready: "calm H s (onReady H rv sid ro s)" for sid ro
  proof -
    let ?t = "setStatusFlag None (call_session (Apply_ready_session sid ro) s)"
    have "calm H s ?t" by (rule calm_trans [OF calm_ops(2) calm_ops(3)])
    then show ?thesis unfolding onReady_def
      by (rule calm_trans [OF calm_trans [OF _ calm_flushAfterReady] calm_ops(2)])
  qed
  have out: "calm H s (writeOutputAndTrackBytes d s)" for d
    by (rule calm_upper) (simp add: writeOutputAndTrackBytes_def writeOutput_def upper_defs split: option.split)
  have exit: "calm H s (setStatusFlag f (writeExit c sg s))" for f c sg
    by (rule calm_upper) (simp add: writeExit_def upper_defs)
  have fail: "calm H s (onProtocolFailure f s)" for f
    by (rule calm_upper) (simp add: onProtocolFailure_def upper_defs Let_def)
  show ?thesis
    by (simp add: handleSocketMessage_def handleIncomingServerMessage_def calm_ops ready out exit fail
        calm_serverError calm_markPong split: sum.split server_message.split)
qed

lemma calm_onMessage: "calm H s (onMessage H rv ev s)"
  by (simp add: onMessage_def calm_ops calm_message split: option.split)

lemma calm_onOpen: "calm H s (onOpen H rv s)"
proof -
  let ?s1 = "setStatusFlag None s"
  obtain ok t where f: "sendNow H (createAttachMessage (as_num (fst (runtimeFitSize ?s1)))
    (as_num (snd (runtimeFitSize ?s1))) (rv_sessionId rv) (Some (rv_attachMode rv = Watch))) ?s1 = (ok, t)" by fastforce
  then have "calm H ?s1 t" using calm_sendNow by (metis snd_conv)
  then have "calm H s t" using calm_ops(3) calm_trans by blast
  moreover from this have "calm H s (publishNotice n t)" for n using calm_ops(1) calm_trans by blast
  ultimately show ?thesis using f by (simp add: onOpen_def Let_def)
qed

interpretation client: transport_client H "transportHandlers H rv :: 'a coordinator_scheme handlers" for H rv
proof unfold_locales
  fix f s ev
  show "lifecycle.truncate (h_failure (transportHandlers H rv) f s) = lifecycle.truncate s"
    by (simp add: transportHandlers_def failures.failure_law)
  show "lc_inv H s \<Longrightarrow> lc_inv H (h_open (transportHandlers H rv) s) \<and> same_sockets s (h_open (transportHandlers H rv) s)"
    using calm_onOpen [of H s rv] by (simp add: transportHandlers_def calm_def)
  show "lc_inv H s \<Longrightarrow> lc_inv H (h_message (transportHandlers H rv) ev s) \<and> same_sockets s (h_message (transportHandlers H rv) ev s)"
    using calm_onMessage [of H s rv ev] by (simp add: transportHandlers_def calm_def)
qed

subsection \<open>The keyboard sink\<close>

text \<open>The input frames on the wire, oldest first.\<close>

definition input_log :: "'a browser_scheme \<Rightarrow> jsstring list" where
  "input_log s = concat (map (\<lambda>(k, p). case p of Input d \<Rightarrow> [d] | _ \<Rightarrow> []) (wire s))"

lemma sendNow_frame [simp]:
  "outbox (snd (sendNow H p s)) = outbox s" "pendingResize (snd (sendNow H p s)) = pendingResize s"
  "queuedInputBytes (snd (sendNow H p s)) = queuedInputBytes s"
  "droppedInputBytes (snd (sendNow H p s)) = droppedInputBytes s"
  "statusState (snd (sendNow H p s)) = statusState s" "termRef (snd (sendNow H p s)) = termRef s"
  "runtimeFitSize (snd (sendNow H p s)) = runtimeFitSize s"
  by (simp_all add: sendNow_def sendPayload_def reportSendFailure_def report_def notifyWithFailureThrottle_def
      reportSocketFailure_def publishNotice_def call_session_def dispatchEvent_def Let_def split: option.split prod.split)

lemma sendNow_wire:
  assumes "sendNow H p s = (ok, t)"
  shows "wire t = wire s @ (if ok then [(the (socket s), p)] else [])"
    "ok \<Longrightarrow> \<exists>k. socket s = Some k \<and> ready s k = RS_open"
proof -
  have "wire t = wire s @ (if ok then [(the (socket s), p)] else []) \<and>
    (ok \<longrightarrow> (\<exists>k. socket s = Some k \<and> ready s k = RS_open))"
  proof (cases rule: failures.sendPayload_cases [of H p s])
    case (thrown e)
    then show ?thesis using assms failures.failing_reports(1) [of s H e]
      by (simp add: sendNow_def failures.failing_def)
  qed (use assms in \<open>auto simp: sendNow_def\<close>)
  then show "wire t = wire s @ (if ok then [(the (socket s), p)] else [])"
    "ok \<Longrightarrow> \<exists>k. socket s = Some k \<and> ready s k = RS_open" by simp_all
qed

interpretation keyboard: sink "\<lambda>t chunk. sendNow H (createInputMessage chunk) (t :: 'a coordinator_scheme)" input_log for H
proof
  fix s t :: "'a coordinator_scheme" and d ok
  assume "sendNow H (createInputMessage d) s = (ok, t)"
  then show "input_log t = input_log s @ (if ok then [d] else [])"
    using sendNow_wire(1) by (fastforce simp: input_log_def createInputMessage_def)
qed

subsection \<open>The stream of keyboard input\<close>

text \<open>What was typed and not lost: the input frames sent, then the queue.\<close>

definition typed :: "'a io_bridge_scheme \<Rightarrow> jsstring list" where
  "typed s = input_log s @ queued (outbox s)"

abbreviation obox_ok :: "outbox_state \<Rightarrow> bool" where
  "obox_ok \<equiv> outbox_inv OUTBOX_MAX_BYTES"

lemma obox_max [simp]: "0 \<le> OUTBOX_MAX_BYTES"
  by (simp add: OUTBOX_MAX_BYTES_def)

lemma show_outbox_simps [simp]: "outbox (show_outbox s) = outbox s" "wire (show_outbox s) = wire s"
  "statusState (show_outbox t) = statusState t"
  by (simp_all add: show_outbox_def)

lemma input_log_upper [simp]:
  "input_log (s\<lparr>outbox := ob\<rparr>) = input_log s" "input_log (show_outbox s) = input_log s"
  "input_log (s\<lparr>pendingResize := pr\<rparr>) = input_log s" "input_log (s\<lparr>runtimeFitSize := fs\<rparr>) = input_log s"
  by (simp_all add: input_log_def show_outbox_def)

lemma flush_input_spec:
  assumes f: "flush_input (sendNow H) s = (n, t)" and ok: "obox_ok (outbox s)"
  shows "typed t = typed s" "obox_ok (outbox t)" "droppedBytes (outbox t) = droppedBytes (outbox s)"
    "n = ob_bytes (outbox s) - ob_bytes (outbox t)" "0 \<le> n" "\<exists>m. queued (outbox t) = drop m (queued (outbox s))"
    "queuedInputBytes t = queuedInputBytes s" "droppedInputBytes t = droppedInputBytes s" "statusState t = statusState s"
proof -
  let ?send = "\<lambda>t chunk. sendNow H (createInputMessage chunk) t"
  obtain ob u where fl: "flushOutbox ?send (outbox s) s = (n, ob, u)" and t: "t = u\<lparr>outbox := ob\<rparr>"
    using f by (auto simp: flush_input_def split: prod.splits)
  have frame: "queuedInputBytes u = queuedInputBytes s \<and> droppedInputBytes u = droppedInputBytes s \<and> statusState u = statusState s"
    by (rule flush_frame [where R = "\<lambda>s u. queuedInputBytes u = queuedInputBytes s \<and>
          droppedInputBytes u = droppedInputBytes s \<and> statusState u = statusState s", OF _ _ _ fl]) simp_all
  obtain k where k: "live ob = drop k (live (outbox s))" "input_log u = input_log s @ take k (queued (outbox s))"
    "n = total_bytes (take k (live (outbox s)))" "obox_ok ob" "droppedBytes ob = droppedBytes (outbox s)"
    by (rule keyboard.flush_spec [OF fl ok obox_max])
  have q: "queued ob = drop k (queued (outbox s))" using k(1) by (simp add: queued_def drop_map)
  have split: "total_bytes (live (outbox s)) = total_bytes (take k (live (outbox s))) + total_bytes (live ob)"
    using k(1) by (metis append_take_drop_id total_bytes_simps(3))
  have "ob_bytes ob = total_bytes (live ob)" "ob_bytes (outbox s) = total_bytes (live (outbox s))"
    using k(4) ok by (simp_all add: outbox_inv_def)
  then show "n = ob_bytes (outbox s) - ob_bytes (outbox t)" using split k(3) t by simp
  show "0 \<le> n" unfolding k(3)
    using ok by (intro total_bytes_nonneg) (auto simp: outbox_inv_def dest: in_set_takeD)
  show "typed t = typed s" using q k(2) t by (simp add: typed_def)
  show "obox_ok (outbox t)" "droppedBytes (outbox t) = droppedBytes (outbox s)" "\<exists>m. queued (outbox t) = drop m (queued (outbox s))"
    using k q t by auto
  show "queuedInputBytes t = queuedInputBytes s" "droppedInputBytes t = droppedInputBytes s" "statusState t = statusState s"
    using frame t by simp_all
qed

definition lost :: "jsstring list \<Rightarrow> int" where
  "lost ds = sum_list (map (\<lambda>d. int (utf8ByteLength d)) ds)"

lemma lost_simps [simp]: "lost [] = 0" "lost (d # ds) = int (utf8ByteLength d) + lost ds" "lost (ds @ es) = lost ds + lost es"
  by (simp_all add: lost_def)

lemma total_lost: "\<forall>c \<in> set cs. chunk_ok c \<Longrightarrow> total_bytes cs = lost (map chunk_data cs)"
  by (induction cs) (simp_all add: chunk_ok_def)

lemma enqueue_stream:
  assumes ok: "obox_ok ob" and d: "d \<noteq> []"
  obtains (kept) ds where "ds @ queued (enqueueOutbox OUTBOX_MAX_BYTES ob d) = queued ob @ [d]"
      "droppedBytes (enqueueOutbox OUTBOX_MAX_BYTES ob d) = droppedBytes ob + lost ds"
    | (refused) "OUTBOX_MAX_BYTES < int (utf8ByteLength d)" "queued (enqueueOutbox OUTBOX_MAX_BYTES ob d) = queued ob"
      "droppedBytes (enqueueOutbox OUTBOX_MAX_BYTES ob d) = droppedBytes ob + lost [d]"
proof -
  let ?e = "enqueueOutbox OUTBOX_MAX_BYTES ob d"
  note spec = enqueue_spec [OF ok obox_max, of d]
  have bytes: "ob_bytes ?e = total_bytes (live ?e)" "ob_bytes ob = total_bytes (live ob)"
    using spec(2) ok by (simp_all add: outbox_inv_def)
  have all: "\<forall>c \<in> set (live ob @ [as_chunk d]). chunk_ok c" using ok d by (simp add: outbox_inv_def)
  show thesis
  proof (cases "OUTBOX_MAX_BYTES < int (utf8ByteLength d)")
    case True
    then have "live ?e = live ob" using spec(1) by (simp add: spec_enqueue_def)
    then show thesis using True spec(3) bytes refused by (simp add: queued_def)
  next
    case False
    then have l: "live ?e = trim_front OUTBOX_MAX_BYTES (live ob @ [as_chunk d])"
      using spec(1) d by (simp add: spec_enqueue_def)
    then obtain n where n: "live ?e = drop n (live ob @ [as_chunk d])" using trim_front_suffix by metis
    define ds where "ds = take n (live ob @ [as_chunk d])"
    have app: "ds @ live ?e = live ob @ [as_chunk d]" unfolding n ds_def by (rule append_take_drop_id)
    then have "map chunk_data ds @ queued ?e = queued ob @ [d]"
      by (metis (no_types, lifting) map_append queued_def list.map(1,2) as_chunk_def outbox_chunk.select_convs(1))
    moreover have "total_bytes ds = lost (map chunk_data ds)"
      unfolding ds_def using all by (intro total_lost) (auto dest: in_set_takeD)
    moreover have "total_bytes ds + total_bytes (live ?e) = total_bytes (live ob) + int (utf8ByteLength d)"
      using arg_cong [OF app, of total_bytes] by (simp add: as_chunk_def)
    ultimately show thesis using kept [of "map chunk_data ds"] spec(3) bytes by simp
  qed
qed

text \<open>One key stroke: it is sent behind everything queued, or queued; only the size limit loses input.\<close>

lemma key_stream:
  assumes ok: "obox_ok (outbox s)" and d: "d \<noteq> []" and m: "rv_attachMode rv \<noteq> Watch"
    and t: "t = coordinator_run_step H fit rv (Key_input d) s"
  obtains (kept) sent ds where "input_log t = input_log s @ sent" "sent @ ds @ queued (outbox t) = queued (outbox s) @ [d]"
      "droppedBytes (outbox t) = droppedBytes (outbox s) + lost ds"
    | (refused) sent where "OUTBOX_MAX_BYTES < int (utf8ByteLength d)"
      "input_log t = input_log s @ sent" "sent @ queued (outbox t) = queued (outbox s)"
      "droppedBytes (outbox t) = droppedBytes (outbox s) + lost [d]"
proof -
  obtain n s1 where f: "flush_input (sendNow H) s = (n, s1)" by fastforce
  note fs = flush_input_spec [OF f ok]
  obtain sent where log: "input_log s1 = input_log s @ sent" "sent @ queued (outbox s1) = queued (outbox s)"
  proof -
    from fs(6) obtain j where j: "queued (outbox s1) = drop j (queued (outbox s))" by blast
    have "typed s1 = input_log s @ take j (queued (outbox s)) @ queued (outbox s1)"
      using fs(1) j by (simp add: typed_def)
    then have "input_log s1 = input_log s @ take j (queued (outbox s))" by (simp add: typed_def)
    then show thesis using that j by simp
  qed
  obtain sent_ok s2 where snd: "(if ob_bytes (outbox s1) > 0 then (False, s1) else sendNow H (createInputMessage d) s1) = (sent_ok, s2)"
    by fastforce
  have t': "t = show_outbox (if sent_ok then s2 else s2\<lparr>outbox := enqueueOutbox OUTBOX_MAX_BYTES (outbox s2) d\<rparr>)"
    using t m f snd by (simp add: handleRuntimeInput_def Let_def)
  have ob2: "outbox s2 = outbox s1"
    using snd sendNow_frame(1) [of H "createInputMessage d" s1] by (cases "ob_bytes (outbox s1) > 0") auto
  show thesis
  proof (cases sent_ok)
    case True
    then have "sendNow H (createInputMessage d) s1 = (True, s2)" and z: "\<not> 0 < ob_bytes (outbox s1)"
      using snd by (auto split: if_splits)
    then have "input_log s2 = input_log s1 @ [d]" using keyboard.send_log by fastforce
    moreover have "queued (outbox s1) = []" using z fs(2) outbox_pending_iff by blast
    ultimately have "input_log t = input_log s @ (sent @ [d])" "(sent @ [d]) @ [] @ queued (outbox t) = queued (outbox s) @ [d]"
      "droppedBytes (outbox t) = droppedBytes (outbox s) + lost []"
      using log True t' ob2 fs(3) by simp_all
    then show thesis by (rule kept)
  next
    case False
    have "input_log s2 = input_log s1"
      using snd False keyboard.send_log [of H d s1 False s2] by (auto split: if_splits)
    then have tl: "input_log t = input_log s @ sent" "outbox t = enqueueOutbox OUTBOX_MAX_BYTES (outbox s1) d"
      using t' False log ob2 by simp_all
    from fs(2) d show thesis
    proof (cases rule: enqueue_stream)
      case (kept ds)
      then show thesis using that(1) [of sent ds] tl log fs(3) by simp
    next
      case refused
      then show thesis using that(2) [of sent] tl log fs(3) by simp
    qed
  qed
qed

subsection \<open>The invariant of the owner\<close>

definition status_ok :: "status_state \<Rightarrow> bool" where
  "status_ok st \<longleftrightarrow> ss_status st = projectStatus (ss_transportStatus st) (ss_statusFlag st)"

definition io_ok :: "'a coordinator_scheme \<Rightarrow> bool" where
  "io_ok s \<longleftrightarrow> obox_ok (outbox s) \<and> queuedInputBytes s = ob_bytes (outbox s) \<and>
     droppedInputBytes s = droppedBytes (outbox s) \<and> status_ok (statusState s)"

lemma reduce_status_ok: "status_ok st \<Longrightarrow> status_ok (reduceConnectionStatusState st e)"
  by (cases e) (auto simp: status_ok_def Let_def)

definition io_part :: "'a coordinator_scheme \<Rightarrow> outbox_state \<times> int \<times> int \<times> status_state" where
  "io_part s = (outbox s, queuedInputBytes s, droppedInputBytes s, statusState s)"

lemma io_ok_same: "io_part t = io_part s \<Longrightarrow> io_ok t = io_ok s"
  by (simp add: io_part_def io_ok_def)

lemma io_ok_flag: "io_ok s \<Longrightarrow> io_ok (dispatchStatusEvent e s)"
  by (simp add: io_ok_def dispatchStatusEvent_def reduce_status_ok)

lemma io_ok_send: "io_ok s \<Longrightarrow> io_ok (snd (sendNow H p s))"
  by (simp add: io_ok_def)

lemma io_ok_ops:
  "io_ok (publishNotice n s) = io_ok s" "io_ok (call_session c s) = io_ok s" "io_ok (on_term g s) = io_ok s"
  "io_ok (s\<lparr>pendingResize := pr\<rparr>) = io_ok s" "io_ok (s\<lparr>outputBytes := nb\<rparr>) = io_ok s"
  "io_ok (s\<lparr>runtimeFitSize := fs\<rparr>) = io_ok s" "io_ok (s\<lparr>termRef := tr\<rparr>) = io_ok s"
  "io_ok (s\<lparr>terminalReady := b\<rparr>) = io_ok s" "io_ok (s\<lparr>previousWsUrl := pu\<rparr>) = io_ok s"
  by (rule io_ok_same; simp add: io_part_def publishNotice_def call_session_def on_term_def)+

lemma io_ok_reset: "io_ok s \<Longrightarrow> io_ok (resetQueuedBuffers s)"
  by (simp add: io_ok_def resetQueuedBuffers_def) (simp add: resetOutbox_def)

lemma io_ok_flushQueued: "io_ok s \<Longrightarrow> io_ok (flushQueuedInput m (sendNow H) s)"
proof (cases "m = Watch")
  case True
  assume "io_ok s"
  with True show ?thesis by (simp add: flushQueuedInput_def io_ok_def) (simp add: resetOutbox_def)
next
  case False
  assume ok: "io_ok s"
  obtain n t where f: "flush_input (sendNow H) s = (n, t)" by fastforce
  from ok have ob: "obox_ok (outbox s)" by (simp add: io_ok_def)
  note fs = flush_input_spec [OF f ob]
  show ?thesis
  proof (cases "0 < n")
    case True
    then show ?thesis using False f fs ok by (simp add: flushQueuedInput_def io_ok_def show_outbox_def)
  next
    case nz: False
    then have "ob_bytes (outbox t) = ob_bytes (outbox s)" using fs(4,5) by simp
    then show ?thesis using False f fs ok nz by (simp add: flushQueuedInput_def io_ok_def)
  qed
qed

lemma io_ok_flushResize: "io_ok s \<Longrightarrow> io_ok (flushPendingResize (sendNow H) s)"
proof (cases "pendingResize s")
  case (Some p)
  assume ok: "io_ok s"
  obtain c r where p: "p = (c, r)" by fastforce
  obtain b t where f: "sendNow H (createResizeMessage (as_num c) (as_num r)) s = (b, t)" by fastforce
  then have "io_ok t" using io_ok_send ok by (metis snd_conv)
  then show ?thesis using Some p f by (simp add: flushPendingResize_def io_ok_ops)
qed (simp add: flushPendingResize_def)

lemma io_ok_resize: "io_ok s \<Longrightarrow> io_ok (sendResize m (sendNow H) c r s)"
proof (cases "m = Watch")
  case False
  assume ok: "io_ok s"
  obtain b t where f: "sendNow H (createResizeMessage (as_num c) (as_num r)) (s\<lparr>runtimeFitSize := (c, r)\<rparr>) = (b, t)" by fastforce
  then have "io_ok t" using io_ok_send [of "s\<lparr>runtimeFitSize := (c, r)\<rparr>"] ok io_ok_ops(6) by (metis snd_conv)
  then show ?thesis using False f by (simp add: sendResize_def io_ok_ops)
qed (simp add: sendResize_def io_ok_ops)

lemma io_ok_message: "io_ok s \<Longrightarrow> io_ok (onMessage H rv ev s)"
proof -
  assume ok: "io_ok s"
  have lc: "io_ok (lc_markPong s) = io_ok s"
    by (rule io_ok_same) (simp add: io_part_def lc_markPong_def rel_markPong_def markPong_eq)
  have flag: "io_ok u \<Longrightarrow> io_ok (setStatusFlag f u)" for f and u :: "'a coordinator_scheme"
    by (simp add: setStatusFlag_def io_ok_flag)
  have srv: "io_ok (handleServerError msg c r s)" for msg c r
    using ok by (auto simp: handleServerError_def writeServerError_def Let_def io_ok_ops flag split: option.split)
  have rdy: "io_ok (onReady H rv sid ro s)" for sid ro
    using ok by (auto simp: onReady_def flushAfterReady_def resetTerminal_def Let_def io_ok_ops flag
        intro!: io_ok_reset io_ok_flushResize io_ok_flushQueued)
  have out: "io_ok (writeOutputAndTrackBytes d s)" for d
    using ok by (simp add: writeOutputAndTrackBytes_def writeOutput_def io_ok_ops split: option.split)
  have fail: "io_ok (onProtocolFailure f s)" for f
    using ok by (simp add: onProtocolFailure_def Let_def io_ok_ops flag)
  show ?thesis
    using ok by (simp add: onMessage_def handleSocketMessage_def handleIncomingServerMessage_def io_ok_ops lc srv rdy out fail
        writeExit_def flag split: option.split sum.split server_message.split)
qed

lemma io_ok_open: "io_ok s \<Longrightarrow> io_ok (onOpen H rv s)"
proof -
  assume ok: "io_ok s"
  obtain b t where f: "sendNow H (createAttachMessage (as_num (fst (runtimeFitSize (setStatusFlag None s))))
    (as_num (snd (runtimeFitSize (setStatusFlag None s)))) (rv_sessionId rv) (Some (rv_attachMode rv = Watch))) (setStatusFlag None s) = (b, t)"
    by fastforce
  have "io_ok (setStatusFlag None s)" using ok by (simp add: setStatusFlag_def io_ok_flag)
  then have "io_ok t" using f io_ok_send by (metis snd_conv)
  then show ?thesis using f by (simp add: onOpen_def Let_def io_ok_ops)
qed

interpretation io: owner_invariant H "transportHandlers H rv" "io_ok :: 'a coordinator_scheme \<Rightarrow> bool" for H rv
proof unfold_locales
  fix s t :: "'a coordinator_scheme" and f ev
  show "lifecycle.more s = lifecycle.more t \<Longrightarrow> io_ok s = io_ok t"
    by (rule io_ok_same) (cases s; cases t; simp add: io_part_def)
  show "io_ok s \<Longrightarrow> io_ok (h_failure (transportHandlers H rv) f s)"
    by (simp add: transportHandlers_def reportSocketFailure_def io_ok_ops)
  show "io_ok s \<Longrightarrow> io_ok (h_open (transportHandlers H rv) s)"
    by (simp add: transportHandlers_def io_ok_open)
  show "io_ok s \<Longrightarrow> io_ok (h_message (transportHandlers H rv) ev s)"
    by (simp add: transportHandlers_def io_ok_message)
qed

subsection \<open>Every step of the coordinator\<close>

lemma calm_key: "calm H s (handleRuntimeInput m (sendNow H) d s)"
proof (cases "m = Watch")
  case False
  obtain n s1 where f: "flush_input (sendNow H) s = (n, s1)" by fastforce
  obtain ok s2 where snd: "(if ob_bytes (outbox s1) > 0 then (False, s1) else sendNow H (createInputMessage d) s1) = (ok, s2)"
    by fastforce
  have "calm H s s1" using calm_flush_input [of H s] f by simp
  moreover have "calm H s1 s2"
    using snd calm_sendNow [of H s1 "createInputMessage d"] by (auto simp: calm_refl split: if_splits)
  ultimately have s2: "calm H s s2" by (rule calm_trans)
  have "calm H s (show_outbox s2)" by (rule calm_trans [OF s2 calm_ops(6)])
  moreover have "calm H s (show_outbox (s2\<lparr>outbox := ob\<rparr>))" for ob
    by (rule calm_trans [OF calm_trans [OF s2 calm_ops(7)] calm_ops(6)])
  ultimately show ?thesis using False f snd by (simp add: handleRuntimeInput_def Let_def)
qed (simp add: handleRuntimeInput_def calm_refl)

lemma calm_resize: "calm H s (sendResize m (sendNow H) c r s)"
proof -
  let ?s1 = "s\<lparr>runtimeFitSize := (c, r)\<rparr>"
  have s1: "calm H s ?s1" "calm H s (?s1\<lparr>pendingResize := None\<rparr>)"
    by (rule calm_upper; simp add: lifecycle.truncate_def)+
  obtain b t where f: "sendNow H (createResizeMessage (as_num c) (as_num r)) ?s1 = (b, t)" by fastforce
  then have "calm H ?s1 t" using calm_sendNow by (metis snd_conv)
  then have "calm H s (t\<lparr>pendingResize := pr\<rparr>)" for pr by (rule calm_trans [OF calm_trans [OF s1(1)] calm_ops(8)])
  then show ?thesis using s1 f by (simp add: sendResize_def Let_def)
qed

lemma calm_fit: "calm H s (fitAndSyncSize fit m (sendNow H) s)"
proof (cases "termRef s")
  case (Some t)
  have "calm H s (s\<lparr>termRef := Some (fit t)\<rparr>)" by (rule calm_upper) (simp add: lifecycle.truncate_def)
  then show ?thesis using Some calm_resize calm_trans
    by (fastforce simp: fitAndSyncSize_def fitRuntimeAndSyncSize_def)
qed (simp add: fitAndSyncSize_def fitRuntimeAndSyncSize_def calm_refl)

lemma io_ok_key: "io_ok s \<Longrightarrow> io_ok (handleRuntimeInput m (sendNow H) d s)"
proof (cases "m = Watch")
  case False
  assume ok: "io_ok s"
  then have ob: "obox_ok (outbox s)" by (simp add: io_ok_def)
  obtain n s1 where f: "flush_input (sendNow H) s = (n, s1)" by fastforce
  note fs = flush_input_spec [OF f ob]
  obtain b s2 where snd: "(if ob_bytes (outbox s1) > 0 then (False, s1) else sendNow H (createInputMessage d) s1) = (b, s2)"
    by fastforce
  have s2: "outbox s2 = outbox s1" "statusState s2 = statusState s1"
    using snd sendNow_frame(1,5) [of H "createInputMessage d" s1] by (cases "ob_bytes (outbox s1) > 0"; force)+
  have "status_ok (statusState s)" using ok by (simp add: io_ok_def)
  then show ?thesis using False f snd fs s2 enqueue_spec(2) [OF fs(2) obox_max, of d]
    by (simp add: handleRuntimeInput_def Let_def io_ok_def show_outbox_def)
qed (simp add: handleRuntimeInput_def)

lemma io_ok_fit: "io_ok s \<Longrightarrow> io_ok (fitAndSyncSize fit m (sendNow H) s)"
  by (simp add: fitAndSyncSize_def fitRuntimeAndSyncSize_def io_ok_resize io_ok_ops split: option.split)

definition coordinator_inv :: "host \<Rightarrow> 'a coordinator_scheme \<Rightarrow> bool" where
  "coordinator_inv H s \<longleftrightarrow> lc_inv H s \<and> io_ok s"

lemma calm_step_inv: "coordinator_inv H s \<Longrightarrow> calm H s t \<Longrightarrow> io_ok t \<Longrightarrow> coordinator_inv H t"
  by (simp add: coordinator_inv_def calm_def)

lemma calm_status: "calm H s (dispatchStatusEvent e s)"
  by (rule calm_upper) (simp add: upper_defs)

lemma transport_inv: "coordinator_inv H s \<Longrightarrow> coordinator_inv H (transport_run_step H (transportHandlers H rv) e s)"
  using client.step_inv [of H s rv e] io.keeps_step [of s H rv e] by (simp add: coordinator_inv_def)

lemma finishSetup_inv:
  "coordinator_inv H s \<Longrightarrow> coordinator_inv H (finishSetup (handleRuntimeBootError publishNotice coordinatorBootError) c r s)"
proof (rule calm_step_inv, assumption)
  assume inv: "coordinator_inv H s"
  show "calm H s (finishSetup (handleRuntimeBootError publishNotice coordinatorBootError) c r s)"
    by (rule calm_upper)
      (simp add: finishSetup_def handleRuntimeBootError_def coordinatorBootError_def disposeRuntime_def upper_defs Let_def
        split: sum.split)
  have "io_ok (coordinatorBootError (publishNotice n (s\<lparr>termRef := None\<rparr>)))" for n
    unfolding coordinatorBootError_def using inv by (intro io_ok_flag) (simp add: io_ok_ops coordinator_inv_def)
  then show "io_ok (finishSetup (handleRuntimeBootError publishNotice coordinatorBootError) c r s)"
    using inv by (simp add: finishSetup_def handleRuntimeBootError_def disposeRuntime_def Let_def io_ok_ops
        coordinator_inv_def split: sum.split)
      (metis (no_types, lifting) io_ok_ops(7,8))?
qed

lemma coordinator_step_inv:
  assumes inv: "coordinator_inv H s"
  shows "coordinator_inv H (coordinator_run_step H fit rv e s)"
proof -
  have io: "io_ok s" using inv by (simp add: coordinator_inv_def)
  have flag: "coordinator_inv H (dispatchStatusEvent ev s)" for ev
    using inv calm_status io_ok_flag [OF io] by (rule calm_step_inv)
  have cmd: "coordinator_inv H t \<Longrightarrow> coordinator_inv H (reconnectNow H (transportHandlers H rv) t)"
    "coordinator_inv H t \<Longrightarrow> coordinator_inv H (scheduleFreshConnection H (transportHandlers H rv) t)"
    "coordinator_inv H t \<Longrightarrow> coordinator_inv H (connect H (transportHandlers H rv) t)"
    "coordinator_inv H t \<Longrightarrow> coordinator_inv H (reconnectWithEndpointChange H (transportHandlers H rv) t)" for t
    using transport_inv [of H t rv Reconnect_now] transport_inv [of H t rv Start_fresh]
      transport_inv [of H t rv Connect] transport_inv [of H t rv Endpoint_changed] by simp_all
  have url: "coordinator_inv H (s\<lparr>previousWsUrl := u\<rparr>)" for u
    by (rule calm_step_inv [OF inv calm_upper]) (simp_all add: lifecycle.truncate_def io_ok_ops io)
  show ?thesis
  proof (cases e)
    case (Key_input d)
    then show ?thesis using calm_step_inv [OF inv calm_key io_ok_key [OF io]] by simp
  next
    case Fit
    then show ?thesis using calm_step_inv [OF inv calm_fit io_ok_fit [OF io]] by simp
  next
    case (Font_size n)
    have "coordinator_inv H (s\<lparr>termRef := tr\<rparr>)" for tr
      by (rule calm_step_inv [OF inv calm_upper]) (simp_all add: lifecycle.truncate_def io_ok_ops io)
    moreover from this have "io_ok (s\<lparr>termRef := tr\<rparr>)" for tr by (simp add: coordinator_inv_def)
    ultimately show ?thesis
      using Font_size inv calm_step_inv calm_fit io_ok_fit by (fastforce simp: updateFontSize_def split: option.split)
  next
    case Runtime_cleanup
    have "coordinator_inv H (cleanupRuntime s)"
      by (rule calm_step_inv [OF inv calm_upper])
        (simp_all add: cleanupRuntime_def disposeRuntime_def lifecycle.truncate_def io_ok_ops io)
    then show ?thesis using Runtime_cleanup by simp
  next
    case Clear_screen
    have "coordinator_inv H (clearTerminal s)"
      unfolding clearTerminal_def by (rule calm_step_inv [OF inv calm_ops(4)]) (simp add: io_ok_ops io)
    then show ?thesis using Clear_screen by simp
  next
    case Reset_buffers
    have "io_ok (resetTerminal s)" by (simp add: resetTerminal_def io_ok_ops io)
    then have "io_ok (resetRuntimeBuffers s)"
      unfolding resetRuntimeBuffers_def io_ok_ops by (rule io_ok_reset)
    moreover have "calm H s (resetRuntimeBuffers s)"
      by (rule calm_upper) (simp add: resetRuntimeBuffers_def resetTerminal_def upper_defs)
    ultimately show ?thesis using Reset_buffers calm_step_inv [OF inv] by simp
  qed (simp_all add: inv transport_inv coordinatorReconnectNow_def coordinatorFreshConnection_def connectEffect_def
    endpointEffect_def statusEffect_def flag cmd url finishSetup_inv)
qed

lemma coordinator_run_inv: "coordinator_inv H s \<Longrightarrow> coordinator_inv H (coordinator_run H fit es s)"
  by (induction es arbitrary: s) (auto simp: coordinator_run_def coordinator_step_inv)

lemma initial_inv: "coordinator_inv H (initialCoordinator wc u)"
  by (simp add: coordinator_inv_def initialCoordinator_def lc_inv_def core_inv_def session_inv_def timers_inv_def
      slots_ok_def slots_of_none initialTransportState_def io_ok_def status_ok_def initialConnectionStatusState_def
      projectStatus_def)
    (simp add: slot_inv_def new_scheduler_def pending_def createOutbox_def)

subsection \<open>No stall of the coordinator\<close>

lemma calm_unstalled: "calm H s t \<Longrightarrow> unstalled s \<Longrightarrow> unstalled t"
  unfolding calm_def by (elim conjE) (rule unstalled_same)

lemma coordinator_unstalled:
  assumes inv: "coordinator_inv H s" and u: "unstalled s"
  shows "unstalled (coordinator_run_step H fit rv e s)"
proof (cases e)
  case (Transport_step te)
  then show ?thesis using client.unstalled_step [of H s rv te] inv u by (simp add: coordinator_inv_def)
next
  case (Connect_effect enabled)
  then show ?thesis using u by (simp add: connectEffect_def client.unstalled_connect)
next
  case (Endpoint_effect enabled url)
  have "unstalled (s\<lparr>previousWsUrl := url\<rparr>)" using u by (simp add: unstalled_def)
  then show ?thesis using Endpoint_effect u by (simp add: endpointEffect_def client.unstalled_endpoint)
next
  case (Key_input d)
  then show ?thesis using calm_unstalled [OF calm_key u] by simp
next
  case Fit
  then show ?thesis using calm_unstalled [OF calm_fit u] by simp
next
  case (Font_size n)
  have "unstalled (s\<lparr>termRef := tr\<rparr>)" for tr using u by (simp add: unstalled_def)
  then have "unstalled (fitAndSyncSize fit (rv_attachMode rv) (sendNow H) (s\<lparr>termRef := tr\<rparr>))" for tr
    by (rule calm_unstalled [OF calm_fit])
  then show ?thesis using Font_size u by (simp add: updateFontSize_def split: option.split)
qed (use u in \<open>simp_all add: coordinatorReconnectNow_def coordinatorFreshConnection_def reconnectNow_def
    scheduleFreshConnection_def client.unstalled_command,
    simp_all add: unstalled_def statusEffect_def finishSetup_def handleRuntimeBootError_def coordinatorBootError_def
      disposeRuntime_def cleanupRuntime_def clearTerminal_def resetRuntimeBuffers_def resetTerminal_def
      dispatchStatusEvent_def publishNotice_def call_session_def on_term_def resetQueuedBuffers_def Let_def split: sum.split\<close>)

lemma coordinator_run_unstalled:
  "coordinator_inv H s \<Longrightarrow> unstalled s \<Longrightarrow> unstalled (coordinator_run H fit es s)"
  by (induction es arbitrary: s) (auto simp: coordinator_run_def coordinator_unstalled coordinator_step_inv)

end
