(* ===== verification/Sample_Host.thy ===== *)
theory Sample_Host
  imports Prelude
begin

section \<open>A concrete host\<close>

text \<open>
  One instance of the host functions, small enough to compute with: the concrete runs of the
  development use it where the definitions take a \<open>host\<close>.  Its JSON parser knows a few texts.
\<close>

definition sample_texts :: "(jsstring \<times> jsval) list" where
  "sample_texts =
     [(js ''pong'', J_obj [(js ''type'', J_str (js ''pong''))]),
      (js ''out'', J_obj [(js ''type'', J_str (js ''output'')), (js ''data'', J_str (js ''hi''))]),
      (js ''ready'', J_obj [(js ''type'', J_str (js ''ready'')), (js ''sessionId'', J_str (js ''s1'')),
         (js ''readOnly'', J_bool False), (js ''version'', J_num (Finite 1))]),
      (js ''watch'', J_obj [(js ''type'', J_str (js ''ready'')), (js ''sessionId'', J_str (js ''s1'')),
         (js ''readOnly'', J_bool True), (js ''version'', J_num (Finite 1))]),
      (js ''old'', J_obj [(js ''type'', J_str (js ''ready'')), (js ''sessionId'', J_str (js ''s1'')),
         (js ''readOnly'', J_bool False), (js ''version'', J_num (Finite 7))]),
      (js ''gone'', J_obj [(js ''type'', J_str (js ''error'')), (js ''message'', J_str (js ''m'')),
         (js ''code'', J_str (js ''session_not_found''))]),
      (js ''array'', J_arr [])]"

definition sample_url :: "jsstring \<Rightarrow> url option" where
  "sample_url u =
     (if take 5 u = js ''ws://''
      then Some \<lparr>url_protocol = js ''ws:'', url_host = drop 5 u, url_pathname = [], url_search = [],
                 url_params = [], url_rest = []\<rparr>
      else if take 7 u = js ''http://''
      then Some \<lparr>url_protocol = js ''http:'', url_host = drop 7 u, url_pathname = [], url_search = [],
                 url_params = [], url_rest = []\<rparr>
      else None)"

definition sample_host :: host where
  "sample_host =
     \<lparr>lower_case = map (\<lambda>u. if 65 \<le> u \<and> u \<le> 90 then u + 32 else u),
      number_text = (\<lambda>q. js (int_digits \<lfloor>q\<rfloor>)),
      json_parse = (\<lambda>s. case map_of sample_texts s of Some v \<Rightarrow> Inr v | None \<Rightarrow> Inl (J_error (js ''bad json''))),
      json_stringify = (\<lambda>v. Inr (js ''{}'')),
      url_parse = sample_url,
      url_set_param = (\<lambda>p k v. p\<lparr>url_params := map (\<lambda>(k', v'). (k', if k' = k then v else v')) (url_params p)\<rparr>),
      url_text = (\<lambda>p. url_protocol p @ js ''//'' @ url_host p)\<rparr>"

end
