(* ===== verification/Transport_Properties.thy ===== *)
theory Transport_Properties
  imports Coordinator_Laws Sample_Host
begin

section \<open>Properties of the connection\<close>

text \<open>
  The guarantees of the transport and of the input path, on the runs of the coordinator: a run
  starts in \<open>initialCoordinator\<close> and makes any sequence of steps (\<open>coordinator_run\<close>).  Concrete
  runs use the state \<open>sample_open\<close>, a coordinator whose first socket is open.
\<close>

abbreviation reached :: "host \<Rightarrow> (terminal \<Rightarrow> terminal) \<Rightarrow> (render_view \<times> coordinator_step) list \<Rightarrow> int \<Rightarrow>
    jsstring option \<Rightarrow> coordinator" where
  "reached H fit es clock u \<equiv> coordinator_run H fit es (initialCoordinator clock u)"

lemma reached_inv: "coordinator_inv H (reached H fit es clock u)"
  by (rule coordinator_run_inv [OF initial_inv])

lemma reached_lc: "lc_inv H (reached H fit es clock u)" and reached_io: "io_ok (reached H fit es clock u)"
  using reached_inv [of H fit es clock u] by (simp_all add: coordinator_inv_def)

definition sample_view :: render_view where
  "sample_view = \<lparr>rv_sessionId = None, rv_attachMode = Control\<rparr>"

definition sample_open :: coordinator where
  "sample_open = (initialCoordinator 0 None)
     \<lparr>tstate := initialTransportState\<lparr>ts_status := Connected\<rparr>,
      ready := (\<lambda>_. RS_closed)(0 := RS_open), next_socket := 1, opened_urls := [(0, js ''ws://h'')],
      listeners := [(0, 1)], socket := Some 0, detachListeners := Some (0, 1), generation := 1,
      wsUrl := Some (js ''ws://h'')\<rparr>"

lemma sample_trim: "trim (js ''ws://h'') = js ''ws://h''"
  by code_simp

lemma sample_endpoint: "validateWebsocketEndpoint sample_host (Some (js ''ws://h'')) = Inr (js ''ws://h'')"
  by (simp add: validateWebsocketEndpoint_def sample_trim sample_host_def sample_url_def Let_def)

lemma sample_fields [simp]:
  "socket sample_open = Some 0" "ready sample_open = (\<lambda>_. RS_closed)(0 := RS_open)" "next_socket sample_open = 1"
  "opened_urls sample_open = [(0, js ''ws://h'')]" "create_throws sample_open = None" "send_throws sample_open = None"
  "wsUrl sample_open = Some (js ''ws://h'')" "pongTimeout sample_open = None" "pingTimer sample_open = None"
  "reconnectTimer sample_open = None" "wire sample_open = []" "close_calls sample_open = []"
  "hasSessionContext sample_open = False" "closeIntent sample_open = Normal" "generation sample_open = 1"
  "outbox sample_open = createOutbox" "sched sample_open = new_scheduler 0"
  by (simp_all add: sample_open_def initialCoordinator_def)

lemma sample_inv: "coordinator_inv sample_host sample_open"
  by (simp add: coordinator_inv_def sample_open_def initialCoordinator_def lc_inv_def core_inv_def session_inv_def
      timers_inv_def slots_ok_def slots_of_none initialTransportState_def io_ok_def status_ok_def
      initialConnectionStatusState_def projectStatus_def websocket_url_def sample_host_def sample_url_def)
    (simp add: slot_inv_def new_scheduler_def pending_def createOutbox_def)

lemma sample_lc: "lc_inv sample_host sample_open"
  using sample_inv by (simp add: coordinator_inv_def)

subsection \<open>Sockets\<close>

text \<open>C1: Every state the coordinator can reach, by any sequence of commands, effects, timer firings, socket
  events and key strokes, satisfies \<open>coordinator_inv\<close>: the session, timer, status, outbox and telemetry invariants
  hold together.\<close>

theorem runs_keep_invariant:
  "coordinator_inv H (reached H fit es clock u)"
  by (rule coordinator_run_inv [OF initial_inv])

text \<open>C2: Whatever happens, at most one socket is connecting or open, namely the current one, and the only
  event handlers bound are those of the current socket and generation: no socket and no listener leaks.\<close>

theorem single_live_socket:
  "{k. k < next_socket (reached H fit es clock u) \<and> ready (reached H fit es clock u) k \<le> RS_open}
     \<subseteq> set_option (socket (reached H fit es clock u)) \<and>
   listeners (reached H fit es clock u) =
     (case socket (reached H fit es clock u) of None \<Rightarrow> [] | Some k \<Rightarrow> [(k, generation (reached H fit es clock u))])"
proof
  let ?s = "reached H fit es clock u"
  have inv: "session_inv ?s" using reached_lc [of H fit es clock u] by (simp add: lc_inv_def core_inv_def)
  then have "socket ?s = Some k" if "k < next_socket ?s" "ready ?s k \<le> RS_open" for k
    using session_inv_others [OF inv that(1)] that(2) not_open_iff by blast
  then show "{k. k < next_socket ?s \<and> ready ?s k \<le> RS_open} \<subseteq> set_option (socket ?s)"
    by (intro subsetI) (simp del: rs_le)
  show "listeners ?s = (case socket ?s of None \<Rightarrow> [] | Some k \<Rightarrow> [(k, generation ?s)])"
    using inv by (simp add: session_inv_def)
qed

text \<open>C18: Every socket ever created was opened on a URL whose scheme is \<open>ws:\<close> or \<open>wss:\<close>, and the reconnect
  counter never exceeds the maximum of eight.\<close>

theorem only_websocket_urls:
  "snd ` set (opened_urls (reached H fit es clock u)) \<subseteq>
     {v. url_parse H v \<noteq> None \<and> url_protocol (the (url_parse H v)) \<in> {js ''ws:'', js ''wss:''}} \<and>
   reconnectAttempt (tstate (reached H fit es clock u)) \<le> MAX_ATTEMPTS"
  using reached_lc [of H fit es clock u]
  by (auto simp: lc_inv_def core_inv_def websocket_url_def split: option.splits)

text \<open>Events of a socket that is not the current one (a swapped-out or replaced socket) change nothing:
  messages and errors leave the whole state as it is, open and close only the socket's own ready state.\<close>

theorem stale_socket_events_ignored:
  assumes "coordinator_inv H s" "socket s \<noteq> Some k"
  shows "transport_run_step H (transportHandlers H rv) (Socket_message k ev) s = s \<and>
    transport_run_step H (transportHandlers H rv) (Socket_failed k err) s = s \<and>
    (\<exists>r. transport_run_step H (transportHandlers H rv) (Socket_open k) s = s\<lparr>ready := r\<rparr>) \<and>
    (\<exists>r. transport_run_step H (transportHandlers H rv) (Socket_close code why k) s = s\<lparr>ready := r\<rparr>)"
proof -
  have lc: "lc_inv H s" using assms by (simp add: coordinator_inv_def)
  have inv: "session_inv (set_ready k r s)" "session_inv s" for r
    using lc_inv_ready [OF lc, of k r] lc by (simp_all add: lc_inv_def core_inv_def)
  have other: "socket (set_ready k r s) \<noteq> Some k" for r using assms by (simp add: set_ready_def)
  have upd: "\<exists>q. set_ready k r s = s\<lparr>ready := q\<rparr>" "\<exists>q. s = s\<lparr>ready := q\<rparr>" for r
    by (auto simp: set_ready_def intro: exI [of _ "ready s"])
  show ?thesis using assms(2) other upd by (simp add: deliver_current [OF inv(1)] deliver_current [OF inv(2)])
qed

definition sample_swapped :: coordinator where
  "sample_swapped = transport_run_step sample_host (transportHandlers sample_host sample_view) Endpoint_changed sample_open"

lemma sample_swapped_inv: "coordinator_inv sample_host sample_swapped"
  unfolding sample_swapped_def by (rule transport_inv [OF sample_inv])

lemma sample_swapped_socket: "socket sample_swapped = Some 1"
proof -
  let ?q = "quiesce True sample_open"
  let ?c = "socket_close 0 CLOSE_MANUAL_RECONNECT (js ''endpoint changed'') (clear_session ?q)"
  have "sample_swapped = connect sample_host (transportHandlers sample_host sample_view) ?c"
    by (simp add: sample_swapped_def reconnectWithEndpointChange_def command_eq detachForSocketSwap_def
        less_ready_state_def)
  also have "\<dots> = attach (next_socket ?c) (client.fresh_socket (js ''ws://h'') ?c)"
    by (rule client.connect_valid) (simp_all add: hasActiveConnection_def sample_endpoint)
  finally have "socket sample_swapped = socket (attach (next_socket ?c) (client.fresh_socket (js ''ws://h'') ?c))"
    by (rule arg_cong)
  then show ?thesis by simp
qed

theorem stale_socket_events_ignored_witness:
  "socket sample_swapped = Some 1 \<and>
   transport_run_step sample_host (transportHandlers sample_host sample_view)
     (Socket_message 0 \<lparr>me_data = js ''out'', me_malformed = None\<rparr>) sample_swapped = sample_swapped"
  using stale_socket_events_ignored [OF sample_swapped_inv, of 0] by (simp add: sample_swapped_socket)

subsection \<open>Timers\<close>

text \<open>C5: No timer leaks: every live timer is the ping interval, the pong time-out or the reconnect time-out whose
  handle the service holds, so that the service can still cancel it; and a held ping or reconnect handle is live.\<close>

theorem timers_accounted:
  "pending (sched (reached H fit es clock u)) \<subseteq>\<^sub>m
     (\<lambda>h. if pingTimer (reached H fit es clock u) = Some h then Some (Ping_tick, True)
          else if pongTimeout (reached H fit es clock u) = Some h then Some (Pong_deadline, False)
          else if reconnectTimer (reached H fit es clock u) = Some h then Some (Reconnect_task, False) else None) \<and>
   map_option (pending (sched (reached H fit es clock u))) (pingTimer (reached H fit es clock u))
     \<in> {None, Some (Some (Ping_tick, True))} \<and>
   map_option (pending (sched (reached H fit es clock u))) (reconnectTimer (reached H fit es clock u))
     \<in> {None, Some (Some (Reconnect_task, False))}"
proof -
  let ?s = "reached H fit es clock u"
  have slots: "slot_inv live_slots (slots_of (pingTimer ?s) (pongTimeout ?s) (reconnectTimer ?s)) (pending (sched ?s)) (issued (sched ?s))"
    using reached_lc [of H fit es clock u] by (simp add: lc_inv_def core_inv_def timers_inv_def slots_ok_def)
  note live = slot_live [OF slots] and strict = slot_strict [OF slots] and held = slot_held [OF slots]
  have "h \<in> dom (pending (sched ?s)) \<Longrightarrow> (if pingTimer ?s = Some h then Some (Ping_tick, True)
    else if pongTimeout ?s = Some h then Some (Pong_deadline, False)
    else if reconnectTimer ?s = Some h then Some (Reconnect_task, False) else None) = pending (sched ?s) h" for h
  proof -
    assume "h \<in> dom (pending (sched ?s))"
    then obtain t b where l: "pending (sched ?s) h = Some (t, b)" by fastforce
    show ?thesis using live [OF l] held [of "(Ping_tick, True)" h] held [of "(Pong_deadline, False)" h] l
      by (cases t) (auto split: if_splits)
  qed
  moreover have "map_option (pending (sched ?s)) (pingTimer ?s) \<in> {None, Some (Some (Ping_tick, True))}"
    using strict [of "(Ping_tick, True)"] by (cases "pingTimer ?s") (simp_all add: live_slots_def)
  moreover have "map_option (pending (sched ?s)) (reconnectTimer ?s) \<in> {None, Some (Some (Reconnect_task, False))}"
    using strict [of "(Reconnect_task, False)"] by (cases "reconnectTimer ?s") (simp_all add: live_slots_def)
  ultimately show ?thesis by (simp add: map_le_def)
qed

text \<open>C4: Recovery is bounded: from any state that satisfies the invariant, as long as no socket opens and nobody asks
  for a connection, timers, socket events and messages together create at most ten sockets (eight attempts, a timer
  already armed, a manual close already under way).\<close>

theorem bounded_recovery_attempts:
  assumes "coordinator_inv H s" "list_all unattended es"
  shows "length (opened_urls (fold (transport_run_step H (transportHandlers H rv)) es s)) \<le> length (opened_urls s) + 10"
proof -
  let ?t = "fold (transport_run_step H (transportHandlers H rv)) es s"
  have "weight ?t \<le> weight s"
    using client.bounded_recovery [of H s es rv] assms by (simp add: coordinator_inv_def)
  moreover have "MAX_ATTEMPTS - reconnectAttempt (tstate s) \<le> 8" by (simp add: MAX_ATTEMPTS_def)
  then have "weight s \<le> length (opened_urls s) + 10" by (simp add: weight_def budget_def)
  ultimately show ?thesis by (simp add: weight_def)
qed

theorem bounded_recovery_attempts_witness:
  "length (opened_urls (fold (transport_run_step sample_host (transportHandlers sample_host sample_view))
     [Socket_close 1006 [] 0, Pass_time 300 300, Fire 0] sample_open)) \<le> 11"
  using bounded_recovery_attempts [OF sample_inv, of "[Socket_close 1006 [] 0, Pass_time 300 300, Fire 0]" sample_view]
  by simp

text \<open>C6: A disposed service stays silent: after \<open>dispose\<close>, whatever timers, sockets and messages do, no socket is
  created, no timer is live, and the socket it had, if it is still known, is closing.\<close>

theorem disposed_service_silent:
  assumes "coordinator_inv H s" "list_all (\<lambda>e. unattended e \<or> (\<exists>k. e = Socket_open k)) es"
    "t = fold (transport_run_step H (transportHandlers H rv)) es (transport_run_step H (transportHandlers H rv) Dispose_service s)"
  shows "opened_urls t = opened_urls s \<and> pending (sched t) = Map.empty \<and> \<not> hasActiveConnection t"
proof -
  let ?cb = "transportHandlers H rv"
  have inv: "lc_inv H (transport_run_step H ?cb Dispose_service s)"
    using assms(1) client.step_inv [of H s rv Dispose_service] by (simp add: coordinator_inv_def)
  have d: "quiet (transport_run_step H ?cb Dispose_service s)"
    "opened_urls (transport_run_step H ?cb Dispose_service s) = opened_urls s"
    by (simp_all add: client.dispose_quiet)
  have q: "quiet t" "opened_urls t = opened_urls s"
    using client.disposed_silent [OF inv d(1) assms(2), of rv] d(2) assms(3) by simp_all
  have "lc_inv H (fold (transport_run_step H ?cb) es v)" if "lc_inv H v" for v
    using that by (induction es arbitrary: v) (simp_all add: client.step_inv)
  then have "lc_inv H t" using assms(3) inv by simp
  then have "pending (sched t) = Map.empty"
    using q(1) slot_empty by (fastforce simp: quiet_def lc_inv_def core_inv_def timers_inv_def slots_ok_def slots_of_none)
  moreover have "\<not> hasActiveConnection t"
    using q(1) by (auto simp: hasActiveConnection_def quiet_def split: option.split)
  ultimately show ?thesis using q(2) by blast
qed

theorem disposed_service_silent_witness:
  "opened_urls (fold (transport_run_step sample_host (transportHandlers sample_host sample_view))
     [Socket_close 1000 [] 0, Pass_time 9000 9000, Fire 0]
     (transport_run_step sample_host (transportHandlers sample_host sample_view) Dispose_service sample_open))
   = [(0, js ''ws://h'')]"
  using disposed_service_silent [OF sample_inv _ refl, of "[Socket_close 1000 [] 0, Pass_time 9000 9000, Fire 0]" sample_view]
  by simp

subsection \<open>Progress\<close>

text \<open>C7: No silent stall: once the transport was told to connect, then in every later state of any run a status of
  connecting, connected or reconnecting is backed by a current socket or by a live reconnect timer.\<close>

theorem no_silent_stall:
  assumes "coordinator_inv H s"
    "r = coordinator_run H fit es (transport_run_step H (transportHandlers H rv) Connect s)"
    "ts_status (tstate r) \<in> {Connecting, Connected, Reconnecting}"
  shows "(\<exists>k. socket r = Some k) \<or>
    (\<exists>h. reconnectTimer r = Some h \<and> pending (sched r) h = Some (Reconnect_task, False))"
proof -
  let ?c = "transport_run_step H (transportHandlers H rv) Connect s"
  have c: "coordinator_inv H ?c" using assms(1) by (rule transport_inv)
  have "unstalled ?c" by (simp add: client.unstalled_connect)
  then have "unstalled r" using assms(2) coordinator_run_unstalled [OF c] by simp
  moreover have "slot_inv live_slots (slots_of (pingTimer r) (pongTimeout r) (reconnectTimer r)) (pending (sched r)) (issued (sched r))"
    using assms(2) coordinator_run_inv [OF c, of fit es]
    by (simp add: coordinator_inv_def lc_inv_def core_inv_def timers_inv_def slots_ok_def)
  ultimately show ?thesis
    using assms(3) slot_strict [where l = "(Reconnect_task, False)" and S = live_slots]
    by (fastforce simp: unstalled_def live_slots_def)
qed

definition sample_dropped :: coordinator where
  "sample_dropped = coordinator_run sample_host id [(sample_view, Transport_step (Socket_close 1006 [] 0))]
     (transport_run_step sample_host (transportHandlers sample_host sample_view) Connect sample_open)"

lemma sample_dropped_eq:
  "sample_dropped = transport_run_step sample_host (transportHandlers sample_host sample_view) (Socket_close 1006 [] 0) sample_open"
proof -
  have "connect sample_host (transportHandlers sample_host sample_view) sample_open = sample_open"
    by (simp add: connect_def hasActiveConnection_def)
  then show ?thesis by (simp add: sample_dropped_def coordinator_run_def)
qed

lemma sample_dropped_fields: "ts_status (tstate sample_dropped) = Reconnecting" "socket sample_dropped = None"
  using client.drop_recovers(1,3) [OF sample_lc _ _ _ _ sample_dropped_eq]
  by (simp_all add: isRecoverableTransportClose_def NON_RECOVERABLE_CLOSE_CODES_def sample_open_def
      initialTransportState_def initialCoordinator_def MAX_ATTEMPTS_def)

theorem no_silent_stall_witness:
  "\<exists>h. reconnectTimer sample_dropped = Some h \<and> pending (sched sample_dropped) h = Some (Reconnect_task, False)"
  using no_silent_stall [OF sample_inv sample_dropped_def] sample_dropped_fields by simp

text \<open>C14: A connection that drops with a recoverable close code goes to reconnecting, counts the attempt, and arms one
  reconnect timer, due after the back-off of that attempt; after a non-recoverable code, or when all eight attempts are
  used up, the status is an error and nothing is armed.\<close>

theorem dropped_connection_backs_off:
  assumes "coordinator_inv H s" "socket s = Some k" "closeIntent s = Normal"
    "s1 = transport_run_step H (transportHandlers H rv) (Socket_close code why k) s"
  shows "socket s1 = None \<and> opened_urls s1 = opened_urls s \<and>
    (if isRecoverableTransportClose code \<and> reconnectAttempt (tstate s) < MAX_ATTEMPTS
     then ts_status (tstate s1) = Reconnecting \<and> reconnectAttempt (tstate s1) = Suc (reconnectAttempt (tstate s)) \<and>
       (\<exists>h. reconnectTimer s1 = Some h \<and> armed (sched s1) h =
          Some \<lparr>due = mono (sched s) + reconnectDelayMs (reconnectAttempt (tstate s)), period = None,
                callback = Reconnect_task\<rparr>)
     else ts_status (tstate s1) = Error \<and> reconnectTimer s1 = reconnectTimer s)"
proof (cases "isRecoverableTransportClose code \<and> reconnectAttempt (tstate s) < MAX_ATTEMPTS")
  case True
  then show ?thesis
    using client.drop_recovers [OF _ assms(2,3) _ _ assms(4)] assms(1) by (simp add: coordinator_inv_def)
next
  case False
  have "reconnectAttempt (tstate s) \<le> MAX_ATTEMPTS"
    using assms(1) by (simp add: coordinator_inv_def lc_inv_def core_inv_def)
  with False have "\<not> isRecoverableTransportClose code \<or> reconnectAttempt (tstate s) = MAX_ATTEMPTS" by auto
  with False show ?thesis
    using client.drop_gives_up [OF _ assms(2,3) _ assms(4)] assms(1) by (auto simp: coordinator_inv_def)
qed

theorem dropped_connection_backs_off_witness:
  "ts_status (tstate (transport_run_step sample_host (transportHandlers sample_host sample_view) (Socket_close 1006 [] 0)
     sample_open)) = Reconnecting"
  using dropped_connection_backs_off [OF sample_inv _ _ refl, of 0 sample_view 1006 "[]"]
  by (simp add: isRecoverableTransportClose_def NON_RECOVERABLE_CLOSE_CODES_def sample_open_def
      initialTransportState_def initialCoordinator_def MAX_ATTEMPTS_def)

text \<open>C15: A manual reconnect on a live socket closes it with code 4101 without opening another, drops every timer, and
  once the close event arrives (whatever code and reason it carries) a new socket is opened at once on the current
  endpoint, with the reconnect counter at zero and no back-off.\<close>

theorem manual_reconnect_swaps_socket:
  assumes "coordinator_inv H s" "socket s = Some k" "ready s k \<le> RS_open" "create_throws s = None"
    "validateWebsocketEndpoint H (wsUrl s) = Inr v"
    "s1 = transport_run_step H (transportHandlers H rv) Reconnect_now s"
    "s2 = transport_run_step H (transportHandlers H rv) (Socket_close code why k) s1"
  shows "close_calls s1 = close_calls s @ [(k, CLOSE_MANUAL_RECONNECT, js ''manual reconnect'')] \<and>
    opened_urls s1 = opened_urls s \<and> pending (sched s1) = Map.empty \<and>
    opened_urls s2 = opened_urls s @ [(next_socket s, v)] \<and> socket s2 = Some (next_socket s) \<and>
    reconnectAttempt (tstate s2) = 0 \<and> reconnectTimer s2 = None \<and>
    ts_status (tstate s2) = (if hasSessionContext s then Reconnecting else Connecting)"
  using client.manual_reconnect [OF _ assms(2-7)] assms(1) by (simp add: coordinator_inv_def)

theorem manual_reconnect_swaps_socket_witness:
  "opened_urls (transport_run_step sample_host (transportHandlers sample_host sample_view) (Socket_close 4101 [] 0)
     (transport_run_step sample_host (transportHandlers sample_host sample_view) Reconnect_now sample_open))
   = [(0, js ''ws://h''), (1, js ''ws://h'')]"
  using manual_reconnect_swaps_socket [OF sample_inv _ _ _ _ refl refl, of 0 "js ''ws://h''" sample_view 4101 "[]"]
  by (simp add: sample_endpoint)


definition sample_beating :: coordinator where
  "sample_beating = sample_open\<lparr>pingTimer := Some 0,
     sched := pass_time 12000 12000 (snd (setInterval Ping_tick 12000 (new_scheduler 0)))\<rparr>"


end
