(* ===== verification/Input_Properties.thy ===== *)
theory Input_Properties
  imports Transport_Properties
begin

section \<open>Properties of input, messages and status\<close>

text \<open>
  The input path (key strokes, resizes, the outbox), the message gateway and the displayed
  status, on the definitions of the coordinator.
\<close>

subsection \<open>Keyboard input\<close>



text \<open>C31: A watcher cannot type or resize: in watch mode a key stroke changes nothing at all, and fitting the terminal
  records the size for the next attach but sends nothing and drops any resize that was waiting.\<close>

theorem watch_mode_sends_nothing:
  assumes "rv_attachMode rv = Watch"
  shows "coordinator_run_step H fit rv (Key_input d) s = s \<and>
    wire (coordinator_run_step H fit rv Fit s) = wire s \<and>
    (case termRef s of None \<Rightarrow> coordinator_run_step H fit rv Fit s = s
     | Some t \<Rightarrow> pendingResize (coordinator_run_step H fit rv Fit s) = None \<and>
         runtimeFitSize (coordinator_run_step H fit rv Fit s) = (term_cols (fit t), term_rows (fit t)))"
  using assms
  by (simp add: handleRuntimeInput_def fitAndSyncSize_def fitRuntimeAndSyncSize_def sendResize_def split: option.split)

theorem watch_mode_sends_nothing_witness:
  "coordinator_run_step sample_host id (sample_view\<lparr>rv_attachMode := Watch\<rparr>) (Key_input (js ''a'')) sample_open = sample_open"
  using watch_mode_sends_nothing [of "sample_view\<lparr>rv_attachMode := Watch\<rparr>" sample_host id "js ''a''" sample_open] by simp

text \<open>In every reachable state the telemetry is the truth: the queued-bytes figure is the UTF-8 size of the queued
  input and is at most 512 KiB, and the dropped-bytes figure is the outbox's own count.\<close>

theorem telemetry_is_truthful:
  "queuedInputBytes (reached H fit es clock u) = lost (queued (outbox (reached H fit es clock u))) \<and>
   queuedInputBytes (reached H fit es clock u) \<le> 524288 \<and>
   droppedInputBytes (reached H fit es clock u) = droppedBytes (outbox (reached H fit es clock u)) \<and>
   0 \<le> droppedInputBytes (reached H fit es clock u)"
proof -
  let ?s = "reached H fit es clock u"
  have io: "io_ok ?s" by (rule reached_io)
  then have ob: "outbox_inv OUTBOX_MAX_BYTES (outbox ?s)" by (simp add: io_ok_def)
  then have "ob_bytes (outbox ?s) = lost (queued (outbox ?s))"
    using total_lost [of "live (outbox ?s)"] by (simp add: outbox_inv_def queued_def)
  with io ob show ?thesis by (simp add: io_ok_def outbox_inv_def OUTBOX_MAX_BYTES_def)
qed

subsection \<open>The attach handshake\<close>

lemma sendNow_open:
  assumes "socket s = Some k" "ready s k = RS_open" "send_throws s = None"
  shows "sendNow H p s = (True, s\<lparr>wire := wire s @ [(k, p)]\<rparr>)"
  using assms by (simp add: sendNow_def sendPayload_def current_def)

lemma fold_wire: "fold (\<lambda>d s. s\<lparr>wire := wire s @ [(k, f d)]\<rparr>) ds s = s\<lparr>wire := wire s @ map (\<lambda>d. (k, f d)) ds\<rparr>"
  by (induction ds arbitrary: s) simp_all

lemma flush_open:
  assumes open_k: "socket s = Some k" "ready s k = RS_open" "send_throws s = None" and ok: "obox_ok (outbox s)"
    and f: "flush_input (sendNow H) s = (n, t)"
  shows "\<exists>ob. t = s\<lparr>wire := wire s @ map (\<lambda>d. (k, Input d)) (queued (outbox s)), outbox := ob\<rparr> \<and> queued ob = []"
proof -
  obtain ob u where fl: "flushOutbox (\<lambda>t chunk. sendNow H (createInputMessage chunk) t) (outbox s) s = (n, ob, u)"
    and t: "t = u\<lparr>outbox := ob\<rparr>"
    using f by (auto simp: flush_input_def split: prod.splits)
  have "u = fold (\<lambda>d s. s\<lparr>wire := wire s @ [(k, Input d)]\<rparr>) (queued (outbox s)) s \<and> live ob = []"
  proof (rule flush_all [where P = "\<lambda>s. socket s = Some k \<and> ready s k = RS_open \<and> send_throws s = None", OF _ _ _ _ fl])
    show "socket s = Some k \<and> ready s k = RS_open \<and> send_throws s = None" using open_k by simp
    show "head (outbox s) \<le> length (chunks (outbox s))" using ok by (simp add: outbox_inv_def)
  qed (auto simp: sendNow_open createInputMessage_def)
  then show ?thesis by (auto simp: t fold_wire queued_def)
qed

text \<open>C17: When the server answers the attach with a writable session, the client takes over the session, clears the
  status flag, sends everything typed while it was away in order, then the resize that was waiting, empties both
  buffers and asks for a refresh of the session list.\<close>

theorem ready_flushes_everything:
  assumes "coordinator_inv H s" "socket s = Some k" "ready s k = RS_open" "send_throws s = None"
    "rv_attachMode rv = Control" "t = onReady H rv sid False s"
  shows "wire t = wire s @ map (\<lambda>d. (k, Input d)) (queued (outbox s)) @
      (case pendingResize s of None \<Rightarrow> [] | Some (c, r) \<Rightarrow> [(k, createResizeMessage (as_num c) (as_num r))]) \<and>
    queued (outbox t) = [] \<and> pendingResize t = None \<and> ss_statusFlag (statusState t) = None \<and>
    session_calls t = session_calls s @ [Apply_ready_session sid False, Request_transport_refresh] \<and>
    outputBytes t = 0"
proof -
  define s1 where "s1 = (resetTerminal (setStatusFlag None (call_session (Apply_ready_session sid False) s)))\<lparr>outputBytes := 0\<rparr>"
  have s1: "socket s1 = Some k" "ready s1 k = RS_open" "send_throws s1 = None" "wire s1 = wire s" "outbox s1 = outbox s"
    "pendingResize s1 = pendingResize s" "ss_statusFlag (statusState s1) = None" "outputBytes s1 = 0"
    "session_calls s1 = session_calls s @ [Apply_ready_session sid False]"
    using assms(2-4) by (simp_all add: s1_def resetTerminal_def on_term_def setStatusFlag_def dispatchStatusEvent_def
        call_session_def Let_def)
  have ok: "obox_ok (outbox s1)" using assms(1) s1(5) by (simp add: coordinator_inv_def io_ok_def)
  obtain n s2 where f: "flush_input (sendNow H) s1 = (n, s2)" by fastforce
  obtain ob where s2: "s2 = s1\<lparr>wire := wire s1 @ map (\<lambda>d. (k, Input d)) (queued (outbox s1)), outbox := ob\<rparr>" "queued ob = []"
    using flush_open [OF s1(1-3) ok f] by blast
  define s3 where "s3 = flushQueuedInput (rv_attachMode rv) (sendNow H) s1"
  have s3: "s3 = s2 \<or> s3 = show_outbox s2"
    using f assms(5) by (simp add: s3_def flushQueuedInput_def)
  then have s3f: "socket s3 = Some k" "ready s3 k = RS_open" "send_throws s3 = None" "queued (outbox s3) = []"
    "wire s3 = wire s @ map (\<lambda>d. (k, Input d)) (queued (outbox s))" "pendingResize s3 = pendingResize s"
    "ss_statusFlag (statusState s3) = None" "outputBytes s3 = 0"
    "session_calls s3 = session_calls s @ [Apply_ready_session sid False]"
    using s1 s2 by (auto simp: show_outbox_def)
  have t: "t = call_session Request_transport_refresh (flushPendingResize (sendNow H) s3)"
    by (simp add: assms(6) onReady_def flushAfterReady_def s1_def s3_def Let_def)
  show ?thesis
  proof (cases "pendingResize s")
    case None
    then show ?thesis using s3f by (simp add: t flushPendingResize_def call_session_def)
  next
    case (Some p)
    obtain c r where "p = (c, r)" by fastforce
    then show ?thesis
      using Some s3f sendNow_open [OF s3f(1-3)] by (simp add: t flushPendingResize_def call_session_def)
  qed
qed

theorem ready_flushes_everything_witness:
  "wire (onReady sample_host sample_view (js ''s1'') False (sample_open\<lparr>pendingResize := Some (90, 30)\<rparr>))
     = [(0, createResizeMessage (as_num 90) (as_num 30))]"
proof -
  have "calm sample_host sample_open (sample_open\<lparr>pendingResize := Some (90, 30)\<rparr>)" by (rule calm_ops)
  then have inv: "coordinator_inv sample_host (sample_open\<lparr>pendingResize := Some (90, 30)\<rparr>)"
    using sample_inv by (auto simp: coordinator_inv_def calm_def io_ok_ops)
  show ?thesis
    using ready_flushes_everything [OF inv, of 0 sample_view _ "js ''s1''"] by (simp add: sample_view_def queued_def)
qed

lemma socket_open_attaches:
  assumes "coordinator_inv H s" "socket s = Some k" "ready s k = RS_connecting" "send_throws s = None"
    "t = transport_run_step H (transportHandlers H rv) (Socket_open k) s"
  shows "wire t = wire s @ [(k, createAttachMessage (as_num (fst (runtimeFitSize s))) (as_num (snd (runtimeFitSize s)))
      (rv_sessionId rv) (Some (rv_attachMode rv = Watch)))] \<and>
    ts_status (tstate t) = Connected \<and> reconnectAttempt (tstate t) = 0 \<and> pingTimer t \<noteq> None \<and>
    ss_statusFlag (statusState t) = None"
proof -
  define r where "r = set_ready k RS_open s"
  define c where "c = dispatchEvent Ev_connected (rel_onConnected r)"
  define v where "v = setStatusFlag None c"
  have lc: "lc_inv H r" using assms(1) by (simp add: r_def lc_inv_ready coordinator_inv_def)
  then have sess: "session_inv r" "k < next_socket s"
    using assms(2) by (simp_all add: lc_inv_def core_inv_def session_inv_def r_def set_ready_def)
  have r: "socket r = Some k" "ready r k = RS_open" "send_throws r = None" "wire r = wire s" "runtimeFitSize r = runtimeFitSize s"
    "generation r = generation s"
    using assms(2-4) by (simp_all add: r_def set_ready_def max_def less_eq_ready_state_def)
  have v: "socket v = Some k" "ready v k = RS_open" "send_throws v = None" "wire v = wire s" "runtimeFitSize v = runtimeFitSize s"
    "ts_status (tstate v) = Connected" "reconnectAttempt (tstate v) = 0" "pingTimer v \<noteq> None" "ss_statusFlag (statusState v) = None"
    using r by (simp_all add: v_def c_def setStatusFlag_def dispatchStatusEvent_def dispatchEvent_def rel_onConnected_def
        reporter_reset_def hb_start_eq Let_def)
  have "t = onSocketOpen (transportHandlers H rv) k (generation r) r"
    using assms(2,3,5) sess r(1) by (simp add: r_def [symmetric] deliver_current)
  also have "\<dots> = onOpen H rv c"
    using r by (simp add: onSocketOpen_def withCurrentSocket_def isCurrent_def c_def transportHandlers_def)
  also have "\<dots> = v\<lparr>wire := wire v @ [(k, createAttachMessage (as_num (fst (runtimeFitSize v))) (as_num (snd (runtimeFitSize v)))
      (rv_sessionId rv) (Some (rv_attachMode rv = Watch)))]\<rparr>"
    using sendNow_open [OF v(1-3)] by (simp add: onOpen_def v_def [symmetric])
  finally have t: "t = v\<lparr>wire := wire v @ [(k, createAttachMessage (as_num (fst (runtimeFitSize v))) (as_num (snd (runtimeFitSize v)))
      (rv_sessionId rv) (Some (rv_attachMode rv = Watch)))]\<rparr>" .
  show ?thesis using v by (simp add: t)
qed

text \<open>When the current socket opens, the status becomes connected, the attempt counter is reset, and the first frame
  on the wire is the attach request for the current session with the terminal's size and the watch flag.\<close>

theorem open_sends_attach_first:
  assumes "coordinator_inv H s" "socket s = Some k" "ready s k = RS_connecting" "send_throws s = None"
    "t = transport_run_step H (transportHandlers H rv) (Socket_open k) s"
  shows "wire t = wire s @ [(k, createAttachMessage (as_num (fst (runtimeFitSize s))) (as_num (snd (runtimeFitSize s)))
      (rv_sessionId rv) (Some (rv_attachMode rv = Watch)))] \<and>
    ts_status (tstate t) = Connected \<and> reconnectAttempt (tstate t) = 0 \<and> pingTimer t \<noteq> None \<and>
    ss_statusFlag (statusState t) = None"
  using socket_open_attaches [OF assms] .

definition sample_connecting :: coordinator where
  "sample_connecting = sample_open\<lparr>tstate := initialTransportState, ready := (\<lambda>_. RS_closed)(0 := RS_connecting)\<rparr>"

lemma sample_connecting_inv: "coordinator_inv sample_host sample_connecting"
  by (simp add: coordinator_inv_def sample_connecting_def sample_open_def initialCoordinator_def lc_inv_def core_inv_def
      session_inv_def timers_inv_def slots_ok_def slots_of_none initialTransportState_def io_ok_def status_ok_def
      initialConnectionStatusState_def projectStatus_def websocket_url_def sample_host_def sample_url_def)
    (simp add: slot_inv_def new_scheduler_def pending_def createOutbox_def)

theorem open_sends_attach_first_witness:
  "wire (transport_run_step sample_host (transportHandlers sample_host sample_view) (Socket_open 0) sample_connecting)
     = [(0, Attach 80 24 None (Some False))]"
proof -
  have "createAttachMessage (as_num 80) (as_num 24) None (Some False) = Attach 80 24 None (Some False)"
    by (simp add: createAttachMessage_def as_num_def DIMENSION_MIN_def DIMENSION_MAX_def)
  then show ?thesis
    using open_sends_attach_first [OF sample_connecting_inv _ _ _ refl, of 0 sample_view]
    by (simp add: sample_connecting_def sample_view_def) (simp add: sample_open_def initialCoordinator_def)
qed

subsection \<open>Server messages\<close>

text \<open>C30: A frame that is empty or that the parser rejects only notifies: exactly one notice is
  published, nothing is sent, no other session call is made, and only an incompatible version raises a status flag.\<close>

theorem rejected_message_only_notifies:
  assumes "raw = [] \<or> (\<exists>f. parseServerMessageWithReason (json_parse H) (J_str raw) = Inl f)"
  shows "\<exists>n. handleSocketMessage H rv raw s = s\<lparr>session_calls := session_calls s @ [Publish_notice n],
    statusState := (if raw \<noteq> [] \<and> (\<exists>f. parseServerMessageWithReason (json_parse H) (J_str raw) = Inl f \<and>
                          pf_reason f = Incompatible_version)
                    then reduceConnectionStatusState (statusState s) (Status_flag (Some Protocol_incompatible))
                    else statusState s)\<rparr>"
proof (cases "raw = []")
  case True
  then show ?thesis
    by (intro exI [of _ "N_protocol PN_empty_transport_message"])
      (simp add: handleSocketMessage_def handleIncomingServerMessage_def publishNotice_def call_session_def)
next
  case False
  then obtain f where "parseServerMessageWithReason (json_parse H) (J_str raw) = Inl f" using assms by blast
  then show ?thesis using False
    by (intro exI [of _ "toProtocolFailureNotice f"])
      (simp add: handleSocketMessage_def handleIncomingServerMessage_def onProtocolFailure_def publishNotice_def call_session_def
        setStatusFlag_def dispatchStatusEvent_def Let_def)
qed

theorem rejected_message_only_notifies_witness:
  "\<exists>n. handleSocketMessage sample_host sample_view [] sample_open = sample_open\<lparr>session_calls := session_calls sample_open @ [Publish_notice n]\<rparr>"
  using rejected_message_only_notifies [of "[]" sample_host sample_view sample_open] by simp

text \<open>What a server error does to the client: one line on the terminal, one notice and then the session
  calls of its policy, in this order, and the status flag of its policy; nothing is sent.\<close>

theorem server_error_effects:
  "session_calls (handleServerError msg code raw s) = session_calls s @
     [Publish_notice (N_server (sp_notice (resolveServerErrorPolicy code raw)))] @
     (if code = Some Session_not_found then [Clear_missing_session, Request_transport_refresh]
      else if code = Some Attach_forbidden then [Set_session_mode Watch] else []) \<and>
   ss_statusFlag (statusState (handleServerError msg code raw s)) =
     (if code = Some Session_not_found then Some Flag_session_not_found
      else if code = Some Incompatible_version_code then Some Protocol_incompatible else ss_statusFlag (statusState s)) \<and>
   wire (handleServerError msg code raw s) = wire s \<and>
   termRef (handleServerError msg code raw s) = termRef (writeServerError msg s)"
proof -
  show ?thesis
  proof (cases code)
    case None
    then show ?thesis
      by (auto simp: handleServerError_def resolveServerErrorPolicy_def plain_policy_def publishNotice_def call_session_def
          toServerPolicyNotice_def writeServerError_def on_term_def Let_def split: option.split)
  next
    case (Some c)
    then show ?thesis
      by (cases c) (simp_all add: handleServerError_def resolveServerErrorPolicy_def plain_policy_def publishNotice_def call_session_def
          toServerPolicyNotice_def call_session_def setStatusFlag_def dispatchStatusEvent_def writeServerError_def
          on_term_def Let_def)
  qed
qed

subsection \<open>The displayed status\<close>

text \<open>In every reachable state the displayed status follows from the transport status and the flag alone: it is
  connected exactly when the last reported transport status is and no flag is raised, and a runtime or protocol flag
  always shows as an error.\<close>

theorem displayed_status_is_projection:
  "(coordinatorStatus boot (reached H fit es clock u) = Connected) =
     (\<not> boot \<and> ss_transportStatus (statusState (reached H fit es clock u)) = Connected \<and>
      ss_statusFlag (statusState (reached H fit es clock u)) = None) \<and>
   (ss_statusFlag (statusState (reached H fit es clock u)) \<in> {Some Runtime_error, Some Protocol_incompatible} \<longrightarrow>
     coordinatorStatus boot (reached H fit es clock u) = Error)"
proof -
  let ?st = "statusState (reached H fit es clock u)"
  have "ss_status ?st = projectStatus (ss_transportStatus ?st) (ss_statusFlag ?st)"
    using reached_io [of H fit es clock u] by (simp add: io_ok_def status_ok_def)
  moreover have "f \<in> {Runtime_error, Protocol_incompatible} \<or> f \<in> {Flag_session_not_found, Remote_exit}" for f
    by (cases f) simp_all
  ultimately show ?thesis
    by (cases "ss_statusFlag ?st") (auto simp: coordinatorStatus_def projectStatus_def split: if_splits)
qed

theorem displayed_status_is_projection_witness:
  "coordinatorStatus False (reached sample_host id [(sample_view, Setup_settled False (Inl J_null))] 0 None) = Error"
proof -
  have "ss_statusFlag (statusState (reached sample_host id [(sample_view, Setup_settled False (Inl J_null))] 0 None))
      = Some Runtime_error"
    by (simp add: coordinator_run_def finishSetup_def handleRuntimeBootError_def coordinatorBootError_def
        dispatchStatusEvent_def publishNotice_def call_session_def disposeRuntime_def Let_def)
  then show ?thesis
    using displayed_status_is_projection [of False sample_host id "[(sample_view, Setup_settled False (Inl J_null))]" 0 None]
    by simp
qed

end
