(* ===== verification/Sessions_Payload.thy ===== *)
theory Sessions_Payload
  imports Notices Sample_Host
begin

section \<open>The list of live sessions\<close>

text \<open>
  \<open>contracts/session/session.ts\<close>, \<open>session/protocol/sessions-payload-parser.ts\<close>,
  \<open>session/protocol/sessions-parse-policy.ts\<close> and \<open>bootstrap/sessions-client.ts\<close>: the HTTP
  client that asks the server for its sessions and the parser of the answer, which drops
  malformed entries and gives up when too many are malformed.  The network is not part of the
  model: \<open>http_outcome\<close> is what \<open>fetch\<close> and \<open>text\<close> deliver.
\<close>

record session_snapshot =
  ss_id :: jsstring
  ss_hasController :: bool
  ss_canControl :: bool
  ss_watchers :: nat
  ss_createdAtMs :: nat
  ss_lastActivityMs :: nat
  ss_command :: "jsstring option"
  ss_name :: "jsstring option"

definition SESSIONS_ENVELOPE_FIELD :: jsstring where
  "SESSIONS_ENVELOPE_FIELD = js ''sessions''"

definition SESSION_SNAPSHOT_REQUIRED_FIELDS :: "jsstring list" where
  "SESSION_SNAPSHOT_REQUIRED_FIELDS =
     map js [''id'', ''hasController'', ''canControl'', ''watchers'', ''createdAtMs'', ''lastActivityMs'']"

subsection \<open>Parsing\<close>

definition hasRequiredSessionFields :: "jsval \<Rightarrow> bool" where
  "hasRequiredSessionFields r = list_all (has_own r) SESSION_SNAPSHOT_REQUIRED_FIELDS"

fun optional_text :: "jsval \<Rightarrow> jsstring option" where
  "optional_text (J_str s) = (if s \<noteq> [] then Some s else None)"
| "optional_text _ = None"

definition parseSessionSnapshot :: "jsval \<Rightarrow> session_snapshot option" where
  "parseSessionSnapshot entry =
     (if \<not> is_object entry then None
      else if \<not> hasRequiredSessionFields entry then None
      else case get_prop entry (js ''id'') of
        J_str sid \<Rightarrow>
          if sid = [] then None
          else (case (get_prop entry (js ''hasController''), get_prop entry (js ''canControl'')) of
             (J_bool hc, J_bool cc) \<Rightarrow>
               (case (parseNonNegativeInteger (get_prop entry (js ''watchers'')),
                      parseNonNegativeInteger (get_prop entry (js ''createdAtMs'')),
                      parseNonNegativeInteger (get_prop entry (js ''lastActivityMs''))) of
                  (Some w, Some cr, Some la) \<Rightarrow>
                    Some \<lparr>ss_id = sid, ss_hasController = hc, ss_canControl = cc, ss_watchers = w,
                          ss_createdAtMs = cr, ss_lastActivityMs = la,
                          ss_command = optional_text (get_prop entry (js ''command'')),
                          ss_name = optional_text (get_prop entry (js ''name''))\<rparr>
                | _ \<Rightarrow> None)
           | _ \<Rightarrow> None)
      | _ \<Rightarrow> None)"

datatype parse_policy_failure = Policy_all_invalid | Policy_too_many_invalid

definition INVALID_RATIO_THRESHOLD :: rat where
  "INVALID_RATIO_THRESHOLD = 1 / 2"

definition MINIMUM_RATIO_SAMPLE_SIZE :: nat where
  "MINIMUM_RATIO_SAMPLE_SIZE = 4"

definition evaluateSessionsParsePolicy :: "nat \<Rightarrow> nat \<Rightarrow> nat \<Rightarrow> parse_policy_failure option" where
  "evaluateSessionsParsePolicy totalEntries invalidEntries validEntries =
     (if invalidEntries > 0 \<and> validEntries = 0 then Some Policy_all_invalid
      else if totalEntries \<ge> MINIMUM_RATIO_SAMPLE_SIZE \<and>
              rat_of_nat invalidEntries / rat_of_nat totalEntries \<ge> INVALID_RATIO_THRESHOLD
           then Some Policy_too_many_invalid
      else None)"

definition parseSessionsResponse :: "jsval \<Rightarrow> refresh_failure + session_snapshot list \<times> nat" where
  "parseSessionsResponse raw =
     (if \<not> is_object raw then Inl Invalid_payload
      else case get_prop raw SESSIONS_ENVELOPE_FIELD of
        J_arr entries \<Rightarrow>
          (let parsed = map parseSessionSnapshot entries;
               totalEntries = length entries;
               invalidEntries = length (filter (\<lambda>p. p = None) parsed);
               sessions = List.map_filter id parsed
           in case evaluateSessionsParsePolicy totalEntries invalidEntries (length sessions) of
                Some Policy_all_invalid \<Rightarrow> Inl (All_sessions_invalid invalidEntries totalEntries)
              | Some Policy_too_many_invalid \<Rightarrow> Inl (Too_many_invalid_sessions invalidEntries totalEntries)
              | None \<Rightarrow> Inr (sessions, invalidEntries))
      | _ \<Rightarrow> Inl Missing_sessions_array)"

subsection \<open>The HTTP client\<close>

record http_request =
  hr_url :: jsstring
  hr_method :: jsstring
  hr_headers :: "(jsstring \<times> jsstring) list"
  hr_credentials :: jsstring
  hr_cache :: jsstring

definition createSessionFetchHeaders :: "(jsstring \<times> jsstring) list" where
  "createSessionFetchHeaders = [(js ''Accept'', js ''application/json'')]"

definition sessions_request :: "jsstring \<Rightarrow> http_request" where
  "sessions_request sessionsHttpUrl =
     \<lparr>hr_url = sessionsHttpUrl, hr_method = js ''GET'', hr_headers = createSessionFetchHeaders,
      hr_credentials = js ''include'', hr_cache = js ''no-store''\<rparr>"

record thrown =
  th_value :: jsval
  th_isAbortError :: bool

datatype http_outcome =
    Response bool int "thrown + jsstring"
  | Request_failed thrown

type_synonym sessions_fetch_result = "refresh_failure + jsval"

definition parse_response_body :: "host \<Rightarrow> jsstring \<Rightarrow> sessions_fetch_result" where
  "parse_response_body H body =
     (if trim body = [] then Inr (J_obj [(SESSIONS_ENVELOPE_FIELD, J_arr [])])
      else case json_parse H body of
        Inl e \<Rightarrow> Inl (Json_parse_failure e)
      | Inr parsed \<Rightarrow>
          if \<not> is_object parsed then Inl (Json_parse_failure (J_error (js ''sessions payload must be a JSON object'')))
          else (case get_prop parsed SESSIONS_ENVELOPE_FIELD of
             J_arr _ \<Rightarrow> Inr parsed
           | _ \<Rightarrow> Inl (Json_parse_failure (J_error (js ''sessions payload must include a sessions array'')))))"

definition catch_fetch :: "thrown \<Rightarrow> sessions_fetch_result" where
  "catch_fetch e = (if th_isAbortError e then Inl Request_aborted else Inl (Network_error (th_value e)))"

fun fetchSessionsFromEndpoint :: "host \<Rightarrow> http_outcome \<Rightarrow> sessions_fetch_result" where
  "fetchSessionsFromEndpoint H (Request_failed e) = catch_fetch e"
| "fetchSessionsFromEndpoint H (Response ok status body) =
     (if \<not> ok then Inl (Http_error status)
      else case body of Inl e \<Rightarrow> catch_fetch e | Inr b \<Rightarrow> parse_response_body H b)"

subsection \<open>Vocabulary and facts\<close>

text \<open>What an entry must say to be taken as a given snapshot.\<close>

definition describes :: "jsval \<Rightarrow> session_snapshot \<Rightarrow> bool" where
  "describes e s \<longleftrightarrow>
     ss_id s \<noteq> [] \<and> get_prop e (js ''id'') = J_str (ss_id s) \<and>
     get_prop e (js ''hasController'') = J_bool (ss_hasController s) \<and>
     get_prop e (js ''canControl'') = J_bool (ss_canControl s) \<and>
     get_prop e (js ''watchers'') = J_num (Finite (of_nat (ss_watchers s))) \<and>
     get_prop e (js ''createdAtMs'') = J_num (Finite (of_nat (ss_createdAtMs s))) \<and>
     get_prop e (js ''lastActivityMs'') = J_num (Finite (of_nat (ss_lastActivityMs s))) \<and>
     optional_text (get_prop e (js ''command'')) = ss_command s \<and>
     optional_text (get_prop e (js ''name'')) = ss_name s"

text \<open>How the server writes a snapshot.\<close>

definition snapshot_value :: "session_snapshot \<Rightarrow> jsval" where
  "snapshot_value s =
     J_obj ([(js ''id'', J_str (ss_id s)), (js ''hasController'', J_bool (ss_hasController s)),
             (js ''canControl'', J_bool (ss_canControl s)),
             (js ''watchers'', J_num (Finite (of_nat (ss_watchers s)))),
             (js ''createdAtMs'', J_num (Finite (of_nat (ss_createdAtMs s)))),
             (js ''lastActivityMs'', J_num (Finite (of_nat (ss_lastActivityMs s))))] @
            (case ss_command s of None \<Rightarrow> [] | Some c \<Rightarrow> [(js ''command'', J_str c)]) @
            (case ss_name s of None \<Rightarrow> [] | Some c \<Rightarrow> [(js ''name'', J_str c)]))"

definition snapshot_ok :: "session_snapshot \<Rightarrow> bool" where
  "snapshot_ok s \<longleftrightarrow> ss_id s \<noteq> [] \<and> ss_command s \<noteq> Some [] \<and> ss_name s \<noteq> Some []"

lemma has_own_get_prop: "get_prop e k \<noteq> J_undefined \<Longrightarrow> has_own e k"
  by (cases "(e, k)" rule: get_prop.cases) (force dest: map_of_SomeD split: option.splits)+

lemma get_prop_object: "get_prop e k \<noteq> J_undefined \<Longrightarrow> is_object e"
  by (cases e) simp_all

lemma describes_fields:
  assumes "describes e s"
  shows "is_object e" "hasRequiredSessionFields e"
  using assms get_prop_object [of e "js ''id''"]
  by (simp_all add: describes_def hasRequiredSessionFields_def SESSION_SNAPSHOT_REQUIRED_FIELDS_def has_own_get_prop)

lemma parseSessionSnapshot_Some: "parseSessionSnapshot e = Some s \<longleftrightarrow> describes e s"
proof
  assume d: "describes e s"
  from d have "get_prop e (js ''watchers'') = J_num (Finite (of_nat (ss_watchers s)))" by (simp add: describes_def)
  with d show "parseSessionSnapshot e = Some s"
    by (simp add: parseSessionSnapshot_def describes_fields [OF d] parseNonNegativeInteger_Some [THEN iffD2])
      (simp add: describes_def)
next
  assume p: "parseSessionSnapshot e = Some s"
  then obtain sid hc cc where a: "get_prop e (js ''id'') = J_str sid" "sid \<noteq> []"
    "get_prop e (js ''hasController'') = J_bool hc" "get_prop e (js ''canControl'') = J_bool cc"
    unfolding parseSessionSnapshot_def by (auto split: if_splits jsval.splits)
  with p obtain w cr la where b: "parseNonNegativeInteger (get_prop e (js ''watchers'')) = Some w"
    "parseNonNegativeInteger (get_prop e (js ''createdAtMs'')) = Some cr"
    "parseNonNegativeInteger (get_prop e (js ''lastActivityMs'')) = Some la"
    unfolding parseSessionSnapshot_def by (auto split: if_splits option.splits)
  from p a b have "s = \<lparr>ss_id = sid, ss_hasController = hc, ss_canControl = cc, ss_watchers = w,
      ss_createdAtMs = cr, ss_lastActivityMs = la,
      ss_command = optional_text (get_prop e (js ''command'')), ss_name = optional_text (get_prop e (js ''name''))\<rparr>"
    unfolding parseSessionSnapshot_def by (simp split: if_splits)
  then show "describes e s" using a b by (simp add: describes_def parseNonNegativeInteger_Some)
qed

lemma describes_value: "snapshot_ok s \<Longrightarrow> describes (snapshot_value s) s"
  by (cases "ss_command s"; cases "ss_name s") (simp_all add: describes_def snapshot_value_def snapshot_ok_def)

lemma parseSessionSnapshot_value: "snapshot_ok s \<Longrightarrow> parseSessionSnapshot (snapshot_value s) = Some s"
  by (simp add: parseSessionSnapshot_Some describes_value)

lemma valid_entries: "List.map_filter id (map f es) = map (\<lambda>e. the (f e)) (filter (\<lambda>e. f e \<noteq> None) es)"
  by (induction es) (auto simp: List.map_filter_def)

lemma invalid_count:
  "length (filter (\<lambda>p. p = None) (map f es)) = length es - length (List.map_filter id (map f es))"
proof -
  have "length (filter (\<lambda>p. p = None) (map f es)) + length (List.map_filter id (map f es)) = length es"
    by (induction es) (auto simp: List.map_filter_def)
  then show ?thesis by simp
qed

lemma parse_array_eq:
  assumes "get_prop raw SESSIONS_ENVELOPE_FIELD = J_arr es" "ss = List.map_filter id (map parseSessionSnapshot es)"
    "n = length es - length ss"
  shows "parseSessionsResponse raw =
    (case evaluateSessionsParsePolicy (length es) n (length ss) of
       Some Policy_all_invalid \<Rightarrow> Inl (All_sessions_invalid n (length es))
     | Some Policy_too_many_invalid \<Rightarrow> Inl (Too_many_invalid_sessions n (length es))
     | None \<Rightarrow> Inr (ss, n))"
proof -
  have "is_object raw" using get_prop_object [of raw SESSIONS_ENVELOPE_FIELD] assms(1) by simp
  then show ?thesis
    unfolding parseSessionsResponse_def assms(1) Let_def jsval.case invalid_count by (simp only: assms(2,3) simp_thms if_False)
qed

lemma policy_ok:
  assumes "v \<le> t"
  shows "evaluateSessionsParsePolicy t (t - v) v = None \<longleftrightarrow> v = t \<or> 0 < v \<and> (t < 4 \<or> t < 2 * v)"
proof (cases "4 \<le> t")
  case False
  then show ?thesis using assms by (auto simp: evaluateSessionsParsePolicy_def MINIMUM_RATIO_SAMPLE_SIZE_def)
next
  case True
  have "INVALID_RATIO_THRESHOLD \<le> rat_of_nat (t - v) / rat_of_nat t \<longleftrightarrow> rat_of_nat t \<le> 2 * rat_of_nat (t - v)"
    using True by (simp add: INVALID_RATIO_THRESHOLD_def field_simps)
  also have "\<dots> \<longleftrightarrow> t \<le> 2 * (t - v)" by (metis of_nat_le_iff of_nat_mult of_nat_numeral)
  also have "\<dots> \<longleftrightarrow> \<not> t < 2 * v" using assms by arith
  finally show ?thesis using assms True
    by (auto simp: evaluateSessionsParsePolicy_def MINIMUM_RATIO_SAMPLE_SIZE_def)
qed

lemma parseSessions_array:
  assumes "get_prop raw SESSIONS_ENVELOPE_FIELD = J_arr es"
  shows "parseSessionsResponse raw = Inr (ss, n) \<longleftrightarrow>
    ss = List.map_filter id (map parseSessionSnapshot es) \<and> n = length es - length ss \<and>
    (n = 0 \<or> ss \<noteq> [] \<and> (length es < 4 \<or> length es < 2 * length ss))"
proof -
  let ?ss = "List.map_filter id (map parseSessionSnapshot es)"
  have le: "length ?ss \<le> length es" by (simp only: valid_entries length_map length_filter_le)
  have "parseSessionsResponse raw = Inr (ss, n) \<longleftrightarrow>
    evaluateSessionsParsePolicy (length es) (length es - length ?ss) (length ?ss) = None \<and>
    ss = ?ss \<and> n = length es - length ?ss"
    unfolding parse_array_eq [OF assms refl refl]
    by (auto split: option.splits parse_policy_failure.splits)
  then show ?thesis using le by (auto simp: policy_ok)
qed

subsection \<open>Properties\<close>

text \<open>C32: The sessions parser keeps exactly the entries that describe a session, in their order, counts the others,
  and accepts the answer only when no entry is malformed, or some entry is good and, from four entries on, the good ones
  are the majority.\<close>

theorem sessions_response_accepts_exactly:
  "parseSessionsResponse raw = Inr (ss, n) \<longleftrightarrow>
     (\<exists>es. get_prop raw (js ''sessions'') = J_arr es \<and>
        ss = map (\<lambda>e. THE s. describes e s) (filter (\<lambda>e. \<exists>s. describes e s) es) \<and>
        n = length es - length ss \<and>
        (n = 0 \<or> ss \<noteq> [] \<and> (length es < 4 \<or> length es < 2 * length ss)))"
proof -
  have some: "parseSessionSnapshot e \<noteq> None \<longleftrightarrow> (\<exists>s. describes e s)" for e
    by (metis parseSessionSnapshot_Some not_None_eq)
  have "the (parseSessionSnapshot e) = (THE s. describes e s)" if ex: "\<exists>s. describes e s" for e
  proof -
    obtain s where s: "describes e s" using ex by auto
    then have "(THE s. describes e s) = s" by (rule the_equality) (metis parseSessionSnapshot_Some s option.inject)
    then show ?thesis using s by (simp add: parseSessionSnapshot_Some [THEN iffD2])
  qed
  then have eq: "List.map_filter id (map parseSessionSnapshot es) =
      map (\<lambda>e. THE s. describes e s) (filter (\<lambda>e. \<exists>s. describes e s) es)" for es
    unfolding valid_entries some by (intro map_cong refl) simp
  show ?thesis
  proof (cases "get_prop raw SESSIONS_ENVELOPE_FIELD")
    case (J_arr es)
    then show ?thesis unfolding parseSessions_array [OF J_arr] eq by (simp add: SESSIONS_ENVELOPE_FIELD_def)
  qed (auto simp: parseSessionsResponse_def SESSIONS_ENVELOPE_FIELD_def)
qed

text \<open>What the server writes the client reads: a list of sessions encoded as the server does and delivered over HTTP
  comes out of the client and the parser unchanged, with no malformed entry.\<close>

theorem sessions_list_roundtrip:
  assumes "trim body \<noteq> []" "json_parse H body = Inr (J_obj [(js ''sessions'', J_arr (map snapshot_value ss))])"
    "list_all snapshot_ok ss"
  shows "\<exists>payload. fetchSessionsFromEndpoint H (Response True 200 (Inr body)) = Inr payload \<and>
    parseSessionsResponse payload = Inr (ss, 0)"
proof -
  let ?p = "J_obj [(js ''sessions'', J_arr (map snapshot_value ss))]"
  have "List.map_filter id (map parseSessionSnapshot (map snapshot_value ss)) = ss"
    using assms(3) by (induction ss) (auto simp: List.map_filter_def parseSessionSnapshot_value)
  then have "parseSessionsResponse ?p = Inr (ss, 0)"
    by (subst parseSessions_array [where es = "map snapshot_value ss"]) (simp_all add: SESSIONS_ENVELOPE_FIELD_def)
  moreover have "fetchSessionsFromEndpoint H (Response True 200 (Inr body)) = Inr ?p"
    using assms(1,2) by (simp add: parse_response_body_def SESSIONS_ENVELOPE_FIELD_def)
  ultimately show ?thesis by blast
qed

definition sample_snapshot :: session_snapshot where
  "sample_snapshot = \<lparr>ss_id = js ''s1'', ss_hasController = True, ss_canControl = False, ss_watchers = 2,
     ss_createdAtMs = 5, ss_lastActivityMs = 9, ss_command = Some (js ''top''), ss_name = None\<rparr>"

theorem sessions_list_roundtrip_witness:
  "\<exists>payload. fetchSessionsFromEndpoint
       (sample_host\<lparr>json_parse := (\<lambda>_. Inr (J_obj [(js ''sessions'', J_arr (map snapshot_value [sample_snapshot]))]))\<rparr>)
       (Response True 200 (Inr (js ''x''))) = Inr payload \<and>
     parseSessionsResponse payload = Inr ([sample_snapshot], 0)"
proof (rule sessions_list_roundtrip)
  show "trim (js ''x'') \<noteq> []" by code_simp
qed (simp_all add: snapshot_ok_def sample_snapshot_def)

end
