(* ===== verification/Session_Store.thy ===== *)
theory Session_Store
  imports Sessions_Payload
begin

section \<open>Stored sessions\<close>

text \<open>
  \<open>session/persistence/session-storage.ts\<close>, \<open>session/persistence/storage-keys.ts\<close>,
  \<open>contracts/storage-access.ts\<close>, \<open>bootstrap/browser-environment-access.ts\<close> and
  \<open>session/domain/session-candidates.ts\<close>.  A Web Storage area is its table of strings together
  with the exceptions its three operations may throw: reading or removing may be denied, and
  a write may exceed the quota; a write that throws changes nothing.
\<close>

record web_storage =
  ws_items :: "(jsstring, jsstring) map"
  ws_readError :: "jsval option"
  ws_writeError :: "jsstring \<Rightarrow> jsstring \<Rightarrow> jsval option"
  ws_removeError :: "jsval option"

definition getItem :: "web_storage \<Rightarrow> jsstring \<Rightarrow> jsval + jsstring option" where
  "getItem st k = (case ws_readError st of Some e \<Rightarrow> Inl e | None \<Rightarrow> Inr (ws_items st k))"

definition setItem :: "web_storage \<Rightarrow> jsstring \<Rightarrow> jsstring \<Rightarrow> jsval + web_storage" where
  "setItem st k v =
     (case ws_writeError st k v of Some e \<Rightarrow> Inl e | None \<Rightarrow> Inr (st\<lparr>ws_items := (ws_items st)(k \<mapsto> v)\<rparr>))"

definition removeItem :: "web_storage \<Rightarrow> jsstring \<Rightarrow> jsval + web_storage" where
  "removeItem st k =
     (case ws_removeError st of Some e \<Rightarrow> Inl e | None \<Rightarrow> Inr (st\<lparr>ws_items := (ws_items st)(k := None)\<rparr>))"

definition ACTIVE_SESSION_STORAGE_KEY :: jsstring where
  "ACTIVE_SESSION_STORAGE_KEY = js ''wootty.activeSessionId''"

definition LAST_SESSION_STORAGE_KEY :: jsstring where
  "LAST_SESSION_STORAGE_KEY = js ''wootty.lastSessionId''"

definition SESSION_HISTORY_STORAGE_KEY :: jsstring where
  "SESSION_HISTORY_STORAGE_KEY = js ''wootty.sessionHistory''"

subsection \<open>Access to an area\<close>

record storage_access =
  acc_storage :: "web_storage option"
  acc_error :: "storage_failure option"

definition withStorageErrorHandling ::
  "storage_operation \<Rightarrow> jsstring \<Rightarrow> (jsval + 'v) \<Rightarrow> 'v option \<times> storage_failure option" where
  "withStorageErrorHandling operation key r =
     (case r of
        Inr v \<Rightarrow> (Some v, None)
      | Inl cause \<Rightarrow>
          (None, Some \<lparr>sf_operation = operation, sf_key = key, sf_reason = None, sf_cause = cause\<rparr>))"

text \<open>\<open>area\<close> is what reading the property of \<open>window\<close> gives; \<open>None\<close> where there is no window.\<close>

definition readStorageResult :: "jsstring \<Rightarrow> (jsval + web_storage) option \<Rightarrow> storage_access" where
  "readStorageResult kind area =
     (case area of
        None \<Rightarrow> \<lparr>acc_storage = None, acc_error = None\<rparr>
      | Some r \<Rightarrow> (let (st, err) = withStorageErrorHandling Op_read kind r in \<lparr>acc_storage = st, acc_error = err\<rparr>))"

subsection \<open>Session ids and history\<close>

definition readStoredSessionIdResult ::
  "web_storage \<Rightarrow> jsstring \<Rightarrow> jsstring option \<times> storage_failure option" where
  "readStoredSessionIdResult st key =
     (case getItem st key of
        Inl cause \<Rightarrow> (None, Some \<lparr>sf_operation = Op_read, sf_key = key, sf_reason = None, sf_cause = cause\<rparr>)
      | Inr None \<Rightarrow> (None, None)
      | Inr (Some sid) \<Rightarrow> if sid = [] then (None, None) else (Some sid, None))"

definition storeSessionIdResult ::
  "web_storage \<Rightarrow> jsstring \<Rightarrow> jsstring \<Rightarrow> storage_failure option \<times> web_storage" where
  "storeSessionIdResult st key sid =
     (case setItem st key sid of
        Inr st' \<Rightarrow> (None, st')
      | Inl cause \<Rightarrow> (Some \<lparr>sf_operation = Op_write, sf_key = key, sf_reason = None, sf_cause = cause\<rparr>, st))"

definition clearStoredSessionIdResult ::
  "web_storage \<Rightarrow> jsstring \<Rightarrow> storage_failure option \<times> web_storage" where
  "clearStoredSessionIdResult st key =
     (case removeItem st key of
        Inr st' \<Rightarrow> (None, st')
      | Inl cause \<Rightarrow> (Some \<lparr>sf_operation = Op_remove, sf_key = key, sf_reason = None, sf_cause = cause\<rparr>, st))"

fun string_entry :: "jsval \<Rightarrow> jsstring option" where
  "string_entry (J_str s) = (if s \<noteq> [] then Some s else None)"
| "string_entry _ = None"

definition parse_history :: "jsval \<Rightarrow> jsstring list \<times> storage_failure option" where
  "parse_history parsed =
     (case parsed of
        J_arr entries \<Rightarrow>
          (let sessions = List.map_filter string_entry entries
           in if length sessions \<noteq> length entries
              then (sessions, Some \<lparr>sf_operation = Op_parse, sf_key = SESSION_HISTORY_STORAGE_KEY,
                      sf_reason = Some Schema_mismatch,
                      sf_cause = J_obj [(js ''invalidEntries'', J_num (Finite (of_nat (length entries - length sessions)))),
                                        (js ''totalEntries'', J_num (Finite (of_nat (length entries))))]\<rparr>)
              else (sessions, None))
      | _ \<Rightarrow> ([], Some \<lparr>sf_operation = Op_parse, sf_key = SESSION_HISTORY_STORAGE_KEY,
                  sf_reason = Some Schema_mismatch, sf_cause = parsed\<rparr>))"

definition readSessionHistoryResult :: "host \<Rightarrow> web_storage \<Rightarrow> jsstring list \<times> storage_failure option" where
  "readSessionHistoryResult H st =
     (case getItem st SESSION_HISTORY_STORAGE_KEY of
        Inl cause \<Rightarrow> ([], Some \<lparr>sf_operation = Op_read, sf_key = SESSION_HISTORY_STORAGE_KEY,
                            sf_reason = None, sf_cause = cause\<rparr>)
      | Inr None \<Rightarrow> ([], None)
      | Inr (Some raw) \<Rightarrow>
          if raw = [] then ([], None)
          else (case json_parse H raw of
             Inl cause \<Rightarrow> ([], Some \<lparr>sf_operation = Op_parse, sf_key = SESSION_HISTORY_STORAGE_KEY,
                                 sf_reason = Some Invalid_value, sf_cause = cause\<rparr>)
           | Inr parsed \<Rightarrow> parse_history parsed))"

definition writeSessionHistoryResult ::
  "host \<Rightarrow> web_storage \<Rightarrow> jsstring list \<Rightarrow> storage_failure option \<times> web_storage" where
  "writeSessionHistoryResult H st sessions =
     (case (case json_stringify H (J_arr (map J_str sessions)) of
              Inl cause \<Rightarrow> Inl cause
            | Inr text \<Rightarrow> setItem st SESSION_HISTORY_STORAGE_KEY text) of
        Inr st' \<Rightarrow> (None, st')
      | Inl cause \<Rightarrow> (Some \<lparr>sf_operation = Op_write, sf_key = SESSION_HISTORY_STORAGE_KEY,
                         sf_reason = None, sf_cause = cause\<rparr>, st))"

definition MAX_HISTORY_ENTRIES :: nat where
  "MAX_HISTORY_ENTRIES = 8"

definition pushSessionHistory :: "jsstring list \<Rightarrow> jsstring \<Rightarrow> nat \<Rightarrow> jsstring list" where
  "pushSessionHistory sessions sid maxEntries =
     (let unique = sid # filter (\<lambda>v. v \<noteq> sid) sessions in take maxEntries unique)"

subsection \<open>Candidates of the session menu\<close>

record session_candidate =
  sc_id :: jsstring
  sc_mode :: attach_mode
  sc_command :: "jsstring option"
  sc_name :: "jsstring option"
  sc_watchers :: nat
  sc_lastActivityMs :: nat

definition as_candidate :: "session_snapshot \<Rightarrow> session_candidate" where
  "as_candidate l =
     \<lparr>sc_id = ss_id l, sc_mode = (if ss_canControl l then Control else Watch), sc_command = ss_command l,
      sc_name = ss_name l, sc_watchers = ss_watchers l, sc_lastActivityMs = ss_lastActivityMs l\<rparr>"

text \<open>The two loops; \<open>seen\<close> is the set \<open>seenSessionIds\<close>.\<close>

fun live_loop ::
  "jsstring option \<Rightarrow> session_snapshot list \<Rightarrow> jsstring list \<Rightarrow> session_candidate list \<times> jsstring list" where
  "live_loop cur [] seen = ([], seen)"
| "live_loop cur (l # ls) seen =
     (if cur = Some (ss_id l) \<or> ss_id l \<in> set seen then live_loop cur ls seen
      else (let (cs, seen') = live_loop cur ls (ss_id l # seen) in (as_candidate l # cs, seen')))"

fun history_loop :: "jsstring option \<Rightarrow> jsstring list \<Rightarrow> jsstring list \<Rightarrow> jsstring list" where
  "history_loop cur [] seen = []"
| "history_loop cur (h # hs) seen =
     (if h = [] \<or> cur = Some h \<or> h \<in> set seen then history_loop cur hs seen
      else h # history_loop cur hs (h # seen))"

definition fallback_history :: "jsstring list \<Rightarrow> jsstring option \<Rightarrow> jsstring list" where
  "fallback_history sessionHistoryIds lastSessionId =
     (if length sessionHistoryIds > 0 then sessionHistoryIds
      else case lastSessionId of Some l \<Rightarrow> if l \<noteq> [] then [l] else [] | None \<Rightarrow> [])"

definition deriveSessionCandidates ::
  "session_snapshot list \<Rightarrow> jsstring option \<Rightarrow> jsstring list \<Rightarrow> jsstring option \<Rightarrow>
   session_candidate list \<times> jsstring list" where
  "deriveSessionCandidates liveSessions currentSessionId sessionHistoryIds lastSessionId =
     (let fallbackHistory = fallback_history sessionHistoryIds lastSessionId;
          sorted = sort_key (\<lambda>l. - int (ss_lastActivityMs l)) liveSessions;
          (liveCandidates, seen) = live_loop currentSessionId sorted []
      in (liveCandidates, history_loop currentSessionId fallbackHistory seen))"

subsection \<open>Facts about the history\<close>

lemma remdups_snoc: "remdups (xs @ [x]) = filter (\<lambda>v. v \<noteq> x) (remdups xs) @ [x]"
  by (induction xs) auto

lemma take_filter_one:
  "distinct R \<Longrightarrow> take n (filter (\<lambda>v. v \<noteq> x) (take (Suc n) R)) = take n (filter (\<lambda>v. v \<noteq> x) R)"
proof (induction R arbitrary: n)
  case (Cons r R)
  show ?case
  proof (cases n)
    case (Suc m)
    have "filter (\<lambda>v. v \<noteq> x) (take (Suc m) R) = take (Suc m) R" if "r = x"
      using Cons.prems that by (auto simp: filter_id_conv dest: in_set_takeD)
    moreover have "filter (\<lambda>v. v \<noteq> x) R = R" if "r = x"
      using Cons.prems that by (auto simp: filter_id_conv)
    ultimately show ?thesis using Cons Suc by simp
  qed simp
qed simp

lemma push_history_recent:
  "pushSessionHistory (take (Suc n) (rev (remdups ids))) x (Suc n) = take (Suc n) (rev (remdups (ids @ [x])))"
  by (simp add: pushSessionHistory_def remdups_snoc rev_filter take_filter_one)

subsection \<open>Facts about the candidates\<close>

lemma live_loop_spec:
  assumes "live_loop cur ls seen = (cs, seen')"
  shows "set seen' = set seen \<union> sc_id ` set cs"
    and "distinct (map sc_id cs)"
    and "sc_id ` set cs = ss_id ` set ls - set_option cur - set seen"
    and "set cs \<subseteq> as_candidate ` set ls"
proof -
  have "set seen' = set seen \<union> sc_id ` set cs \<and> distinct (map sc_id cs) \<and>
    sc_id ` set cs = ss_id ` set ls - set_option cur - set seen \<and> set cs \<subseteq> as_candidate ` set ls"
    using assms
  proof (induction ls arbitrary: seen cs seen')
    case (Cons l ls)
    show ?case
    proof (cases "cur = Some (ss_id l) \<or> ss_id l \<in> set seen")
      case True
      then have rec: "live_loop cur ls seen = (cs, seen')" using Cons.prems by simp
      show ?thesis using Cons.IH [OF rec] True by auto
    next
      case False
      then obtain cs' where rec: "live_loop cur ls (ss_id l # seen) = (cs', seen')" "cs = as_candidate l # cs'"
        using Cons.prems by (auto split: prod.splits)
      have [simp]: "sc_id (as_candidate l) = ss_id l" by (simp add: as_candidate_def)
      show ?thesis using Cons.IH [OF rec(1)] False rec(2) by auto
    qed
  qed simp
  then show "set seen' = set seen \<union> sc_id ` set cs" "distinct (map sc_id cs)"
    "sc_id ` set cs = ss_id ` set ls - set_option cur - set seen" "set cs \<subseteq> as_candidate ` set ls"
    by blast+
qed

lemma live_loop_sorted:
  "sorted (map (\<lambda>l. - int (ss_lastActivityMs l)) ls) \<Longrightarrow>
   sorted (map (\<lambda>c. - int (sc_lastActivityMs c)) (fst (live_loop cur ls seen)))"
proof (induction ls arbitrary: seen)
  case (Cons l ls)
  obtain cs seen' where rec: "live_loop cur ls (ss_id l # seen) = (cs, seen')" by fastforce
  have "- int (ss_lastActivityMs l) \<le> - int (sc_lastActivityMs c)" if "c \<in> set cs" for c
    using live_loop_spec(4) [OF rec] that Cons.prems by (auto simp: as_candidate_def)
  then show ?case using Cons.IH [of "ss_id l # seen"] Cons.IH [of seen] Cons.prems rec
    by (auto simp: as_candidate_def)
qed simp

lemma history_loop_spec:
  "distinct (history_loop cur hs seen) \<and>
   set (history_loop cur hs seen) = set hs - {[]} - set_option cur - set seen"
proof (induction hs arbitrary: seen)
  case (Cons h hs)
  show ?case using Cons.IH [of seen] Cons.IH [of "h # seen"] by (cases cur) auto
qed simp

subsection \<open>Properties\<close>

text \<open>The session history is a most-recently-used list: after remembering any sequence of sessions it holds the
  eight sessions used last, each once, the latest first.\<close>

theorem history_is_recently_used_list:
  "fold (\<lambda>sid h. pushSessionHistory h sid MAX_HISTORY_ENTRIES) ids [] = take 8 (rev (remdups ids))"
proof (induction ids rule: rev_induct)
  case (snoc x ids)
  then show ?case using push_history_recent [of 7 ids x] by (simp add: MAX_HISTORY_ENTRIES_def)
qed simp

text \<open>The session menu offers every other session exactly once: the live candidates are the live sessions other
  than the current one, most recently active first, and the history candidates are the remembered ids that are neither
  live nor current.\<close>

theorem candidates_partition_sessions:
  "distinct (map sc_id (fst (deriveSessionCandidates ls cur hs prev)) @ snd (deriveSessionCandidates ls cur hs prev)) \<and>
   sc_id ` set (fst (deriveSessionCandidates ls cur hs prev)) = ss_id ` set ls - set_option cur \<and>
   set (fst (deriveSessionCandidates ls cur hs prev)) \<subseteq> as_candidate ` set ls \<and>
   sorted (map (\<lambda>c. - int (sc_lastActivityMs c)) (fst (deriveSessionCandidates ls cur hs prev))) \<and>
   set (snd (deriveSessionCandidates ls cur hs prev)) =
     set (if hs = [] then filter (\<lambda>l. l \<noteq> []) (case prev of Some l \<Rightarrow> [l] | None \<Rightarrow> []) else hs)
       - {[]} - set_option cur - ss_id ` set ls"
proof -
  let ?sorted = "sort_key (\<lambda>l. - int (ss_lastActivityMs l)) ls"
  obtain cs seen where loop: "live_loop cur ?sorted [] = (cs, seen)" by fastforce
  note live = live_loop_spec [OF loop]
  have d: "deriveSessionCandidates ls cur hs prev = (cs, history_loop cur (fallback_history hs prev) seen)"
    by (simp add: deriveSessionCandidates_def loop)
  have seen: "set seen = ss_id ` set ls - set_option cur" using live(1,3) by simp
  have fallback: "set (fallback_history hs prev) =
      set (if hs = [] then filter (\<lambda>l. l \<noteq> []) (case prev of Some l \<Rightarrow> [l] | None \<Rightarrow> []) else hs)"
    by (cases prev) (auto simp: fallback_history_def)
  note hist = history_loop_spec [of cur "fallback_history hs prev" seen]
  have "sorted (map (\<lambda>c. - int (sc_lastActivityMs c)) cs)"
    using live_loop_sorted [of ?sorted cur "[]"] by (simp add: loop)
  moreover have "sc_id ` set cs = ss_id ` set ls - set_option cur" using live(3) by simp
  moreover have "set cs \<subseteq> as_candidate ` set ls" using live(4) by simp
  moreover have "distinct (map sc_id cs @ history_loop cur (fallback_history hs prev) seen)"
    using live(2) hist live(3) seen by auto
  moreover have "set (history_loop cur (fallback_history hs prev) seen) =
      set (fallback_history hs prev) - {[]} - set_option cur - ss_id ` set ls"
    using hist seen by auto
  ultimately show ?thesis unfolding d fst_conv snd_conv fallback by blast
qed

end
