(* ===== verification/Session_Notices.thy ===== *)
theory Session_Notices
  imports Session_Store Scheduler Throttle
begin

section \<open>The session notice and the stored identity\<close>

text \<open>
  \<open>session/application/session-notice-channel.ts\<close> and
  \<open>session/application/session-persistence.ts\<close>, with the two publishers of
  \<open>session/application/session-orchestrator.ts\<close> they need.  The session layer keeps its timers
  in a scheduler of its own; \<open>session_task\<close> lists the callbacks it arms.  A React state setter
  is an update of the field.
\<close>

datatype session_task =
    Notice_expired
  | Initial_notice_expired
  | Refresh_timeout nat
  | Trailing_refresh
  | Poll_again nat
  | Poll_bootstrap_retry nat
  | Poll_cooldown_over nat

record notice_channel =
  timers :: "session_task scheduler"
  sessionNotice :: jsstring
  sessionNoticeTimer :: "nat option"

definition NOTICE_VISIBLE_MS :: int where
  "NOTICE_VISIBLE_MS = 4000"

definition initial_notice_effect :: "jsstring \<Rightarrow> 'a notice_channel_scheme \<Rightarrow> 'a notice_channel_scheme" where
  "initial_notice_effect initialNotice s =
     (if initialNotice = [] then s
      else (let (h, sc) = setTimeout Initial_notice_expired NOTICE_VISIBLE_MS (timers s)
            in s\<lparr>timers := sc, sessionNoticeTimer := Some h\<rparr>))"

definition clear_notice_timer :: "'a notice_channel_scheme \<Rightarrow> 'a notice_channel_scheme" where
  "clear_notice_timer s =
     (case sessionNoticeTimer s of
        None \<Rightarrow> s
      | Some h \<Rightarrow> s\<lparr>timers := clearTimeout h (timers s), sessionNoticeTimer := None\<rparr>)"

definition clearSessionNotice :: "'a notice_channel_scheme \<Rightarrow> 'a notice_channel_scheme" where
  "clearSessionNotice s = (clear_notice_timer s)\<lparr>sessionNotice := []\<rparr>"

definition publishSessionNotice :: "jsstring \<Rightarrow> 'a notice_channel_scheme \<Rightarrow> 'a notice_channel_scheme" where
  "publishSessionNotice message s0 =
     (let s = s0\<lparr>sessionNotice := message\<rparr>;
          s1 = (case sessionNoticeTimer s of
                  None \<Rightarrow> s | Some h \<Rightarrow> s\<lparr>timers := clearTimeout h (timers s)\<rparr>);
          (h, sc) = setTimeout Notice_expired NOTICE_VISIBLE_MS (timers s1)
      in s1\<lparr>timers := sc, sessionNoticeTimer := Some h\<rparr>)"

definition notice_expired :: "'a notice_channel_scheme \<Rightarrow> 'a notice_channel_scheme" where
  "notice_expired s = s\<lparr>sessionNotice := [], sessionNoticeTimer := None\<rparr>"

definition initial_notice_expired :: "'a notice_channel_scheme \<Rightarrow> 'a notice_channel_scheme" where
  "initial_notice_expired s = s\<lparr>sessionNotice := []\<rparr>"

text \<open>The throttle state is read from and written to the reference the caller names.\<close>

definition publishThrottledSessionNotice ::
  "failure_notice_state \<Rightarrow> jsstring \<Rightarrow> jsstring \<Rightarrow> int \<Rightarrow> 'a notice_channel_scheme \<Rightarrow>
   failure_notice_state \<times> 'a notice_channel_scheme" where
  "publishThrottledSessionNotice ref failureKey message cooldownMs s =
     notifyWithFailureThrottle defaultRepeatedMessage ref failureKey (now (timers s)) cooldownMs message
       publishSessionNotice s"

definition unmount_notice :: "'a notice_channel_scheme \<Rightarrow> 'a notice_channel_scheme" where
  "unmount_notice = clear_notice_timer"

subsection \<open>Reporting a storage failure\<close>

record session_identity = notice_channel +
  storageFailureNotice :: failure_notice_state
  localAccess :: storage_access
  sessionAccess :: storage_access
  sessionId :: "jsstring option"
  lastSessionId :: "jsstring option"
  sessionHistoryIds :: "jsstring list"

definition REFRESH_FAILURE_NOTICE_COOLDOWN_MS :: int where
  "REFRESH_FAILURE_NOTICE_COOLDOWN_MS = 15000"

definition publishNoticeDetails :: "host \<Rightarrow> notice \<Rightarrow> 'a notice_channel_scheme \<Rightarrow> 'a notice_channel_scheme" where
  "publishNoticeDetails H details s =
     (let message = trim (toUserNotice H details) in if message = [] then s else publishSessionNotice message s)"

definition storage_reason_name :: "storage_reason option \<Rightarrow> jsstring" where
  "storage_reason_name r =
     (case r of None \<Rightarrow> [] | Some Schema_mismatch \<Rightarrow> js ''schema_mismatch'' | Some Invalid_value \<Rightarrow> js ''invalid_value'')"

definition storage_failure_key :: "storage_failure \<Rightarrow> jsstring" where
  "storage_failure_key f =
     js ''storage:'' @ operation_name (sf_operation f) @ js '':'' @ sf_key f @ js '':'' @ storage_reason_name (sf_reason f)"

definition reportStorageFailure :: "host \<Rightarrow> storage_failure \<Rightarrow> 'a session_identity_scheme \<Rightarrow> 'a session_identity_scheme" where
  "reportStorageFailure H failure s =
     (let (ref, s') = publishThrottledSessionNotice (storageFailureNotice s) (storage_failure_key failure)
            (toUserNotice H (toStorageFailureNoticeDetails H failure)) REFRESH_FAILURE_NOTICE_COOLDOWN_MS s
      in s'\<lparr>storageFailureNotice := ref\<rparr>)"

subsection \<open>Persistence\<close>

definition reportFailure :: "host \<Rightarrow> storage_failure option \<Rightarrow> 'a session_identity_scheme \<Rightarrow> 'a session_identity_scheme" where
  "reportFailure H failure s = (case failure of None \<Rightarrow> s | Some f \<Rightarrow> reportStorageFailure H f s)"

definition resolveStorageAccess ::
  "host \<Rightarrow> storage_access \<Rightarrow> 'a session_identity_scheme \<Rightarrow> web_storage option \<times> 'a session_identity_scheme" where
  "resolveStorageAccess H access s = (acc_storage access, reportFailure H (acc_error access) s)"

definition set_local :: "web_storage \<Rightarrow> 'a session_identity_scheme \<Rightarrow> 'a session_identity_scheme" where
  "set_local st s = s\<lparr>localAccess := (localAccess s)\<lparr>acc_storage := Some st\<rparr>\<rparr>"

definition set_session :: "web_storage \<Rightarrow> 'a session_identity_scheme \<Rightarrow> 'a session_identity_scheme" where
  "set_session st s = s\<lparr>sessionAccess := (sessionAccess s)\<lparr>acc_storage := Some st\<rparr>\<rparr>"

definition load_session_id :: "host \<Rightarrow> 'a session_identity_scheme \<Rightarrow> 'a session_identity_scheme" where
  "load_session_id H s =
     (case resolveStorageAccess H (sessionAccess s) s of
        (None, s1) \<Rightarrow> s1\<lparr>sessionId := None\<rparr>
      | (Some st, s1) \<Rightarrow>
          (let (sid, err) = readStoredSessionIdResult st ACTIVE_SESSION_STORAGE_KEY
           in (reportFailure H err s1)\<lparr>sessionId := sid\<rparr>))"

definition load_last_session_id :: "host \<Rightarrow> 'a session_identity_scheme \<Rightarrow> 'a session_identity_scheme" where
  "load_last_session_id H s =
     (case resolveStorageAccess H (localAccess s) s of
        (None, s1) \<Rightarrow> s1\<lparr>lastSessionId := None\<rparr>
      | (Some st, s1) \<Rightarrow>
          (let (sid, err) = readStoredSessionIdResult st LAST_SESSION_STORAGE_KEY
           in (reportFailure H err s1)\<lparr>lastSessionId := sid\<rparr>))"

definition load_session_history :: "host \<Rightarrow> 'a session_identity_scheme \<Rightarrow> 'a session_identity_scheme" where
  "load_session_history H s =
     (case resolveStorageAccess H (localAccess s) s of
        (None, s1) \<Rightarrow> s1\<lparr>sessionHistoryIds := []\<rparr>
      | (Some st, s1) \<Rightarrow>
          (let (sessions, err) = readSessionHistoryResult H st
           in (reportFailure H err s1)\<lparr>sessionHistoryIds := sessions\<rparr>))"

definition clearActiveSessionStorage :: "host \<Rightarrow> 'a session_identity_scheme \<Rightarrow> 'a session_identity_scheme" where
  "clearActiveSessionStorage H s =
     (case resolveStorageAccess H (sessionAccess s) s of
        (None, s1) \<Rightarrow> s1
      | (Some st, s1) \<Rightarrow>
          (let (err, st') = clearStoredSessionIdResult st ACTIVE_SESSION_STORAGE_KEY
           in reportFailure H err (set_session st' s1)))"

definition persistActiveSessionStorage ::
  "host \<Rightarrow> jsstring \<Rightarrow> 'a session_identity_scheme \<Rightarrow> 'a session_identity_scheme" where
  "persistActiveSessionStorage H nextSessionId s =
     (case resolveStorageAccess H (sessionAccess s) s of
        (None, s1) \<Rightarrow> s1
      | (Some st, s1) \<Rightarrow>
          (let (err, st') = storeSessionIdResult st ACTIVE_SESSION_STORAGE_KEY nextSessionId
           in reportFailure H err (set_session st' s1)))"

definition rememberSession :: "host \<Rightarrow> jsstring \<Rightarrow> 'a session_identity_scheme \<Rightarrow> 'a session_identity_scheme" where
  "rememberSession H nextSessionId s =
     (case resolveStorageAccess H (localAccess s) s of
        (None, s1) \<Rightarrow> s1
      | (Some st, s1) \<Rightarrow>
          (let (e1, st1) = storeSessionIdResult st LAST_SESSION_STORAGE_KEY nextSessionId;
               s2 = reportFailure H e1 s1;
               (sessions, e2) = readSessionHistoryResult H st1;
               s3 = reportFailure H e2 s2;
               nextHistory = pushSessionHistory sessions nextSessionId MAX_HISTORY_ENTRIES;
               (e3, st2) = writeSessionHistoryResult H st1 nextHistory;
               s4 = reportFailure H e3 s3
           in (set_local st2 s4)\<lparr>sessionHistoryIds := nextHistory, lastSessionId := Some nextSessionId\<rparr>))"

end
