(* ===== verification/Session_Refresh.thy ===== *)
theory Session_Refresh
  imports Session_Notices
begin

section \<open>Refreshing the list of live sessions\<close>

text \<open>
  \<open>session/application/session-refresh-coordinator.ts\<close> with \<open>session-refresh-policy.ts\<close> and
  \<open>session-refresh-result.ts\<close>.  A refresh is an asynchronous function: it starts, races its
  \<open>fetch\<close> against its abort signal and its time-out, continues when the race is settled, and runs
  its \<open>finally\<close> block.  Each of these points is a step of its own, because other code may run in
  between; \<open>rq_phase\<close> says where a request is.  An \<open>AbortController\<close> belongs to one request, so
  the request id stands for it.  \<open>JSON\<close> values have no throwing getters, so the parser
  cannot throw and the branch that catches its exception is not reachable.
\<close>

subsection \<open>Policy and results\<close>

definition SESSION_REFRESH_INTERVAL_MS :: int where "SESSION_REFRESH_INTERVAL_MS = 4000"

definition SESSION_REFRESH_MAX_BACKOFF_MS :: int where "SESSION_REFRESH_MAX_BACKOFF_MS = 32000"

definition SESSION_REFRESH_FAILURE_LIMIT :: nat where "SESSION_REFRESH_FAILURE_LIMIT = 6"

definition SESSION_REFRESH_CIRCUIT_BREAKER_COOLDOWN_MS :: int where
  "SESSION_REFRESH_CIRCUIT_BREAKER_COOLDOWN_MS = 60000"

definition SESSION_REFRESH_BOOTSTRAP_RETRY_MS :: int where "SESSION_REFRESH_BOOTSTRAP_RETRY_MS = 30000"

definition SESSION_REFRESH_CALL_TIMEOUT_MS :: int where "SESSION_REFRESH_CALL_TIMEOUT_MS = 15000"

definition nextSessionRefreshDelayMs :: "nat \<Rightarrow> int" where
  "nextSessionRefreshDelayMs consecutiveFailures =
     (if consecutiveFailures \<le> 0 then SESSION_REFRESH_INTERVAL_MS
      else min SESSION_REFRESH_MAX_BACKOFF_MS
             (SESSION_REFRESH_INTERVAL_MS * 2 ^ min (consecutiveFailures - 1) 3))"

datatype refresh_trigger = Trigger_poll | Trigger_transport_event | Trigger_manual

type_synonym refresh_result = "refresh_failure option"

datatype polling_result = Poll_success | Poll_ignored_failure | Poll_retry_bootstrap | Poll_counted_failure

fun classifyPollingRefreshResult :: "refresh_result \<Rightarrow> polling_result" where
  "classifyPollingRefreshResult None = Poll_success"
| "classifyPollingRefreshResult (Some Request_aborted) = Poll_ignored_failure"
| "classifyPollingRefreshResult (Some Request_superseded) = Poll_ignored_failure"
| "classifyPollingRefreshResult (Some (Bootstrap_error issue)) = Poll_retry_bootstrap"
| "classifyPollingRefreshResult (Some f) = Poll_counted_failure"

fun shouldNotifyRefreshFailure :: "refresh_failure \<Rightarrow> bool" where
  "shouldNotifyRefreshFailure Request_aborted = False"
| "shouldNotifyRefreshFailure Request_superseded = False"
| "shouldNotifyRefreshFailure _ = True"

definition coalesceRefreshTrigger :: "refresh_trigger option \<Rightarrow> refresh_trigger \<Rightarrow> refresh_trigger" where
  "coalesceRefreshTrigger cur nxt =
     (if nxt = Trigger_manual then Trigger_manual
      else if cur = Some Trigger_manual then Trigger_manual
      else if nxt = Trigger_transport_event \<or> cur = Some Trigger_transport_event then Trigger_transport_event
      else Trigger_poll)"

subsection \<open>State\<close>

datatype race_outcome =
    Refresh_aborted_token
  | Refresh_timeout_token
  | Fetched sessions_fetch_result
  | Fetch_rejected thrown

datatype refresh_phase = Racing | Settled race_outcome | Returned refresh_result | Finished refresh_result

record refresh_request =
  rq_hasSignal :: bool
  rq_aborted :: bool
  rq_timedOut :: bool
  rq_timer :: "nat option"
  rq_phase :: refresh_phase

record pending_refresh =
  pr_trigger :: refresh_trigger
  pr_queuedForRequestId :: nat

record session_refresh = session_identity +
  refreshFailureNotice :: failure_notice_state
  liveSessions :: "session_snapshot list"
  latestRefreshRequestId :: nat
  activeRefreshController :: "nat option"
  pendingRefresh :: "pending_refresh option"
  requests :: "(nat, refresh_request) map"

definition on_request ::
  "nat \<Rightarrow> (refresh_request \<Rightarrow> refresh_request) \<Rightarrow> 'a session_refresh_scheme \<Rightarrow> 'a session_refresh_scheme" where
  "on_request r f s =
     (case requests s r of None \<Rightarrow> s | Some q \<Rightarrow> s\<lparr>requests := (requests s)(r \<mapsto> f q)\<rparr>)"

subsection \<open>The callbacks of the orchestrator\<close>

definition publishRefreshFailure ::
  "host \<Rightarrow> refresh_failure \<Rightarrow> 'a session_refresh_scheme \<Rightarrow> 'a session_refresh_scheme" where
  "publishRefreshFailure H failure s =
     (case toSessionRefreshFailureNotice failure of
        None \<Rightarrow> s
      | Some (failureKey, notice) \<Rightarrow>
          (let (ref, s') = publishThrottledSessionNotice (refreshFailureNotice s) failureKey
                 (toUserNotice H notice) REFRESH_FAILURE_NOTICE_COOLDOWN_MS s
           in s'\<lparr>refreshFailureNotice := ref\<rparr>))"

definition onRefreshSuccess :: "session_snapshot list \<Rightarrow> 'a session_refresh_scheme \<Rightarrow> 'a session_refresh_scheme" where
  "onRefreshSuccess sessions s = s\<lparr>refreshFailureNotice := None, liveSessions := sessions\<rparr>"

definition onInvalidEntries :: "host \<Rightarrow> nat \<Rightarrow> 'a session_refresh_scheme \<Rightarrow> 'a session_refresh_scheme" where
  "onInvalidEntries H count = publishNoticeDetails H (N_refresh (RN_invalid_entries count))"

subsection \<open>Starting a refresh\<close>

text \<open>Aborting a controller fires its listener once; the listener settles a race that is still open.\<close>

definition abort_controller :: "nat \<Rightarrow> 'a session_refresh_scheme \<Rightarrow> 'a session_refresh_scheme" where
  "abort_controller r = on_request r
     (\<lambda>q. q\<lparr>rq_aborted := True,
            rq_phase := (if rq_phase q = Racing \<and> \<not> rq_aborted q then Settled Refresh_aborted_token else rq_phase q)\<rparr>)"

text \<open>What the caller holds: the promise of a started request, or an answer at once.\<close>

datatype refresh_ticket = Answered refresh_result | Started nat

text \<open>
  \<open>sig\<close> is the signal of the request: \<open>None\<close> without one, \<open>Some b\<close> with \<open>b\<close> telling whether it
  is aborted already.
\<close>

definition launch_request ::
  "bool option \<Rightarrow> 'a session_refresh_scheme \<Rightarrow> refresh_ticket \<times> 'a session_refresh_scheme" where
  "launch_request sig s =
     (let previousController = activeRefreshController s;
          requestId = latestRefreshRequestId s + 1;
          s1 = s\<lparr>latestRefreshRequestId := requestId\<rparr>;
          s2 = s1\<lparr>pendingRefresh :=
                 (case pendingRefresh s1 of
                    Some p \<Rightarrow> if pr_queuedForRequestId p \<noteq> requestId then None else Some p
                  | None \<Rightarrow> None)\<rparr>;
          s3 = (case previousController of None \<Rightarrow> s2 | Some c \<Rightarrow> abort_controller c s2);
          s4 = s3\<lparr>activeRefreshController := Some requestId\<rparr>
      in if sig = Some True
         then (Started requestId,
               s4\<lparr>requests := (requests s4)(requestId \<mapsto>
                   \<lparr>rq_hasSignal = True, rq_aborted = True, rq_timedOut = False, rq_timer = None,
                    rq_phase = Returned (Some Request_aborted)\<rparr>)\<rparr>)
         else (let (h, sc) = setTimeout (Refresh_timeout requestId) SESSION_REFRESH_CALL_TIMEOUT_MS (timers s4)
               in (Started requestId,
                   s4\<lparr>timers := sc,
                      requests := (requests s4)(requestId \<mapsto>
                        \<lparr>rq_hasSignal = (sig \<noteq> None), rq_aborted = False, rq_timedOut = False, rq_timer = Some h,
                         rq_phase = Racing\<rparr>)\<rparr>)))"

definition requestSessionRefresh ::
  "refresh_trigger \<Rightarrow> bool option \<Rightarrow> 'a session_refresh_scheme \<Rightarrow> refresh_ticket \<times> 'a session_refresh_scheme" where
  "requestSessionRefresh trigger sig s =
     (if activeRefreshController s \<noteq> None \<and> trigger \<noteq> Trigger_manual
      then (let activeRequestId = latestRefreshRequestId s;
                pendingForActiveRequest =
                  (case pendingRefresh s of
                     Some p \<Rightarrow> if pr_queuedForRequestId p = activeRequestId then Some (pr_trigger p) else None
                   | None \<Rightarrow> None)
            in (Answered (Some Request_superseded),
                s\<lparr>pendingRefresh := Some \<lparr>pr_trigger = coalesceRefreshTrigger pendingForActiveRequest trigger,
                                           pr_queuedForRequestId = activeRequestId\<rparr>\<rparr>))
      else launch_request sig s)"

subsection \<open>The race and what follows it\<close>

definition settle_fetch :: "nat \<Rightarrow> race_outcome \<Rightarrow> 'a session_refresh_scheme \<Rightarrow> 'a session_refresh_scheme" where
  "settle_fetch r out = on_request r (\<lambda>q. if rq_phase q = Racing then q\<lparr>rq_phase := Settled out\<rparr> else q)"

definition refresh_timed_out :: "nat \<Rightarrow> 'a session_refresh_scheme \<Rightarrow> 'a session_refresh_scheme" where
  "refresh_timed_out r s =
     settle_fetch r Refresh_timeout_token (abort_controller r (on_request r (\<lambda>q. q\<lparr>rq_timedOut := True\<rparr>) s))"

text \<open>The signal of the caller is listened to until the \<open>finally\<close> block.\<close>

definition finished :: "refresh_request \<Rightarrow> bool" where
  "finished q = (case rq_phase q of Finished _ \<Rightarrow> True | _ \<Rightarrow> False)"

definition outer_abort :: "nat \<Rightarrow> 'a session_refresh_scheme \<Rightarrow> 'a session_refresh_scheme" where
  "outer_abort r s =
     (case requests s r of
        Some q \<Rightarrow> if rq_hasSignal q \<and> \<not> finished q then abort_controller r s else s
      | None \<Rightarrow> s)"

definition answer :: "nat \<Rightarrow> refresh_result \<Rightarrow> 'a session_refresh_scheme \<Rightarrow> 'a session_refresh_scheme" where
  "answer r res = on_request r (\<lambda>q. q\<lparr>rq_phase := Returned res\<rparr>)"

definition fail_with ::
  "host \<Rightarrow> nat \<Rightarrow> refresh_failure \<Rightarrow> 'a session_refresh_scheme \<Rightarrow> 'a session_refresh_scheme" where
  "fail_with H r failure s = answer r (Some failure) (publishRefreshFailure H failure s)"

definition consume_payload :: "host \<Rightarrow> nat \<Rightarrow> jsval \<Rightarrow> 'a session_refresh_scheme \<Rightarrow> 'a session_refresh_scheme" where
  "consume_payload H r payload s =
     (case parseSessionsResponse payload of
        Inl failure \<Rightarrow>
          answer r (Some failure) (if shouldNotifyRefreshFailure failure then publishRefreshFailure H failure s else s)
      | Inr (sessions, invalidEntries) \<Rightarrow>
          (let s1 = onRefreshSuccess sessions s;
               s2 = (if invalidEntries > 0 then onInvalidEntries H invalidEntries s1 else s1)
           in answer r None s2))"

definition resume_refresh :: "host \<Rightarrow> nat \<Rightarrow> 'a session_refresh_scheme \<Rightarrow> 'a session_refresh_scheme" where
  "resume_refresh H r s =
     (case requests s r of
        None \<Rightarrow> s
      | Some q \<Rightarrow>
          (case rq_phase q of
             Settled out \<Rightarrow>
               if latestRefreshRequestId s \<noteq> r then answer r (Some Request_superseded) s
               else if rq_timedOut q \<or> out = Refresh_timeout_token
                 then fail_with H r (Request_timeout SESSION_REFRESH_CALL_TIMEOUT_MS) s
               else if out = Refresh_aborted_token \<or> rq_aborted q then answer r (Some Request_aborted) s
               else (case out of
                       Fetch_rejected e \<Rightarrow>
                         if th_isAbortError e then answer r (Some Request_aborted) s
                         else fail_with H r (Network_error (th_value e)) s
                     | Fetched (Inl failure) \<Rightarrow>
                         answer r (Some failure)
                           (if shouldNotifyRefreshFailure failure then publishRefreshFailure H failure s else s)
                     | Fetched (Inr payload) \<Rightarrow> consume_payload H r payload s
                     | _ \<Rightarrow> s)
           | _ \<Rightarrow> s))"

definition finish_refresh :: "nat \<Rightarrow> 'a session_refresh_scheme \<Rightarrow> 'a session_refresh_scheme" where
  "finish_refresh r s =
     (case requests s r of
        None \<Rightarrow> s
      | Some q \<Rightarrow>
          (case rq_phase q of
             Returned res \<Rightarrow>
               (let s1 = (case rq_timer q of None \<Rightarrow> s | Some h \<Rightarrow> s\<lparr>timers := clearTimeout h (timers s)\<rparr>);
                    s2 = on_request r (\<lambda>q. q\<lparr>rq_phase := Finished res\<rparr>) s1;
                    s3 = (if activeRefreshController s2 = Some r then s2\<lparr>activeRefreshController := None\<rparr> else s2)
                in if latestRefreshRequestId s3 = r
                   then (case pendingRefresh s3 of
                           Some p \<Rightarrow>
                             if pr_queuedForRequestId p = r
                             then snd (requestSessionRefresh (pr_trigger p) None (s3\<lparr>pendingRefresh := None\<rparr>))
                             else s3
                         | None \<Rightarrow> s3)
                   else s3)
           | _ \<Rightarrow> s))"

definition unmount_refresh :: "'a session_refresh_scheme \<Rightarrow> 'a session_refresh_scheme" where
  "unmount_refresh s =
     (let s1 = s\<lparr>latestRefreshRequestId := latestRefreshRequestId s + 1, pendingRefresh := None\<rparr>;
          s2 = (case activeRefreshController s1 of None \<Rightarrow> s1 | Some c \<Rightarrow> abort_controller c s1)
      in s2\<lparr>activeRefreshController := None\<rparr>)"

end
