(* ===== verification/Session_Orchestrator.thy ===== *)
theory Session_Orchestrator
  imports Session_Refresh Coordinator
begin

section \<open>The session layer\<close>

text \<open>
  \<open>session/application/session-orchestrator.ts\<close> and
  \<open>session/application/bindings/session-refresh-binding.ts\<close>.  The polling binding is an effect
  that may run again and again; each run has its own local variables, a \<open>poll_instance\<close>, and
  the callbacks of an earlier run still find theirs.  \<open>refreshInFlight\<close> is true exactly while
  \<open>pi_flight\<close> holds something.
\<close>

subsection \<open>State\<close>

datatype poll_flight = Awaiting refresh_ticket | After_then

record poll_instance =
  pi_disposed :: bool
  pi_flight :: "poll_flight option"
  pi_timer :: "nat option"
  pi_consecutiveFailures :: nat
  pi_circuitOpen :: bool
  pi_controller :: "refresh_ticket option"

record session_layer = session_refresh +
  attachMode :: attach_mode
  sessionMenuOpen :: bool
  lastTransportRefreshAt :: "int option"
  pendingTransportRefreshTimer :: "nat option"
  polls :: "(nat, poll_instance) map"
  currentPoll :: "nat option"
  nextPoll :: nat

definition TRANSPORT_REFRESH_MIN_INTERVAL_MS :: int where
  "TRANSPORT_REFRESH_MIN_INTERVAL_MS = 750"

subsection \<open>Refreshes asked for by the transport\<close>

definition scheduleTrailingTransportRefresh :: "int \<Rightarrow> 'a session_layer_scheme \<Rightarrow> 'a session_layer_scheme" where
  "scheduleTrailingTransportRefresh t s =
     (case pendingTransportRefreshTimer s of
        Some _ \<Rightarrow> s
      | None \<Rightarrow>
          (let delayMs = (case lastTransportRefreshAt s of
                            None \<Rightarrow> 0
                          | Some l \<Rightarrow> max 0 (TRANSPORT_REFRESH_MIN_INTERVAL_MS - (t - l)));
               (h, sc) = setTimeout Trailing_refresh delayMs (timers s)
           in s\<lparr>timers := sc, pendingTransportRefreshTimer := Some h\<rparr>))"

definition requestTransportRefresh :: "'a session_layer_scheme \<Rightarrow> refresh_ticket \<times> 'a session_layer_scheme" where
  "requestTransportRefresh s =
     (let t = now (timers s)
      in if (case lastTransportRefreshAt s of None \<Rightarrow> False | Some l \<Rightarrow> t - l < TRANSPORT_REFRESH_MIN_INTERVAL_MS)
         then (Answered (Some Request_superseded), scheduleTrailingTransportRefresh t s)
         else requestSessionRefresh Trigger_transport_event None (s\<lparr>lastTransportRefreshAt := Some t\<rparr>))"

definition trailing_refresh :: "'a session_layer_scheme \<Rightarrow> 'a session_layer_scheme" where
  "trailing_refresh s =
     snd (requestSessionRefresh Trigger_transport_event None
       (s\<lparr>pendingTransportRefreshTimer := None, lastTransportRefreshAt := Some (now (timers s))\<rparr>))"

subsection \<open>The identity of the session\<close>

definition applyReadySession :: "host \<Rightarrow> jsstring \<Rightarrow> bool \<Rightarrow> 'a session_layer_scheme \<Rightarrow> 'a session_layer_scheme" where
  "applyReadySession H nextSessionId readOnly s =
     (let s1 = s\<lparr>attachMode := if readOnly then Watch else Control\<rparr>;
          s2 = clearSessionNotice s1;
          s3 = s2\<lparr>sessionId := Some nextSessionId, sessionMenuOpen := False\<rparr>
      in persistActiveSessionStorage H nextSessionId (rememberSession H nextSessionId s3))"

definition clearMissingSession :: "host \<Rightarrow> 'a session_layer_scheme \<Rightarrow> 'a session_layer_scheme" where
  "clearMissingSession H s =
     (clearActiveSessionStorage H s)\<lparr>sessionId := None, attachMode := Control, sessionMenuOpen := False\<rparr>"

definition transitionSessionContext ::
  "host \<Rightarrow> jsstring option \<Rightarrow> attach_mode \<Rightarrow> 'a session_layer_scheme \<Rightarrow> 'a session_layer_scheme" where
  "transitionSessionContext H nextSessionId nextMode s =
     (let s1 = (clearSessionNotice s)\<lparr>attachMode := nextMode, sessionId := nextSessionId, sessionMenuOpen := False\<rparr>
      in case nextSessionId of
           Some sid \<Rightarrow> if sid \<noteq> [] then persistActiveSessionStorage H sid s1 else clearActiveSessionStorage H s1
         | None \<Rightarrow> clearActiveSessionStorage H s1)"

subsection \<open>Polling while the session menu is open\<close>

definition on_poll ::
  "nat \<Rightarrow> (poll_instance \<Rightarrow> poll_instance) \<Rightarrow> 'a session_layer_scheme \<Rightarrow> 'a session_layer_scheme" where
  "on_poll i f s = (case polls s i of None \<Rightarrow> s | Some p \<Rightarrow> s\<lparr>polls := (polls s)(i \<mapsto> f p)\<rparr>)"

definition arm_poll_timer ::
  "nat \<Rightarrow> session_task \<Rightarrow> int \<Rightarrow> 'a session_layer_scheme \<Rightarrow> 'a session_layer_scheme" where
  "arm_poll_timer i task delayMs s =
     (let (h, sc) = setTimeout task delayMs (timers s)
      in on_poll i (\<lambda>p. p\<lparr>pi_timer := Some h\<rparr>) (s\<lparr>timers := sc\<rparr>))"

definition scheduleNext :: "nat \<Rightarrow> poll_instance \<Rightarrow> 'a session_layer_scheme \<Rightarrow> 'a session_layer_scheme" where
  "scheduleNext i p s =
     (if pi_disposed p then s
      else arm_poll_timer i (Poll_again i) (nextSessionRefreshDelayMs (pi_consecutiveFailures p)) s)"

definition scheduleBootstrapRecoveryRetry ::
  "nat \<Rightarrow> poll_instance \<Rightarrow> 'a session_layer_scheme \<Rightarrow> 'a session_layer_scheme" where
  "scheduleBootstrapRecoveryRetry i p s =
     (if pi_disposed p then s else arm_poll_timer i (Poll_bootstrap_retry i) SESSION_REFRESH_BOOTSTRAP_RETRY_MS s)"

text \<open>\<open>app/controller-bindings.ts\<close> announces an open circuit.\<close>

definition onRefreshCircuitOpen :: "host \<Rightarrow> nat \<Rightarrow> 'a session_layer_scheme \<Rightarrow> 'a session_layer_scheme" where
  "onRefreshCircuitOpen H consecutiveFailures =
     publishNoticeDetails H (N_refresh (RN_paused_after_failures consecutiveFailures))"

definition openCircuitBreaker ::
  "host \<Rightarrow> nat \<Rightarrow> poll_instance \<Rightarrow> 'a session_layer_scheme \<Rightarrow> 'a session_layer_scheme" where
  "openCircuitBreaker H i p s =
     (if pi_disposed p \<or> pi_circuitOpen p then s
      else arm_poll_timer i (Poll_cooldown_over i) SESSION_REFRESH_CIRCUIT_BREAKER_COOLDOWN_MS
             (onRefreshCircuitOpen H (pi_consecutiveFailures p) (on_poll i (\<lambda>p. p\<lparr>pi_circuitOpen := True\<rparr>) s)))"

definition runRefreshLoop :: "nat \<Rightarrow> 'a session_layer_scheme \<Rightarrow> 'a session_layer_scheme" where
  "runRefreshLoop i s =
     (case polls s i of
        None \<Rightarrow> s
      | Some p \<Rightarrow>
          if pi_disposed p \<or> pi_flight p \<noteq> None \<or> pi_circuitOpen p then s
          else (let (ticket, s1) = requestSessionRefresh Trigger_poll (Some False) s
                in on_poll i (\<lambda>p. p\<lparr>pi_flight := Some (Awaiting ticket), pi_controller := Some ticket\<rparr>) s1))"

definition ticket_result :: "refresh_ticket \<Rightarrow> 'a session_refresh_scheme \<Rightarrow> refresh_result option" where
  "ticket_result t s =
     (case t of
        Answered res \<Rightarrow> Some res
      | Started r \<Rightarrow>
          (case requests s r of
             Some q \<Rightarrow> (case rq_phase q of Finished res \<Rightarrow> Some res | _ \<Rightarrow> None)
           | None \<Rightarrow> None))"

text \<open>The \<open>then\<close> callback of the loop, with the result of the refresh, and its \<open>finally\<close> callback.\<close>

definition poll_result :: "host \<Rightarrow> nat \<Rightarrow> refresh_result \<Rightarrow> 'a session_layer_scheme \<Rightarrow> 'a session_layer_scheme" where
  "poll_result H i res s =
     (case polls s i of
        None \<Rightarrow> s
      | Some p \<Rightarrow>
          (case classifyPollingRefreshResult res of
             Poll_success \<Rightarrow> on_poll i (\<lambda>p. p\<lparr>pi_consecutiveFailures := 0\<rparr>) s
           | Poll_ignored_failure \<Rightarrow> s
           | Poll_retry_bootstrap \<Rightarrow>
               (let p' = p\<lparr>pi_consecutiveFailures := 0\<rparr>
                in scheduleBootstrapRecoveryRetry i p' (s\<lparr>polls := (polls s)(i \<mapsto> p')\<rparr>))
           | Poll_counted_failure \<Rightarrow>
               (let p' = p\<lparr>pi_consecutiveFailures := pi_consecutiveFailures p + 1\<rparr>;
                    s1 = s\<lparr>polls := (polls s)(i \<mapsto> p')\<rparr>
                in if pi_consecutiveFailures p' \<ge> SESSION_REFRESH_FAILURE_LIMIT
                   then openCircuitBreaker H i p' s1 else s1)))"

definition poll_then :: "host \<Rightarrow> nat \<Rightarrow> 'a session_layer_scheme \<Rightarrow> 'a session_layer_scheme" where
  "poll_then H i s =
     (case polls s i of
        Some p \<Rightarrow>
          (case pi_flight p of
             Some (Awaiting t) \<Rightarrow>
               (case ticket_result t s of
                  None \<Rightarrow> s
                | Some res \<Rightarrow> poll_result H i res (on_poll i (\<lambda>p. p\<lparr>pi_flight := Some After_then\<rparr>) s))
           | _ \<Rightarrow> s)
      | None \<Rightarrow> s)"

definition poll_finally :: "nat \<Rightarrow> 'a session_layer_scheme \<Rightarrow> 'a session_layer_scheme" where
  "poll_finally i s =
     (case polls s i of
        Some p \<Rightarrow>
          if pi_flight p = Some After_then
          then (let p' = p\<lparr>pi_controller := None, pi_flight := None\<rparr>;
                    s1 = s\<lparr>polls := (polls s)(i \<mapsto> p')\<rparr>
                in if \<not> pi_circuitOpen p' \<and> pi_timer p' = None then scheduleNext i p' s1 else s1)
          else s
      | None \<Rightarrow> s)"

definition poll_timer_fired :: "session_task \<Rightarrow> nat \<Rightarrow> 'a session_layer_scheme \<Rightarrow> 'a session_layer_scheme" where
  "poll_timer_fired task i s =
     (let s1 = on_poll i (\<lambda>p. p\<lparr>pi_timer := None\<rparr>) s
      in case task of
           Poll_cooldown_over _ \<Rightarrow>
             (case polls s1 i of
                Some p \<Rightarrow> if pi_disposed p then s1
                          else runRefreshLoop i (on_poll i (\<lambda>p. p\<lparr>pi_circuitOpen := False, pi_consecutiveFailures := 0\<rparr>) s1)
              | None \<Rightarrow> s1)
         | _ \<Rightarrow> runRefreshLoop i s1)"

definition start_polling :: "'a session_layer_scheme \<Rightarrow> 'a session_layer_scheme" where
  "start_polling s =
     (let i = nextPoll s;
          p = \<lparr>pi_disposed = False, pi_flight = None, pi_timer = None, pi_consecutiveFailures = 0,
               pi_circuitOpen = False, pi_controller = None\<rparr>
      in runRefreshLoop i (s\<lparr>polls := (polls s)(i \<mapsto> p), currentPoll := Some i, nextPoll := i + 1\<rparr>))"

definition abortActiveRefresh :: "nat \<Rightarrow> poll_instance \<Rightarrow> 'a session_layer_scheme \<Rightarrow> 'a session_layer_scheme" where
  "abortActiveRefresh i p s =
     (case pi_controller p of
        None \<Rightarrow> s
      | Some t \<Rightarrow>
          on_poll i (\<lambda>p. p\<lparr>pi_controller := None\<rparr>)
            (case t of Started r \<Rightarrow> outer_abort r s | Answered _ \<Rightarrow> s))"

definition stop_polling :: "'a session_layer_scheme \<Rightarrow> 'a session_layer_scheme" where
  "stop_polling s =
     (case currentPoll s of
        None \<Rightarrow> s
      | Some i \<Rightarrow>
          (case polls s i of
             None \<Rightarrow> s
           | Some p \<Rightarrow>
               (let s1 = abortActiveRefresh i p (on_poll i (\<lambda>p. p\<lparr>pi_disposed := True\<rparr>) s);
                    s2 = (case pi_timer p of None \<Rightarrow> s1 | Some h \<Rightarrow> s1\<lparr>timers := clearTimeout h (timers s1)\<rparr>)
                in s2\<lparr>currentPoll := None\<rparr>)))"

text \<open>The effect: the clean-up of the previous run, then a new run if the menu is open.\<close>

definition poll_effect :: "bool \<Rightarrow> 'a session_layer_scheme \<Rightarrow> 'a session_layer_scheme" where
  "poll_effect hasWindow s =
     (let s1 = stop_polling s in if sessionMenuOpen s1 \<and> hasWindow then start_polling s1 else s1)"

subsection \<open>Life cycle\<close>

definition clear_trailing_refresh :: "'a session_layer_scheme \<Rightarrow> 'a session_layer_scheme" where
  "clear_trailing_refresh s =
     (case pendingTransportRefreshTimer s of
        None \<Rightarrow> s
      | Some h \<Rightarrow> s\<lparr>timers := clearTimeout h (timers s), pendingTransportRefreshTimer := None\<rparr>)"

definition unmount_session :: "'a session_layer_scheme \<Rightarrow> 'a session_layer_scheme" where
  "unmount_session s = stop_polling (clear_trailing_refresh (unmount_refresh (unmount_notice s)))"

definition initialSession :: "int \<Rightarrow> jsstring \<Rightarrow> storage_access \<Rightarrow> storage_access \<Rightarrow> session_layer" where
  "initialSession clock initialNotice local_area session_area =
     \<lparr>timers = new_scheduler clock, sessionNotice = initialNotice, sessionNoticeTimer = None,
      storageFailureNotice = None, localAccess = local_area, sessionAccess = session_area,
      sessionId = None, lastSessionId = None, sessionHistoryIds = [],
      refreshFailureNotice = None, liveSessions = [], latestRefreshRequestId = 0,
      activeRefreshController = None, pendingRefresh = None, requests = Map.empty,
      attachMode = Control, sessionMenuOpen = False, lastTransportRefreshAt = None,
      pendingTransportRefreshTimer = None, polls = Map.empty, currentPoll = None, nextPoll = 0\<rparr>"

definition mount_session :: "host \<Rightarrow> int \<Rightarrow> jsstring \<Rightarrow> storage_access \<Rightarrow> storage_access \<Rightarrow> session_layer" where
  "mount_session H clock initialNotice local_area session_area =
     initial_notice_effect initialNotice
       (load_session_history H (load_last_session_id H (load_session_id H
          (initialSession clock initialNotice local_area session_area))))"

end
