(* ===== verification/Session_Laws.thy ===== *)
theory Session_Laws
  imports Session_Orchestrator
begin

section \<open>Timers and requests of the session layer\<close>

text \<open>
  The invariant of the session layer, stated over the fields it constrains: every live timer is the one
  in the slot of its owner, a racing request is the active one and its time-out is live, and a coalesced
  refresh waits for the active request.
\<close>

subsection \<open>Labelled timers\<close>

context timer_service
begin

lemma labelled_timeout:
  assumes "slot_inv S sl (\<lambda>h. map_option lab (live s h)) (used s)" "sl (lab (t, False)) = None"
    "set_timeout t d s = (h, s')"
  shows "slot_inv S (sl(lab (t, False) := Some h)) (\<lambda>h. map_option lab (live s' h)) (used s')"
proof -
  have "(\<lambda>h. map_option lab (live s' h)) = (\<lambda>h. map_option lab (live s h))(h \<mapsto> lab (t, False))"
    using set_timeout_law [OF assms(3)] by (simp add: fun_eq_iff)
  then show ?thesis using slot_fill [OF assms(1,2)] set_timeout_law [OF assms(3)] by simp
qed

lemma labelled_clear:
  assumes "slot_inv S sl (\<lambda>h. map_option lab (live s h)) (used s)" "sl l = Some h"
  shows "slot_inv S (sl(l := None)) (\<lambda>k. map_option lab (live (clear_timer h s) k)) (used (clear_timer h s))"
proof -
  have "(\<lambda>k. map_option lab (live (clear_timer h s) k)) = (\<lambda>k. map_option lab (live s k))(h := None)"
    using clear_law [of h s] by (simp add: fun_eq_iff)
  then show ?thesis using slot_drop(1) [OF assms] clear_law [of h s] by simp
qed

lemma labelled_fire:
  assumes "slot_inv S sl (\<lambda>h. map_option lab (live s h)) (used s)" "fire_timer h s = Some (t, s')"
    "live s h = Some (t, False)"
  shows "sl (lab (t, False)) = Some h"
    and "slot_inv S (sl(lab (t, False) := None)) (\<lambda>h. map_option lab (live s' h)) (used s')"
    and "lab (t, False) \<notin> S \<Longrightarrow> slot_inv S sl (\<lambda>h. map_option lab (live s' h)) (used s')"
proof -
  have gone: "(\<lambda>k. map_option lab (live s' k)) = (\<lambda>k. map_option lab (live s k))(h := None)"
    "used s' = used s"
    using fire_law [OF assms(2)] assms(3) by (auto simp: fun_eq_iff)
  show sl: "sl (lab (t, False)) = Some h" using slot_live [OF assms(1), of h] assms(3) by simp
  show "slot_inv S (sl(lab (t, False) := None)) (\<lambda>h. map_option lab (live s' h)) (used s')"
    unfolding gone by (rule slot_drop(1) [OF assms(1) sl])
  show "slot_inv S sl (\<lambda>h. map_option lab (live s' h)) (used s')" if "lab (t, False) \<notin> S"
    unfolding gone by (rule slot_drop(2) [OF assms(1) sl that])
qed

end

lemma slot_owner_unique:
  assumes "slot_inv S sl lv used" "sl l = Some h" "sl l' = Some h" "lv h \<noteq> None"
  shows "l = l'"
  using slot_held [OF assms(1,2)] slot_held [OF assms(1,3)] assms(4) by auto

subsection \<open>The table of timer slots\<close>

datatype session_slot = Notice_slot | Trailing_slot | Timeout_slot nat | Poll_slot nat

fun slot_of :: "session_task \<times> bool \<Rightarrow> session_slot \<times> bool" where
  "slot_of (Notice_expired, b) = (Notice_slot, b)"
| "slot_of (Initial_notice_expired, b) = (Notice_slot, b)"
| "slot_of (Refresh_timeout r, b) = (Timeout_slot r, b)"
| "slot_of (Trailing_refresh, b) = (Trailing_slot, b)"
| "slot_of (Poll_again i, b) = (Poll_slot i, b)"
| "slot_of (Poll_bootstrap_retry i, b) = (Poll_slot i, b)"
| "slot_of (Poll_cooldown_over i, b) = (Poll_slot i, b)"

fun slot_table ::
  "nat option \<Rightarrow> nat option \<Rightarrow> (nat, refresh_request) map \<Rightarrow> (nat, poll_instance) map \<Rightarrow>
   session_slot \<times> bool \<Rightarrow> nat option" where
  "slot_table n t rq po (Notice_slot, False) = n"
| "slot_table n t rq po (Trailing_slot, False) = t"
| "slot_table n t rq po (Timeout_slot r, False) =
     (case rq r of Some q \<Rightarrow> if finished q then None else rq_timer q | None \<Rightarrow> None)"
| "slot_table n t rq po (Poll_slot i, False) =
     (case po i of Some p \<Rightarrow> if pi_disposed p then None else pi_timer p | None \<Rightarrow> None)"
| "slot_table n t rq po (_, True) = None"

definition strict_slots :: "(session_slot \<times> bool) set" where
  "strict_slots = insert (Trailing_slot, False) (range (\<lambda>i. (Poll_slot i, False)))"

definition timer_labels :: "session_task scheduler \<Rightarrow> nat \<Rightarrow> (session_slot \<times> bool) option" where
  "timer_labels sc h = map_option slot_of (pending sc h)"

definition timers_ok ::
  "session_task scheduler \<Rightarrow> nat option \<Rightarrow> nat option \<Rightarrow> (nat, refresh_request) map \<Rightarrow> (nat, poll_instance) map \<Rightarrow> bool" where
  "timers_ok sc n t rq po \<longleftrightarrow> slot_inv strict_slots (slot_table n t rq po) (timer_labels sc) (issued sc)"

definition notice_ok :: "session_task scheduler \<Rightarrow> nat option \<Rightarrow> jsstring \<Rightarrow> bool" where
  "notice_ok sc n msg \<longleftrightarrow> (msg \<noteq> [] \<longrightarrow> (\<exists>h. n = Some h \<and> pending sc h \<noteq> None))"

definition requests_ok ::
  "session_task scheduler \<Rightarrow> (nat, refresh_request) map \<Rightarrow> nat \<Rightarrow> nat option \<Rightarrow> pending_refresh option \<Rightarrow> bool" where
  "requests_ok sc rq latest active pend \<longleftrightarrow>
     (\<forall>r q. rq r = Some q \<longrightarrow> 0 < r \<and> r \<le> latest) \<and>
     (\<forall>a. active = Some a \<longrightarrow> a = latest \<and> (\<exists>q. rq a = Some q \<and> \<not> finished q)) \<and>
     (\<forall>r q. rq r = Some q \<longrightarrow> rq_phase q = Racing \<longrightarrow>
        active = Some r \<and> \<not> rq_aborted q \<and> (\<exists>h. rq_timer q = Some h \<and> pending sc h \<noteq> None)) \<and>
     (\<forall>p. pend = Some p \<longrightarrow> active = Some (pr_queuedForRequestId p))"

lemma requests_okI:
  assumes "\<And>r q. rq r = Some q \<Longrightarrow> 0 < r \<and> r \<le> latest"
    "\<And>a. active = Some a \<Longrightarrow> a = latest \<and> (\<exists>q. rq a = Some q \<and> \<not> finished q)"
    "\<And>r q. rq r = Some q \<Longrightarrow> rq_phase q = Racing \<Longrightarrow>
       active = Some r \<and> \<not> rq_aborted q \<and> (\<exists>h. rq_timer q = Some h \<and> pending sc h \<noteq> None)"
    "\<And>p. pend = Some p \<Longrightarrow> active = Some (pr_queuedForRequestId p)"
  shows "requests_ok sc rq latest active pend"
  using assms unfolding requests_ok_def by blast

lemma requests_okD:
  assumes "requests_ok sc rq latest active pend"
  shows "rq r = Some q \<Longrightarrow> 0 < r \<and> r \<le> latest"
    "active = Some a \<Longrightarrow> a = latest \<and> (\<exists>q. rq a = Some q \<and> \<not> finished q)"
    "rq r = Some q \<Longrightarrow> rq_phase q = Racing \<Longrightarrow>
       active = Some r \<and> \<not> rq_aborted q \<and> (\<exists>h. rq_timer q = Some h \<and> pending sc h \<noteq> None)"
    "pend = Some p \<Longrightarrow> active = Some (pr_queuedForRequestId p)"
  using assms unfolding requests_ok_def by blast+

lemma slot_table_upd [simp]:
  "(slot_table n t rq po)((Notice_slot, False) := v) = slot_table v t rq po"
  "(slot_table n t rq po)((Trailing_slot, False) := v) = slot_table n v rq po"
  "slot_table n t (rq(r \<mapsto> q)) po = (slot_table n t rq po)((Timeout_slot r, False) := (if finished q then None else rq_timer q))"
  "slot_table n t rq (po(i \<mapsto> p)) = (slot_table n t rq po)((Poll_slot i, False) := (if pi_disposed p then None else pi_timer p))"
proof -
  have *: "f = g" if "\<And>x. f (x, False) = g (x, False)" "\<And>x. f (x, True) = g (x, True)" for f g :: "session_slot \<times> bool \<Rightarrow> nat option"
    using that by (metis (full_types) ext surj_pair)
  show "(slot_table n t rq po)((Notice_slot, False) := v) = slot_table v t rq po"
    "(slot_table n t rq po)((Trailing_slot, False) := v) = slot_table n v rq po"
    "slot_table n t (rq(r \<mapsto> q)) po = (slot_table n t rq po)((Timeout_slot r, False) := (if finished q then None else rq_timer q))"
    "slot_table n t rq (po(i \<mapsto> p)) = (slot_table n t rq po)((Poll_slot i, False) := (if pi_disposed p then None else pi_timer p))"
    by (rule *; case_tac x; auto)+
qed

lemma strict_slots_simps [simp]:
  "(Notice_slot, b) \<notin> strict_slots" "(Timeout_slot r, b) \<notin> strict_slots"
  "(Trailing_slot, False) \<in> strict_slots" "(Poll_slot i, False) \<in> strict_slots"
  by (auto simp: strict_slots_def)

lemma timers_once:
  assumes "timers_ok sc n t rq po" "pending sc h = Some (task, rep)"
  shows "\<not> rep"
proof
  assume rep
  then have "slot_table n t rq po (slot_of (task, True)) = Some h"
    using slot_live [OF assms(1) [unfolded timers_ok_def], of h] assms(2) by (simp add: timer_labels_def)
  then show False by (cases task) simp_all
qed

subsection \<open>What arming, clearing and firing do to the invariant\<close>

text \<open>The timers of every slot other than \<open>l\<close> are as they were.\<close>

definition others_kept ::
  "(session_slot \<times> bool \<Rightarrow> nat option) \<Rightarrow> session_slot \<times> bool \<Rightarrow> session_task scheduler \<Rightarrow> session_task scheduler \<Rightarrow> bool" where
  "others_kept tab l sc sc' \<longleftrightarrow>
     (\<forall>l' k. tab l' = Some k \<longrightarrow> l' \<noteq> l \<longrightarrow> pending sc k \<noteq> None \<longrightarrow> pending sc' k = pending sc k)"

lemma arm_timer:
  assumes ok: "timers_ok sc n t rq po" and set: "setTimeout task d sc = (h, sc')"
    and free: "slot_table n t rq po (slot_of (task, False)) = None"
  shows "slot_inv strict_slots ((slot_table n t rq po)(slot_of (task, False) := Some h)) (timer_labels sc') (issued sc')"
    and "pending sc' h = Some (task, False)" and "others_kept (slot_table n t rq po) l sc sc'"
proof -
  note law = browser.set_timeout_law [OF set]
  show "slot_inv strict_slots ((slot_table n t rq po)(slot_of (task, False) := Some h)) (timer_labels sc') (issued sc')"
    using browser.labelled_timeout [OF ok [unfolded timers_ok_def timer_labels_def [abs_def]] free set]
    by (simp add: timer_labels_def [abs_def])
  show "pending sc' h = Some (task, False)" using law by simp
  show "others_kept (slot_table n t rq po) l sc sc'"
    using law slot_used [OF ok [unfolded timers_ok_def]] by (auto simp: others_kept_def)
qed

lemma clear_timer:
  assumes ok: "timers_ok sc n t rq po" and sl: "slot_table n t rq po l = Some h"
  shows "slot_inv strict_slots ((slot_table n t rq po)(l := None)) (timer_labels (clearTimeout h sc)) (issued (clearTimeout h sc))"
    and "others_kept (slot_table n t rq po) l sc (clearTimeout h sc)"
proof -
  show "slot_inv strict_slots ((slot_table n t rq po)(l := None)) (timer_labels (clearTimeout h sc)) (issued (clearTimeout h sc))"
    using browser.labelled_clear [OF ok [unfolded timers_ok_def timer_labels_def [abs_def]] sl]
    by (simp add: timer_labels_def [abs_def])
  show "others_kept (slot_table n t rq po) l sc (clearTimeout h sc)"
    using slot_owner_unique [OF ok [unfolded timers_ok_def] sl] browser.clear_law [of h sc]
    by (auto simp: others_kept_def timer_labels_def)
qed

lemma fire_timer:
  assumes ok: "timers_ok sc n t rq po" and f: "fire h sc = Some (task, sc')"
  shows "slot_table n t rq po (slot_of (task, False)) = Some h"
    and "slot_inv strict_slots ((slot_table n t rq po)(slot_of (task, False) := None)) (timer_labels sc') (issued sc')"
    and "slot_of (task, False) \<notin> strict_slots \<Longrightarrow> timers_ok sc' n t rq po"
    and "others_kept (slot_table n t rq po) (slot_of (task, False)) sc sc'"
    and "pending sc h = Some (task, False)"
proof -
  obtain rep where live: "pending sc h = Some (task, rep)" "pending sc' = (pending sc)(h := if rep then Some (task, rep) else None)"
    using browser.fire_law [OF f] by blast
  have "\<not> rep" using timers_once [OF ok live(1)] .
  then show l: "pending sc h = Some (task, False)" using live by simp
  have l': "pending sc' = (pending sc)(h := None)" using live \<open>\<not> rep\<close> by simp
  note fl = browser.labelled_fire [OF ok [unfolded timers_ok_def timer_labels_def [abs_def]] f l]
  show "slot_table n t rq po (slot_of (task, False)) = Some h" by (rule fl(1))
  show "slot_inv strict_slots ((slot_table n t rq po)(slot_of (task, False) := None)) (timer_labels sc') (issued sc')"
    using fl(2) by (simp add: timer_labels_def [abs_def])
  show "timers_ok sc' n t rq po" if "slot_of (task, False) \<notin> strict_slots"
    using fl(3) [OF that] by (simp add: timers_ok_def timer_labels_def [abs_def])
  show "others_kept (slot_table n t rq po) (slot_of (task, False)) sc sc'"
    using slot_owner_unique [OF ok [unfolded timers_ok_def] fl(1)] l l' by (auto simp: others_kept_def timer_labels_def)
qed

subsection \<open>The invariant\<close>

text \<open>
  A run of the polling effect that is not disposed has a refresh under way or a timer armed; an open
  circuit waits for its cool-down.  \<open>X\<close> lists the runs whose callback is still under way.
\<close>

definition poll_ok :: "session_task scheduler \<Rightarrow> nat \<Rightarrow> poll_instance \<Rightarrow> bool" where
  "poll_ok sc i p \<longleftrightarrow>
     (pi_flight p = None \<longrightarrow> pi_timer p \<noteq> None) \<and>
     (\<forall>t. pi_flight p = Some (Awaiting t) \<longrightarrow> pi_timer p = None \<and> \<not> pi_circuitOpen p) \<and>
     (pi_circuitOpen p \<longrightarrow> (\<exists>h. pi_timer p = Some h \<and> pending sc h = Some (Poll_cooldown_over i, False))) \<and>
     (if pi_circuitOpen p then pi_consecutiveFailures p = SESSION_REFRESH_FAILURE_LIMIT
      else pi_consecutiveFailures p < SESSION_REFRESH_FAILURE_LIMIT)"

definition polls_ok ::
  "nat set \<Rightarrow> session_task scheduler \<Rightarrow> (nat, refresh_request) map \<Rightarrow> (nat, poll_instance) map \<Rightarrow> nat option \<Rightarrow> nat \<Rightarrow> bool" where
  "polls_ok X sc rq po cur nxt \<longleftrightarrow>
     (\<forall>i p. po i = Some p \<longrightarrow> i < nxt) \<and>
     (\<forall>i p. po i = Some p \<longrightarrow> \<not> pi_disposed p \<longrightarrow> cur = Some i) \<and>
     (\<forall>i. cur = Some i \<longrightarrow> (\<exists>p. po i = Some p \<and> \<not> pi_disposed p)) \<and>
     (\<forall>i p. po i = Some p \<longrightarrow> \<not> pi_disposed p \<longrightarrow> i \<notin> X \<longrightarrow> poll_ok sc i p) \<and>
     (\<forall>i p r. po i = Some p \<longrightarrow> pi_flight p = Some (Awaiting (Started r)) \<longrightarrow> rq r \<noteq> None)"

lemma polls_okI:
  assumes "\<And>i p. po i = Some p \<Longrightarrow> i < nxt"
    "\<And>i p. po i = Some p \<Longrightarrow> \<not> pi_disposed p \<Longrightarrow> cur = Some i"
    "\<And>i. cur = Some i \<Longrightarrow> \<exists>p. po i = Some p \<and> \<not> pi_disposed p"
    "\<And>i p. po i = Some p \<Longrightarrow> \<not> pi_disposed p \<Longrightarrow> i \<notin> X \<Longrightarrow> poll_ok sc i p"
    "\<And>i p r. po i = Some p \<Longrightarrow> pi_flight p = Some (Awaiting (Started r)) \<Longrightarrow> rq r \<noteq> None"
  shows "polls_ok X sc rq po cur nxt"
  using assms unfolding polls_ok_def by blast

lemma polls_okD:
  assumes "polls_ok X sc rq po cur nxt"
  shows "po i = Some p \<Longrightarrow> i < nxt"
    "po i = Some p \<Longrightarrow> \<not> pi_disposed p \<Longrightarrow> cur = Some i"
    "cur = Some i \<Longrightarrow> \<exists>p. po i = Some p \<and> \<not> pi_disposed p"
    "po i = Some p \<Longrightarrow> \<not> pi_disposed p \<Longrightarrow> i \<notin> X \<Longrightarrow> poll_ok sc i p"
    "po i = Some p \<Longrightarrow> pi_flight p = Some (Awaiting (Started r)) \<Longrightarrow> rq r \<noteq> None"
  using assms unfolding polls_ok_def by blast+

text \<open>Replacing a run that is exempt, or disposed, by one that is as much disposed.\<close>

lemma polls_ok_replace:
  assumes ok: "polls_ok X sc rq po cur nxt" and p: "po i = Some p"
    and p': "pi_disposed p' = pi_disposed p" "pi_disposed p \<or> i \<in> X"
      "\<And>r. pi_flight p' = Some (Awaiting (Started r)) \<Longrightarrow> rq r \<noteq> None"
  shows "polls_ok X sc rq (po(i \<mapsto> p')) cur nxt"
proof (rule polls_okI)
  fix j assume "cur = Some j"
  then show "\<exists>q. (po(i \<mapsto> p')) j = Some q \<and> \<not> pi_disposed q"
    using polls_okD(3) [OF ok, of j] p p'(1) by (cases "j = i") auto
qed (use polls_okD(1,2,4,5) [OF ok] p p' in \<open>auto split: if_splits\<close>)

definition layer_ok :: "nat set \<Rightarrow> 'a session_layer_scheme \<Rightarrow> bool" where
  "layer_ok X s \<longleftrightarrow>
     timers_ok (timers s) (sessionNoticeTimer s) (pendingTransportRefreshTimer s) (requests s) (polls s) \<and>
     notice_ok (timers s) (sessionNoticeTimer s) (sessionNotice s) \<and>
     requests_ok (timers s) (requests s) (latestRefreshRequestId s) (activeRefreshController s) (pendingRefresh s) \<and>
     polls_ok X (timers s) (requests s) (polls s) (currentPoll s) (nextPoll s)"

lemma layer_ok_other_fields [simp, frame]:
  "layer_ok X (s\<lparr>storageFailureNotice := a\<rparr>) = layer_ok X s"
  "layer_ok X (s\<lparr>localAccess := b\<rparr>) = layer_ok X s"
  "layer_ok X (s\<lparr>sessionAccess := c\<rparr>) = layer_ok X s"
  "layer_ok X (s\<lparr>sessionId := d\<rparr>) = layer_ok X s"
  "layer_ok X (s\<lparr>lastSessionId := e\<rparr>) = layer_ok X s"
  "layer_ok X (s\<lparr>sessionHistoryIds := f\<rparr>) = layer_ok X s"
  "layer_ok X (s\<lparr>refreshFailureNotice := g\<rparr>) = layer_ok X s"
  "layer_ok X (s\<lparr>liveSessions := i\<rparr>) = layer_ok X s"
  "layer_ok X (s\<lparr>attachMode := j\<rparr>) = layer_ok X s"
  "layer_ok X (s\<lparr>sessionMenuOpen := k\<rparr>) = layer_ok X s"
  "layer_ok X (s\<lparr>lastTransportRefreshAt := l\<rparr>) = layer_ok X s"
  by (simp_all add: layer_ok_def)

lemma notice_ok_kept:
  "notice_ok sc n m \<Longrightarrow> others_kept (slot_table n t rq po) l sc sc' \<Longrightarrow> l \<noteq> (Notice_slot, False) \<Longrightarrow> notice_ok sc' n m"
  unfolding notice_ok_def others_kept_def by (metis slot_table.simps(1))

lemma requests_ok_kept:
  assumes ok: "requests_ok sc rq la ac pe" and kept: "others_kept (slot_table n t rq po) l sc sc'"
    and "\<And>r q. rq r = Some q \<Longrightarrow> rq_phase q = Racing \<Longrightarrow> l \<noteq> (Timeout_slot r, False)"
  shows "requests_ok sc' rq la ac pe"
proof -
  have "pending sc' h \<noteq> None" if "rq r = Some q" "rq_phase q = Racing" "rq_timer q = Some h" "pending sc h \<noteq> None" for r q h
  proof -
    have "slot_table n t rq po (Timeout_slot r, False) = Some h" using that by (simp add: finished_def)
    then show ?thesis using kept assms(3) [OF that(1,2)] that(4) unfolding others_kept_def by metis
  qed
  then show ?thesis using ok unfolding requests_ok_def by fast
qed

lemma poll_ok_kept:
  assumes "poll_ok sc i p" "po i = Some p" "\<not> pi_disposed p"
    "others_kept (slot_table n t rq po) l sc sc'" "l \<noteq> (Poll_slot i, False)"
  shows "poll_ok sc' i p"
proof -
  have "pending sc' h = pending sc h" if "pi_timer p = Some h" "pending sc h \<noteq> None" for h
  proof -
    have "slot_table n t rq po (Poll_slot i, False) = Some h" using assms(2,3) that by simp
    then show ?thesis using assms(4,5) that(2) unfolding others_kept_def by metis
  qed
  then show ?thesis using assms(1) unfolding poll_ok_def by (metis option.distinct(1))
qed

lemma polls_ok_kept:
  assumes ok: "polls_ok X sc rq po cu nx" and kept: "others_kept (slot_table n t rq po) l sc sc'"
    and "\<And>i. i \<notin> X \<Longrightarrow> l \<noteq> (Poll_slot i, False)"
  shows "polls_ok X sc' rq po cu nx"
  using ok poll_ok_kept [OF _ _ _ kept] assms(3) unfolding polls_ok_def by blast

lemmas ok_kept = notice_ok_kept requests_ok_kept polls_ok_kept

subsection \<open>Notices\<close>

lemma clearSessionNotice_ok:
  assumes "layer_ok X s"
  shows "layer_ok X (clearSessionNotice s)"
proof (cases "sessionNoticeTimer s")
  case None
  then show ?thesis using assms by (simp add: clearSessionNotice_def clear_notice_timer_def layer_ok_def notice_ok_def)
next
  case (Some h)
  let ?tab = "slot_table (sessionNoticeTimer s) (pendingTransportRefreshTimer s) (requests s) (polls s)"
  have sl: "?tab (Notice_slot, False) = Some h" using Some by simp
  note cl = clear_timer [OF _ sl, of "timers s"]
  show ?thesis using assms cl ok_kept(2,3) [OF _ cl(2)]
    by (simp add: clearSessionNotice_def clear_notice_timer_def layer_ok_def Some timers_ok_def notice_ok_def)
qed

lemma publish_without_timer:
  assumes "layer_ok X s" "sessionNoticeTimer s = None"
  shows "layer_ok X (publishSessionNotice m s)"
proof -
  let ?tab = "slot_table (sessionNoticeTimer s) (pendingTransportRefreshTimer s) (requests s) (polls s)"
  obtain h sc where set: "setTimeout Notice_expired NOTICE_VISIBLE_MS (timers s) = (h, sc)" by fastforce
  have tok: "timers_ok (timers s) (sessionNoticeTimer s) (pendingTransportRefreshTimer s) (requests s) (polls s)"
    using assms(1) by (simp add: layer_ok_def)
  have free: "?tab (slot_of (Notice_expired, False)) = None" using assms(2) by simp
  note arm = arm_timer [OF tok set free]
  show ?thesis using assms arm(1,2) ok_kept(2,3) [OF _ arm(3) [of "(Notice_slot, False)"]] set
    by (auto simp: publishSessionNotice_def layer_ok_def timers_ok_def notice_ok_def)
qed

lemma publish_after_clear:
  "publishSessionNotice m s = publishSessionNotice m (clearSessionNotice s)"
  by (cases "sessionNoticeTimer s")
    (simp_all add: publishSessionNotice_def clearSessionNotice_def clear_notice_timer_def Let_def)

lemma publishSessionNotice_ok: "layer_ok X s \<Longrightarrow> layer_ok X (publishSessionNotice m s)"
  using publish_without_timer [OF clearSessionNotice_ok, of X s m] publish_after_clear [of m s]
  by (simp add: clearSessionNotice_def clear_notice_timer_def split: option.splits)

lemma publishNoticeDetails_ok: "layer_ok X s \<Longrightarrow> layer_ok X (publishNoticeDetails H d s)"
  by (simp add: publishNoticeDetails_def Let_def publishSessionNotice_ok)

lemma throttled_notice_ok: "layer_ok X s \<Longrightarrow> layer_ok X (snd (publishThrottledSessionNotice ref k m c s))"
  by (simp add: publishThrottledSessionNotice_def notifyWithFailureThrottle_def publishSessionNotice_ok
      split: prod.split)

lemma reportStorageFailure_ok: "layer_ok X s \<Longrightarrow> layer_ok X (reportStorageFailure H f s)"
  by (simp add: reportStorageFailure_def case_prod_beta throttled_notice_ok)

lemma publishRefreshFailure_ok: "layer_ok X s \<Longrightarrow> layer_ok X (publishRefreshFailure H f s)"
  by (simp add: publishRefreshFailure_def case_prod_beta throttled_notice_ok split: option.split)

subsection \<open>Identity\<close>

lemma reportFailure_ok: "layer_ok X s \<Longrightarrow> layer_ok X (reportFailure H f s)"
  by (simp add: reportFailure_def reportStorageFailure_ok split: option.split)

lemma set_areas_ok: "layer_ok X s \<Longrightarrow> layer_ok X (set_local st s)" "layer_ok X s \<Longrightarrow> layer_ok X (set_session st s)"
  by (simp_all add: set_local_def set_session_def)

lemmas identity_ok = reportFailure_ok set_areas_ok clearSessionNotice_ok

lemma load_ok:
  "layer_ok X s \<Longrightarrow> layer_ok X (load_session_id H s)"
  "layer_ok X s \<Longrightarrow> layer_ok X (load_last_session_id H s)"
  "layer_ok X s \<Longrightarrow> layer_ok X (load_session_history H s)"
  by (auto simp: load_session_id_def load_last_session_id_def load_session_history_def resolveStorageAccess_def
      identity_ok split: option.split prod.split)

lemma persistence_ok:
  "layer_ok X s \<Longrightarrow> layer_ok X (clearActiveSessionStorage H s)"
  "layer_ok X s \<Longrightarrow> layer_ok X (persistActiveSessionStorage H sid s)"
  "layer_ok X s \<Longrightarrow> layer_ok X (rememberSession H sid s)"
  by (auto simp: clearActiveSessionStorage_def persistActiveSessionStorage_def rememberSession_def
      resolveStorageAccess_def identity_ok Let_def split: option.split prod.split)

lemma identity_operations_ok:
  assumes "layer_ok X s"
  shows "layer_ok X (applyReadySession H sid ro s)" "layer_ok X (clearMissingSession H s)"
    "layer_ok X (transitionSessionContext H sido m s)"
  using assms by (simp_all add: applyReadySession_def clearMissingSession_def transitionSessionContext_def Let_def
      persistence_ok clearSessionNotice_ok split: option.split)

subsection \<open>Requests\<close>

definition keeps_slot :: "refresh_request \<Rightarrow> refresh_request \<Rightarrow> bool" where
  "keeps_slot q q' \<longleftrightarrow> finished q' = finished q \<and> rq_timer q' = rq_timer q \<and>
     (rq_phase q' = Racing \<longrightarrow> rq_phase q = Racing \<and> rq_aborted q' = rq_aborted q)"

lemma on_request_ok:
  assumes ok: "layer_ok X s" and f: "\<And>q. requests s r = Some q \<Longrightarrow> keeps_slot q (f q)"
  shows "layer_ok X (on_request r f s)"
proof (cases "requests s r")
  case None
  then show ?thesis using ok by (simp add: on_request_def)
next
  case (Some q)
  have k: "finished (f q) = finished q" "rq_timer (f q) = rq_timer q"
    "rq_phase (f q) = Racing \<Longrightarrow> rq_phase q = Racing \<and> rq_aborted (f q) = rq_aborted q"
    using f [OF Some] by (simp_all add: keeps_slot_def)
  have tab: "slot_table n t ((requests s)(r \<mapsto> f q)) po = slot_table n t (requests s) po" for n t po
    unfolding slot_table_upd k(1,2) by (rule fun_upd_idem) (simp add: Some)
  have "requests_ok sc ((requests s)(r \<mapsto> f q)) la ac pe" if "requests_ok sc (requests s) la ac pe" for sc la ac pe
    using that k Some unfolding requests_ok_def by (auto split: if_splits)
  moreover have "polls_ok X sc ((requests s)(r \<mapsto> f q)) po cu nx" if "polls_ok X sc (requests s) po cu nx" for sc po cu nx
    using that unfolding polls_ok_def by auto
  ultimately show ?thesis using ok unfolding layer_ok_def timers_ok_def
    by (simp add: on_request_def Some tab del: slot_table_upd)
qed

lemma abort_controller_ok: "layer_ok X s \<Longrightarrow> layer_ok X (abort_controller r s)"
  unfolding abort_controller_def
proof (rule on_request_ok, assumption)
  fix q assume a: "layer_ok X s" "requests s r = Some q"
  then have "rq_phase q = Racing \<Longrightarrow> \<not> rq_aborted q" by (auto simp: layer_ok_def requests_ok_def)
  then show "keeps_slot q (q\<lparr>rq_aborted := True, rq_phase := if rq_phase q = Racing \<and> \<not> rq_aborted q
      then Settled Refresh_aborted_token else rq_phase q\<rparr>)"
    by (auto simp: keeps_slot_def finished_def split: refresh_phase.splits)
qed

lemma settle_fetch_ok: "layer_ok X s \<Longrightarrow> layer_ok X (settle_fetch r out s)"
  unfolding settle_fetch_def by (rule on_request_ok) (auto simp: keeps_slot_def finished_def)

lemma outer_abort_ok: "layer_ok X s \<Longrightarrow> layer_ok X (outer_abort r s)"
  by (simp add: outer_abort_def abort_controller_ok split: option.split)

lemma answer_ok:
  assumes "layer_ok X s" "\<And>q. requests s r = Some q \<Longrightarrow> \<not> finished q"
  shows "layer_ok X (answer r res s)"
  unfolding answer_def by (rule on_request_ok [OF assms(1)]) (use assms(2) in \<open>auto simp: keeps_slot_def finished_def\<close>)

text \<open>The notices and the success callback do not touch the requests.\<close>

lemma publish_requests [simp]:
  "requests (publishSessionNotice m s) = requests s"
  "requests (publishNoticeDetails H d s) = requests s"
  "requests (publishRefreshFailure H f s) = requests s"
  "requests (onRefreshSuccess ss s) = requests s"
  "requests (onInvalidEntries H n s) = requests s"
  by (simp_all add: publishSessionNotice_def publishNoticeDetails_def publishRefreshFailure_def onRefreshSuccess_def
      onInvalidEntries_def publishThrottledSessionNotice_def notifyWithFailureThrottle_def Let_def case_prod_beta
      split: option.split)

lemma callbacks_ok:
  "layer_ok X s \<Longrightarrow> layer_ok X (onRefreshSuccess ss s)"
  "layer_ok X s \<Longrightarrow> layer_ok X (onInvalidEntries H n s)"
  by (simp_all add: onRefreshSuccess_def onInvalidEntries_def publishNoticeDetails_ok)

lemma resume_refresh_idle:
  "(\<And>q out. requests s r = Some q \<Longrightarrow> rq_phase q \<noteq> Settled out) \<Longrightarrow> resume_refresh H r s = s"
  by (cases "requests s r"; cases "rq_phase (the (requests s r))") (auto simp: resume_refresh_def)

lemma resume_refresh_ok:
  assumes ok: "layer_ok X s"
  shows "layer_ok X (resume_refresh H r s)"
proof -
  consider (settled) q out where "requests s r = Some q" "rq_phase q = Settled out"
    | (idle) "resume_refresh H r s = s"
    using resume_refresh_idle by metis
  then show ?thesis
  proof cases
    case settled
    have ans: "layer_ok X (answer r res s')" if "layer_ok X s'" "requests s' = requests s" for res s'
      using answer_ok [OF that(1), of r res] settled that(2) by (simp add: finished_def)
    have "layer_ok X (consume_payload H r payload s)" for payload
      by (auto simp: consume_payload_def Let_def ok ans publishRefreshFailure_ok callbacks_ok split: sum.split)
    then show ?thesis using settled
      by (simp add: resume_refresh_def fail_with_def ok ans publishRefreshFailure_ok split: race_outcome.split sum.split)
  qed (simp add: ok)
qed

subsection \<open>Starting and finishing\<close>

lemma active_latest: "layer_ok X s \<Longrightarrow> activeRefreshController s = Some a \<Longrightarrow> a = latestRefreshRequestId s"
  by (simp add: layer_ok_def requests_ok_def)

lemma abort_fields [simp]:
  "latestRefreshRequestId (abort_controller r s) = latestRefreshRequestId s"
  "activeRefreshController (abort_controller r s) = activeRefreshController s"
  "pendingRefresh (abort_controller r s) = pendingRefresh s"
  "polls (abort_controller r s) = polls s" "timers (abort_controller r s) = timers s"
  "currentPoll (abort_controller r s) = currentPoll s" "nextPoll (abort_controller r s) = nextPoll s"
  "sessionNoticeTimer (abort_controller r s) = sessionNoticeTimer s"
  "sessionNotice (abort_controller r s) = sessionNotice s"
  "pendingTransportRefreshTimer (abort_controller r s) = pendingTransportRefreshTimer s"
  for s :: "'a session_layer_scheme"
  by (simp_all add: abort_controller_def on_request_def split: option.split)

lemma aborted_not_racing:
  assumes "requests (abort_controller r s) r = Some q" "layer_ok X s"
  shows "rq_phase q \<noteq> Racing"
proof -
  obtain q0 where q0: "requests s r = Some q0" using assms(1)
    by (auto simp: abort_controller_def on_request_def split: option.splits)
  have "rq_phase q0 = Racing \<Longrightarrow> \<not> rq_aborted q0" using assms(2) q0 by (auto simp: layer_ok_def requests_ok_def)
  then show ?thesis using assms(1) q0 by (auto simp: abort_controller_def on_request_def split: if_splits)
qed

text \<open>A state in which no request races takes a new request under the next id.\<close>

lemma new_request_ok:
  assumes tok: "timers_ok sc n t rq po" and nok: "notice_ok sc n m" and rok: "requests_ok sc rq la ac pe"
    and pok: "polls_ok X sc rq po cu nx"
    and quiet: "\<And>r q. rq r = Some q \<Longrightarrow> rq_phase q \<noteq> Racing"
    and q: "\<not> finished q"
      "rq_phase q = Racing \<Longrightarrow> \<not> rq_aborted q \<and> setTimeout (Refresh_timeout (la + 1)) d sc = (h, sc') \<and> rq_timer q = Some h"
      "rq_phase q \<noteq> Racing \<Longrightarrow> sc' = sc \<and> rq_timer q = None"
  shows "timers_ok sc' n t (rq(la + 1 \<mapsto> q)) po \<and> notice_ok sc' n m \<and>
    requests_ok sc' (rq(la + 1 \<mapsto> q)) (la + 1) (Some (la + 1)) None \<and> polls_ok X sc' (rq(la + 1 \<mapsto> q)) po cu nx"
proof -
  have new: "rq (la + 1) = None" using rok unfolding requests_ok_def by (metis add_le_same_cancel1 not_None_eq not_one_le_zero)
  have free: "slot_table n t rq po (slot_of (Refresh_timeout (la + 1), False)) = None" using new by simp
  have po: "polls_ok X sc1 (rq(la + 1 \<mapsto> q)) po cu nx" if "polls_ok X sc1 rq po cu nx" for sc1
    using that unfolding polls_ok_def by auto
  show ?thesis
  proof (cases "rq_phase q = Racing")
    case True
    with q(2) have set: "setTimeout (Refresh_timeout (la + 1)) d sc = (h, sc')" and h: "rq_timer q = Some h" "\<not> rq_aborted q" by auto
    note arm = arm_timer [OF tok set free]
    have "timers_ok sc' n t (rq(la + 1 \<mapsto> q)) po" using arm(1) q(1) h by (simp add: timers_ok_def)
    moreover have "notice_ok sc' n m" by (rule notice_ok_kept [OF nok arm(3) [of "(Trailing_slot, False)"]]) simp
    moreover have "polls_ok X sc' rq po cu nx" by (rule polls_ok_kept [OF pok arm(3) [of "(Trailing_slot, False)"]]) simp
    moreover have "requests_ok sc' (rq(la + 1 \<mapsto> q)) (la + 1) (Some (la + 1)) None"
      using rok quiet q(1) h arm(2) unfolding requests_ok_def by (auto simp: le_SucI)
    ultimately show ?thesis using po by blast
  next
    case False
    with q(3) have e: "sc' = sc" "rq_timer q = None" by auto
    have "slot_table n t (rq(la + 1 \<mapsto> q)) po = slot_table n t rq po"
      using free e q(1) by (simp add: fun_upd_idem)
    then have "timers_ok sc' n t (rq(la + 1 \<mapsto> q)) po" using tok e by (simp add: timers_ok_def del: slot_table_upd)
    moreover have "requests_ok sc' (rq(la + 1 \<mapsto> q)) (la + 1) (Some (la + 1)) None"
      using rok quiet q(1) False unfolding requests_ok_def by (auto simp: le_SucI)
    ultimately show ?thesis using po [OF pok] nok e by simp
  qed
qed

text \<open>The state in which a request is launched: the next id is taken, the active request aborted.\<close>

definition before_launch :: "'a session_refresh_scheme \<Rightarrow> 'a session_refresh_scheme" where
  "before_launch s =
     (case activeRefreshController s of None \<Rightarrow> s | Some c \<Rightarrow> abort_controller c s)"

lemma before_launch_facts:
  assumes "layer_ok X s"
  shows "layer_ok X (before_launch s)" "requests (before_launch s) r = Some q \<Longrightarrow> rq_phase q \<noteq> Racing"
proof -
  show "layer_ok X (before_launch s)"
    using assms by (simp add: before_launch_def abort_controller_ok split: option.split)
  assume q: "requests (before_launch s) r = Some q"
  show "rq_phase q \<noteq> Racing"
  proof (cases "activeRefreshController s = Some r")
    case True
    then show ?thesis using q aborted_not_racing [of r s q X] assms by (simp add: before_launch_def)
  next
    case False
    have other: "requests (abort_controller c s) r = requests s r" if "c \<noteq> r" for c
      using that by (simp add: abort_controller_def on_request_def split: option.split)
    have "requests s r = Some q" using q False other by (auto simp: before_launch_def split: option.splits)
    then show ?thesis using assms False by (auto simp: layer_ok_def requests_ok_def)
  qed
qed

lemma before_launch_fields [simp]:
  "latestRefreshRequestId (before_launch s) = latestRefreshRequestId s"
  "activeRefreshController (before_launch s) = activeRefreshController s"
  "pendingRefresh (before_launch s) = pendingRefresh s"
  "polls (before_launch s) = polls s" "timers (before_launch s) = timers s"
  "currentPoll (before_launch s) = currentPoll s" "nextPoll (before_launch s) = nextPoll s"
  "sessionNoticeTimer (before_launch s) = sessionNoticeTimer s"
  "sessionNotice (before_launch s) = sessionNotice s"
  "pendingTransportRefreshTimer (before_launch s) = pendingTransportRefreshTimer s"
  for s :: "'a session_layer_scheme"
  by (simp_all add: before_launch_def split: option.split)

definition launched :: "refresh_request \<Rightarrow> session_task scheduler \<Rightarrow> 'a session_layer_scheme \<Rightarrow> 'a session_layer_scheme" where
  "launched q sc s =
     (let r = latestRefreshRequestId s + 1; b = before_launch s
      in b\<lparr>latestRefreshRequestId := r, pendingRefresh := None, activeRefreshController := Some r,
           timers := sc, requests := (requests b)(r \<mapsto> q)\<rparr>)"

lemma launch_request_eq:
  assumes "layer_ok X s"
  shows "launch_request sig s =
    (Started (latestRefreshRequestId s + 1),
     if sig = Some True
     then launched \<lparr>rq_hasSignal = True, rq_aborted = True, rq_timedOut = False, rq_timer = None,
            rq_phase = Returned (Some Request_aborted)\<rparr> (timers s) s
     else (let (h, sc) = setTimeout (Refresh_timeout (latestRefreshRequestId s + 1)) SESSION_REFRESH_CALL_TIMEOUT_MS (timers s)
           in launched \<lparr>rq_hasSignal = (sig \<noteq> None), rq_aborted = False, rq_timedOut = False, rq_timer = Some h,
                rq_phase = Racing\<rparr> sc s))"
proof -
  have pend: "pendingRefresh s = Some p \<Longrightarrow> pr_queuedForRequestId p \<noteq> Suc (latestRefreshRequestId s)" for p
    using assms by (auto simp: layer_ok_def requests_ok_def)
  have "(case pendingRefresh s of Some p \<Rightarrow> if pr_queuedForRequestId p \<noteq> Suc (latestRefreshRequestId s) then None else Some p
      | None \<Rightarrow> None) = None"
    using pend by (simp split: option.split)
  moreover have "abort_controller c (s\<lparr>latestRefreshRequestId := r, pendingRefresh := p\<rparr>) =
      (abort_controller c s)\<lparr>latestRefreshRequestId := r, pendingRefresh := p\<rparr>" for c r p
    by (simp add: abort_controller_def on_request_def split: option.split)
  ultimately show ?thesis
    by (cases "activeRefreshController s")
      (simp_all add: launch_request_def launched_def before_launch_def Let_def case_prod_beta)
qed

lemma launched_ok:
  assumes ok: "layer_ok X s" and q: "\<not> finished q"
    "rq_phase q = Racing \<Longrightarrow> \<not> rq_aborted q \<and>
       setTimeout (Refresh_timeout (latestRefreshRequestId s + 1)) d (timers s) = (h, sc) \<and> rq_timer q = Some h"
    "rq_phase q \<noteq> Racing \<Longrightarrow> sc = timers s \<and> rq_timer q = None"
  shows "layer_ok X (launched q sc s)"
proof -
  have b: "layer_ok X (before_launch s)" by (rule before_launch_facts(1) [OF ok])
  note parts = b [unfolded layer_ok_def before_launch_fields]
  have "timers_ok sc (sessionNoticeTimer s) (pendingTransportRefreshTimer s)
        ((requests (before_launch s))(latestRefreshRequestId s + 1 \<mapsto> q)) (polls s) \<and>
      notice_ok sc (sessionNoticeTimer s) (sessionNotice s) \<and>
      requests_ok sc ((requests (before_launch s))(latestRefreshRequestId s + 1 \<mapsto> q))
        (latestRefreshRequestId s + 1) (Some (latestRefreshRequestId s + 1)) None \<and>
      polls_ok X sc ((requests (before_launch s))(latestRefreshRequestId s + 1 \<mapsto> q)) (polls s)
        (currentPoll s) (nextPoll s)"
    by (rule new_request_ok [where sc = "timers s" and d = d and h = h])
      (use parts q before_launch_facts(2) [OF ok] in auto)
  then show ?thesis by (simp add: layer_ok_def launched_def Let_def)
qed

lemma launch_request_ok:
  assumes ok: "layer_ok X s"
  shows "layer_ok X (snd (launch_request sig s))"
proof (cases "sig = Some True")
  case True
  then show ?thesis unfolding launch_request_eq [OF ok]
    by (simp, intro launched_ok [OF ok]) (simp_all add: finished_def)
next
  case False
  obtain h sc where set: "setTimeout (Refresh_timeout (latestRefreshRequestId s + 1)) SESSION_REFRESH_CALL_TIMEOUT_MS (timers s) = (h, sc)"
    by fastforce
  show ?thesis unfolding launch_request_eq [OF ok] set
    using False by (simp, intro launched_ok [OF ok, where d = SESSION_REFRESH_CALL_TIMEOUT_MS and h = h])
      (use set in \<open>simp_all add: finished_def\<close>)
qed

lemma requestSessionRefresh_ok:
  assumes ok: "layer_ok X s"
  shows "layer_ok X (snd (requestSessionRefresh trigger sig s))"
proof (cases "activeRefreshController s \<noteq> None \<and> trigger \<noteq> Trigger_manual")
  case True
  then obtain a where a: "activeRefreshController s = Some a" by auto
  then have e: "a = latestRefreshRequestId s" using active_latest [OF ok] by blast
  have "requests_ok sc rq (latestRefreshRequestId s) (Some a) (Some \<lparr>pr_trigger = t, pr_queuedForRequestId = latestRefreshRequestId s\<rparr>)"
    if "requests_ok sc rq (latestRefreshRequestId s) (Some a) (pendingRefresh s)" for sc rq t
    using that e unfolding requests_ok_def by auto
  then show ?thesis using ok True a by (simp add: layer_ok_def requestSessionRefresh_def Let_def)
next
  case False
  then show ?thesis using launch_request_ok [OF ok] by (auto simp: requestSessionRefresh_def)
qed

text \<open>A returned request is finished: its timer goes, and a refresh that waits for it starts.\<close>

definition closed_request :: "nat \<Rightarrow> refresh_request \<Rightarrow> refresh_result \<Rightarrow> 'a session_layer_scheme \<Rightarrow> 'a session_layer_scheme" where
  "closed_request r q res s =
     s\<lparr>timers := (case rq_timer q of None \<Rightarrow> timers s | Some h \<Rightarrow> clearTimeout h (timers s)),
       requests := (requests s)(r \<mapsto> q\<lparr>rq_phase := Finished res\<rparr>),
       activeRefreshController := (if activeRefreshController s = Some r then None else activeRefreshController s),
       pendingRefresh := (if activeRefreshController s = Some r then None else pendingRefresh s)\<rparr>"

lemma closed_request_ok:
  assumes ok: "layer_ok X s" and q: "requests s r = Some q" "rq_phase q = Returned res"
  shows "layer_ok X (closed_request r q res s)"
proof -
  let ?sc = "case rq_timer q of None \<Rightarrow> timers s | Some h \<Rightarrow> clearTimeout h (timers s)"
  let ?rq = "(requests s)(r \<mapsto> q\<lparr>rq_phase := Finished res\<rparr>)"
  let ?n = "sessionNoticeTimer s" and ?t = "pendingTransportRefreshTimer s"
  let ?tab = "slot_table ?n ?t (requests s) (polls s)"
  note parts = ok [unfolded layer_ok_def]
  have tok: "timers_ok (timers s) ?n ?t (requests s) (polls s)" using parts by blast
  have sl: "?tab (Timeout_slot r, False) = rq_timer q" using q by (simp add: finished_def)
  have new: "timers_ok ?sc ?n ?t ?rq (polls s) \<and> others_kept ?tab (Timeout_slot r, False) (timers s) ?sc"
  proof (cases "rq_timer q")
    case None
    then show ?thesis using tok sl by (simp add: timers_ok_def finished_def fun_upd_idem others_kept_def)
  next
    case (Some h)
    then show ?thesis using clear_timer [OF tok, of "(Timeout_slot r, False)" h] sl
      by (simp add: timers_ok_def finished_def)
  qed
  have nok: "notice_ok ?sc ?n (sessionNotice s)"
    using parts notice_ok_kept [OF _ new [THEN conjunct2]] by blast
  have rok: "requests_ok ?sc (requests s) (latestRefreshRequestId s) (activeRefreshController s) (pendingRefresh s)"
    by (rule requests_ok_kept [OF _ new [THEN conjunct2]]) (use parts q in auto)
  have pok: "polls_ok X ?sc (requests s) (polls s) (currentPoll s) (nextPoll s)"
    by (rule polls_ok_kept [OF _ new [THEN conjunct2]]) (use parts in auto)
  have "requests_ok ?sc ?rq (latestRefreshRequestId s)
     (if activeRefreshController s = Some r then None else activeRefreshController s)
     (if activeRefreshController s = Some r then None else pendingRefresh s)"
    using rok q unfolding requests_ok_def by (auto simp: finished_def)
  moreover have "polls_ok X ?sc ?rq (polls s) (currentPoll s) (nextPoll s)"
    using pok unfolding polls_ok_def by auto
  ultimately show ?thesis using new nok by (simp add: layer_ok_def closed_request_def)
qed

lemma finish_refresh_eq:
  assumes ok: "layer_ok X s" and q: "requests s r = Some q" "rq_phase q = Returned res"
  shows "finish_refresh r s =
    (case (if activeRefreshController s = Some r then pendingRefresh s else None) of
       None \<Rightarrow> closed_request r q res s
     | Some p \<Rightarrow> snd (requestSessionRefresh (pr_trigger p) None (closed_request r q res s)))"
proof -
  have pend: "pendingRefresh s = Some p \<Longrightarrow> activeRefreshController s = Some (pr_queuedForRequestId p)" for p
    using ok by (auto simp: layer_ok_def requests_ok_def)
  have act: "activeRefreshController s = Some a \<Longrightarrow> a = latestRefreshRequestId s" for a
    using ok by (auto simp: layer_ok_def requests_ok_def)
  define s2 where "s2 = s\<lparr>timers := (case rq_timer q of None \<Rightarrow> timers s | Some h \<Rightarrow> clearTimeout h (timers s)),
    requests := (requests s)(r \<mapsto> q\<lparr>rq_phase := Finished res\<rparr>)\<rparr>"
  have s2: "on_request r (\<lambda>q. q\<lparr>rq_phase := Finished res\<rparr>)
      (case rq_timer q of None \<Rightarrow> s | Some h \<Rightarrow> s\<lparr>timers := clearTimeout h (timers s)\<rparr>) = s2"
    by (cases s, cases "rq_timer q") (use q in \<open>simp_all add: s2_def on_request_def\<close>)
  have sel: "activeRefreshController s2 = activeRefreshController s" "pendingRefresh s2 = pendingRefresh s"
    "latestRefreshRequestId s2 = latestRefreshRequestId s" by (simp_all add: s2_def)
  have closed: "closed_request r q res s = s2\<lparr>activeRefreshController := None, pendingRefresh := None\<rparr>"
    if "activeRefreshController s = Some r" using that by (simp add: closed_request_def s2_def)
  have same: "closed_request r q res s = s2" if "activeRefreshController s \<noteq> Some r"
    using that by (cases s; cases "rq_timer q") (simp_all add: closed_request_def s2_def)
  have no_pending: "s2\<lparr>activeRefreshController := None, pendingRefresh := None\<rparr> = s2\<lparr>activeRefreshController := None\<rparr>"
    if "pendingRefresh s = None" using that by (cases s; cases "rq_timer q") (simp_all add: s2_def)
  show ?thesis
  proof (cases "activeRefreshController s = Some r")
    case True
    then have "latestRefreshRequestId s = r" using act by blast
    then show ?thesis using True pend closed no_pending
      by (cases "pendingRefresh s") (simp_all add: finish_refresh_def q s2 sel Let_def)
  next
    case False
    then have "pendingRefresh s = Some p \<Longrightarrow> pr_queuedForRequestId p \<noteq> r" for p using pend by auto
    then show ?thesis using False same
      by (cases "pendingRefresh s") (simp_all add: finish_refresh_def q s2 sel Let_def)
  qed
qed

lemma finish_refresh_idle:
  "(\<And>q res. requests s r = Some q \<Longrightarrow> rq_phase q \<noteq> Returned res) \<Longrightarrow> finish_refresh r s = s"
  by (cases "requests s r"; cases "rq_phase (the (requests s r))") (auto simp: finish_refresh_def)

lemma finish_refresh_ok:
  assumes ok: "layer_ok X s"
  shows "layer_ok X (finish_refresh r s)"
proof -
  consider q res where "requests s r = Some q" "rq_phase q = Returned res" | "finish_refresh r s = s"
    using finish_refresh_idle by metis
  then show ?thesis
    by cases (use ok in \<open>auto simp: finish_refresh_eq closed_request_ok requestSessionRefresh_ok split: option.split\<close>)
qed

text \<open>The time-out of a request, once its timer has fired.\<close>

lemma timed_out_ok:
  assumes ok: "layer_ok X s" and f: "fire h (timers s) = Some (Refresh_timeout r, sc)"
  shows "layer_ok X (refresh_timed_out r (s\<lparr>timers := sc\<rparr>))"
proof -
  let ?n = "sessionNoticeTimer s" and ?t = "pendingTransportRefreshTimer s"
  note parts = ok [unfolded layer_ok_def]
  have tok: "timers_ok (timers s) ?n ?t (requests s) (polls s)" using parts by blast
  note fired = fire_timer [OF tok f, simplified]
  obtain q where q: "requests s r = Some q" "\<not> finished q" "rq_timer q = Some h"
    using fired(1) by (auto split: option.splits if_splits)
  let ?q = "q\<lparr>rq_timedOut := True, rq_aborted := True, rq_phase := (if rq_phase q = Racing then Settled Refresh_aborted_token else rq_phase q)\<rparr>"
  have aborted: "rq_phase q = Racing \<Longrightarrow> \<not> rq_aborted q" using parts q by (auto simp: requests_ok_def)
  have "refresh_timed_out r (s\<lparr>timers := sc\<rparr>) = s\<lparr>timers := sc, requests := (requests s)(r \<mapsto> ?q)\<rparr>"
    using q(1) aborted by (auto simp: refresh_timed_out_def settle_fetch_def abort_controller_def on_request_def)
  moreover have "timers_ok sc ?n ?t ((requests s)(r \<mapsto> ?q)) (polls s)"
  proof -
    have "slot_table ?n ?t ((requests s)(r \<mapsto> ?q)) (polls s) = slot_table ?n ?t (requests s) (polls s)"
      unfolding slot_table_upd by (rule fun_upd_idem) (use q in \<open>auto simp: finished_def\<close>)
    then show ?thesis using fired(3) by (simp add: timers_ok_def del: slot_table_upd)
  qed
  moreover have "notice_ok sc ?n (sessionNotice s)" using parts notice_ok_kept [OF _ fired(4)] by simp
  moreover have "polls_ok X sc ((requests s)(r \<mapsto> ?q)) (polls s) (currentPoll s) (nextPoll s)"
  proof -
    have "polls_ok X sc (requests s) (polls s) (currentPoll s) (nextPoll s)"
      by (rule polls_ok_kept [OF _ fired(4)]) (use parts in auto)
    then show ?thesis unfolding polls_ok_def by auto
  qed
  moreover have "requests_ok sc ((requests s)(r \<mapsto> ?q)) (latestRefreshRequestId s) (activeRefreshController s) (pendingRefresh s)"
  proof -
    have kept: "pending sc k \<noteq> None" if "requests s r' = Some q'" "rq_phase q' = Racing" "rq_timer q' = Some k"
      "pending (timers s) k \<noteq> None" "r' \<noteq> r" for r' q' k
    proof -
      have "slot_table ?n ?t (requests s) (polls s) (Timeout_slot r', False) = Some k" using that by (simp add: finished_def)
      then show ?thesis using fired(4) that(4,5) unfolding others_kept_def by fastforce
    qed
    have fin: "finished ?q \<longleftrightarrow> finished q" by (auto simp: finished_def)
    have rok: "requests_ok (timers s) (requests s) (latestRefreshRequestId s) (activeRefreshController s) (pendingRefresh s)"
      using parts by blast
    show ?thesis
    proof (rule requests_okI)
      fix r' q' assume "((requests s)(r \<mapsto> ?q)) r' = Some q'"
      then show "0 < r' \<and> r' \<le> latestRefreshRequestId s"
        using requests_okD(1) [OF rok] q(1) by (auto split: if_splits)
    next
      fix a assume "activeRefreshController s = Some a"
      then show "a = latestRefreshRequestId s \<and> (\<exists>q'. ((requests s)(r \<mapsto> ?q)) a = Some q' \<and> \<not> finished q')"
        using requests_okD(2) [OF rok] fin q(2) by (cases "a = r") auto
    next
      fix r' q' assume a: "((requests s)(r \<mapsto> ?q)) r' = Some q'" "rq_phase q' = Racing"
      then have r': "r' \<noteq> r" "requests s r' = Some q'" by (auto split: if_splits)
      from requests_okD(3) [OF rok r'(2) a(2)] kept [OF r'(2) a(2)] r'(1)
      show "activeRefreshController s = Some r' \<and> \<not> rq_aborted q' \<and> (\<exists>h. rq_timer q' = Some h \<and> pending sc h \<noteq> None)"
        by blast
    qed (rule requests_okD(4) [OF rok])
  qed
  ultimately show ?thesis by (simp add: layer_ok_def)
qed

end
