(* ===== verification/Session_Steps.thy ===== *)
theory Session_Steps
  imports Session_Laws
begin

section \<open>Polling and the steps of the session layer\<close>

text \<open>
  The invariant \<open>layer_ok\<close> through the polling binding, and through every step of the layer: what
  the rest of the client calls, what the browser delivers, and the timers.
\<close>

subsection \<open>One run of the polling effect\<close>

lemma layer_ok_mono: "layer_ok X s \<Longrightarrow> X \<subseteq> Y \<Longrightarrow> layer_ok Y s"
  unfolding layer_ok_def polls_ok_def by blast

lemma poll_settled:
  assumes "layer_ok (insert i X) s" "polls s i = Some p" "pi_disposed p \<or> poll_ok (timers s) i p"
  shows "layer_ok X s"
proof -
  have pok: "polls_ok (insert i X) (timers s) (requests s) (polls s) (currentPoll s) (nextPoll s)"
    using assms(1) by (simp add: layer_ok_def)
  have "polls_ok X (timers s) (requests s) (polls s) (currentPoll s) (nextPoll s)"
  proof (rule polls_okI)
    fix j q assume a: "polls s j = Some q" "\<not> pi_disposed q" "j \<notin> X"
    then show "poll_ok (timers s) j q"
      using polls_okD(4) [OF pok a(1,2)] assms(2,3) by (cases "j = i") auto
  qed (use polls_okD(1,2,3,5) [OF pok] in auto)
  then show ?thesis using assms(1) by (simp add: layer_ok_def)
qed

lemma set_poll_ok:
  assumes ok: "layer_ok X s" and p: "polls s i = Some p"
    and p': "pi_disposed p' = pi_disposed p" "pi_disposed p \<or> i \<in> X \<and> pi_timer p' = pi_timer p"
      "\<And>r. pi_flight p' = Some (Awaiting (Started r)) \<Longrightarrow> requests s r \<noteq> None"
  shows "layer_ok X (s\<lparr>polls := (polls s)(i \<mapsto> p')\<rparr>)"
proof -
  have "slot_table n t rq ((polls s)(i \<mapsto> p')) = slot_table n t rq (polls s)" for n t rq
    unfolding slot_table_upd by (rule fun_upd_idem) (use p p' in auto)
  moreover have "polls_ok X sc (requests s) ((polls s)(i \<mapsto> p')) cu nx" if "polls_ok X sc (requests s) (polls s) cu nx" for sc cu nx
    by (rule polls_ok_replace [where po = "polls s" and i = i, OF that p]) (use p' in auto)
  ultimately show ?thesis using ok by (simp add: layer_ok_def timers_ok_def del: slot_table_upd)
qed

lemma arm_poll_timer_ok:
  assumes ok: "layer_ok (insert i X) s" and p: "polls s i = Some p" "\<not> pi_disposed p" "pi_timer p = None"
    and task: "slot_of (task, False) = (Poll_slot i, False)"
  obtains h sc where "arm_poll_timer i task d s = s\<lparr>timers := sc, polls := (polls s)(i \<mapsto> p\<lparr>pi_timer := Some h\<rparr>)\<rparr>"
    "pending sc h = Some (task, False)" "layer_ok (insert i X) (arm_poll_timer i task d s)"
proof -
  let ?n = "sessionNoticeTimer s" and ?t = "pendingTransportRefreshTimer s"
  note parts = ok [unfolded layer_ok_def]
  have tok: "timers_ok (timers s) ?n ?t (requests s) (polls s)" using parts by blast
  obtain h sc where set: "setTimeout task d (timers s) = (h, sc)" by fastforce
  have free: "slot_table ?n ?t (requests s) (polls s) (slot_of (task, False)) = None"
    unfolding task using p by simp
  note arm = arm_timer [OF tok set free]
  let ?p = "p\<lparr>pi_timer := Some h\<rparr>"
  have eq: "arm_poll_timer i task d s = s\<lparr>timers := sc, polls := (polls s)(i \<mapsto> ?p)\<rparr>"
    by (simp add: arm_poll_timer_def set on_poll_def p)
  have pok: "polls_ok (insert i X) sc (requests s) (polls s) (currentPoll s) (nextPoll s)"
    by (rule polls_ok_kept [OF _ arm(3) [of "(Poll_slot i, False)"]]) (use parts in auto)
  from pok have "polls_ok (insert i X) sc (requests s) ((polls s)(i \<mapsto> ?p)) (currentPoll s) (nextPoll s)"
    by (rule polls_ok_replace [where po = "polls s" and i = i, OF _ p(1)])
      (use p(2) polls_okD(5) [OF pok p(1)] in auto)
  moreover have "requests_ok sc (requests s) (latestRefreshRequestId s) (activeRefreshController s) (pendingRefresh s)"
    by (rule requests_ok_kept [OF _ arm(3) [of "(Poll_slot i, False)"]]) (use parts in auto)
  moreover have "notice_ok sc ?n (sessionNotice s)" using parts notice_ok_kept [OF _ arm(3) [of "(Poll_slot i, False)"]] by simp
  moreover have "timers_ok sc ?n ?t (requests s) ((polls s)(i \<mapsto> ?p))"
    using arm(1) p by (simp add: timers_ok_def task)
  ultimately have "layer_ok (insert i X) (arm_poll_timer i task d s)" by (simp add: eq layer_ok_def)
  then show thesis using that eq arm(2) by blast
qed

lemma request_fields [simp]:
  "polls (snd (requestSessionRefresh tr sig s)) = polls s"
  "currentPoll (snd (requestSessionRefresh tr sig s)) = currentPoll s"
  "nextPoll (snd (requestSessionRefresh tr sig s)) = nextPoll s"
  "sessionMenuOpen (snd (requestSessionRefresh tr sig s)) = sessionMenuOpen s"
  "pendingTransportRefreshTimer (snd (requestSessionRefresh tr sig s)) = pendingTransportRefreshTimer s"
  "lastTransportRefreshAt (snd (requestSessionRefresh tr sig s)) = lastTransportRefreshAt s"
  for s :: "'a session_layer_scheme"
  by (simp_all add: requestSessionRefresh_def launch_request_def abort_controller_def on_request_def Let_def
      case_prod_beta split: option.split)

lemma started_request:
  assumes "requestSessionRefresh tr sig s = (Started r, s')"
  shows "requests s' r \<noteq> None"
  using assms by (auto simp: requestSessionRefresh_def launch_request_def Let_def case_prod_beta split: if_splits)

lemma runRefreshLoop_ok:
  assumes ok: "layer_ok (insert i X) s" and p: "polls s i = Some p" "\<not> pi_disposed p" "pi_timer p = None"
    "\<not> pi_circuitOpen p" "pi_consecutiveFailures p < SESSION_REFRESH_FAILURE_LIMIT"
    "pi_flight p = None \<or> pi_flight p = Some After_then"
  shows "layer_ok X (runRefreshLoop i s)"
proof (cases "pi_flight p = None")
  case False
  then show ?thesis using p ok poll_settled [OF ok p(1)] by (simp add: runRefreshLoop_def poll_ok_def)
next
  case True
  obtain t s1 where req: "requestSessionRefresh Trigger_poll (Some False) s = (t, s1)" by fastforce
  have s1: "layer_ok (insert i X) s1" "polls s1 i = Some p"
    using requestSessionRefresh_ok [OF ok, of Trigger_poll "Some False"] p(1)
      request_fields(1) [of Trigger_poll "Some False" s] by (simp_all add: req)
  let ?p = "p\<lparr>pi_flight := Some (Awaiting t), pi_controller := Some t\<rparr>"
  have run: "runRefreshLoop i s = s1\<lparr>polls := (polls s1)(i \<mapsto> ?p)\<rparr>"
    using p True s1 by (simp add: runRefreshLoop_def req on_poll_def)
  have ok1: "layer_ok (insert i X) (s1\<lparr>polls := (polls s1)(i \<mapsto> ?p)\<rparr>)"
    by (rule set_poll_ok [OF s1]) (use started_request [of _ _ s _ s1] req in auto)
  show ?thesis unfolding run
    by (rule poll_settled [OF ok1, of ?p]) (use p in \<open>auto simp: poll_ok_def\<close>)
qed

lemma scheduleNext_ok:
  assumes ok: "layer_ok (insert i X) s" and p: "polls s i = Some p" "pi_timer p = None" "\<not> pi_circuitOpen p"
    "pi_flight p = None" "\<not> pi_disposed p \<Longrightarrow> pi_consecutiveFailures p < SESSION_REFRESH_FAILURE_LIMIT"
  shows "layer_ok X (scheduleNext i p s)"
proof (cases "pi_disposed p")
  case True
  then show ?thesis using poll_settled [OF ok p(1)] by (simp add: scheduleNext_def)
next
  case False
  obtain h sc where arm: "arm_poll_timer i (Poll_again i) (nextSessionRefreshDelayMs (pi_consecutiveFailures p)) s =
      s\<lparr>timers := sc, polls := (polls s)(i \<mapsto> p\<lparr>pi_timer := Some h\<rparr>)\<rparr>"
    "layer_ok (insert i X) (arm_poll_timer i (Poll_again i) (nextSessionRefreshDelayMs (pi_consecutiveFailures p)) s)"
    by (rule arm_poll_timer_ok [OF ok p(1) False p(2), where task = "Poll_again i"
          and d = "nextSessionRefreshDelayMs (pi_consecutiveFailures p)"]) auto
  have "scheduleNext i p s = s\<lparr>timers := sc, polls := (polls s)(i \<mapsto> p\<lparr>pi_timer := Some h\<rparr>)\<rparr>"
    using False arm(1) by (simp add: scheduleNext_def)
  then show ?thesis using poll_settled [OF arm(2), of "p\<lparr>pi_timer := Some h\<rparr>"] p False arm(1)
    by (simp add: poll_ok_def)
qed

lemma publish_polls [simp]:
  "polls (publishSessionNotice m s) = polls s" "polls (publishNoticeDetails H d s) = polls s"
  for s :: "'a session_layer_scheme"
  by (simp_all add: publishSessionNotice_def publishNoticeDetails_def Let_def case_prod_beta split: option.split)

lemma openCircuitBreaker_ok:
  assumes ok: "layer_ok (insert i X) s" and p: "polls s i = Some p" "pi_timer p = None" "\<not> pi_circuitOpen p"
    "pi_flight p = Some After_then" "pi_consecutiveFailures p = SESSION_REFRESH_FAILURE_LIMIT" "\<not> pi_disposed p"
  shows "layer_ok X (openCircuitBreaker H i p s)"
proof -
  let ?p = "p\<lparr>pi_circuitOpen := True\<rparr>"
  let ?s = "onRefreshCircuitOpen H (pi_consecutiveFailures p) (s\<lparr>polls := (polls s)(i \<mapsto> ?p)\<rparr>)"
  have "layer_ok (insert i X) (s\<lparr>polls := (polls s)(i \<mapsto> ?p)\<rparr>)"
    by (rule set_poll_ok [OF ok p(1)]) (use p(4) in auto)
  then have ok1: "layer_ok (insert i X) ?s" by (simp add: onRefreshCircuitOpen_def publishNoticeDetails_ok)
  have pi: "polls ?s i = Some ?p" by (simp add: onRefreshCircuitOpen_def)
  obtain h sc where arm:
    "arm_poll_timer i (Poll_cooldown_over i) SESSION_REFRESH_CIRCUIT_BREAKER_COOLDOWN_MS ?s =
      ?s\<lparr>timers := sc, polls := (polls ?s)(i \<mapsto> ?p\<lparr>pi_timer := Some h\<rparr>)\<rparr>"
    "pending sc h = Some (Poll_cooldown_over i, False)"
    "layer_ok (insert i X) (arm_poll_timer i (Poll_cooldown_over i) SESSION_REFRESH_CIRCUIT_BREAKER_COOLDOWN_MS ?s)"
    by (rule arm_poll_timer_ok [OF ok1 pi, where task = "Poll_cooldown_over i"
          and d = SESSION_REFRESH_CIRCUIT_BREAKER_COOLDOWN_MS]) (use p in auto)
  have "openCircuitBreaker H i p s =
      arm_poll_timer i (Poll_cooldown_over i) SESSION_REFRESH_CIRCUIT_BREAKER_COOLDOWN_MS ?s"
    using p by (simp add: openCircuitBreaker_def on_poll_def)
  then show ?thesis using poll_settled [OF arm(3), of "?p\<lparr>pi_timer := Some h\<rparr>"] p arm(1,2)
    by (simp add: poll_ok_def)
qed

lemma scheduleBootstrapRecoveryRetry_ok:
  assumes ok: "layer_ok (insert i X) s" and p: "polls s i = Some p" "pi_timer p = None" "\<not> pi_circuitOpen p"
    "pi_flight p = Some After_then" "pi_consecutiveFailures p < SESSION_REFRESH_FAILURE_LIMIT" "\<not> pi_disposed p"
  shows "layer_ok X (scheduleBootstrapRecoveryRetry i p s)"
proof -
  obtain h sc where arm: "arm_poll_timer i (Poll_bootstrap_retry i) SESSION_REFRESH_BOOTSTRAP_RETRY_MS s =
      s\<lparr>timers := sc, polls := (polls s)(i \<mapsto> p\<lparr>pi_timer := Some h\<rparr>)\<rparr>"
    "layer_ok (insert i X) (arm_poll_timer i (Poll_bootstrap_retry i) SESSION_REFRESH_BOOTSTRAP_RETRY_MS s)"
    by (rule arm_poll_timer_ok [OF ok p(1), where task = "Poll_bootstrap_retry i"
          and d = SESSION_REFRESH_BOOTSTRAP_RETRY_MS]) (use p in auto)
  then show ?thesis using poll_settled [OF arm(2), of "p\<lparr>pi_timer := Some h\<rparr>"] p
    by (simp add: scheduleBootstrapRecoveryRetry_def poll_ok_def)
qed

text \<open>The result of a refresh reaches the run that waits for it.\<close>

lemma poll_result_ok:
  assumes ok: "layer_ok (insert i X) s" and p: "polls s i = Some p" "pi_flight p = Some After_then"
    "\<not> pi_disposed p \<Longrightarrow> pi_timer p = None \<and> \<not> pi_circuitOpen p \<and> pi_consecutiveFailures p < SESSION_REFRESH_FAILURE_LIMIT"
  shows "layer_ok X (poll_result H i res s)"
proof -
  let ?set = "\<lambda>n. s\<lparr>polls := (polls s)(i \<mapsto> p\<lparr>pi_consecutiveFailures := n\<rparr>)\<rparr>"
  have set: "layer_ok (insert i X) (?set n)" for n by (rule set_poll_ok [OF ok p(1)]) (use p(2) in auto)
  have fin: "layer_ok X (?set n)" if "pi_disposed p \<or> n < SESSION_REFRESH_FAILURE_LIMIT" for n
    by (rule poll_settled [OF set, where p = "p\<lparr>pi_consecutiveFailures := n\<rparr>"]) (use p that in \<open>auto simp: poll_ok_def\<close>)
  have limit: "0 < SESSION_REFRESH_FAILURE_LIMIT" by (simp add: SESSION_REFRESH_FAILURE_LIMIT_def)
  show ?thesis
  proof (cases "classifyPollingRefreshResult res")
    case Poll_success
    then show ?thesis using fin [of 0] limit p(1) by (simp add: poll_result_def on_poll_def)
  next
    case Poll_ignored_failure
    have "layer_ok X s" by (rule poll_settled [OF ok p(1)]) (use p in \<open>auto simp: poll_ok_def\<close>)
    then show ?thesis using Poll_ignored_failure p(1) by (simp add: poll_result_def)
  next
    case Poll_retry_bootstrap
    show ?thesis
    proof (cases "pi_disposed p")
      case True
      then show ?thesis using fin [of 0] Poll_retry_bootstrap p(1)
        by (simp add: poll_result_def scheduleBootstrapRecoveryRetry_def Let_def)
    next
      case False
      then have "layer_ok X (scheduleBootstrapRecoveryRetry i (p\<lparr>pi_consecutiveFailures := 0\<rparr>) (?set 0))"
        by (intro scheduleBootstrapRecoveryRetry_ok [OF set]) (use p limit in auto)
      then show ?thesis using Poll_retry_bootstrap p(1) by (simp add: poll_result_def Let_def)
    qed
  next
    case Poll_counted_failure
    let ?n = "pi_consecutiveFailures p + 1"
    show ?thesis
    proof (cases "pi_disposed p \<or> ?n < SESSION_REFRESH_FAILURE_LIMIT")
      case True
      then show ?thesis using fin [of ?n] Poll_counted_failure p(1)
        by (auto simp: poll_result_def openCircuitBreaker_def Let_def)
    next
      case False
      then have "layer_ok X (openCircuitBreaker H i (p\<lparr>pi_consecutiveFailures := ?n\<rparr>) (?set ?n))"
        by (intro openCircuitBreaker_ok [OF set]) (use p in auto)
      then show ?thesis using False Poll_counted_failure p(1) by (simp add: poll_result_def Let_def)
    qed
  qed
qed

lemma poll_then_idle:
  "(\<And>p t res. polls s i = Some p \<Longrightarrow> pi_flight p = Some (Awaiting t) \<Longrightarrow> ticket_result t s \<noteq> Some res) \<Longrightarrow>
   poll_then H i s = s"
  by (cases "polls s i"; cases "pi_flight (the (polls s i))"; cases "the (pi_flight (the (polls s i)))")
    (auto simp: poll_then_def split: option.splits)

lemma poll_then_ok:
  assumes ok: "layer_ok {} s"
  shows "layer_ok {} (poll_then H i s)"
proof -
  consider (due) p t res where "polls s i = Some p" "pi_flight p = Some (Awaiting t)" "ticket_result t s = Some res"
    | (idle) "poll_then H i s = s"
    using poll_then_idle by metis
  then show ?thesis
  proof cases
    case due
    let ?p = "p\<lparr>pi_flight := Some After_then\<rparr>"
    have ok1: "layer_ok (insert i {}) (s\<lparr>polls := (polls s)(i \<mapsto> ?p)\<rparr>)"
      by (rule set_poll_ok [OF layer_ok_mono [OF ok] due(1)]) auto
    have "layer_ok {} (poll_result H i res (s\<lparr>polls := (polls s)(i \<mapsto> ?p)\<rparr>))"
    proof (rule poll_result_ok [OF ok1, of ?p])
      assume "\<not> pi_disposed ?p"
      then have "poll_ok (timers s) i p" using ok due(1) polls_okD(4) [of "{}" "timers s" "requests s" "polls s"]
        by (auto simp: layer_ok_def)
      then show "pi_timer ?p = None \<and> \<not> pi_circuitOpen ?p \<and> pi_consecutiveFailures ?p < SESSION_REFRESH_FAILURE_LIMIT"
        using due(2) by (simp add: poll_ok_def)
    qed auto
    then show ?thesis using due by (simp add: poll_then_def on_poll_def)
  qed (simp add: ok)
qed

lemma poll_finally_idle:
  "(\<And>p. polls s i = Some p \<Longrightarrow> pi_flight p \<noteq> Some After_then) \<Longrightarrow> poll_finally i s = s"
  by (simp add: poll_finally_def split: option.split)

lemma poll_finally_ok:
  assumes ok: "layer_ok {} s"
  shows "layer_ok {} (poll_finally i s)"
proof -
  consider p where "polls s i = Some p" "pi_flight p = Some After_then" | "poll_finally i s = s"
    using poll_finally_idle by metis
  then show ?thesis
  proof cases
    case (1 p)
    let ?p = "p\<lparr>pi_controller := None, pi_flight := None\<rparr>"
    have pok: "\<not> pi_disposed p \<Longrightarrow> poll_ok (timers s) i p"
      using ok 1(1) polls_okD(4) [of "{}" "timers s" "requests s" "polls s"] by (auto simp: layer_ok_def)
    have ok1: "layer_ok (insert i {}) (s\<lparr>polls := (polls s)(i \<mapsto> ?p)\<rparr>)"
      by (rule set_poll_ok [OF layer_ok_mono [OF ok] 1(1)]) auto
    show ?thesis
    proof (cases "\<not> pi_circuitOpen p \<and> pi_timer p = None")
      case True
      have "layer_ok {} (scheduleNext i ?p (s\<lparr>polls := (polls s)(i \<mapsto> ?p)\<rparr>))"
        by (rule scheduleNext_ok [OF ok1]) (use True pok in \<open>auto simp: poll_ok_def\<close>)
      then show ?thesis using 1 True by (simp add: poll_finally_def Let_def)
    next
      case False
      have "layer_ok {} (s\<lparr>polls := (polls s)(i \<mapsto> ?p)\<rparr>)"
        by (rule poll_settled [OF ok1, where p = ?p]) (use False pok 1 in \<open>auto simp: poll_ok_def\<close>)
      moreover have "poll_finally i s = s\<lparr>polls := (polls s)(i \<mapsto> ?p)\<rparr>"
        using 1 False by (auto simp: poll_finally_def Let_def)
      ultimately show ?thesis by simp
    qed
  qed (simp add: ok)
qed

text \<open>A timer of a run fires.\<close>

lemma poll_timer_fired_ok:
  assumes ok: "layer_ok {} s" and f: "fire h (timers s) = Some (task, sc)"
    and task: "slot_of (task, False) = (Poll_slot i, False)"
  shows "layer_ok {} (poll_timer_fired task i (s\<lparr>timers := sc\<rparr>))"
proof -
  let ?n = "sessionNoticeTimer s" and ?t = "pendingTransportRefreshTimer s"
  note parts = ok [unfolded layer_ok_def]
  have tok: "timers_ok (timers s) ?n ?t (requests s) (polls s)" using parts by blast
  note fired = fire_timer [OF tok f, unfolded task]
  obtain p where p: "polls s i = Some p" "\<not> pi_disposed p" "pi_timer p = Some h"
    using fired(1) by (auto split: option.splits if_splits)
  have pok: "poll_ok (timers s) i p"
    using p parts polls_okD(4) [of "{}" "timers s" "requests s" "polls s"] by auto
  let ?p = "p\<lparr>pi_timer := None\<rparr>"
  let ?s = "s\<lparr>timers := sc, polls := (polls s)(i \<mapsto> ?p)\<rparr>"
  have pk: "polls_ok (insert i {}) sc (requests s) (polls s) (currentPoll s) (nextPoll s)"
    by (rule polls_ok_kept [OF _ fired(4)]) (use layer_ok_mono [OF ok, of "{i}"] in \<open>auto simp: layer_ok_def\<close>)
  then have "polls_ok (insert i {}) sc (requests s) ((polls s)(i \<mapsto> ?p)) (currentPoll s) (nextPoll s)"
    by (rule polls_ok_replace [where po = "polls s" and i = i, OF _ p(1)]) (use polls_okD(5) [OF pk p(1)] in auto)
  moreover have "requests_ok sc (requests s) (latestRefreshRequestId s) (activeRefreshController s) (pendingRefresh s)"
    by (rule requests_ok_kept [OF _ fired(4)]) (use parts in auto)
  moreover have "notice_ok sc ?n (sessionNotice s)" using parts notice_ok_kept [OF _ fired(4)] by simp
  moreover have "timers_ok sc ?n ?t (requests s) ((polls s)(i \<mapsto> ?p))"
    using fired(2) p by (simp add: timers_ok_def)
  ultimately have ok1: "layer_ok (insert i {}) ?s" by (simp add: layer_ok_def)
  have limit: "0 < SESSION_REFRESH_FAILURE_LIMIT" by (simp add: SESSION_REFRESH_FAILURE_LIMIT_def)
  have flight: "pi_flight p = None \<or> pi_flight p = Some After_then"
    using pok p(3) by (cases "pi_flight p"; cases "the (pi_flight p)") (auto simp: poll_ok_def)
  have first: "on_poll i (\<lambda>p. p\<lparr>pi_timer := None\<rparr>) (s\<lparr>timers := sc\<rparr>) = ?s"
    by (simp add: on_poll_def p(1))
  show ?thesis
  proof (cases "\<exists>j. task = Poll_cooldown_over j")
    case True
    let ?q = "?p\<lparr>pi_circuitOpen := False, pi_consecutiveFailures := 0\<rparr>"
    have "layer_ok (insert i {}) (?s\<lparr>polls := (polls ?s)(i \<mapsto> ?q)\<rparr>)"
      by (rule set_poll_ok [OF ok1, where p = ?p])
        (use flight p polls_okD(5) [OF pk p(1)] in auto)
    then have "layer_ok {} (runRefreshLoop i (?s\<lparr>polls := (polls ?s)(i \<mapsto> ?q)\<rparr>))"
      by (rule runRefreshLoop_ok [where p = ?q]) (use p flight limit in auto)
    moreover have "poll_timer_fired task i (s\<lparr>timers := sc\<rparr>) = runRefreshLoop i (?s\<lparr>polls := (polls ?s)(i \<mapsto> ?q)\<rparr>)"
      using True p(2) unfolding poll_timer_fired_def first by (auto simp: on_poll_def)
    ultimately show ?thesis by simp
  next
    case False
    have "\<not> pi_circuitOpen p" using pok p(3) fired(5) False by (auto simp: poll_ok_def)
    moreover from this have "pi_consecutiveFailures p < SESSION_REFRESH_FAILURE_LIMIT" using pok by (simp add: poll_ok_def)
    ultimately have "layer_ok {} (runRefreshLoop i ?s)"
      by (intro runRefreshLoop_ok [OF ok1, where p = ?p]) (use p flight in auto)
    moreover have "poll_timer_fired task i (s\<lparr>timers := sc\<rparr>) = runRefreshLoop i ?s"
      using False unfolding poll_timer_fired_def first by (cases task) (simp_all add: Let_def)
    ultimately show ?thesis by simp
  qed
qed

subsection \<open>Starting and stopping\<close>

lemma start_polling_ok:
  assumes ok: "layer_ok {} s" and cur: "currentPoll s = None"
  shows "layer_ok {} (start_polling s)"
proof -
  let ?i = "nextPoll s"
  let ?p = "\<lparr>pi_disposed = False, pi_flight = None, pi_timer = None, pi_consecutiveFailures = 0,
    pi_circuitOpen = False, pi_controller = None\<rparr>"
  let ?s = "s\<lparr>polls := (polls s)(?i \<mapsto> ?p), currentPoll := Some ?i, nextPoll := ?i + 1\<rparr>"
  have pok: "polls_ok {} (timers s) (requests s) (polls s) (currentPoll s) (nextPoll s)"
    using ok by (simp add: layer_ok_def)
  have new: "polls s ?i = None" using polls_okD(1) [OF pok, of ?i] by (cases "polls s ?i") auto
  have "slot_table n t rq ((polls s)(?i \<mapsto> ?p)) = slot_table n t rq (polls s)" for n t rq
    unfolding slot_table_upd by (rule fun_upd_idem) (simp add: new)
  moreover have "polls_ok (insert ?i {}) (timers s) (requests s) ((polls s)(?i \<mapsto> ?p)) (Some ?i) (?i + 1)"
    by (rule polls_okI) (use pok cur in \<open>auto dest: polls_okD split: if_splits intro: less_SucI\<close>)
  ultimately have "layer_ok (insert ?i {}) ?s" using ok by (simp add: layer_ok_def timers_ok_def del: slot_table_upd)
  then have "layer_ok {} (runRefreshLoop ?i ?s)"
    by (rule runRefreshLoop_ok [where p = ?p]) (auto simp: SESSION_REFRESH_FAILURE_LIMIT_def)
  then show ?thesis by (simp add: start_polling_def Let_def)
qed

text \<open>Stopping, in one piece: the request of the run is aborted, its timer cleared, the run marked as disposed.\<close>

definition abandoned_refresh :: "poll_instance \<Rightarrow> 'a session_layer_scheme \<Rightarrow> 'a session_layer_scheme" where
  "abandoned_refresh p s =
     (case pi_controller p of Some (Started r) \<Rightarrow> outer_abort r s | _ \<Rightarrow> s)"

lemma outer_abort_fields [simp]:
  "polls (outer_abort r s) = polls s" "timers (outer_abort r s) = timers s"
  "currentPoll (outer_abort r s) = currentPoll s" "nextPoll (outer_abort r s) = nextPoll s"
  "sessionNoticeTimer (outer_abort r s) = sessionNoticeTimer s" "sessionNotice (outer_abort r s) = sessionNotice s"
  "pendingTransportRefreshTimer (outer_abort r s) = pendingTransportRefreshTimer s"
  "outer_abort r (s\<lparr>polls := po\<rparr>) = (outer_abort r s)\<lparr>polls := po\<rparr>"
  for s :: "'a session_layer_scheme"
  by (simp_all add: outer_abort_def abort_controller_def on_request_def split: option.split)

lemma abandoned_refresh_fields [simp]:
  "polls (abandoned_refresh p s) = polls s" "timers (abandoned_refresh p s) = timers s"
  "currentPoll (abandoned_refresh p s) = currentPoll s" "nextPoll (abandoned_refresh p s) = nextPoll s"
  "sessionNoticeTimer (abandoned_refresh p s) = sessionNoticeTimer s" "sessionNotice (abandoned_refresh p s) = sessionNotice s"
  "pendingTransportRefreshTimer (abandoned_refresh p s) = pendingTransportRefreshTimer s"
  by (simp_all add: abandoned_refresh_def split: option.split refresh_ticket.split)

lemma stop_polling_eq:
  assumes p: "currentPoll s = Some i" "polls s i = Some p"
  shows "stop_polling s =
    (abandoned_refresh p s)\<lparr>polls := (polls s)(i \<mapsto> p\<lparr>pi_disposed := True, pi_controller := None\<rparr>),
      timers := (case pi_timer p of None \<Rightarrow> timers s | Some h \<Rightarrow> clearTimeout h (timers s)), currentPoll := None\<rparr>"
proof -
  let ?d = "p\<lparr>pi_disposed := True, pi_controller := None\<rparr>"
  have same: "p\<lparr>pi_disposed := True\<rparr> = ?d" if "pi_controller p = None" using that by (cases p) simp
  have "abortActiveRefresh i p (s\<lparr>polls := (polls s)(i \<mapsto> p\<lparr>pi_disposed := True\<rparr>)\<rparr>) =
      (abandoned_refresh p s)\<lparr>polls := (polls s)(i \<mapsto> ?d)\<rparr>"
  proof (cases "pi_controller p")
    case None
    show ?thesis unfolding abortActiveRefresh_def abandoned_refresh_def None option.case same [OF None, symmetric]
      by (rule refl)
  qed (simp add: abortActiveRefresh_def abandoned_refresh_def on_poll_def split: refresh_ticket.split)
  then have "stop_polling s =
    (case pi_timer p of None \<Rightarrow> (abandoned_refresh p s)\<lparr>polls := (polls s)(i \<mapsto> ?d)\<rparr>
     | Some h \<Rightarrow> (abandoned_refresh p s)\<lparr>polls := (polls s)(i \<mapsto> ?d), timers := clearTimeout h (timers s)\<rparr>)\<lparr>currentPoll := None\<rparr>"
    using p by (simp add: stop_polling_def on_poll_def Let_def split: option.split)
  moreover have "a\<lparr>timers := timers s\<rparr> = a" if "timers a = timers s" for a :: "'a session_layer_scheme"
    using that by (cases a) simp
  then have "(abandoned_refresh p s)\<lparr>polls := (polls s)(i \<mapsto> ?d), timers := timers s\<rparr> =
      (abandoned_refresh p s)\<lparr>polls := (polls s)(i \<mapsto> ?d)\<rparr>" by simp
  ultimately show ?thesis by (cases "pi_timer p") simp_all
qed

lemma stop_polling_ok:
  assumes ok: "layer_ok {} s"
  shows "layer_ok {} (stop_polling s)" and "currentPoll (stop_polling s) = None"
proof -
  have pok: "polls_ok {} (timers s) (requests s) (polls s) (currentPoll s) (nextPoll s)"
    using ok by (simp add: layer_ok_def)
  have "layer_ok {} (stop_polling s) \<and> currentPoll (stop_polling s) = None"
  proof (cases "currentPoll s")
    case None
    then show ?thesis using ok by (simp add: stop_polling_def)
  next
    case (Some i)
    then obtain p where p: "polls s i = Some p" "\<not> pi_disposed p" using polls_okD(3) [OF pok] by blast
    let ?a = "abandoned_refresh p s"
    let ?sc = "case pi_timer p of None \<Rightarrow> timers s | Some h \<Rightarrow> clearTimeout h (timers s)"
    let ?po = "(polls s)(i \<mapsto> p\<lparr>pi_disposed := True, pi_controller := None\<rparr>)"
    let ?n = "sessionNoticeTimer s" and ?t = "pendingTransportRefreshTimer s"
    have oka: "layer_ok {} ?a"
      by (simp add: abandoned_refresh_def ok outer_abort_ok split: option.split refresh_ticket.split)
    note parts = oka [unfolded layer_ok_def abandoned_refresh_fields]
    let ?tab = "slot_table ?n ?t (requests ?a) (polls s)"
    have tok: "timers_ok (timers s) ?n ?t (requests ?a) (polls s)" using parts by blast
    have sl: "?tab (Poll_slot i, False) = pi_timer p" using p by simp
    have tk: "timers_ok ?sc ?n ?t (requests ?a) ?po \<and> others_kept ?tab (Poll_slot i, False) (timers s) ?sc"
    proof (cases "pi_timer p")
      case None
      then show ?thesis using tok p by (simp add: timers_ok_def fun_upd_idem others_kept_def)
    next
      case (Some h)
      then show ?thesis using clear_timer [OF tok, of "(Poll_slot i, False)" h] sl by (simp add: timers_ok_def)
    qed
    have pk: "polls_ok {i} ?sc (requests ?a) (polls s) (Some i) (nextPoll s)"
      by (rule polls_ok_kept [OF _ tk [THEN conjunct2]])
        (use layer_ok_mono [OF oka, of "{i}"] Some in \<open>auto simp: layer_ok_def\<close>)
    have gone: False if "?po j = Some q" "\<not> pi_disposed q" for j q
      using that polls_okD(2) [OF pk, of j q] by (auto split: if_splits)
    have "polls_ok {} ?sc (requests ?a) ?po None (nextPoll s)"
    proof (rule polls_okI)
      fix j q assume "?po j = Some q"
      then show "j < nextPoll s" using polls_okD(1) [OF pk] p(1) by (auto split: if_splits)
    next
      fix j q r assume "?po j = Some q" "pi_flight q = Some (Awaiting (Started r))"
      then show "requests ?a r \<noteq> None" using polls_okD(5) [OF pk] p(1) by (auto split: if_splits)
    qed (use gone in auto)
    moreover have "notice_ok ?sc ?n (sessionNotice s)"
      using parts notice_ok_kept [OF _ tk [THEN conjunct2]] by simp
    moreover have "requests_ok ?sc (requests ?a) (latestRefreshRequestId ?a) (activeRefreshController ?a) (pendingRefresh ?a)"
      by (rule requests_ok_kept [OF _ tk [THEN conjunct2]]) (use parts in auto)
    ultimately show ?thesis unfolding stop_polling_eq [OF Some p(1)] using tk by (simp add: layer_ok_def)
  qed
  then show "layer_ok {} (stop_polling s)" "currentPoll (stop_polling s) = None" by blast+
qed

lemma poll_effect_ok: "layer_ok {} s \<Longrightarrow> layer_ok {} (poll_effect w s)"
  by (simp add: poll_effect_def Let_def start_polling_ok stop_polling_ok)

subsection \<open>Refreshes asked for by the transport\<close>

lemma scheduleTrailing_ok:
  assumes ok: "layer_ok X s"
  shows "layer_ok X (scheduleTrailingTransportRefresh t s)"
proof (cases "pendingTransportRefreshTimer s")
  case (Some h)
  then show ?thesis using ok by (simp add: scheduleTrailingTransportRefresh_def)
next
  case None
  let ?n = "sessionNoticeTimer s"
  note parts = ok [unfolded layer_ok_def None]
  have tok: "timers_ok (timers s) ?n None (requests s) (polls s)" using parts by blast
  define d where "d = (case lastTransportRefreshAt s of None \<Rightarrow> 0
      | Some l \<Rightarrow> max 0 (TRANSPORT_REFRESH_MIN_INTERVAL_MS - (t - l)))"
  obtain h sc where set: "setTimeout Trailing_refresh d (timers s) = (h, sc)" by fastforce
  have eq: "scheduleTrailingTransportRefresh t s = s\<lparr>timers := sc, pendingTransportRefreshTimer := Some h\<rparr>"
    using None set by (simp add: scheduleTrailingTransportRefresh_def d_def)
  have free: "slot_table ?n None (requests s) (polls s) (slot_of (Trailing_refresh, False)) = None" by simp
  note arm = arm_timer [OF tok set free]
  have "timers_ok sc ?n (Some h) (requests s) (polls s)" using arm(1) by (simp add: timers_ok_def)
  then show ?thesis using parts ok_kept [OF _ arm(3) [of "(Trailing_slot, False)"]] unfolding eq
    by (simp add: layer_ok_def)
qed

lemma requestTransportRefresh_ok: "layer_ok X s \<Longrightarrow> layer_ok X (snd (requestTransportRefresh s))"
  by (simp add: requestTransportRefresh_def Let_def scheduleTrailing_ok requestSessionRefresh_ok)

lemma trailing_refresh_ok:
  assumes ok: "layer_ok X s" and f: "fire h (timers s) = Some (Trailing_refresh, sc)"
  shows "layer_ok X (trailing_refresh (s\<lparr>timers := sc\<rparr>))"
proof -
  let ?n = "sessionNoticeTimer s" and ?t = "pendingTransportRefreshTimer s"
  note parts = ok [unfolded layer_ok_def]
  have tok: "timers_ok (timers s) ?n ?t (requests s) (polls s)" using parts by blast
  note fired = fire_timer [OF tok f]
  have "layer_ok X (s\<lparr>timers := sc, pendingTransportRefreshTimer := None, lastTransportRefreshAt := l\<rparr>)" for l
    using parts fired(2) ok_kept [OF _ fired(4)] by (simp add: layer_ok_def timers_ok_def)
  then show ?thesis by (simp add: trailing_refresh_def requestSessionRefresh_ok)
qed

subsection \<open>The steps\<close>

definition run_session_task :: "session_task \<Rightarrow> 'a session_layer_scheme \<Rightarrow> 'a session_layer_scheme" where
  "run_session_task task s =
     (case task of
        Notice_expired \<Rightarrow> notice_expired s
      | Initial_notice_expired \<Rightarrow> initial_notice_expired s
      | Refresh_timeout r \<Rightarrow> refresh_timed_out r s
      | Trailing_refresh \<Rightarrow> trailing_refresh s
      | Poll_again i \<Rightarrow> poll_timer_fired task i s
      | Poll_bootstrap_retry i \<Rightarrow> poll_timer_fired task i s
      | Poll_cooldown_over i \<Rightarrow> poll_timer_fired task i s)"

definition fire_session_timer :: "nat \<Rightarrow> 'a session_layer_scheme \<Rightarrow> 'a session_layer_scheme" where
  "fire_session_timer h s =
     (case fire h (timers s) of None \<Rightarrow> s | Some (task, sc) \<Rightarrow> run_session_task task (s\<lparr>timers := sc\<rparr>))"

text \<open>
  What may happen to the layer: calls from the coordinator and the controller, answers of the network,
  microtasks, timers, the passing of time, and other pages changing the storage areas.
\<close>

datatype session_step =
    Session_ready jsstring bool
  | Session_missing
  | Session_transition "jsstring option" attach_mode
  | Session_mode attach_mode
  | Session_menu bool
  | Session_notice notice
  | Session_clear_notice
  | Session_storage_failure storage_failure
  | Session_refresh refresh_trigger "bool option"
  | Session_transport_refresh
  | Session_outer_abort nat
  | Session_fetched nat sessions_fetch_result
  | Session_fetch_rejected nat thrown
  | Session_resume nat
  | Session_finish nat
  | Session_poll_effect bool
  | Session_poll_then nat
  | Session_poll_finally nat
  | Session_timer nat
  | Session_time nat int
  | Session_areas storage_access storage_access

fun session_run_step :: "host \<Rightarrow> session_step \<Rightarrow> 'a session_layer_scheme \<Rightarrow> 'a session_layer_scheme" where
  "session_run_step H (Session_ready sid ro) s = applyReadySession H sid ro s"
| "session_run_step H Session_missing s = clearMissingSession H s"
| "session_run_step H (Session_transition sid m) s = transitionSessionContext H sid m s"
| "session_run_step H (Session_mode m) s = s\<lparr>attachMode := m\<rparr>"
| "session_run_step H (Session_menu b) s = s\<lparr>sessionMenuOpen := b\<rparr>"
| "session_run_step H (Session_notice n) s = publishNoticeDetails H n s"
| "session_run_step H Session_clear_notice s = clearSessionNotice s"
| "session_run_step H (Session_storage_failure f) s = reportStorageFailure H f s"
| "session_run_step H (Session_refresh tr sig) s = snd (requestSessionRefresh tr sig s)"
| "session_run_step H Session_transport_refresh s = snd (requestTransportRefresh s)"
| "session_run_step H (Session_outer_abort r) s = outer_abort r s"
| "session_run_step H (Session_fetched r res) s = settle_fetch r (Fetched res) s"
| "session_run_step H (Session_fetch_rejected r e) s = settle_fetch r (Fetch_rejected e) s"
| "session_run_step H (Session_resume r) s = resume_refresh H r s"
| "session_run_step H (Session_finish r) s = finish_refresh r s"
| "session_run_step H (Session_poll_effect w) s = poll_effect w s"
| "session_run_step H (Session_poll_then i) s = poll_then H i s"
| "session_run_step H (Session_poll_finally i) s = poll_finally i s"
| "session_run_step H (Session_timer h) s = fire_session_timer h s"
| "session_run_step H (Session_time d w) s = s\<lparr>timers := pass_time d w (timers s)\<rparr>"
| "session_run_step H (Session_areas la sa) s = s\<lparr>localAccess := la, sessionAccess := sa\<rparr>"

definition session_run :: "host \<Rightarrow> session_step list \<Rightarrow> 'a session_layer_scheme \<Rightarrow> 'a session_layer_scheme" where
  "session_run H es s = fold (session_run_step H) es s"

text \<open>Every state the layer reaches from a mount without an initial notice.\<close>

definition session_reached ::
  "host \<Rightarrow> session_step list \<Rightarrow> int \<Rightarrow> storage_access \<Rightarrow> storage_access \<Rightarrow> session_layer" where
  "session_reached H es clock la sa = session_run H es (mount_session H clock [] la sa)"

lemma fire_session_timer_ok:
  assumes ok: "layer_ok {} s"
  shows "layer_ok {} (fire_session_timer h s)"
proof (cases "fire h (timers s)")
  case None
  then show ?thesis using ok by (simp add: fire_session_timer_def)
next
  case (Some ts)
  then obtain task sc where f: "fire h (timers s) = Some (task, sc)" by (cases ts) auto
  note parts = ok [unfolded layer_ok_def]
  have tok: "timers_ok (timers s) (sessionNoticeTimer s) (pendingTransportRefreshTimer s) (requests s) (polls s)"
    using parts by blast
  have "layer_ok {} (run_session_task task (s\<lparr>timers := sc\<rparr>))"
  proof (cases task)
    case Notice_expired
    note fired = fire_timer [OF tok f [unfolded Notice_expired], simplified]
    show ?thesis using parts fired(2) ok_kept(2,3) [OF _ fired(4)]
      by (simp add: run_session_task_def Notice_expired notice_expired_def layer_ok_def timers_ok_def notice_ok_def)
  next
    case Initial_notice_expired
    note fired = fire_timer [OF tok f [unfolded Initial_notice_expired], simplified]
    show ?thesis using parts fired(3) ok_kept(2,3) [OF _ fired(4)]
      by (simp add: run_session_task_def Initial_notice_expired initial_notice_expired_def layer_ok_def notice_ok_def)
  next
    case Refresh_timeout
    then show ?thesis using timed_out_ok [OF ok] f by (simp add: run_session_task_def)
  next
    case Trailing_refresh
    then show ?thesis using trailing_refresh_ok [OF ok] f by (simp add: run_session_task_def)
  qed (use poll_timer_fired_ok [OF ok] f in \<open>auto simp: run_session_task_def\<close>)
  then show ?thesis using f by (simp add: fire_session_timer_def)
qed

lemma pass_time_ok: "layer_ok X s \<Longrightarrow> layer_ok X (s\<lparr>timers := pass_time d w (timers s)\<rparr>)"
  by (simp add: layer_ok_def timers_ok_def timer_labels_def [abs_def] notice_ok_def requests_ok_def polls_ok_def poll_ok_def)

lemma session_step_ok: "layer_ok {} s \<Longrightarrow> layer_ok {} (session_run_step H e s)"
  by (cases e) (simp_all add: identity_operations_ok publishNoticeDetails_ok clearSessionNotice_ok reportStorageFailure_ok
      requestSessionRefresh_ok requestTransportRefresh_ok outer_abort_ok settle_fetch_ok resume_refresh_ok finish_refresh_ok
      poll_effect_ok poll_then_ok poll_finally_ok fire_session_timer_ok pass_time_ok)

lemma session_run_ok: "layer_ok {} s \<Longrightarrow> layer_ok {} (session_run H es s)"
  unfolding session_run_def by (induction es arbitrary: s) (simp_all add: session_step_ok)

lemma mount_ok: "layer_ok {} (mount_session H clock [] la sa)"
proof -
  have "layer_ok {} (initialSession clock [] la sa)"
    by (simp add: layer_ok_def initialSession_def timers_ok_def slot_inv_def notice_ok_def requests_ok_def polls_ok_def
        timer_labels_def new_scheduler_def pending_def)
      (auto elim: slot_table.elims split: option.splits)
  then show ?thesis by (simp add: mount_session_def initial_notice_effect_def load_ok)
qed

lemma session_reached_ok: "layer_ok {} (session_reached H es clock la sa)"
  unfolding session_reached_def by (rule session_run_ok [OF mount_ok])

end
