(* ===== verification/Session_Time.thy ===== *)
theory Session_Time
  imports Session_Steps
begin

section \<open>How long a timer of the session layer may wait\<close>

text \<open>
  Every delay of the session layer is a constant of the code, except the one of the trailing transport
  refresh, which depends on the wall clock.  No timer is ever due later than its constant from now.
\<close>

fun longest_wait :: "session_task \<Rightarrow> int option" where
  "longest_wait Notice_expired = Some NOTICE_VISIBLE_MS"
| "longest_wait Initial_notice_expired = Some NOTICE_VISIBLE_MS"
| "longest_wait (Refresh_timeout r) = Some SESSION_REFRESH_CALL_TIMEOUT_MS"
| "longest_wait Trailing_refresh = None"
| "longest_wait (Poll_again i) = Some SESSION_REFRESH_MAX_BACKOFF_MS"
| "longest_wait (Poll_bootstrap_retry i) = Some SESSION_REFRESH_BOOTSTRAP_RETRY_MS"
| "longest_wait (Poll_cooldown_over i) = Some SESSION_REFRESH_CIRCUIT_BREAKER_COOLDOWN_MS"

definition due_ok :: "session_task scheduler \<Rightarrow> bool" where
  "due_ok sc \<longleftrightarrow> (\<forall>h tm w. armed sc h = Some tm \<longrightarrow> longest_wait (callback tm) = Some w \<longrightarrow> due tm \<le> mono sc + w)"

lemma due_set:
  assumes "due_ok sc" "\<And>w. longest_wait task = Some w \<Longrightarrow> max 0 d \<le> w"
  shows "due_ok (snd (setTimeout task d sc))"
  using assms by (fastforce simp: due_ok_def setTimeout_def add_timer_def)

lemma due_set_split:
  assumes "due_ok sc" "\<And>w. longest_wait task = Some w \<Longrightarrow> max 0 d \<le> w" "setTimeout task d sc = (h, sc')"
  shows "due_ok sc'"
  using due_set [of sc task d, OF assms(1,2)] assms(3) by simp

lemma due_clear [intro, simp]: "due_ok sc \<Longrightarrow> due_ok (clearTimeout h sc)"
  by (auto simp: due_ok_def clearTimeout_def)

lemma due_pass [intro, simp]: "due_ok sc \<Longrightarrow> due_ok (pass_time d w sc)"
  by (fastforce simp: due_ok_def pass_time_def)

lemma due_fire:
  assumes ok: "due_ok sc" and f: "fire h sc = Some (task, sc')" and once: "pending sc h = Some (task, False)"
  shows "due_ok sc'"
proof -
  obtain tm where tm: "armed sc h = Some tm" "period tm = None" using once by (auto simp: pending_def)
  have "sc' = sc\<lparr>armed := (armed sc)(h := None)\<rparr>" using f tm by (auto simp: fire_def split: if_splits)
  then show ?thesis using ok by (simp add: due_ok_def)
qed

subsection \<open>No operation arms a timer for longer\<close>

lemma delay_range: "SESSION_REFRESH_INTERVAL_MS \<le> nextSessionRefreshDelayMs n"
  "nextSessionRefreshDelayMs n \<le> SESSION_REFRESH_MAX_BACKOFF_MS"
proof -
  have "(1::int) \<le> 2 ^ min (n - 1) 3" by simp
  then show "SESSION_REFRESH_INTERVAL_MS \<le> nextSessionRefreshDelayMs n"
    by (simp add: nextSessionRefreshDelayMs_def SESSION_REFRESH_INTERVAL_MS_def SESSION_REFRESH_MAX_BACKOFF_MS_def)
  show "nextSessionRefreshDelayMs n \<le> SESSION_REFRESH_MAX_BACKOFF_MS"
    by (simp add: nextSessionRefreshDelayMs_def SESSION_REFRESH_INTERVAL_MS_def SESSION_REFRESH_MAX_BACKOFF_MS_def)
qed

lemmas waits = NOTICE_VISIBLE_MS_def SESSION_REFRESH_CALL_TIMEOUT_MS_def SESSION_REFRESH_MAX_BACKOFF_MS_def
  SESSION_REFRESH_BOOTSTRAP_RETRY_MS_def SESSION_REFRESH_CIRCUIT_BREAKER_COOLDOWN_MS_def

lemma clearSessionNotice_due: "due_ok (timers s) \<Longrightarrow> due_ok (timers (clearSessionNotice s))"
  by (simp add: clearSessionNotice_def clear_notice_timer_def split: option.split)

lemma publishSessionNotice_due: "due_ok (timers s) \<Longrightarrow> due_ok (timers (publishSessionNotice m s))"
  by (auto simp: publishSessionNotice_def Let_def split: prod.split option.split
      intro: due_set_split [rotated 2] simp: waits)

lemma publishNoticeDetails_due: "due_ok (timers s) \<Longrightarrow> due_ok (timers (publishNoticeDetails H d s))"
  by (simp add: publishNoticeDetails_def Let_def publishSessionNotice_due)

lemma throttled_due: "due_ok (timers s) \<Longrightarrow> due_ok (timers (snd (publishThrottledSessionNotice ref k m c s)))"
  by (simp add: publishThrottledSessionNotice_def notifyWithFailureThrottle_def Let_def publishSessionNotice_due split: prod.split)

lemma reportStorageFailure_due: "due_ok (timers s) \<Longrightarrow> due_ok (timers (reportStorageFailure H f s))"
  by (simp add: reportStorageFailure_def case_prod_beta throttled_due)

lemma publishRefreshFailure_due: "due_ok (timers s) \<Longrightarrow> due_ok (timers (publishRefreshFailure H f s))"
  by (simp add: publishRefreshFailure_def case_prod_beta throttled_due split: option.split)

lemma reportFailure_due: "due_ok (timers s) \<Longrightarrow> due_ok (timers (reportFailure H f s))"
  by (simp add: reportFailure_def reportStorageFailure_due split: option.split)

lemma persistence_due:
  "due_ok (timers s) \<Longrightarrow> due_ok (timers (load_session_id H s))"
  "due_ok (timers s) \<Longrightarrow> due_ok (timers (load_last_session_id H s))"
  "due_ok (timers s) \<Longrightarrow> due_ok (timers (load_session_history H s))"
  "due_ok (timers s) \<Longrightarrow> due_ok (timers (clearActiveSessionStorage H s))"
  "due_ok (timers s) \<Longrightarrow> due_ok (timers (persistActiveSessionStorage H n s))"
  "due_ok (timers s) \<Longrightarrow> due_ok (timers (rememberSession H n s))"
  by (simp_all add: load_session_id_def load_last_session_id_def load_session_history_def clearActiveSessionStorage_def
      persistActiveSessionStorage_def rememberSession_def resolveStorageAccess_def set_local_def set_session_def Let_def
      case_prod_beta reportFailure_due split: option.split)

lemma identity_due:
  "due_ok (timers s) \<Longrightarrow> due_ok (timers (applyReadySession H n ro s))"
  "due_ok (timers s) \<Longrightarrow> due_ok (timers (clearMissingSession H s))"
  "due_ok (timers s) \<Longrightarrow> due_ok (timers (transitionSessionContext H n' m s))"
  by (simp_all add: applyReadySession_def clearMissingSession_def transitionSessionContext_def Let_def
      persistence_due clearSessionNotice_due split: option.split)

lemma requestSessionRefresh_due: "due_ok (timers s) \<Longrightarrow> due_ok (timers (snd (requestSessionRefresh tr sig s)))"
  by (auto simp: requestSessionRefresh_def launch_request_def abort_controller_def on_request_def Let_def case_prod_beta waits
      split: option.split intro!: due_set)

lemma refresh_due:
  "due_ok (timers s) \<Longrightarrow> due_ok (timers (abort_controller r s))"
  "due_ok (timers s) \<Longrightarrow> due_ok (timers (settle_fetch r out s))"
  "due_ok (timers s) \<Longrightarrow> due_ok (timers (outer_abort r s))"
  "due_ok (timers s) \<Longrightarrow> due_ok (timers (refresh_timed_out r s))"
  "due_ok (timers s) \<Longrightarrow> due_ok (timers (answer r res s))"
  by (simp_all add: abort_controller_def settle_fetch_def outer_abort_def refresh_timed_out_def answer_def on_request_def
      split: option.split)

lemma resume_refresh_due: "due_ok (timers s) \<Longrightarrow> due_ok (timers (resume_refresh H r s))"
  by (simp add: resume_refresh_def fail_with_def consume_payload_def onRefreshSuccess_def onInvalidEntries_def Let_def
      refresh_due publishRefreshFailure_due publishNoticeDetails_due
      split: option.split refresh_phase.split race_outcome.split sum.split)

lemma finish_refresh_due: "due_ok (timers s) \<Longrightarrow> due_ok (timers (finish_refresh r s))"
  by (auto simp: finish_refresh_def on_request_def Let_def split: option.split refresh_phase.split
      intro!: requestSessionRefresh_due)

lemma transport_refresh_due:
  "due_ok (timers s) \<Longrightarrow> due_ok (timers (snd (requestTransportRefresh s)))"
  "due_ok (timers s) \<Longrightarrow> due_ok (timers (trailing_refresh s))"
  by (auto simp: requestTransportRefresh_def scheduleTrailingTransportRefresh_def trailing_refresh_def Let_def case_prod_beta
      intro!: requestSessionRefresh_due due_set split: option.split)

lemma on_poll_timers [simp]: "timers (on_poll i f s) = timers s"
  by (simp add: on_poll_def split: option.split)

lemma arm_poll_timer_due:
  assumes "due_ok (timers s)" "\<And>w. longest_wait task = Some w \<Longrightarrow> max 0 d \<le> w"
  shows "due_ok (timers (arm_poll_timer i task d s))"
  using due_set [of "timers s" task d, OF assms] by (simp add: arm_poll_timer_def case_prod_beta)

lemma runRefreshLoop_due: "due_ok (timers s) \<Longrightarrow> due_ok (timers (runRefreshLoop i s))"
  by (simp add: runRefreshLoop_def case_prod_beta requestSessionRefresh_due split: option.split)

lemma poll_arming_due:
  "due_ok (timers s) \<Longrightarrow> due_ok (timers (scheduleNext i p s))"
  "due_ok (timers s) \<Longrightarrow> due_ok (timers (scheduleBootstrapRecoveryRetry i p s))"
  "due_ok (timers s) \<Longrightarrow> due_ok (timers (openCircuitBreaker H i p s))"
  using delay_range [of "pi_consecutiveFailures p"]
  by (auto simp: scheduleNext_def scheduleBootstrapRecoveryRetry_def openCircuitBreaker_def onRefreshCircuitOpen_def waits
      intro!: arm_poll_timer_due publishNoticeDetails_due)

lemma poll_callbacks_due:
  "due_ok (timers s) \<Longrightarrow> due_ok (timers (poll_result H i res s))"
  "due_ok (timers s) \<Longrightarrow> due_ok (timers (poll_finally i s))"
  "due_ok (timers s) \<Longrightarrow> due_ok (timers (poll_timer_fired task i s))"
  by (simp_all add: poll_result_def poll_finally_def poll_timer_fired_def Let_def poll_arming_due runRefreshLoop_due
      split: option.split polling_result.split session_task.split)

lemma poll_then_due: "due_ok (timers s) \<Longrightarrow> due_ok (timers (poll_then H i s))"
  by (simp add: poll_then_def poll_callbacks_due split: option.split poll_flight.split)

lemma poll_effect_due: "due_ok (timers s) \<Longrightarrow> due_ok (timers (poll_effect w s))"
proof -
  assume ok: "due_ok (timers s)"
  then have "due_ok (timers (stop_polling s))"
    by (simp add: stop_polling_def abortActiveRefresh_def Let_def refresh_due split: option.split refresh_ticket.split)
  then show ?thesis by (simp add: poll_effect_def start_polling_def Let_def runRefreshLoop_due)
qed

lemma fire_session_timer_due:
  assumes ok: "layer_ok {} s" and due: "due_ok (timers s)"
  shows "due_ok (timers (fire_session_timer h s))"
proof (cases "fire h (timers s)")
  case (Some ts)
  then obtain task sc where f: "fire h (timers s) = Some (task, sc)" by (cases ts) auto
  have "due_ok sc" using due_fire [OF due f] fire_timer(5) [OF _ f] ok unfolding layer_ok_def by blast
  then show ?thesis using f
    by (simp add: fire_session_timer_def run_session_task_def notice_expired_def initial_notice_expired_def refresh_due
        transport_refresh_due poll_callbacks_due split: session_task.split)
qed (simp add: fire_session_timer_def due)

lemma session_step_due:
  assumes "layer_ok {} s" "due_ok (timers s)"
  shows "due_ok (timers (session_run_step H e s))"
  using assms by (cases e) (simp_all add: identity_due publishNoticeDetails_due clearSessionNotice_due reportStorageFailure_due
      requestSessionRefresh_due transport_refresh_due refresh_due resume_refresh_due finish_refresh_due
      poll_effect_due poll_then_due poll_callbacks_due fire_session_timer_due)

lemma session_run_due:
  assumes "layer_ok {} s" "due_ok (timers s)"
  shows "due_ok (timers (session_run H es s))"
  using assms unfolding session_run_def by (induction es arbitrary: s) (simp_all add: session_step_ok session_step_due)

lemma session_reached_due: "due_ok (timers (session_reached H es clock la sa))"
proof -
  have "due_ok (timers (initialSession clock [] la sa))"
    by (simp add: initialSession_def new_scheduler_def due_ok_def)
  then have "due_ok (timers (mount_session H clock [] la sa))"
    by (simp add: mount_session_def initial_notice_effect_def persistence_due)
  then show ?thesis unfolding session_reached_def by (rule session_run_due [OF mount_ok])
qed

end
