(* ===== verification/Session_Properties.thy ===== *)
theory Session_Properties
  imports Session_Time
begin

section \<open>What the session layer guarantees\<close>

text \<open>
  Properties of every state the session layer reaches from a mount (\<open>session_reached\<close>), through any
  sequence of calls, answers of the network, microtasks, timers and clock changes.
\<close>

subsection \<open>Timers\<close>

text \<open>The field of the code that keeps the handle of a timer with this callback.\<close>

definition poll_timer :: "nat \<Rightarrow> 'a session_layer_scheme \<Rightarrow> nat option" where
  "poll_timer i s = (case polls s i of Some p \<Rightarrow> if pi_disposed p then None else pi_timer p | None \<Rightarrow> None)"

fun timer_owner :: "session_task \<Rightarrow> 'a session_layer_scheme \<Rightarrow> nat option" where
  "timer_owner Notice_expired s = sessionNoticeTimer s"
| "timer_owner Initial_notice_expired s = sessionNoticeTimer s"
| "timer_owner (Refresh_timeout r) s =
     (case requests s r of Some q \<Rightarrow> if finished q then None else rq_timer q | None \<Rightarrow> None)"
| "timer_owner Trailing_refresh s = pendingTransportRefreshTimer s"
| "timer_owner (Poll_again i) s = poll_timer i s"
| "timer_owner (Poll_bootstrap_retry i) s = poll_timer i s"
| "timer_owner (Poll_cooldown_over i) s = poll_timer i s"

lemma timer_owner_slot:
  "timer_owner task s =
   slot_table (sessionNoticeTimer s) (pendingTransportRefreshTimer s) (requests s) (polls s) (slot_of (task, False))"
  by (cases task) (simp_all add: poll_timer_def)

lemma live_timer_owned:
  assumes ok: "layer_ok X s" and live: "pending (timers s) h = Some (task, rep)"
  shows "\<not> rep" "timer_owner task s = Some h"
proof -
  have t: "timers_ok (timers s) (sessionNoticeTimer s) (pendingTransportRefreshTimer s) (requests s) (polls s)"
    using ok by (simp add: layer_ok_def)
  show "\<not> rep" by (rule timers_once [OF t live])
  then show "timer_owner task s = Some h"
    using slot_live [OF t [unfolded timers_ok_def], of h] live by (simp add: timer_owner_slot timer_labels_def)
qed

lemma live_due:
  assumes "due_ok sc" "pending sc h = Some (task, rep)" "longest_wait task = Some w" "w \<le> int d"
  obtains sc' where "fire h (pass_time d t sc) = Some (task, sc')"
proof -
  obtain tm where "armed sc h = Some tm" "callback tm = task" using assms(2) by (auto simp: pending_def)
  moreover have "due tm \<le> mono sc + w" using assms(1,3) calculation by (auto simp: due_ok_def)
  ultimately show thesis using assms(4) that by (simp add: fire_def pass_time_def)
qed


subsection \<open>Refreshes\<close>

text \<open>Only the continuation of a request replaces the list of live sessions.\<close>

lemma notice_keeps_list [simp]:
  "liveSessions (publishSessionNotice m s) = liveSessions s" "liveSessions (clearSessionNotice s) = liveSessions s"
  "liveSessions (publishNoticeDetails H d s) = liveSessions s" "liveSessions (reportStorageFailure H f s) = liveSessions s"
  "liveSessions (publishRefreshFailure H g s) = liveSessions s"
  "liveSessions (snd (publishThrottledSessionNotice ref k m c s)) = liveSessions s"
  by (simp_all add: publishSessionNotice_def clearSessionNotice_def clear_notice_timer_def publishNoticeDetails_def
      reportStorageFailure_def publishRefreshFailure_def publishThrottledSessionNotice_def notifyWithFailureThrottle_def
      Let_def case_prod_beta split: option.split)

lemma identity_keeps_list [simp]:
  "liveSessions (clearActiveSessionStorage H s) = liveSessions s"
  "liveSessions (persistActiveSessionStorage H n s) = liveSessions s"
  "liveSessions (rememberSession H n s) = liveSessions s"
  by (simp_all add: clearActiveSessionStorage_def persistActiveSessionStorage_def rememberSession_def
      resolveStorageAccess_def reportFailure_def set_local_def set_session_def Let_def case_prod_beta split: option.split)

lemma request_keeps_list [simp]:
  "liveSessions (on_request r f s) = liveSessions s" "liveSessions (abort_controller r s) = liveSessions s"
  "liveSessions (settle_fetch r out s) = liveSessions s" "liveSessions (outer_abort r s) = liveSessions s"
  "liveSessions (refresh_timed_out r s) = liveSessions s"
  "liveSessions (snd (requestSessionRefresh tr sig s)) = liveSessions s"
  by (simp_all add: on_request_def abort_controller_def settle_fetch_def outer_abort_def refresh_timed_out_def
      requestSessionRefresh_def launch_request_def Let_def case_prod_beta split: option.split)

lemma finish_keeps_list [simp]: "liveSessions (finish_refresh r s) = liveSessions s"
  by (simp add: finish_refresh_def Let_def split: option.split refresh_phase.split)

lemma transport_keeps_list [simp]:
  "liveSessions (snd (requestTransportRefresh s)) = liveSessions s" "liveSessions (trailing_refresh s) = liveSessions s"
  by (simp_all add: requestTransportRefresh_def scheduleTrailingTransportRefresh_def trailing_refresh_def Let_def
      case_prod_beta split: option.split)

lemma poll_keeps_list [simp]:
  "liveSessions (on_poll i f s) = liveSessions s" "liveSessions (arm_poll_timer i task d s) = liveSessions s"
  "liveSessions (runRefreshLoop i s) = liveSessions s" "liveSessions (scheduleNext i p s) = liveSessions s"
  "liveSessions (scheduleBootstrapRecoveryRetry i p s) = liveSessions s"
  "liveSessions (openCircuitBreaker H i p s) = liveSessions s"
  by (simp_all add: on_poll_def arm_poll_timer_def runRefreshLoop_def scheduleNext_def scheduleBootstrapRecoveryRetry_def
      openCircuitBreaker_def onRefreshCircuitOpen_def case_prod_beta split: option.split)

lemma polling_keeps_list [simp]:
  "liveSessions (poll_result H i res s) = liveSessions s" "liveSessions (poll_finally i s) = liveSessions s"
  "liveSessions (poll_timer_fired task i s) = liveSessions s" "liveSessions (stop_polling s) = liveSessions s"
  by (simp_all add: poll_result_def poll_finally_def poll_timer_fired_def stop_polling_def abortActiveRefresh_def Let_def
      split: option.split polling_result.split session_task.split refresh_ticket.split)

lemma effects_keep_list [simp]:
  "liveSessions (poll_then H i s) = liveSessions s" "liveSessions (poll_effect w s) = liveSessions s"
  "liveSessions (fire_session_timer h s) = liveSessions s"
  by (simp_all add: poll_then_def poll_effect_def start_polling_def fire_session_timer_def run_session_task_def Let_def
      notice_expired_def initial_notice_expired_def split: option.split poll_flight.split session_task.split)

lemma other_steps_keep_list:
  "(\<And>r. e \<noteq> Session_resume r) \<Longrightarrow> liveSessions (session_run_step H e s) = liveSessions s"
  by (cases e) (auto simp: applyReadySession_def clearMissingSession_def transitionSessionContext_def Let_def
      split: option.split)

lemma resume_changes_list:
  assumes "liveSessions (resume_refresh H r s) \<noteq> liveSessions s"
  obtains q payload sessions n where "requests s r = Some q" "rq_phase q = Settled (Fetched (Inr payload))"
    "latestRefreshRequestId s = r" "\<not> rq_aborted q" "\<not> rq_timedOut q"
    "parseSessionsResponse payload = Inr (sessions, n)" "liveSessions (resume_refresh H r s) = sessions"
proof -
  have consumed: "liveSessions (consume_payload H r payload s) = (case parseSessionsResponse payload of
      Inl f \<Rightarrow> liveSessions s | Inr (sessions, n) \<Rightarrow> sessions)" for payload
    by (simp add: consume_payload_def answer_def onRefreshSuccess_def onInvalidEntries_def Let_def split: sum.split)
  show thesis
    using assms that
    by (auto simp: resume_refresh_def answer_def fail_with_def consumed
        split: option.splits refresh_phase.splits race_outcome.splits sum.splits if_splits)
qed

text \<open>C20: Whatever happens, the list of live sessions shown to the user is only ever replaced by the answer of the
  newest request, one that was neither aborted nor timed out, and by exactly the sessions its payload
  describes: answers of superseded, cancelled or late requests never reach the list.\<close>

theorem stale_answers_never_shown:
  assumes "liveSessions (session_run_step H e s) \<noteq> liveSessions s"
  shows "\<exists>q payload n. e = Session_resume (latestRefreshRequestId s) \<and>
    requests s (latestRefreshRequestId s) = Some q \<and> \<not> rq_aborted q \<and> \<not> rq_timedOut q \<and>
    rq_phase q = Settled (Fetched (Inr payload)) \<and>
    parseSessionsResponse payload = Inr (liveSessions (session_run_step H e s), n)"
proof -
  obtain r where e: "e = Session_resume r" using other_steps_keep_list assms by blast
  with assms have "liveSessions (resume_refresh H r s) \<noteq> liveSessions s" by simp
  then obtain q payload sessions n where "requests s r = Some q" "rq_phase q = Settled (Fetched (Inr payload))"
    "latestRefreshRequestId s = r" "\<not> rq_aborted q" "\<not> rq_timedOut q"
    "parseSessionsResponse payload = Inr (sessions, n)" "liveSessions (resume_refresh H r s) = sessions"
    by (rule resume_changes_list)
  then show ?thesis using e by auto
qed

definition sample_payload :: jsval where
  "sample_payload = J_obj [(js ''sessions'', J_arr [snapshot_value sample_snapshot])]"

lemma sample_payload_parses: "parseSessionsResponse sample_payload = Inr ([sample_snapshot], 0)"
proof -
  have "parseSessionSnapshot (snapshot_value sample_snapshot) = Some sample_snapshot"
    by (rule parseSessionSnapshot_value) (simp add: snapshot_ok_def sample_snapshot_def)
  then show ?thesis
    by (subst parseSessions_array [where es = "[snapshot_value sample_snapshot]"])
      (simp_all add: sample_payload_def SESSIONS_ENVELOPE_FIELD_def List.map_filter_def)
qed

definition no_storage :: storage_access where
  "no_storage = \<lparr>acc_storage = None, acc_error = None\<rparr>"

definition sample_mounted :: session_layer where
  "sample_mounted = mount_session sample_host 0 [] no_storage no_storage"

lemma sample_mounted_eq: "sample_mounted = initialSession 0 [] no_storage no_storage"
  by (simp add: sample_mounted_def mount_session_def initial_notice_effect_def load_session_id_def load_last_session_id_def
      load_session_history_def resolveStorageAccess_def reportFailure_def no_storage_def initialSession_def)

definition sample_answered :: session_layer where
  "sample_answered = session_run sample_host
     [Session_refresh Trigger_manual None, Session_fetched 1 (Inr sample_payload)] sample_mounted"

lemmas run_simps = session_run_def requestSessionRefresh_def launch_request_def setTimeout_def add_timer_def settle_fetch_def
  on_request_def Let_def initialSession_def new_scheduler_def

lemma sample_answered_facts:
  "latestRefreshRequestId sample_answered = Suc 0" "liveSessions sample_answered = []"
  "requests sample_answered (Suc 0) = Some \<lparr>rq_hasSignal = False, rq_aborted = False, rq_timedOut = False, rq_timer = Some 0,
     rq_phase = Settled (Fetched (Inr sample_payload))\<rparr>"
  by (simp_all add: sample_answered_def sample_mounted_eq run_simps)

theorem stale_answers_never_shown_witness:
  "\<exists>q payload n. requests sample_answered (latestRefreshRequestId sample_answered) = Some q \<and> \<not> rq_aborted q \<and>
    rq_phase q = Settled (Fetched (Inr payload)) \<and> parseSessionsResponse payload = Inr ([sample_snapshot], n)"
proof -
  have "liveSessions (session_run_step sample_host (Session_resume 1) sample_answered) = [sample_snapshot]"
    by (simp add: resume_refresh_def sample_answered_facts consume_payload_def sample_payload_parses onRefreshSuccess_def
        answer_def)
  then show ?thesis
    using stale_answers_never_shown [of sample_host "Session_resume 1" sample_answered] sample_answered_facts(2) by auto
qed

subsection \<open>A refresh always ends\<close>

lemma notice_keeps_requests [simp]:
  "latestRefreshRequestId (publishSessionNotice m s) = latestRefreshRequestId s"
  "activeRefreshController (publishSessionNotice m s) = activeRefreshController s"
  "pendingRefresh (publishSessionNotice m s) = pendingRefresh s"
  "polls (publishSessionNotice m s) = polls s" "currentPoll (publishSessionNotice m s) = currentPoll s"
  for s :: "'a session_layer_scheme"
  by (simp_all add: publishSessionNotice_def Let_def case_prod_beta split: option.split)

lemma resume_keeps [simp]:
  "latestRefreshRequestId (resume_refresh H r s) = latestRefreshRequestId s"
  "activeRefreshController (resume_refresh H r s) = activeRefreshController s"
  "pendingRefresh (resume_refresh H r s) = pendingRefresh s"
  "polls (resume_refresh H r s) = polls s" "currentPoll (resume_refresh H r s) = currentPoll s"
  for s :: "'a session_layer_scheme"
  by (simp_all add: resume_refresh_def fail_with_def consume_payload_def answer_def on_request_def onRefreshSuccess_def
      onInvalidEntries_def publishNoticeDetails_def publishRefreshFailure_def publishThrottledSessionNotice_def
      notifyWithFailureThrottle_def Let_def case_prod_beta
      split: option.split refresh_phase.split race_outcome.split sum.split)

lemma answer_returns:
  "requests s r = Some q \<Longrightarrow> requests (answer r res s) r = Some (q\<lparr>rq_phase := Returned res\<rparr>)"
  by (simp add: answer_def on_request_def)

lemma resume_returns:
  assumes "requests s r = Some q" "rq_phase q = Settled out"
  shows "\<exists>q' res. requests (resume_refresh H r s) r = Some q' \<and> rq_phase q' = Returned res"
  using assms
  by (auto simp: resume_refresh_def fail_with_def consume_payload_def answer_returns Let_def
      split: race_outcome.split sum.split)

lemma finish_finishes:
  assumes ok: "layer_ok X s" and q: "requests s r = Some q" "rq_phase q = Returned res"
  shows "requests (finish_refresh r s) r = Some (q\<lparr>rq_phase := Finished res\<rparr>)"
    and "activeRefreshController (finish_refresh r s) \<noteq> Some r"
    and "\<And>p. pendingRefresh s = Some p \<Longrightarrow> pr_queuedForRequestId p = r \<Longrightarrow>
      activeRefreshController (finish_refresh r s) = Some (r + 1) \<and> pendingRefresh (finish_refresh r s) = None \<and>
      (\<exists>q'. requests (finish_refresh r s) (r + 1) = Some q' \<and> rq_phase q' = Racing)"
    and "polls (finish_refresh r s) = polls s" "currentPoll (finish_refresh r s) = currentPoll s"
proof -
  have act: "activeRefreshController s = Some a \<Longrightarrow> a = latestRefreshRequestId s" for a
    using ok by (rule active_latest)
  have pend: "pendingRefresh s = Some p \<Longrightarrow> activeRefreshController s = Some (pr_queuedForRequestId p)" for p
    using ok by (auto simp: layer_ok_def requests_ok_def)
  let ?c = "closed_request r q res s"
  have c: "requests ?c r = Some (q\<lparr>rq_phase := Finished res\<rparr>)" "polls ?c = polls s" "currentPoll ?c = currentPoll s"
    "latestRefreshRequestId ?c = latestRefreshRequestId s"
    by (simp_all add: closed_request_def)
  have r: "r \<le> latestRefreshRequestId s" using ok q(1) by (auto simp: layer_ok_def requests_ok_def)
  have go: "requests (snd (requestSessionRefresh tr None ?c)) r = Some (q\<lparr>rq_phase := Finished res\<rparr>)"
    "activeRefreshController (snd (requestSessionRefresh tr None ?c)) = Some (r + 1)"
    "pendingRefresh (snd (requestSessionRefresh tr None ?c)) = None"
    "\<exists>q'. requests (snd (requestSessionRefresh tr None ?c)) (r + 1) = Some q' \<and> rq_phase q' = Racing"
    "polls (snd (requestSessionRefresh tr None ?c)) = polls s"
    "currentPoll (snd (requestSessionRefresh tr None ?c)) = currentPoll s"
    if "activeRefreshController s = Some r" for tr
    using that act c
    by (simp_all add: requestSessionRefresh_def launch_request_def closed_request_def Let_def case_prod_beta)
  show "requests (finish_refresh r s) r = Some (q\<lparr>rq_phase := Finished res\<rparr>)"
    "activeRefreshController (finish_refresh r s) \<noteq> Some r"
    "polls (finish_refresh r s) = polls s" "currentPoll (finish_refresh r s) = currentPoll s"
    unfolding finish_refresh_eq [OF ok q] using c go
    by (auto simp: closed_request_def split: option.split)
  show "activeRefreshController (finish_refresh r s) = Some (r + 1) \<and> pendingRefresh (finish_refresh r s) = None \<and>
      (\<exists>q'. requests (finish_refresh r s) (r + 1) = Some q' \<and> rq_phase q' = Racing)"
    if "pendingRefresh s = Some p" "pr_queuedForRequestId p = r" for p
    unfolding finish_refresh_eq [OF ok q] using that pend go by simp
qed

text \<open>Firing the time-out of an unfinished request ends its race and touches no other field that matters here.\<close>

lemma timeout_task:
  assumes "layer_ok X s" "requests s r = Some q" "\<not> finished q" "rq_timer q = Some h"
    "pending (timers s) h = Some (task, rep)"
  shows "task = Refresh_timeout r"
proof -
  let ?t = "slot_table (sessionNoticeTimer s) (pendingTransportRefreshTimer s) (requests s) (polls s)"
  have inv: "slot_inv strict_slots ?t (timer_labels (timers s)) (issued (timers s))"
    using assms(1) by (simp add: layer_ok_def timers_ok_def)
  have "?t (Timeout_slot r, False) = Some h" using assms(2-4) by simp
  then have "slot_of (task, rep) = (Timeout_slot r, False)"
    using slot_held [OF inv] assms(5) by (fastforce simp: timer_labels_def)
  then show ?thesis by (cases task) simp_all
qed

lemma timed_out_request:
  assumes "requests s r = Some q" "rq_phase q = Racing \<Longrightarrow> \<not> rq_aborted q" "\<not> finished q"
  shows "\<exists>q'. requests (refresh_timed_out r s) r = Some q' \<and> \<not> finished q' \<and> rq_phase q' \<noteq> Racing"
  using assms by (auto simp: refresh_timed_out_def settle_fetch_def abort_controller_def on_request_def finished_def)

lemma timed_out_keeps [simp]:
  "pendingRefresh (refresh_timed_out r s) = pendingRefresh s" "polls (refresh_timed_out r s) = polls s"
  "currentPoll (refresh_timed_out r s) = currentPoll s"
  for s :: "'a session_layer_scheme"
  by (simp_all add: refresh_timed_out_def settle_fetch_def abort_controller_def on_request_def split: option.split)

definition time_out_steps :: "nat \<Rightarrow> int \<Rightarrow> nat option \<Rightarrow> session_step list" where
  "time_out_steps d w h = Session_time d w # (case h of None \<Rightarrow> [] | Some h \<Rightarrow> [Session_timer h])"

lemma time_out_steps_run:
  fixes H :: host and w :: int
  assumes ok: "layer_ok {} s" and due: "due_ok (timers s)" and q: "requests s r = Some q" "\<not> finished q"
    and d: "SESSION_REFRESH_CALL_TIMEOUT_MS \<le> int d"
  defines "s' \<equiv> session_run H (time_out_steps d w (rq_timer q)) s"
  shows "layer_ok {} s'" "pendingRefresh s' = pendingRefresh s" "polls s' = polls s" "currentPoll s' = currentPoll s"
    "\<exists>q'. requests s' r = Some q' \<and> \<not> finished q' \<and> rq_phase q' \<noteq> Racing"
proof -
  show ok': "layer_ok {} s'" unfolding s'_def by (rule session_run_ok [OF ok])
  let ?p = "s\<lparr>timers := pass_time d w (timers s)\<rparr>"
  have race: "\<not> rq_aborted q \<and> (\<exists>h. rq_timer q = Some h \<and> pending (timers s) h \<noteq> None)" if "rq_phase q = Racing"
    using ok q(1) that by (auto simp: layer_ok_def requests_ok_def)
  consider (live) h where "rq_timer q = Some h" "pending (timers s) h \<noteq> None"
    | (none) "s' = ?p" "rq_phase q \<noteq> Racing"
    | (dead) h where "rq_timer q = Some h" "pending (timers s) h = None" "rq_phase q \<noteq> Racing"
  proof (cases "rq_timer q")
    case None
    then show thesis using race none by (auto simp: s'_def time_out_steps_def session_run_def)
  next
    case (Some h)
    then show thesis using race live dead by (cases "pending (timers s) h") auto
  qed
  then have "pendingRefresh s' = pendingRefresh s \<and> polls s' = polls s \<and> currentPoll s' = currentPoll s \<and>
    (\<exists>q'. requests s' r = Some q' \<and> \<not> finished q' \<and> rq_phase q' \<noteq> Racing)"
  proof cases
    case (live h)
    then obtain task rep where pend: "pending (timers s) h = Some (task, rep)" by (cases "pending (timers s) h") auto
    have task: "task = Refresh_timeout r" by (rule timeout_task [OF ok q live(1) pend])
    obtain sc where "fire h (pass_time d w (timers s)) = Some (Refresh_timeout r, sc)"
      by (rule live_due [OF due pend [unfolded task], of SESSION_REFRESH_CALL_TIMEOUT_MS d]) (use d in auto)
    then have s': "s' = refresh_timed_out r (s\<lparr>timers := sc\<rparr>)" using live
      by (simp add: s'_def time_out_steps_def session_run_def fire_session_timer_def run_session_task_def)
    show ?thesis using timed_out_request [of "s\<lparr>timers := sc\<rparr>" r q] q race unfolding s' by simp
  next
    case none
    then show ?thesis using q by simp
  next
    case (dead h)
    have "armed (timers s) h = None" using dead(2) by (simp add: pending_def)
    then have "s' = ?p" using dead
      by (simp add: s'_def time_out_steps_def session_run_def fire_session_timer_def fire_def pass_time_def)
    then show ?thesis using q dead by simp
  qed
  then show "pendingRefresh s' = pendingRefresh s" "polls s' = polls s" "currentPoll s' = currentPoll s"
    "\<exists>q'. requests s' r = Some q' \<and> \<not> finished q' \<and> rq_phase q' \<noteq> Racing" by blast+
qed

lemma resume_then_finish:
  fixes H :: host
  assumes ok: "layer_ok {} s" and q: "requests s r = Some q" "\<not> finished q" "rq_phase q \<noteq> Racing"
  defines "s' \<equiv> finish_refresh r (resume_refresh H r s)"
  shows "ticket_result (Started r) s' \<noteq> None" "activeRefreshController s' \<noteq> Some r"
    "polls s' = polls s" "currentPoll s' = currentPoll s"
    "\<And>p. pendingRefresh s = Some p \<Longrightarrow> pr_queuedForRequestId p = r \<Longrightarrow>
      activeRefreshController s' = Some (r + 1) \<and> pendingRefresh s' = None \<and>
      (\<exists>q'. requests s' (r + 1) = Some q' \<and> rq_phase q' = Racing)"
proof -
  have "\<exists>q' res. requests (resume_refresh H r s) r = Some q' \<and> rq_phase q' = Returned res"
  proof (cases "rq_phase q")
    case (Settled out)
    then show ?thesis by (rule resume_returns [OF q(1)])
  next
    case (Returned res)
    then have "resume_refresh H r s = s" using q(1) by (intro resume_refresh_idle) simp
    then show ?thesis using q(1) Returned by simp
  qed (use q in \<open>simp_all add: finished_def\<close>)
  then obtain q' res where q': "requests (resume_refresh H r s) r = Some q'" "rq_phase q' = Returned res" by blast
  note fin = finish_finishes [OF resume_refresh_ok [OF ok] q']
  show "ticket_result (Started r) s' \<noteq> None" "activeRefreshController s' \<noteq> Some r"
    "polls s' = polls s" "currentPoll s' = currentPoll s"
    using fin by (simp_all add: s'_def ticket_result_def)
  show "activeRefreshController s' = Some (r + 1) \<and> pendingRefresh s' = None \<and>
      (\<exists>q'. requests s' (r + 1) = Some q' \<and> rq_phase q' = Racing)"
    if "pendingRefresh s = Some p" "pr_queuedForRequestId p = r" for p
    using fin(3) that by (simp add: s'_def)
qed

text \<open>The steps that end request \<open>r\<close> when neither the network nor the user does anything: its time-out, then the
  continuation and the \<open>finally\<close> block.\<close>

definition ending_steps :: "nat \<Rightarrow> int \<Rightarrow> nat \<Rightarrow> refresh_request \<Rightarrow> session_step list" where
  "ending_steps d w r q = time_out_steps d w (rq_timer q) @ [Session_resume r, Session_finish r]"

lemma session_run_append [simp]: "session_run H (xs @ ys) s = session_run H ys (session_run H xs s)"
  by (simp add: session_run_def)

lemma ending_steps_run:
  fixes H :: host and w :: int
  assumes ok: "layer_ok {} s" and due: "due_ok (timers s)" and q: "requests s r = Some q" "\<not> finished q"
    and d: "SESSION_REFRESH_CALL_TIMEOUT_MS \<le> int d"
  defines "s' \<equiv> session_run H (ending_steps d w r q) s"
  shows "ticket_result (Started r) s' \<noteq> None" "activeRefreshController s' \<noteq> Some r"
    "polls s' = polls s" "currentPoll s' = currentPoll s"
    "\<And>p. pendingRefresh s = Some p \<Longrightarrow> pr_queuedForRequestId p = r \<Longrightarrow>
      activeRefreshController s' = Some (r + 1) \<and> pendingRefresh s' = None \<and>
      (\<exists>q'. requests s' (r + 1) = Some q' \<and> rq_phase q' = Racing)"
proof -
  note to = time_out_steps_run [OF ok due q d, where H = H and w = w]
  obtain q' where q': "requests (session_run H (time_out_steps d w (rq_timer q)) s) r = Some q'" "\<not> finished q'"
    "rq_phase q' \<noteq> Racing" using to(5) by blast
  note rf = resume_then_finish [OF to(1) q', where H = H]
  have s': "s' = finish_refresh r (resume_refresh H r (session_run H (time_out_steps d w (rq_timer q)) s))"
    by (simp add: s'_def ending_steps_def) (simp add: session_run_def)
  show "ticket_result (Started r) s' \<noteq> None" "activeRefreshController s' \<noteq> Some r"
    "polls s' = polls s" "currentPoll s' = currentPoll s"
    unfolding s' using rf(1-4) to(3,4) by simp_all
  show "activeRefreshController s' = Some (r + 1) \<and> pendingRefresh s' = None \<and>
      (\<exists>q'. requests s' (r + 1) = Some q' \<and> rq_phase q' = Racing)"
    if "pendingRefresh s = Some p" "pr_queuedForRequestId p = r" for p
    unfolding s' using rf(5) that to(2) by simp
qed

text \<open>C21: No refresh hangs and no coalesced refresh is lost: any unfinished request, in any state the layer
  can reach, is finished with a result once its fifteen seconds have passed and its continuation and its
  \<open>finally\<close> block have run, even if the network never answers; it is then no longer the active request,
  and if another refresh was coalesced while it was running, a new request is under way.\<close>

theorem refresh_always_ends:
  assumes "s = session_reached H es clock la sa" "requests s r = Some q" "\<not> finished q"
    "SESSION_REFRESH_CALL_TIMEOUT_MS \<le> int d" "s' = session_run H (ending_steps d w r q) s"
  shows "ticket_result (Started r) s' \<noteq> None \<and> activeRefreshController s' \<noteq> Some r \<and>
    (\<forall>p. pendingRefresh s = Some p \<longrightarrow> pr_queuedForRequestId p = r \<longrightarrow>
       activeRefreshController s' = Some (r + 1) \<and> pendingRefresh s' = None \<and>
       (\<exists>q'. requests s' (r + 1) = Some q' \<and> rq_phase q' = Racing))"
  using ending_steps_run [OF session_reached_ok session_reached_due assms(2,3) [unfolded assms(1)] assms(4), where H = H and w = w]
  unfolding assms(1,5) by blast

definition busy_steps :: "session_step list" where
  "busy_steps = [Session_refresh Trigger_manual None, Session_transport_refresh]"

theorem refresh_always_ends_witness:
  "activeRefreshController (session_run sample_host (ending_steps 15000 0 1
      \<lparr>rq_hasSignal = False, rq_aborted = False, rq_timedOut = False, rq_timer = Some 0, rq_phase = Racing\<rparr>)
      (session_reached sample_host busy_steps 0 no_storage no_storage)) = Some 2"
proof -
  have s: "session_reached sample_host busy_steps 0 no_storage no_storage = session_run sample_host busy_steps sample_mounted"
    by (simp add: session_reached_def sample_mounted_def)
  let ?q = "\<lparr>rq_hasSignal = False, rq_aborted = False, rq_timedOut = False, rq_timer = Some 0, rq_phase = Racing\<rparr>"
  have q: "requests (session_reached sample_host busy_steps 0 no_storage no_storage) 1 = Some ?q"
    "pendingRefresh (session_reached sample_host busy_steps 0 no_storage no_storage) =
       Some \<lparr>pr_trigger = Trigger_transport_event, pr_queuedForRequestId = 1\<rparr>"
    unfolding s by (simp_all add: busy_steps_def sample_mounted_eq run_simps requestTransportRefresh_def
        coalesceRefreshTrigger_def now_def)
  show ?thesis
    using refresh_always_ends [OF refl q(1), of 15000 _ 0] q(2)
    by (simp add: finished_def SESSION_REFRESH_CALL_TIMEOUT_MS_def)
qed

subsection \<open>Polling never stalls\<close>

lemma on_poll_polls [simp]:
  "polls s i = Some p \<Longrightarrow> polls (on_poll i f s) i = Some (f p)"
  "currentPoll (on_poll i f s) = currentPoll s"
  by (simp_all add: on_poll_def split: option.split)

lemma poll_result_flight:
  assumes "polls s i = Some p"
  shows "\<exists>p'. polls (poll_result H i res s) i = Some p' \<and> pi_flight p' = pi_flight p \<and> pi_disposed p' = pi_disposed p"
    and "currentPoll (poll_result H i res s) = currentPoll s"
  using assms
  by (simp_all add: poll_result_def scheduleBootstrapRecoveryRetry_def openCircuitBreaker_def onRefreshCircuitOpen_def
      arm_poll_timer_def publishNoticeDetails_def case_prod_beta Let_def on_poll_def split: polling_result.split)

lemma poll_finally_lands:
  assumes "polls s i = Some p" "pi_flight p = Some After_then"
  shows "\<exists>p'. polls (poll_finally i s) i = Some p' \<and> pi_flight p' = None \<and> pi_disposed p' = pi_disposed p"
    and "currentPoll (poll_finally i s) = currentPoll s"
  using assms
  by (simp_all add: poll_finally_def scheduleNext_def arm_poll_timer_def case_prod_beta Let_def on_poll_def)

text \<open>A run of the polling effect that waits for its next turn.\<close>

definition waits_for_timer :: "nat \<Rightarrow> 'a session_layer_scheme \<Rightarrow> bool" where
  "waits_for_timer i s =
     (case polls s i of
        None \<Rightarrow> False
      | Some p \<Rightarrow>
          \<not> pi_disposed p \<and> pi_flight p = None \<and>
          (case pi_timer p of
             None \<Rightarrow> False
           | Some h \<Rightarrow>
               (case armed (timers s) h of
                  None \<Rightarrow> False
                | Some tm \<Rightarrow>
                    callback tm \<in> {Poll_again i, Poll_bootstrap_retry i, Poll_cooldown_over i} \<and>
                    due tm \<le> mono (timers s) + SESSION_REFRESH_CIRCUIT_BREAKER_COOLDOWN_MS)))"

lemma idle_run_waits:
  assumes ok: "layer_ok {} s" and due: "due_ok (timers s)"
    and p: "polls s i = Some p" "\<not> pi_disposed p" "pi_flight p = None"
  shows "waits_for_timer i s"
proof -
  let ?t = "slot_table (sessionNoticeTimer s) (pendingTransportRefreshTimer s) (requests s) (polls s)"
  have inv: "slot_inv strict_slots ?t (timer_labels (timers s)) (issued (timers s))"
    using ok by (simp add: layer_ok_def timers_ok_def)
  have "poll_ok (timers s) i p" using ok p polls_okD(4) by (fastforce simp: layer_ok_def)
  then obtain h where h: "pi_timer p = Some h" using p(3) by (auto simp: poll_ok_def)
  then have "?t (Poll_slot i, False) = Some h" using p by simp
  then have "timer_labels (timers s) h = Some (Poll_slot i, False)"
    using slot_strict [OF inv] by simp
  then obtain tm where tm: "armed (timers s) h = Some tm" "slot_of (callback tm, period tm \<noteq> None) = (Poll_slot i, False)"
    by (auto simp: timer_labels_def pending_def)
  then have cb: "callback tm \<in> {Poll_again i, Poll_bootstrap_retry i, Poll_cooldown_over i}"
    by (cases "callback tm") simp_all
  then have "\<exists>w. longest_wait (callback tm) = Some w \<and> w \<le> SESSION_REFRESH_CIRCUIT_BREAKER_COOLDOWN_MS"
    by (auto simp: waits)
  then have "due tm \<le> mono (timers s) + SESSION_REFRESH_CIRCUIT_BREAKER_COOLDOWN_MS"
    using due tm(1) by (fastforce simp: due_ok_def)
  then show ?thesis using p h tm cb by (simp add: waits_for_timer_def)
qed

lemma then_finally_lands:
  assumes ok: "layer_ok {} s" and due: "due_ok (timers s)"
    and p: "polls s i = Some p" "\<not> pi_disposed p" "pi_flight p = Some (Awaiting t)" "ticket_result t s \<noteq> None"
  shows "waits_for_timer i (session_run H [Session_poll_then i, Session_poll_finally i] s)"
proof -
  obtain res where res: "ticket_result t s = Some res" using p(4) by auto
  have "poll_then H i s = poll_result H i res (on_poll i (\<lambda>p. p\<lparr>pi_flight := Some After_then\<rparr>) s)"
    using p res by (simp add: poll_then_def)
  then obtain p' where p': "polls (poll_then H i s) i = Some p'" "pi_flight p' = Some After_then" "\<not> pi_disposed p'"
    using poll_result_flight(1) [of "on_poll i (\<lambda>p. p\<lparr>pi_flight := Some After_then\<rparr>) s" i] p by fastforce
  note ok1 = poll_then_ok [OF ok, of H i] and due1 = poll_then_due [OF due, of H i]
  obtain p'' where p'': "polls (poll_finally i (poll_then H i s)) i = Some p''" "pi_flight p'' = None" "\<not> pi_disposed p''"
    using poll_finally_lands(1) [OF p'(1,2)] p'(3) by auto
  show ?thesis
    using idle_run_waits [OF poll_finally_ok [OF ok1] poll_callbacks_due(2) [OF due1] p''(1,3,2)]
    by (simp add: session_run_def)
qed

text \<open>The next steps of the event loop for run \<open>i\<close> when nothing comes from outside.\<close>

definition settling_steps :: "nat \<Rightarrow> int \<Rightarrow> nat \<Rightarrow> 'a session_layer_scheme \<Rightarrow> session_step list" where
  "settling_steps d w i s =
     (case polls s i of
        None \<Rightarrow> []
      | Some p \<Rightarrow>
          (case pi_flight p of
             None \<Rightarrow> []
           | Some After_then \<Rightarrow> [Session_poll_finally i]
           | Some (Awaiting (Answered res)) \<Rightarrow> [Session_poll_then i, Session_poll_finally i]
           | Some (Awaiting (Started r)) \<Rightarrow>
               (case requests s r of
                  None \<Rightarrow> []
                | Some q \<Rightarrow> (if finished q then [] else ending_steps d w r q) @ [Session_poll_then i, Session_poll_finally i])))"

text \<open>C22: As long as the session menu keeps polling on, polling goes on: in any state the layer can reach, the
  current run either waits for a live timer of its own, due within a minute, or gets there by itself after
  at most fifteen seconds and the callbacks then due, whether the network answers or not; no order of
  events leaves it without a next turn.\<close>

theorem polling_never_stalls:
  assumes "s = session_reached H es clock la sa" "currentPoll s = Some i" "SESSION_REFRESH_CALL_TIMEOUT_MS \<le> int d"
  shows "waits_for_timer i (session_run H (settling_steps d w i s) s)"
proof -
  have ok: "layer_ok {} s" and due: "due_ok (timers s)"
    unfolding assms(1) by (rule session_reached_ok session_reached_due)+
  have pok: "polls_ok {} (timers s) (requests s) (polls s) (currentPoll s) (nextPoll s)"
    using ok by (simp add: layer_ok_def)
  obtain p where p: "polls s i = Some p" "\<not> pi_disposed p" using polls_okD(3) [OF pok assms(2)] by blast
  consider "pi_flight p = None" | "pi_flight p = Some After_then" | res where "pi_flight p = Some (Awaiting (Answered res))"
    | r where "pi_flight p = Some (Awaiting (Started r))"
    by (metis not_None_eq poll_flight.exhaust refresh_ticket.exhaust)
  then show ?thesis
  proof cases
    case 1
    then show ?thesis using idle_run_waits [OF ok due p] p by (simp add: settling_steps_def session_run_def)
  next
    case 2
    obtain p' where "polls (poll_finally i s) i = Some p'" "pi_flight p' = None" "\<not> pi_disposed p'"
      using poll_finally_lands(1) [OF p(1) 2] p(2) by auto
    then have "waits_for_timer i (poll_finally i s)"
      by (intro idle_run_waits poll_finally_ok [OF ok] poll_callbacks_due(2) [OF due])
    then show ?thesis using 2 p by (simp add: settling_steps_def session_run_def)
  next
    case (3 res)
    then show ?thesis using then_finally_lands [OF ok due p 3] p by (simp add: settling_steps_def ticket_result_def)
  next
    case (4 r)
    obtain q where q: "requests s r = Some q" using polls_okD(5) [OF pok p(1) 4] by auto
    show ?thesis
    proof (cases "finished q")
      case True
      then have "ticket_result (Started r) s \<noteq> None" using q
        by (auto simp: ticket_result_def finished_def split: refresh_phase.splits)
      then show ?thesis using then_finally_lands [OF ok due p 4] p 4 q True by (simp add: settling_steps_def)
    next
      case False
      let ?s = "session_run H (ending_steps d w r q) s"
      note e = ending_steps_run [OF ok due q False assms(3), where H = H and w = w]
      have "waits_for_timer i (session_run H [Session_poll_then i, Session_poll_finally i] ?s)"
        by (rule then_finally_lands [OF session_run_ok [OF ok] session_run_due [OF ok due]]) (use e p 4 in simp_all)
      then show ?thesis using p 4 q False by (simp add: settling_steps_def)
    qed
  qed
qed

definition polling_steps :: "session_step list" where
  "polling_steps = [Session_menu True, Session_poll_effect True]"

theorem polling_never_stalls_witness:
  "waits_for_timer 0 (session_run sample_host
     (settling_steps 15000 0 0 (session_reached sample_host polling_steps 0 no_storage no_storage))
     (session_reached sample_host polling_steps 0 no_storage no_storage))"
proof (rule polling_never_stalls [OF refl])
  have "session_reached sample_host polling_steps 0 no_storage no_storage = session_run sample_host polling_steps sample_mounted"
    by (simp add: session_reached_def sample_mounted_def)
  then show "currentPoll (session_reached sample_host polling_steps 0 no_storage no_storage) = Some 0"
    by (simp add: polling_steps_def sample_mounted_eq run_simps poll_effect_def stop_polling_def start_polling_def
        runRefreshLoop_def on_poll_def)
qed (simp add: SESSION_REFRESH_CALL_TIMEOUT_MS_def)

end
