(* ===== verification/Session_Policies.thy ===== *)
theory Session_Policies
  imports Session_Properties
begin

section \<open>Back-off, rate limit, expiry and reload\<close>

text \<open>
  The policies of the session layer in the states it reaches: the circuit breaker of the polling loop, the rate
  limit on refreshes asked for by the transport, the expiry of notices, what a reload of the page finds
  again, and what an unmount leaves behind.
\<close>

subsection \<open>The circuit breaker\<close>

lemma notice_keeps_clock [simp]:
  "mono (timers (publishNoticeDetails H d s)) = mono (timers s)"
  by (simp add: publishNoticeDetails_def publishSessionNotice_def setTimeout_def add_timer_def clearTimeout_def Let_def
      case_prod_beta split: option.split)

lemma arm_poll_timer_effect:
  assumes "polls s i = Some p" "0 \<le> d"
  shows "\<exists>h. polls (arm_poll_timer i task d s) i = Some (p\<lparr>pi_timer := Some h\<rparr>) \<and>
    armed (timers (arm_poll_timer i task d s)) h = Some \<lparr>due = mono (timers s) + d, period = None, callback = task\<rparr> \<and>
    mono (timers (arm_poll_timer i task d s)) = mono (timers s)"
  using assms by (intro exI [of _ "next_handle (timers s)"]) (simp add: arm_poll_timer_def setTimeout_def add_timer_def on_poll_def)

lemma counted_failure_effect:
  assumes p: "polls s i = Some p" "\<not> pi_disposed p" "\<not> pi_circuitOpen p" "pi_timer p = None" "pi_flight p = Some After_then"
    and res: "classifyPollingRefreshResult res = Poll_counted_failure"
  shows "\<exists>p' h tm. polls (poll_finally i (poll_result H i res s)) i = Some p' \<and> pi_flight p' = None \<and> pi_timer p' = Some h \<and>
    pi_consecutiveFailures p' = pi_consecutiveFailures p + 1 \<and> pi_disposed p' = pi_disposed p \<and>
    armed (timers (poll_finally i (poll_result H i res s))) h = Some tm \<and> period tm = None \<and>
    mono (timers (poll_finally i (poll_result H i res s))) = mono (timers s) \<and>
    (if 5 \<le> pi_consecutiveFailures p
     then pi_circuitOpen p' \<and> callback tm = Poll_cooldown_over i \<and> due tm = mono (timers s) + 60000
     else \<not> pi_circuitOpen p' \<and> callback tm = Poll_again i \<and>
       due tm = mono (timers s) + 4000 * 2 ^ min (pi_consecutiveFailures p) 3)"
proof (cases "5 \<le> pi_consecutiveFailures p")
  case True
  let ?p = "p\<lparr>pi_consecutiveFailures := pi_consecutiveFailures p + 1, pi_circuitOpen := True\<rparr>"
  define b where "b = onRefreshCircuitOpen H (pi_consecutiveFailures p + 1) (s\<lparr>polls := (polls s)(i \<mapsto> ?p)\<rparr>)"
  have b: "polls b i = Some ?p" "mono (timers b) = mono (timers s)" by (simp_all add: b_def onRefreshCircuitOpen_def)
  obtain h where h: "polls (arm_poll_timer i (Poll_cooldown_over i) 60000 b) i = Some (?p\<lparr>pi_timer := Some h\<rparr>)"
    "armed (timers (arm_poll_timer i (Poll_cooldown_over i) 60000 b)) h =
       Some \<lparr>due = mono (timers b) + 60000, period = None, callback = Poll_cooldown_over i\<rparr>"
    "mono (timers (arm_poll_timer i (Poll_cooldown_over i) 60000 b)) = mono (timers b)"
    using arm_poll_timer_effect [OF b(1), of 60000 "Poll_cooldown_over i"] by auto
  have "poll_result H i res s = arm_poll_timer i (Poll_cooldown_over i) 60000 b"
    using p res True by (simp add: poll_result_def openCircuitBreaker_def b_def on_poll_def Let_def
        SESSION_REFRESH_FAILURE_LIMIT_def SESSION_REFRESH_CIRCUIT_BREAKER_COOLDOWN_MS_def)
  then show ?thesis using h b p True by (simp add: poll_finally_def Let_def)
next
  case False
  let ?p = "p\<lparr>pi_consecutiveFailures := pi_consecutiveFailures p + 1\<rparr>"
  have r: "poll_result H i res s = s\<lparr>polls := (polls s)(i \<mapsto> ?p)\<rparr>"
    using p res False by (simp add: poll_result_def Let_def SESSION_REFRESH_FAILURE_LIMIT_def)
  let ?q = "?p\<lparr>pi_controller := None, pi_flight := None\<rparr>"
  let ?d = "4000 * 2 ^ min (pi_consecutiveFailures p) 3 :: int"
  have "(2::int) ^ min (pi_consecutiveFailures p) 3 \<le> 2 ^ 3" by (rule power_increasing) simp_all
  then have d: "nextSessionRefreshDelayMs (Suc (pi_consecutiveFailures p)) = ?d"
    by (simp add: nextSessionRefreshDelayMs_def SESSION_REFRESH_INTERVAL_MS_def SESSION_REFRESH_MAX_BACKOFF_MS_def)
  have "poll_finally i (poll_result H i res s) = arm_poll_timer i (Poll_again i) ?d (s\<lparr>polls := (polls s)(i \<mapsto> ?q)\<rparr>)"
    unfolding r using p by (simp add: poll_finally_def scheduleNext_def Let_def d)
  then show ?thesis
    using arm_poll_timer_effect [of "s\<lparr>polls := (polls s)(i \<mapsto> ?q)\<rparr>" i ?q ?d "Poll_again i"] p False by auto
qed

lemma cooldown_resumes:
  assumes p: "polls s i = Some p" "\<not> pi_disposed p" "pi_flight p = None" "pi_timer p = Some h"
    and tm: "armed (timers s) h = Some tm" "period tm = None" "callback tm = Poll_cooldown_over i"
      "due tm \<le> mono (timers s) + int d"
  shows "\<exists>p'. polls (session_run H [Session_time d w, Session_timer h] s) i = Some p' \<and> pi_consecutiveFailures p' = 0 \<and>
    \<not> pi_circuitOpen p' \<and> pi_flight p' \<noteq> None"
proof -
  obtain sc where "fire h (pass_time d w (timers s)) = Some (Poll_cooldown_over i, sc)"
    using tm by (simp add: fire_def pass_time_def)
  then show ?thesis using p
    by (simp add: session_run_def fire_session_timer_def run_session_task_def poll_timer_fired_def runRefreshLoop_def on_poll_def
        case_prod_beta Let_def)
qed


definition failing_poll_steps :: "session_step list" where
  "failing_poll_steps =
     [Session_menu True, Session_poll_effect True, Session_fetched 1 (Inl Missing_sessions_array),
      Session_resume 1, Session_finish 1]"

definition sample_failed_poll :: session_layer where
  "sample_failed_poll = session_reached sample_host failing_poll_steps 0 no_storage no_storage"

lemma sample_failed_poll_facts:
  "polls sample_failed_poll 0 = Some \<lparr>pi_disposed = False, pi_flight = Some (Awaiting (Started 1)), pi_timer = None,
     pi_consecutiveFailures = 0, pi_circuitOpen = False, pi_controller = Some (Started 1)\<rparr>"
  "ticket_result (Started 1) sample_failed_poll = Some (Some Missing_sessions_array)"
proof -
  let ?s = "session_run sample_host (take 3 failing_poll_steps) sample_mounted"
  let ?q = "\<lparr>rq_hasSignal = True, rq_aborted = False, rq_timedOut = False, rq_timer = Some 0,
    rq_phase = Settled (Fetched (Inl Missing_sessions_array))\<rparr>"
  have s: "requests ?s (Suc 0) = Some ?q" "latestRefreshRequestId ?s = Suc 0"
    "polls ?s 0 = Some \<lparr>pi_disposed = False, pi_flight = Some (Awaiting (Started 1)), pi_timer = None,
     pi_consecutiveFailures = 0, pi_circuitOpen = False, pi_controller = Some (Started 1)\<rparr>"
    by (simp_all add: failing_poll_steps_def sample_mounted_eq run_simps poll_effect_def stop_polling_def start_polling_def
        runRefreshLoop_def on_poll_def)
  have "layer_ok {} (session_run sample_host [Session_menu True, Session_poll_effect True,
      Session_fetched 1 (Inl Missing_sessions_array)] sample_mounted)"
    unfolding sample_mounted_def by (rule session_run_ok [OF mount_ok])
  then have ok: "layer_ok {} ?s" by (simp add: failing_poll_steps_def)
  have r: "requests (resume_refresh sample_host (Suc 0) ?s) (Suc 0) =
      Some (?q\<lparr>rq_phase := Returned (Some Missing_sessions_array)\<rparr>)"
    using s by (simp add: resume_refresh_def answer_returns)
  have f: "sample_failed_poll = finish_refresh (Suc 0) (resume_refresh sample_host (Suc 0) ?s)"
    by (simp add: sample_failed_poll_def session_reached_def sample_mounted_def failing_poll_steps_def session_run_def)
  note fin = finish_finishes [OF resume_refresh_ok [OF ok] r]
  show "ticket_result (Started 1) sample_failed_poll = Some (Some Missing_sessions_array)"
    unfolding f ticket_result_def by (simp add: fin(1))
  show "polls sample_failed_poll 0 = Some \<lparr>pi_disposed = False, pi_flight = Some (Awaiting (Started 1)), pi_timer = None,
     pi_consecutiveFailures = 0, pi_circuitOpen = False, pi_controller = Some (Started 1)\<rparr>"
    unfolding f by (simp add: fin(4) s(3))
qed


subsection \<open>Refreshes asked for by the transport\<close>

lemma requestSessionRefresh_cases:
  assumes ok: "layer_ok X s" and tr: "tr \<noteq> Trigger_manual"
  shows "activeRefreshController s = None \<Longrightarrow>
      \<exists>s'. requestSessionRefresh tr None s = (Started (latestRefreshRequestId s + 1), s') \<and>
        activeRefreshController s' = Some (latestRefreshRequestId s + 1) \<and>
        (\<exists>q. requests s' (latestRefreshRequestId s + 1) = Some q \<and> rq_phase q = Racing)"
    and "activeRefreshController s \<noteq> None \<Longrightarrow>
      \<exists>s' p. requestSessionRefresh tr None s = (Answered (Some Request_superseded), s') \<and> requests s' = requests s \<and>
        activeRefreshController s' = activeRefreshController s \<and> pendingRefresh s' = Some p \<and>
        activeRefreshController s' = Some (pr_queuedForRequestId p)"
proof -
  show "\<exists>s'. requestSessionRefresh tr None s = (Started (latestRefreshRequestId s + 1), s') \<and>
        activeRefreshController s' = Some (latestRefreshRequestId s + 1) \<and>
        (\<exists>q. requests s' (latestRefreshRequestId s + 1) = Some q \<and> rq_phase q = Racing)" if "activeRefreshController s = None"
    using that by (simp add: requestSessionRefresh_def launch_request_def Let_def case_prod_beta)
  show "\<exists>s' p. requestSessionRefresh tr None s = (Answered (Some Request_superseded), s') \<and> requests s' = requests s \<and>
        activeRefreshController s' = activeRefreshController s \<and> pendingRefresh s' = Some p \<and>
        activeRefreshController s' = Some (pr_queuedForRequestId p)" if a: "activeRefreshController s \<noteq> None"
  proof -
    have "activeRefreshController s = Some (latestRefreshRequestId s)" using a active_latest [OF ok] by auto
    then show ?thesis using tr by (simp add: requestSessionRefresh_def Let_def)
  qed
qed

lemma scheduled_trailing:
  assumes "layer_ok X s"
  shows "\<exists>h. pendingTransportRefreshTimer (scheduleTrailingTransportRefresh t s) = Some h \<and>
    pending (timers (scheduleTrailingTransportRefresh t s)) h = Some (Trailing_refresh, False)"
    and "requests (scheduleTrailingTransportRefresh t s) = requests s"
proof -
  let ?s = "scheduleTrailingTransportRefresh t s"
  show "requests ?s = requests s"
    by (simp add: scheduleTrailingTransportRefresh_def Let_def case_prod_beta split: option.split)
  obtain h where h: "pendingTransportRefreshTimer ?s = Some h"
    by (cases "pendingTransportRefreshTimer s") (simp_all add: scheduleTrailingTransportRefresh_def Let_def case_prod_beta)
  let ?t = "slot_table (sessionNoticeTimer ?s) (pendingTransportRefreshTimer ?s) (requests ?s) (polls ?s)"
  have inv: "slot_inv strict_slots ?t (timer_labels (timers ?s)) (issued (timers ?s))"
    using scheduleTrailing_ok [OF assms, of t] by (simp add: layer_ok_def timers_ok_def)
  have "timer_labels (timers ?s) h = Some (Trailing_slot, False)" by (rule slot_strict [OF inv]) (simp_all add: h)
  then obtain task rep where "pending (timers ?s) h = Some (task, rep)" "slot_of (task, rep) = (Trailing_slot, False)"
    by (auto simp: timer_labels_def)
  moreover have "task = Trailing_refresh \<and> \<not> rep" using calculation(2) by (cases task) simp_all
  ultimately show "\<exists>h. pendingTransportRefreshTimer ?s = Some h \<and> pending (timers ?s) h = Some (Trailing_refresh, False)"
    using h by auto
qed

text \<open>C24: Refreshes asked for by the transport are rate limited and none is lost: a call within 750 ms of the previous one
  sends nothing and leaves a live timer for a trailing refresh; any other call records its time and starts
  a request at once, or, when one is under way, is queued behind exactly that one.\<close>

theorem transport_refresh_not_lost:
  "case requestTransportRefresh (session_reached H es clock la sa) of
     (ticket, s') \<Rightarrow>
       (let s = session_reached H es clock la sa; t = now (timers s)
        in if (case lastTransportRefreshAt s of None \<Rightarrow> False | Some l \<Rightarrow> t - l < 750)
           then ticket = Answered (Some Request_superseded) \<and> requests s' = requests s \<and>
             (\<exists>h. pendingTransportRefreshTimer s' = Some h \<and> pending (timers s') h = Some (Trailing_refresh, False))
           else lastTransportRefreshAt s' = Some t \<and>
             (if activeRefreshController s = None
              then ticket = Started (latestRefreshRequestId s + 1) \<and>
                activeRefreshController s' = Some (latestRefreshRequestId s + 1) \<and>
                (\<exists>q. requests s' (latestRefreshRequestId s + 1) = Some q \<and> rq_phase q = Racing)
              else ticket = Answered (Some Request_superseded) \<and> requests s' = requests s \<and>
                (\<exists>p. pendingRefresh s' = Some p \<and> activeRefreshController s = Some (pr_queuedForRequestId p))))"
proof -
  define s where "s = session_reached H es clock la sa"
  define t where "t = now (timers s)"
  have ok: "layer_ok {} s" by (simp add: s_def session_reached_ok)
  let ?l = "s\<lparr>lastTransportRefreshAt := Some t\<rparr>"
  have ok': "layer_ok {} ?l" using ok by simp
  have last: "lastTransportRefreshAt s' = Some t" if "requestSessionRefresh tr sig ?l = (tk, s')" for tr sig tk s'
    using request_fields(6) [of tr sig ?l] that by simp
  note req = requestSessionRefresh_cases [OF ok', of Trigger_transport_event]
  show ?thesis
  proof (cases "case lastTransportRefreshAt s of None \<Rightarrow> False | Some l \<Rightarrow> t - l < 750")
    case True
    then have eq: "requestTransportRefresh s = (Answered (Some Request_superseded), scheduleTrailingTransportRefresh t s)"
      by (cases "lastTransportRefreshAt s")
        (simp_all add: requestTransportRefresh_def Let_def t_def TRANSPORT_REFRESH_MIN_INTERVAL_MS_def)
    show ?thesis unfolding s_def [symmetric] eq Let_def prod.case t_def [symmetric]
      using True scheduled_trailing [OF ok, of t] by auto
  next
    case False
    then have eq: "requestTransportRefresh s = requestSessionRefresh Trigger_transport_event None ?l"
      by (cases "lastTransportRefreshAt s")
        (simp_all add: requestTransportRefresh_def Let_def t_def TRANSPORT_REFRESH_MIN_INTERVAL_MS_def)
    obtain tk s' where r: "requestSessionRefresh Trigger_transport_event None ?l = (tk, s')" by fastforce
    show ?thesis unfolding s_def [symmetric] eq r Let_def prod.case t_def [symmetric]
      using False req r last [OF r] by (cases "activeRefreshController s") auto
  qed
qed

subsection \<open>Notices expire\<close>

text \<open>A notice never stays: whenever a notice is shown, the layer holds a live timer for it, and once four seconds
  have passed and that timer has fired the notice is gone.\<close>

theorem notices_expire:
  assumes "s = session_reached H es clock la sa" "sessionNotice s \<noteq> []" "4000 \<le> int d"
  shows "\<exists>h. sessionNoticeTimer s = Some h \<and> pending (timers s) h \<noteq> None \<and>
    sessionNotice (session_run H [Session_time d w, Session_timer h] s) = []"
proof -
  have ok: "layer_ok {} s" and due: "due_ok (timers s)"
    unfolding assms(1) by (rule session_reached_ok session_reached_due)+
  obtain h task rep where h: "sessionNoticeTimer s = Some h" "pending (timers s) h = Some (task, rep)"
    using ok assms(2) by (auto simp: layer_ok_def notice_ok_def)
  let ?t = "slot_table (sessionNoticeTimer s) (pendingTransportRefreshTimer s) (requests s) (polls s)"
  have inv: "slot_inv strict_slots ?t (timer_labels (timers s)) (issued (timers s))"
    using ok by (simp add: layer_ok_def timers_ok_def)
  have "slot_of (task, rep) = (Notice_slot, False)"
    using slot_held [OF inv, of "(Notice_slot, False)" h] h by (fastforce simp: timer_labels_def)
  then have task: "task = Notice_expired \<or> task = Initial_notice_expired" by (cases task) simp_all
  then have "longest_wait task = Some NOTICE_VISIBLE_MS" by auto
  then obtain sc where "fire h (pass_time d w (timers s)) = Some (task, sc)"
    by (rule live_due [OF due h(2)]) (use assms(3) in \<open>simp_all add: NOTICE_VISIBLE_MS_def\<close>)
  then show ?thesis using h task
    by (auto simp: session_run_def fire_session_timer_def run_session_task_def notice_expired_def initial_notice_expired_def)
qed

theorem notices_expire_witness:
  "\<exists>h. sessionNotice (session_run sample_host [Session_time 4000 0, Session_timer h]
     (session_reached sample_host [Session_notice (N_refresh RN_invalid_payload)] 0 no_storage no_storage)) = []"
proof -
  have "trim (toUserNotice sample_host (N_refresh RN_invalid_payload)) \<noteq> []" by code_simp
  then have "sessionNotice (session_reached sample_host [Session_notice (N_refresh RN_invalid_payload)] 0 no_storage no_storage) \<noteq> []"
    by (simp add: session_reached_def sample_mounted_def [symmetric] sample_mounted_eq run_simps publishNoticeDetails_def
        publishSessionNotice_def)
  then show ?thesis using notices_expire [OF refl, of sample_host _ 0 no_storage no_storage 4000 0] by auto
qed

subsection \<open>Unmounting\<close>

text \<open>The state after an unmount: only time-outs of requests are left, every request is stale, every run disposed.\<close>

definition wound_down :: "'a session_layer_scheme \<Rightarrow> bool" where
  "wound_down s \<longleftrightarrow>
     (\<forall>h task rep. pending (timers s) h = Some (task, rep) \<longrightarrow> \<not> rep \<and> (\<exists>r. task = Refresh_timeout r)) \<and>
     (\<forall>r q. requests s r = Some q \<longrightarrow> r < latestRefreshRequestId s) \<and>
     activeRefreshController s = None \<and> pendingRefresh s = None \<and>
     (\<forall>i p. polls s i = Some p \<longrightarrow> pi_disposed p)"

lemma unmount_refresh_eq:
  "unmount_refresh s = (before_launch s)\<lparr>latestRefreshRequestId := latestRefreshRequestId s + 1, pendingRefresh := None,
     activeRefreshController := None\<rparr>" for s :: "'a session_layer_scheme"
proof -
  have "abort_controller c (s\<lparr>latestRefreshRequestId := r, pendingRefresh := p\<rparr>) =
      (abort_controller c s)\<lparr>latestRefreshRequestId := r, pendingRefresh := p\<rparr>" for c r p
    by (simp add: abort_controller_def on_request_def split: option.split)
  then show ?thesis by (simp add: unmount_refresh_def before_launch_def Let_def split: option.split)
qed

lemma unmount_refresh_ok:
  assumes ok: "layer_ok X s"
  shows "layer_ok X (unmount_refresh s)"
proof -
  note b = before_launch_facts [OF ok]
  have "requests_ok (timers s) (requests (before_launch s)) (Suc (latestRefreshRequestId s)) None None"
  proof (rule requests_okI)
    fix r q assume r: "requests (before_launch s) r = Some q"
    then show "0 < r \<and> r \<le> Suc (latestRefreshRequestId s)" using b(1) by (fastforce simp: layer_ok_def requests_ok_def)
    show "None = Some r \<and> \<not> rq_aborted q \<and> (\<exists>h. rq_timer q = Some h \<and> pending (timers s) h \<noteq> None)" if "rq_phase q = Racing"
      using b(2) [OF r] that by simp
  qed simp_all
  then show ?thesis using b(1) by (simp add: unmount_refresh_eq layer_ok_def)
qed

lemma clear_trailing_refresh_ok:
  assumes ok: "layer_ok X s"
  shows "layer_ok X (clear_trailing_refresh s)" "pendingTransportRefreshTimer (clear_trailing_refresh s) = None"
proof -
  show "pendingTransportRefreshTimer (clear_trailing_refresh s) = None"
    by (simp add: clear_trailing_refresh_def split: option.split)
  show "layer_ok X (clear_trailing_refresh s)"
  proof (cases "pendingTransportRefreshTimer s")
    case None
    then show ?thesis using ok by (simp add: clear_trailing_refresh_def)
  next
    case (Some h)
    note parts = ok [unfolded layer_ok_def]
    have tok: "timers_ok (timers s) (sessionNoticeTimer s) (pendingTransportRefreshTimer s) (requests s) (polls s)"
      using parts by blast
    note cl = clear_timer [OF tok, of "(Trailing_slot, False)" h, simplified, OF Some]
    show ?thesis using parts cl(1) ok_kept [OF _ cl(2)] Some
      by (simp add: clear_trailing_refresh_def layer_ok_def timers_ok_def)
  qed
qed

text \<open>The clean-ups do not look at the text of the notice.\<close>

lemma abort_ignores_text [simp]:
  "abort_controller r (s\<lparr>sessionNotice := m\<rparr>) = (abort_controller r s)\<lparr>sessionNotice := m\<rparr>"
  "outer_abort r (s\<lparr>sessionNotice := m\<rparr>) = (outer_abort r s)\<lparr>sessionNotice := m\<rparr>"
  "on_poll i f (s'\<lparr>sessionNotice := m\<rparr>) = (on_poll i f s')\<lparr>sessionNotice := m\<rparr>"
  by (simp_all add: outer_abort_def abort_controller_def on_request_def on_poll_def split: option.split)

lemma cleanups_ignore_text:
  "unmount_refresh (s\<lparr>sessionNotice := m\<rparr>) = (unmount_refresh s)\<lparr>sessionNotice := m\<rparr>"
  "clear_trailing_refresh (s\<lparr>sessionNotice := m\<rparr>) = (clear_trailing_refresh s)\<lparr>sessionNotice := m\<rparr>"
  "stop_polling (s\<lparr>sessionNotice := m\<rparr>) = (stop_polling s)\<lparr>sessionNotice := m\<rparr>"
  for s :: "'a session_layer_scheme"
proof -
  show "unmount_refresh (s\<lparr>sessionNotice := m\<rparr>) = (unmount_refresh s)\<lparr>sessionNotice := m\<rparr>"
  proof -
    have "s\<lparr>sessionNotice := m, latestRefreshRequestId := l, pendingRefresh := p\<rparr> =
        (s\<lparr>latestRefreshRequestId := l, pendingRefresh := p\<rparr>)\<lparr>sessionNotice := m\<rparr>" for l p by simp
    then show ?thesis
      by (cases "activeRefreshController s") (simp_all only: unmount_refresh_def Let_def abort_ignores_text option.case
        session_refresh.simps notice_channel.simps, simp_all)
  qed
  show "clear_trailing_refresh (s\<lparr>sessionNotice := m\<rparr>) = (clear_trailing_refresh s)\<lparr>sessionNotice := m\<rparr>"
    by (cases "pendingTransportRefreshTimer s") (simp_all add: clear_trailing_refresh_def)
  show "stop_polling (s\<lparr>sessionNotice := m\<rparr>) = (stop_polling s)\<lparr>sessionNotice := m\<rparr>"
  proof (cases "currentPoll s")
    case (Some i)
    then show ?thesis
      by (cases "polls s i")
        (simp_all add: stop_polling_def abortActiveRefresh_def Let_def split: option.split refresh_ticket.split)
  qed (simp add: stop_polling_def)
qed

lemma unmount_session_eq:
  "unmount_session s =
     (stop_polling (clear_trailing_refresh (unmount_refresh (clearSessionNotice s))))\<lparr>sessionNotice := sessionNotice s\<rparr>"
  for s :: "'a session_layer_scheme"
proof -
  have "clear_notice_timer s = (clearSessionNotice s)\<lparr>sessionNotice := sessionNotice s\<rparr>"
    by (cases s; cases "sessionNoticeTimer s") (simp_all add: clearSessionNotice_def clear_notice_timer_def)
  then show ?thesis by (simp add: unmount_session_def unmount_notice_def cleanups_ignore_text)
qed

lemma stop_polling_fields:
  assumes "layer_ok {} s"
  shows "sessionNoticeTimer (stop_polling s) = sessionNoticeTimer s"
    "pendingTransportRefreshTimer (stop_polling s) = pendingTransportRefreshTimer s"
    "latestRefreshRequestId (stop_polling s) = latestRefreshRequestId s"
    "activeRefreshController (stop_polling s) = activeRefreshController s" "pendingRefresh (stop_polling s) = pendingRefresh s"
  by (simp_all add: stop_polling_def abortActiveRefresh_def outer_abort_def on_poll_def Let_def
      split: option.split refresh_ticket.split)

lemma unmounted_wound_down:
  assumes ok: "layer_ok {} s"
  shows "wound_down (unmount_session s)"
proof -
  define a where "a = unmount_refresh (clearSessionNotice s)"
  define b where "b = clear_trailing_refresh a"
  define v where "v = stop_polling b"
  have ok1: "layer_ok {} (clearSessionNotice s)" by (rule clearSessionNotice_ok [OF ok])
  have oka: "layer_ok {} a" unfolding a_def by (rule unmount_refresh_ok [OF ok1])
  have okb: "layer_ok {} b" "pendingTransportRefreshTimer b = None" unfolding b_def by (rule clear_trailing_refresh_ok [OF oka])+
  have okv: "layer_ok {} v" "currentPoll v = None" unfolding v_def by (rule stop_polling_ok [OF okb(1)])+
  have a: "latestRefreshRequestId a = Suc (latestRefreshRequestId (clearSessionNotice s))" "activeRefreshController a = None"
    "pendingRefresh a = None" "sessionNoticeTimer a = None" "requests a = requests (before_launch (clearSessionNotice s))"
    by (simp_all add: a_def unmount_refresh_eq) (simp add: clearSessionNotice_def clear_notice_timer_def split: option.split)
  have ba: "latestRefreshRequestId b = latestRefreshRequestId a" "activeRefreshController b = None" "pendingRefresh b = None"
    "sessionNoticeTimer b = None" "requests b = requests a"
    using a by (simp_all add: b_def clear_trailing_refresh_def split: option.split)
  note st = stop_polling_fields [OF okb(1), folded v_def]
  have dom: "requests v r \<noteq> None \<Longrightarrow> requests b r \<noteq> None" for r
    by (auto simp: v_def stop_polling_def abortActiveRefresh_def outer_abort_def abort_controller_def on_request_def on_poll_def
        Let_def split: option.splits refresh_ticket.splits if_splits)
  have below: "r < latestRefreshRequestId v" if "requests v r = Some q" for r q
  proof -
    have "requests b r \<noteq> None" by (rule dom) (simp add: that)
    then have "requests (before_launch (clearSessionNotice s)) r \<noteq> None" unfolding ba(5) a(5) .
    then obtain q' where "requests (before_launch (clearSessionNotice s)) r = Some q'" by blast
    then have "r \<le> latestRefreshRequestId (clearSessionNotice s)"
      using before_launch_facts(1) [OF ok1] by (fastforce simp: layer_ok_def requests_ok_def)
    then show ?thesis using st ba a by simp
  qed
  have disposed: "pi_disposed p" if "polls v i = Some p" for i p
    using okv that by (auto simp: layer_ok_def polls_ok_def)
  have live: "\<not> rep \<and> (\<exists>r. task = Refresh_timeout r)" if "pending (timers v) h = Some (task, rep)" for h task rep
  proof -
    have "timer_owner task v = Some h" "\<not> rep" using live_timer_owned [OF okv(1) that] by auto
    moreover have "poll_timer i v = None" for i using disposed by (simp add: poll_timer_def split: option.split)
    moreover have "sessionNoticeTimer v = None" "pendingTransportRefreshTimer v = None" using st ba okb(2) by simp_all
    ultimately show ?thesis by (cases task) simp_all
  qed
  show ?thesis unfolding unmount_session_eq
    using live below disposed st ba by (auto simp: wound_down_def v_def [symmetric] b_def [symmetric] a_def [symmetric])
qed

text \<open>What may still run after an unmount: continuations of promises, timers, and time.\<close>

fun leftover :: "session_step \<Rightarrow> bool" where
  "leftover (Session_resume r) = True"
| "leftover (Session_finish r) = True"
| "leftover (Session_fetched r res) = True"
| "leftover (Session_fetch_rejected r e) = True"
| "leftover (Session_poll_then i) = True"
| "leftover (Session_poll_finally i) = True"
| "leftover (Session_timer h) = True"
| "leftover (Session_time d w) = True"
| "leftover _ = False"

text \<open>What an observer sees, and the timers that are live.\<close>

definition quiet :: "'a session_layer_scheme \<Rightarrow> 'a session_layer_scheme \<Rightarrow> bool" where
  "quiet s s' \<longleftrightarrow>
     liveSessions s' = liveSessions s \<and> sessionNotice s' = sessionNotice s \<and> localAccess s' = localAccess s \<and>
     sessionAccess s' = sessionAccess s \<and> latestRefreshRequestId s' = latestRefreshRequestId s \<and>
     (\<forall>h. pending (timers s') h \<noteq> None \<longrightarrow> pending (timers s) h \<noteq> None)"

lemma quiet_refl [simp]: "quiet s s" by (simp add: quiet_def)

lemma quiet_trans: "quiet s t \<Longrightarrow> quiet t u \<Longrightarrow> quiet s u" by (simp add: quiet_def)

lemma requests_upd_quiet:
  assumes "wound_down s" "requests s r \<noteq> None"
  shows "wound_down (s\<lparr>requests := (requests s)(r \<mapsto> q)\<rparr>)" "quiet s (s\<lparr>requests := (requests s)(r \<mapsto> q)\<rparr>)"
  using assms by (auto simp: wound_down_def quiet_def)

lemma on_request_quiet: "wound_down s \<Longrightarrow> wound_down (on_request r f s) \<and> quiet s (on_request r f s)"
  using requests_upd_quiet [of s r] by (simp add: on_request_def split: option.split)

lemma polls_upd_quiet:
  assumes "wound_down s" "pi_disposed p"
  shows "wound_down (s\<lparr>polls := (polls s)(i \<mapsto> p)\<rparr>)" "quiet s (s\<lparr>polls := (polls s)(i \<mapsto> p)\<rparr>)"
  using assms by (auto simp: wound_down_def quiet_def)

lemma clear_quiet:
  assumes "wound_down s"
  shows "wound_down (s\<lparr>timers := clearTimeout h (timers s)\<rparr>)" "quiet s (s\<lparr>timers := clearTimeout h (timers s)\<rparr>)"
  using assms browser.clear_law [of h "timers s"] by (auto simp: wound_down_def quiet_def split: if_splits)

lemma resume_quiet:
  assumes w: "wound_down s"
  shows "wound_down (resume_refresh H r s) \<and> quiet s (resume_refresh H r s)"
proof -
  have "latestRefreshRequestId s \<noteq> r" if "requests s r = Some q" for q using w that by (auto simp: wound_down_def)
  then have "resume_refresh H r s = s \<or> (\<exists>res. resume_refresh H r s = answer r res s)"
    by (auto simp: resume_refresh_def split: option.split refresh_phase.split)
  then show ?thesis using w on_request_quiet [OF w] by (auto simp: answer_def)
qed

lemma finish_quiet:
  assumes w: "wound_down s"
  shows "wound_down (finish_refresh r s) \<and> quiet s (finish_refresh r s)"
proof (cases "\<exists>q res. requests s r = Some q \<and> rq_phase q = Returned res")
  case False
  then have "finish_refresh r s = s" by (intro finish_refresh_idle) auto
  then show ?thesis using w by simp
next
  case True
  then obtain q res where q: "requests s r = Some q" "rq_phase q = Returned res" by blast
  let ?c = "case rq_timer q of None \<Rightarrow> s | Some h \<Rightarrow> s\<lparr>timers := clearTimeout h (timers s)\<rparr>"
  let ?d = "on_request r (\<lambda>q. q\<lparr>rq_phase := Finished res\<rparr>) ?c"
  have c: "wound_down ?c" "quiet s ?c" using w clear_quiet [OF w] by (simp_all split: option.split)
  have d: "wound_down ?d" "quiet s ?d" using on_request_quiet [OF c(1)] quiet_trans [OF c(2)] by blast+
  have "latestRefreshRequestId ?d \<noteq> r" using w q d(2) by (auto simp: wound_down_def quiet_def)
  moreover have "activeRefreshController ?d = None" using d(1) by (simp add: wound_down_def)
  ultimately have "finish_refresh r s = ?d" using q by (simp add: finish_refresh_def Let_def)
  then show ?thesis using d by simp
qed

lemma poll_result_disposed:
  assumes "polls s i = Some p" "pi_disposed p"
  shows "\<exists>n. poll_result H i res s = s\<lparr>polls := (polls s)(i \<mapsto> p\<lparr>pi_consecutiveFailures := n\<rparr>)\<rparr>"
proof (cases "classifyPollingRefreshResult res")
  case Poll_ignored_failure
  have "poll_result H i res s = s" using assms Poll_ignored_failure by (simp add: poll_result_def)
  also have "s = s\<lparr>polls := (polls s)(i \<mapsto> p\<lparr>pi_consecutiveFailures := pi_consecutiveFailures p\<rparr>)\<rparr>"
    using assms(1) by (cases s) (simp add: fun_upd_idem)
  finally show ?thesis by (rule exI)
next
  case Poll_success
  then show ?thesis using assms by (intro exI [of _ 0]) (simp add: poll_result_def on_poll_def)
next
  case Poll_retry_bootstrap
  then show ?thesis using assms
    by (intro exI [of _ 0]) (simp add: poll_result_def scheduleBootstrapRecoveryRetry_def Let_def)
next
  case Poll_counted_failure
  then show ?thesis using assms
    by (intro exI [of _ "Suc (pi_consecutiveFailures p)"]) (simp add: poll_result_def openCircuitBreaker_def Let_def)
qed

lemma poll_callbacks_quiet:
  assumes w: "wound_down s"
  shows "wound_down (poll_then H i s) \<and> quiet s (poll_then H i s)"
    and "wound_down (poll_finally i s) \<and> quiet s (poll_finally i s)"
proof -
  note upd = polls_upd_quiet [OF w]
  have disp: "pi_disposed p" if "polls s i = Some p" for p using w that by (simp add: wound_down_def)
  show "wound_down (poll_finally i s) \<and> quiet s (poll_finally i s)"
    using w upd disp by (simp add: poll_finally_def scheduleNext_def Let_def split: option.split)
  show "wound_down (poll_then H i s) \<and> quiet s (poll_then H i s)"
  proof (cases "\<exists>p t res. polls s i = Some p \<and> pi_flight p = Some (Awaiting t) \<and> ticket_result t s = Some res")
    case False
    then have "poll_then H i s = s" by (intro poll_then_idle) auto
    then show ?thesis using w by simp
  next
    case True
    then obtain p t res where p: "polls s i = Some p" "pi_flight p = Some (Awaiting t)" "ticket_result t s = Some res" by blast
    let ?p = "p\<lparr>pi_flight := Some After_then\<rparr>"
    let ?s = "s\<lparr>polls := (polls s)(i \<mapsto> ?p)\<rparr>"
    obtain n where "poll_result H i res ?s = ?s\<lparr>polls := (polls ?s)(i \<mapsto> ?p\<lparr>pi_consecutiveFailures := n\<rparr>)\<rparr>"
      using poll_result_disposed [of ?s i ?p H res] disp p(1) by auto
    then have "poll_then H i s = s\<lparr>polls := (polls s)(i \<mapsto> ?p\<lparr>pi_consecutiveFailures := n\<rparr>)\<rparr>"
      using p by (simp add: poll_then_def on_poll_def)
    then show ?thesis using upd disp p(1) by simp
  qed
qed

lemma timer_quiet:
  assumes w: "wound_down s"
  shows "wound_down (fire_session_timer h s) \<and> quiet s (fire_session_timer h s)"
proof (cases "fire h (timers s)")
  case None
  then show ?thesis using w by (simp add: fire_session_timer_def)
next
  case (Some ts)
  obtain task sc where f: "fire h (timers s) = Some (task, sc)" using Some by (cases ts) auto
  then obtain rep where live: "pending (timers s) h = Some (task, rep)"
    "pending sc = (pending (timers s))(h := if rep then Some (task, rep) else None)" using browser.fire_law [OF f] by blast
  then have task: "\<not> rep" "\<exists>r. task = Refresh_timeout r" using w by (auto simp: wound_down_def)
  then obtain r where r: "task = Refresh_timeout r" by blast
  let ?c = "s\<lparr>timers := sc\<rparr>"
  have c: "wound_down ?c" "quiet s ?c" using w live task(1) by (auto simp: wound_down_def quiet_def split: if_splits)
  define d where "d = on_request r (\<lambda>q. q\<lparr>rq_timedOut := True\<rparr>) ?c"
  have d: "wound_down d" "quiet s d" using on_request_quiet [OF c(1)] quiet_trans [OF c(2)] by (auto simp: d_def)
  have e: "wound_down (abort_controller r d)" "quiet s (abort_controller r d)"
    using on_request_quiet [OF d(1)] quiet_trans [OF d(2)] by (auto simp: abort_controller_def)
  have "refresh_timed_out r ?c = settle_fetch r Refresh_timeout_token (abort_controller r d)"
    by (simp add: refresh_timed_out_def d_def)
  then show ?thesis using on_request_quiet [OF e(1)] quiet_trans [OF e(2)] f r
    by (auto simp: fire_session_timer_def run_session_task_def settle_fetch_def)
qed

lemma time_quiet:
  "wound_down s \<Longrightarrow> wound_down (s\<lparr>timers := pass_time d w (timers s)\<rparr>) \<and> quiet s (s\<lparr>timers := pass_time d w (timers s)\<rparr>)"
  by (auto simp: wound_down_def quiet_def)

lemma leftover_quiet: "wound_down s \<Longrightarrow> leftover e \<Longrightarrow> wound_down (session_run_step H e s) \<and> quiet s (session_run_step H e s)"
  by (cases e) (simp_all add: resume_quiet finish_quiet poll_callbacks_quiet timer_quiet on_request_quiet settle_fetch_def
      time_quiet)

lemma leftovers_quiet:
  "wound_down s \<Longrightarrow> list_all leftover es \<Longrightarrow> wound_down (session_run H es s) \<and> quiet s (session_run H es s)"
proof (induction es arbitrary: s)
  case (Cons e es)
  then have "wound_down (session_run_step H e s)" "quiet s (session_run_step H e s)" using leftover_quiet by auto
  then show ?case using Cons quiet_trans by (fastforce simp: session_run_def)
qed (simp add: session_run_def)



end
