(* ===== verification/Session_Reload.thy ===== *)
theory Session_Reload
  imports Session_Policies
begin

section \<open>What a reload of the page finds again\<close>

text \<open>
  The session a page was attached to survives a reload through the two storage areas, with the history
  encoded as JSON.  The codec is a function of the host; all that is asked of it is that it reads back a list of
  strings it has written.
\<close>

definition json_keeps_strings :: "host \<Rightarrow> bool" where
  "json_keeps_strings H \<longleftrightarrow>
     (\<forall>ids. \<exists>enc. enc \<noteq> [] \<and> json_stringify H (J_arr (map J_str ids)) = Inr enc \<and>
        json_parse H enc = Inr (J_arr (map J_str ids)))"

text \<open>An area that can be read and written.\<close>

definition usable :: "storage_access \<Rightarrow> bool" where
  "usable access \<longleftrightarrow> acc_error access = None \<and>
     (case acc_storage access of
        None \<Rightarrow> False
      | Some st \<Rightarrow> ws_readError st = None \<and> (\<forall>k v. ws_writeError st k v = None))"

lemma usableE:
  assumes "usable access"
  obtains st where "acc_storage access = Some st" "acc_error access = None" "ws_readError st = None"
    "\<forall>k v. ws_writeError st k v = None"
  using assms by (auto simp: usable_def split: option.splits)

lemma keys_differ [simp]:
  "LAST_SESSION_STORAGE_KEY \<noteq> SESSION_HISTORY_STORAGE_KEY" "SESSION_HISTORY_STORAGE_KEY \<noteq> LAST_SESSION_STORAGE_KEY"
  by (simp_all add: LAST_SESSION_STORAGE_KEY_def SESSION_HISTORY_STORAGE_KEY_def)

lemma string_entries: "List.map_filter string_entry (map J_str ids) = filter (\<lambda>s. s \<noteq> []) ids"
  by (induction ids) (simp_all add: List.map_filter_def)

lemma parse_history_strings: "[] \<notin> set ids \<Longrightarrow> parse_history (J_arr (map J_str ids)) = (ids, None)"
proof -
  assume "[] \<notin> set ids"
  then have "filter (\<lambda>s. s \<noteq> []) ids = ids" by (induction ids) auto
  then show ?thesis by (simp add: parse_history_def string_entries)
qed

lemma parse_history_nonempty: "[] \<notin> set (fst (parse_history v))"
proof -
  have "[] \<notin> set (List.map_filter string_entry es)" for es
    by (induction es) (auto simp: List.map_filter_def elim!: string_entry.elims split: if_splits)
  then show ?thesis by (cases v) (simp_all add: parse_history_def Let_def)
qed

lemma read_history_nonempty: "[] \<notin> set (fst (readSessionHistoryResult H st))"
  by (simp add: readSessionHistoryResult_def parse_history_nonempty split: sum.split option.split)

lemma push_history_nonempty: "[] \<notin> set ids \<Longrightarrow> sid \<noteq> [] \<Longrightarrow> [] \<notin> set (pushSessionHistory ids sid n)"
  by (auto simp: pushSessionHistory_def Let_def dest: in_set_takeD)

lemma report_areas [simp]:
  "localAccess (reportFailure H e s) = localAccess s" "sessionAccess (reportFailure H e s) = sessionAccess s"
  "sessionId (reportFailure H e s) = sessionId s" "lastSessionId (reportFailure H e s) = lastSessionId s"
  "sessionHistoryIds (reportFailure H e s) = sessionHistoryIds s"
  by (simp_all add: reportFailure_def reportStorageFailure_def publishThrottledSessionNotice_def
      notifyWithFailureThrottle_def publishSessionNotice_def Let_def case_prod_beta split: option.split)

lemma report_mode [simp]: "attachMode (reportFailure H e s) = attachMode s"
  by (simp add: reportFailure_def reportStorageFailure_def publishThrottledSessionNotice_def
      notifyWithFailureThrottle_def publishSessionNotice_def Let_def case_prod_beta split: option.split)

text \<open>What remembering a session writes, and what loading reads.\<close>

lemma rememberSession_writes:
  assumes st: "acc_storage (localAccess s) = Some st" "ws_readError st = None" "\<forall>k v. ws_writeError st k v = None"
    and json: "json_keeps_strings H" and sid: "sid \<noteq> []"
  obtains enc where
    "localAccess (rememberSession H sid s) = (localAccess s)\<lparr>acc_storage := Some (st\<lparr>ws_items :=
       (ws_items st)(LAST_SESSION_STORAGE_KEY \<mapsto> sid, SESSION_HISTORY_STORAGE_KEY \<mapsto> enc)\<rparr>)\<rparr>"
    "enc \<noteq> []" "json_parse H enc = Inr (J_arr (map J_str (sessionHistoryIds (rememberSession H sid s))))"
    "[] \<notin> set (sessionHistoryIds (rememberSession H sid s))" "hd (sessionHistoryIds (rememberSession H sid s)) = sid"
    "sessionHistoryIds (rememberSession H sid s) \<noteq> []" "sessionAccess (rememberSession H sid s) = sessionAccess s"
    "sessionId (rememberSession H sid s) = sessionId s"
proof -
  let ?st1 = "st\<lparr>ws_items := (ws_items st)(LAST_SESSION_STORAGE_KEY \<mapsto> sid)\<rparr>"
  define ids where "ids = pushSessionHistory (fst (readSessionHistoryResult H ?st1)) sid MAX_HISTORY_ENTRIES"
  obtain enc where enc: "enc \<noteq> []" "json_stringify H (J_arr (map J_str ids)) = Inr enc"
    "json_parse H enc = Inr (J_arr (map J_str ids))"
    using json unfolding json_keeps_strings_def by meson
  have store: "storeSessionIdResult st LAST_SESSION_STORAGE_KEY sid = (None, ?st1)"
    using st by (simp add: storeSessionIdResult_def setItem_def)
  have wrote: "writeSessionHistoryResult H ?st1 ids =
      (None, st\<lparr>ws_items := (ws_items st)(LAST_SESSION_STORAGE_KEY \<mapsto> sid, SESSION_HISTORY_STORAGE_KEY \<mapsto> enc)\<rparr>)"
    using st enc by (simp add: writeSessionHistoryResult_def setItem_def)
  have ids: "[] \<notin> set ids" unfolding ids_def by (rule push_history_nonempty [OF read_history_nonempty sid])
  have first: "hd ids = sid" "ids \<noteq> []" by (simp_all add: ids_def pushSessionHistory_def MAX_HISTORY_ENTRIES_def Let_def)
  show thesis
    by (rule that [of enc])
      (use enc ids first in \<open>simp_all add: rememberSession_def resolveStorageAccess_def st(1) store case_prod_beta
         ids_def [symmetric] wrote set_local_def\<close>)
qed

lemma loads_back:
  assumes l: "acc_storage la = Some lst" "ws_readError lst = None" "ws_items lst LAST_SESSION_STORAGE_KEY = Some sid"
      "ws_items lst SESSION_HISTORY_STORAGE_KEY = Some enc" "enc \<noteq> []"
      "json_parse H enc = Inr (J_arr (map J_str ids))" "[] \<notin> set ids"
    and a: "acc_storage sa = Some sst" "ws_readError sst = None" "ws_items sst ACTIVE_SESSION_STORAGE_KEY = Some sid"
    and sid: "sid \<noteq> []"
  shows "sessionId (mount_session H clock [] la sa) = Some sid"
    "lastSessionId (mount_session H clock [] la sa) = Some sid"
    "sessionHistoryIds (mount_session H clock [] la sa) = ids"
  using assms
  by (simp_all add: mount_session_def initial_notice_effect_def load_session_id_def load_last_session_id_def
      load_session_history_def resolveStorageAccess_def initialSession_def readStoredSessionIdResult_def
      readSessionHistoryResult_def getItem_def case_prod_beta parse_history_strings)

text \<open>C26: A session survives a reload: when the storage areas work, once the server has confirmed a session, a page
  that is loaded again in the same tab starts with that session as the active and the last one and with the
  same history, whose first entry it is, whatever was stored before.\<close>

theorem ready_session_survives_reload:
  assumes "json_keeps_strings H" "usable (localAccess s)" "usable (sessionAccess s)" "sid \<noteq> []"
    "s' = applyReadySession H sid readOnly s" "r = mount_session H clock [] (localAccess s') (sessionAccess s')"
  shows "sessionId r = Some sid \<and> lastSessionId r = Some sid \<and> sessionHistoryIds r = sessionHistoryIds s' \<and>
    sessionHistoryIds r \<noteq> [] \<and> hd (sessionHistoryIds r) = sid \<and>
    sessionId s' = Some sid \<and> attachMode s' = (if readOnly then Watch else Control)"
proof -
  obtain lst where l: "acc_storage (localAccess s) = Some lst" "acc_error (localAccess s) = None" "ws_readError lst = None"
    "\<forall>k v. ws_writeError lst k v = None" using assms(2) by (rule usableE)
  obtain sst where a: "acc_storage (sessionAccess s) = Some sst" "acc_error (sessionAccess s) = None" "ws_readError sst = None"
    "\<forall>k v. ws_writeError sst k v = None" using assms(3) by (rule usableE)
  let ?s1 = "(clearSessionNotice (s\<lparr>attachMode := if readOnly then Watch else Control\<rparr>))\<lparr>sessionId := Some sid, sessionMenuOpen := False\<rparr>"
  have s1: "localAccess ?s1 = localAccess s" "sessionAccess ?s1 = sessionAccess s" "sessionId ?s1 = Some sid"
    "attachMode ?s1 = (if readOnly then Watch else Control)"
    by (simp_all add: clearSessionNotice_def clear_notice_timer_def split: option.split)
  obtain enc where m: "localAccess (rememberSession H sid ?s1) = (localAccess ?s1)\<lparr>acc_storage := Some (lst\<lparr>ws_items :=
       (ws_items lst)(LAST_SESSION_STORAGE_KEY \<mapsto> sid, SESSION_HISTORY_STORAGE_KEY \<mapsto> enc)\<rparr>)\<rparr>"
    "enc \<noteq> []" "json_parse H enc = Inr (J_arr (map J_str (sessionHistoryIds (rememberSession H sid ?s1))))"
    "[] \<notin> set (sessionHistoryIds (rememberSession H sid ?s1))" "hd (sessionHistoryIds (rememberSession H sid ?s1)) = sid"
    "sessionHistoryIds (rememberSession H sid ?s1) \<noteq> []" "sessionAccess (rememberSession H sid ?s1) = sessionAccess ?s1"
    "sessionId (rememberSession H sid ?s1) = sessionId ?s1"
    by (rule rememberSession_writes [of ?s1 lst H sid]) (use l assms(1,4) s1 in auto)
  define m where "m = rememberSession H sid ?s1"
  have s': "s' = persistActiveSessionStorage H sid m" by (simp add: assms(5) applyReadySession_def m_def Let_def)
  have mode: "attachMode (rememberSession H sid x) = attachMode x" "attachMode (persistActiveSessionStorage H sid x) = attachMode x"
    for x :: "'a session_layer_scheme"
    by (simp_all add: rememberSession_def persistActiveSessionStorage_def resolveStorageAccess_def
        set_local_def set_session_def Let_def case_prod_beta split: option.split)
  have p: "localAccess s' = localAccess m" "sessionHistoryIds s' = sessionHistoryIds m" "sessionId s' = sessionId m"
    "sessionAccess s' = (sessionAccess m)\<lparr>acc_storage := Some (sst\<lparr>ws_items := (ws_items sst)(ACTIVE_SESSION_STORAGE_KEY \<mapsto> sid)\<rparr>)\<rparr>"
    using m(7) a s1 unfolding s' persistActiveSessionStorage_def resolveStorageAccess_def
    by (simp_all add: m_def storeSessionIdResult_def setItem_def set_session_def)
  note again = loads_back [where la = "localAccess s'" and sa = "sessionAccess s'" and H = H and clock = clock and sid = sid
      and enc = enc and ids = "sessionHistoryIds m"
      and lst = "lst\<lparr>ws_items := (ws_items lst)(LAST_SESSION_STORAGE_KEY \<mapsto> sid, SESSION_HISTORY_STORAGE_KEY \<mapsto> enc)\<rparr>"
      and sst = "sst\<lparr>ws_items := (ws_items sst)(ACTIVE_SESSION_STORAGE_KEY \<mapsto> sid)\<rparr>"]
  have "sessionId r = Some sid" "lastSessionId r = Some sid" "sessionHistoryIds r = sessionHistoryIds m"
    unfolding assms(6) by (rule again; use m l a p assms(4) in \<open>simp add: m_def\<close>)+
  moreover have "attachMode s' = (if readOnly then Watch else Control)" using s1(4) by (simp add: s' m_def mode)
  ultimately show ?thesis using m(5,6,8) p s1 by (simp add: m_def)
qed

text \<open>A host whose codec keeps lists of strings: each code unit is written after a 1, each string ends with a 0.\<close>

fun write_strings :: "jsval list \<Rightarrow> jsstring" where
  "write_strings [] = []"
| "write_strings (J_str s # vs) = concat (map (\<lambda>u. [1, u]) s) @ 0 # write_strings vs"
| "write_strings (v # vs) = write_strings vs"

fun read_strings :: "jsstring \<Rightarrow> jsstring \<Rightarrow> jsval list" where
  "read_strings acc [] = []"
| "read_strings acc [x] = (if x = 0 then [J_str acc] else [])"
| "read_strings acc (x # u # xs) = (if x = 0 then J_str acc # read_strings [] (u # xs) else read_strings (acc @ [u]) xs)"

lemma read_one: "read_strings acc (concat (map (\<lambda>u. [1, u]) s) @ 0 # xs) = J_str (acc @ s) # read_strings [] xs"
proof (induction s arbitrary: acc)
  case Nil
  then show ?case by (cases xs) simp_all
qed simp

lemma read_written: "read_strings [] (write_strings (map J_str ids)) = map J_str ids"
  by (induction ids) (simp_all add: read_one)

definition codec_host :: host where
  "codec_host = sample_host\<lparr>
     json_stringify := (\<lambda>v. case v of J_arr vs \<Rightarrow> Inr (2 # write_strings vs) | _ \<Rightarrow> Inr (js ''{}'')),
     json_parse := (\<lambda>t. Inr (J_arr (read_strings [] (tl t))))\<rparr>"

lemma codec_host_ok: "json_keeps_strings codec_host"
  by (auto simp: json_keeps_strings_def codec_host_def read_written)

definition empty_area :: storage_access where
  "empty_area = \<lparr>acc_storage = Some \<lparr>ws_items = Map.empty, ws_readError = None, ws_writeError = (\<lambda>_ _. None),
     ws_removeError = None\<rparr>, acc_error = None\<rparr>"

theorem ready_session_survives_reload_witness:
  "sessionId (mount_session codec_host 7 []
     (localAccess (applyReadySession codec_host (js ''s1'') False (initialSession 0 [] empty_area empty_area)))
     (sessionAccess (applyReadySession codec_host (js ''s1'') False (initialSession 0 [] empty_area empty_area)))) = Some (js ''s1'')"
  using ready_session_survives_reload [OF codec_host_ok _ _ _ refl refl, where clock = 7 and readOnly = False and
      s = "initialSession 0 [] empty_area empty_area" and sid = "js ''s1''"]
  by (simp add: initialSession_def usable_def empty_area_def)

subsection \<open>Two behaviours to know of\<close>

text \<open>
  A refresh the transport asks for once the interval is over does not cancel the trailing timer of an earlier
  call.  When that timer fires, a second refresh follows at once, within the minimal interval.
\<close>

definition double_refresh_steps :: "session_step list" where
  "double_refresh_steps =
     [Session_transport_refresh, Session_fetched 1 (Inr sample_payload), Session_resume 1, Session_finish 1,
      Session_time 100 1100, Session_transport_refresh,
      Session_time 700 1800, Session_transport_refresh,
      Session_fetched 2 (Inr sample_payload), Session_resume 2, Session_finish 2, Session_timer 1]"

lemma transport_interval_not_kept:
  "latestRefreshRequestId (session_reached sample_host double_refresh_steps 1000 no_storage no_storage) = 3 \<and>
   lastTransportRefreshAt (session_reached sample_host (take 8 double_refresh_steps) 1000 no_storage no_storage) = Some 1800 \<and>
   lastTransportRefreshAt (session_reached sample_host double_refresh_steps 1000 no_storage no_storage) = Some 1800"
proof -
  have m: "mount_session sample_host 1000 [] no_storage no_storage = initialSession 1000 [] no_storage no_storage"
    by (simp add: mount_session_def initial_notice_effect_def load_session_id_def load_last_session_id_def
        load_session_history_def resolveStorageAccess_def reportFailure_def no_storage_def initialSession_def)
  show ?thesis
    by (simp add: session_reached_def m double_refresh_steps_def run_simps requestTransportRefresh_def now_def
        scheduleTrailingTransportRefresh_def TRANSPORT_REFRESH_MIN_INTERVAL_MS_def SESSION_REFRESH_CALL_TIMEOUT_MS_def
        resume_refresh_def consume_payload_def sample_payload_parses onRefreshSuccess_def answer_def finish_refresh_def
        clearTimeout_def pass_time_def fire_session_timer_def fire_def run_session_task_def trailing_refresh_def)
qed

text \<open>
  The effect that starts the timer of the initial notice overwrites the handle of a notice a storage failure has
  published while the layer was loading: two timers are live, and the older one, no longer known to any
  field, will clear whatever notice is shown when it fires.
\<close>

definition failing_area :: storage_access where
  "failing_area = \<lparr>acc_storage = None, acc_error = Some \<lparr>sf_operation = Op_read, sf_key = js ''localStorage'',
     sf_reason = None, sf_cause = J_null\<rparr>\<rparr>"

lemma initial_notice_leaks_timer:
  "pending (timers (mount_session sample_host 0 (js ''x'') no_storage failing_area)) 0 = Some (Notice_expired, False) \<and>
   sessionNoticeTimer (mount_session sample_host 0 (js ''x'') no_storage failing_area) = Some 1"
  by (simp add: mount_session_def load_session_id_def load_last_session_id_def load_session_history_def resolveStorageAccess_def
      reportFailure_def no_storage_def failing_area_def initialSession_def reportStorageFailure_def
      publishThrottledSessionNotice_def notifyWithFailureThrottle_def registerFailureNotice_def publishSessionNotice_def
      initial_notice_effect_def setTimeout_def add_timer_def new_scheduler_def pending_def Let_def)

end
