(* ===== verification/Browser_Transport.thy ===== *)
theory Browser_Transport
  imports Lifecycle Sample_Host
begin

section \<open>The browser transport\<close>

text \<open>
  \<open>adapters/browser-transport.ts\<close> and \<open>adapters/transport-event-normalizer.ts\<close>.  An event is a
  primitive value or an object; of an object the code observes its class, the properties it can read
  (own or inherited) and its own enumerable keys.  A listener and the closure wrapped around it
  are identified by numbers; the event target of the browser is its list of registered closures.
\<close>

subsection \<open>Normalising events\<close>

datatype event_class = Plain_object | Message_event | Close_event | Error_event | Error_object

datatype dom_event =
    Primitive jsval
  | Event_object event_class "(jsstring \<times> jsval) list" "jsstring list"

definition typeof_name :: "jsval \<Rightarrow> jsstring" where
  "typeof_name v =
     (case v of
        J_undefined \<Rightarrow> js ''undefined'' | J_bool _ \<Rightarrow> js ''boolean'' | J_num _ \<Rightarrow> js ''number''
      | J_str _ \<Rightarrow> js ''string'' | _ \<Rightarrow> js ''object'')"

text \<open>Reading a property of an object; \<open>in\<close> asks whether there is one.\<close>

definition read_field :: "(jsstring \<times> jsval) list \<Rightarrow> jsstring \<Rightarrow> jsval" where
  "read_field props k = (case map_of props k of Some v \<Rightarrow> v | None \<Rightarrow> J_undefined)"

definition readStringField :: "(jsstring \<times> jsval) list \<Rightarrow> jsstring \<Rightarrow> jsstring" where
  "readStringField props key = (case read_field props key of J_str s \<Rightarrow> s | _ \<Rightarrow> [])"

fun join_comma :: "jsstring list \<Rightarrow> jsstring" where
  "join_comma [] = []"
| "join_comma [k] = k"
| "join_comma (k # ks) = k @ js '','' @ join_comma ks"

text \<open>\<open>collate\<close> stands for sorting with \<open>localeCompare\<close>, whose collation is the browser's.\<close>

definition summarizeShape :: "(jsstring list \<Rightarrow> jsstring list) \<Rightarrow> dom_event \<Rightarrow> jsstring" where
  "summarizeShape collate ev =
     (case ev of
        Primitive v \<Rightarrow> typeof_name v
      | Event_object _ _ keys \<Rightarrow> if length keys = 0 then js ''empty object'' else join_comma (collate keys))"

definition readErrorCode :: "dom_event \<Rightarrow> transport_failure_code option" where
  "readErrorCode ev =
     (case ev of
        Primitive _ \<Rightarrow> None
      | Event_object _ props _ \<Rightarrow>
          (case read_field props (js ''code'') of
             J_str s \<Rightarrow> if length s > 0 then Some (Code_string s) else None
           | J_num (Finite q) \<Rightarrow> Some (Code_number q)
           | _ \<Rightarrow> None))"

definition normalizeTransportMessageEvent :: "(jsstring list \<Rightarrow> jsstring list) \<Rightarrow> dom_event \<Rightarrow> message_event" where
  "normalizeTransportMessageEvent collate ev =
     (case ev of
        Event_object cls props keys \<Rightarrow>
          (case read_field props (js ''data'') of
             J_str d \<Rightarrow>
               if cls = Message_event \<or> length d > 0 then \<lparr>me_data = d, me_malformed = None\<rparr>
               else \<lparr>me_data = [], me_malformed = Some (summarizeShape collate ev)\<rparr>
           | _ \<Rightarrow> \<lparr>me_data = [], me_malformed = Some (summarizeShape collate ev)\<rparr>)
      | Primitive _ \<Rightarrow> \<lparr>me_data = [], me_malformed = Some (summarizeShape collate ev)\<rparr>)"

definition finite_code :: "jsval \<Rightarrow> rat" where
  "finite_code v = (case v of J_num (Finite q) \<Rightarrow> q | _ \<Rightarrow> 1006)"

definition normalizeTransportCloseEvent :: "dom_event \<Rightarrow> rat \<times> jsstring" where
  "normalizeTransportCloseEvent ev =
     (case ev of
        Event_object _ props _ \<Rightarrow> (finite_code (read_field props (js ''code'')), readStringField props (js ''reason''))
      | Primitive _ \<Rightarrow> (1006, []))"

definition normalizeTransportErrorEvent :: "(jsstring list \<Rightarrow> jsstring list) \<Rightarrow> dom_event \<Rightarrow> transport_error_event" where
  "normalizeTransportErrorEvent collate ev =
     (let fallbackMessage = js ''transport error'';
          described = fallbackMessage @ js '' ('' @ summarizeShape collate ev @ js '')''
      in case ev of
           Primitive v \<Rightarrow>
             \<lparr>ee_message = described, ee_code = None, ee_cause = (if v = J_undefined then None else Some v)\<rparr>
         | Event_object cls props keys \<Rightarrow>
             (let candidate = readStringField props (js ''message'');
                  known = (cls = Error_event \<or> cls = Error_object) \<and> length candidate > 0;
                  cause = (if \<not> known \<and> js ''cause'' \<in> fst ` set props then read_field props (js ''cause'')
                           else if cls = Error_object then J_error candidate else J_obj props)
              in \<lparr>ee_message = (if known \<or> length candidate > 0 then candidate else described),
                  ee_code = readErrorCode ev,
                  ee_cause = (if cause = J_undefined then None else Some cause)\<rparr>))"

definition toTransportReadyState :: "int \<Rightarrow> ready_state" where
  "toTransportReadyState v = (if v = 0 then RS_connecting else if v = 1 then RS_open else if v = 2 then RS_closing else RS_closed)"

subsection \<open>The listener registry\<close>

datatype event_type = On_open | On_message | On_close | On_error

record adapter =
  registry :: "event_type \<Rightarrow> (nat \<times> nat) list"
  target :: "(event_type \<times> nat) list"
  next_closure :: nat

definition createListenerRegistry :: adapter where
  "createListenerRegistry = \<lparr>registry = (\<lambda>_. []), target = [], next_closure = 0\<rparr>"

text \<open>The browser's event target: a closure is registered at most once for a type.\<close>

definition target_add :: "event_type \<Rightarrow> nat \<Rightarrow> (event_type \<times> nat) list \<Rightarrow> (event_type \<times> nat) list" where
  "target_add t c cs = (if (t, c) \<in> set cs then cs else cs @ [(t, c)])"

definition target_remove :: "event_type \<Rightarrow> nat \<Rightarrow> (event_type \<times> nat) list \<Rightarrow> (event_type \<times> nat) list" where
  "target_remove t c cs = removeAll (t, c) cs"

definition addSocketListener :: "event_type \<Rightarrow> nat \<Rightarrow> adapter \<Rightarrow> adapter" where
  "addSocketListener t l a =
     (if l \<in> fst ` set (registry a t) then a
      else let wrapped = next_closure a
           in \<lparr>registry = (registry a)(t := registry a t @ [(l, wrapped)]),
               target = target_add t wrapped (target a), next_closure = Suc wrapped\<rparr>)"

definition removeSocketListener :: "event_type \<Rightarrow> nat \<Rightarrow> adapter \<Rightarrow> adapter" where
  "removeSocketListener t l a =
     (case map_of (registry a t) l of
        None \<Rightarrow> a
      | Some wrapped \<Rightarrow>
          a\<lparr>target := target_remove t wrapped (target a),
            registry := (registry a)(t := filter (\<lambda>p. fst p \<noteq> l) (registry a t))\<rparr>)"

text \<open>Dispatching an event calls the closures of its type in order; each calls the listener it wraps.\<close>

definition unwrap :: "adapter \<Rightarrow> event_type \<Rightarrow> nat \<Rightarrow> nat option" where
  "unwrap a t c = map_of (map (\<lambda>(l, w). (w, l)) (registry a t)) c"

definition called_listeners :: "adapter \<Rightarrow> event_type \<Rightarrow> nat list" where
  "called_listeners a t = List.map_filter (\<lambda>(t', c). if t' = t then unwrap a t c else None) (target a)"

datatype listener_call = Add_listener event_type nat | Remove_listener event_type nat

fun adapter_step :: "listener_call \<Rightarrow> adapter \<Rightarrow> adapter" where
  "adapter_step (Add_listener t l) = addSocketListener t l"
| "adapter_step (Remove_listener t l) = removeSocketListener t l"

text \<open>
  The transport is the socket together with its registry; reading the state, sending and closing are those of the socket, given by
  what the browser does with it, exceptions included.
\<close>

record 'w socket_functions =
  so_readyState :: "'w \<Rightarrow> int"
  so_send :: "jsstring \<Rightarrow> 'w \<Rightarrow> jsval + 'w"
  so_close :: "rat option \<Rightarrow> jsstring option \<Rightarrow> 'w \<Rightarrow> jsval + 'w"

record 'w browser_transport =
  bt_socket :: 'w
  bt_listeners :: adapter

definition createBrowserTransport :: "(jsstring \<Rightarrow> jsval + 'w) \<Rightarrow> jsstring \<Rightarrow> jsval + 'w browser_transport" where
  "createBrowserTransport socketFactory u =
     (case socketFactory u of
        Inl e \<Rightarrow> Inl e
      | Inr sock \<Rightarrow> Inr \<lparr>bt_socket = sock, bt_listeners = createListenerRegistry\<rparr>)"

definition transport_readyState :: "'w socket_functions \<Rightarrow> 'w browser_transport \<Rightarrow> ready_state" where
  "transport_readyState F t = toTransportReadyState (so_readyState F (bt_socket t))"

definition transport_send :: "'w socket_functions \<Rightarrow> jsstring \<Rightarrow> 'w browser_transport \<Rightarrow> jsval + 'w browser_transport" where
  "transport_send F data t =
     (case so_send F data (bt_socket t) of Inl e \<Rightarrow> Inl e | Inr sock \<Rightarrow> Inr (t\<lparr>bt_socket := sock\<rparr>))"

definition transport_close ::
  "'w socket_functions \<Rightarrow> rat option \<Rightarrow> jsstring option \<Rightarrow> 'w browser_transport \<Rightarrow> jsval + 'w browser_transport" where
  "transport_close F code reason t =
     (case so_close F code reason (bt_socket t) of Inl e \<Rightarrow> Inl e | Inr sock \<Rightarrow> Inr (t\<lparr>bt_socket := sock\<rparr>))"

definition transport_listener_call :: "listener_call \<Rightarrow> 'w browser_transport \<Rightarrow> 'w browser_transport" where
  "transport_listener_call c t = t\<lparr>bt_listeners := adapter_step c (bt_listeners t)\<rparr>"

text \<open>What a transport promises its user: the listeners of a type, each once, in the order of their registration.\<close>

fun listeners_step :: "listener_call \<Rightarrow> (event_type \<Rightarrow> nat list) \<Rightarrow> event_type \<Rightarrow> nat list" where
  "listeners_step (Add_listener t l) L = L(t := (if l \<in> set (L t) then L t else L t @ [l]))"
| "listeners_step (Remove_listener t l) L = L(t := filter (\<lambda>x. x \<noteq> l) (L t))"

definition adapter_ok :: "adapter \<Rightarrow> bool" where
  "adapter_ok a \<longleftrightarrow>
     (\<forall>t. distinct (map fst (registry a t)) \<and> distinct (map snd (registry a t)) \<and>
        (\<forall>(l, w) \<in> set (registry a t). w < next_closure a) \<and>
        map snd (filter (\<lambda>p. fst p = t) (target a)) = map snd (registry a t))"

lemma adapter_init: "adapter_ok createListenerRegistry"
  by (simp add: adapter_ok_def createListenerRegistry_def)

lemma fresh_closure: "adapter_ok a \<Longrightarrow> (t, next_closure a) \<notin> set (target a)"
proof
  assume ok: "adapter_ok a" and "(t, next_closure a) \<in> set (target a)"
  then have "next_closure a \<in> snd ` set (filter (\<lambda>p. fst p = t) (target a))" by force
  then have "next_closure a \<in> set (map snd (registry a t))" using ok unfolding adapter_ok_def by (metis set_map)
  then show False using ok by (force simp: adapter_ok_def)
qed

lemma add_ok:
  assumes ok: "adapter_ok a"
  shows "adapter_ok (addSocketListener t l a)"
proof (cases "l \<in> fst ` set (registry a t)")
  case True
  then show ?thesis using ok by (simp add: addSocketListener_def)
next
  case False
  have below: "w < next_closure a" if "(k, w) \<in> set (registry a u)" for k w u
    using ok that by (fastforce simp: adapter_ok_def)
  then have "next_closure a \<notin> snd ` set (registry a t)" by force
  then show ?thesis using ok False below fresh_closure [OF ok, of t]
    by (auto simp: adapter_ok_def addSocketListener_def target_add_def Let_def less_Suc_eq split: prod.splits)
qed

lemma remove_pairs:
  assumes "distinct (map fst ps)" "distinct (map snd ps)" "map_of ps l = Some w"
  shows "map snd (filter (\<lambda>p. fst p \<noteq> l) ps) = filter (\<lambda>x. x \<noteq> w) (map snd ps)"
proof -
  have "fst p = l \<longleftrightarrow> snd p = w" if "p \<in> set ps" for p
  proof -
    have lw: "(l, w) \<in> set ps" using assms(3) by (rule map_of_SomeD)
    show ?thesis using assms(1,2) that lw by (metis distinct_map inj_on_contraD prod.collapse fst_conv snd_conv)
  qed
  then have "filter (\<lambda>p. fst p \<noteq> l) ps = filter (\<lambda>p. snd p \<noteq> w) ps" by (intro filter_cong) auto
  then show ?thesis by (simp add: filter_map comp_def)
qed

lemma filter_target_remove:
  "map snd (filter (\<lambda>p. fst p = t) (target_remove u w cs)) =
     (if t = u then filter (\<lambda>x. x \<noteq> w) (map snd (filter (\<lambda>p. fst p = t) cs)) else map snd (filter (\<lambda>p. fst p = t) cs))"
  by (induction cs) (auto simp: target_remove_def)

lemma remove_ok:
  assumes ok: "adapter_ok a"
  shows "adapter_ok (removeSocketListener t l a)"
proof (cases "map_of (registry a t) l")
  case (Some w)
  note d = ok [unfolded adapter_ok_def, rule_format, of t]
  show ?thesis using ok Some remove_pairs [OF _ _ Some] d
    by (auto simp: adapter_ok_def removeSocketListener_def filter_target_remove distinct_map_filter)
qed (simp add: removeSocketListener_def ok)

lemma called_registered:
  assumes ok: "adapter_ok a"
  shows "called_listeners a t = map fst (registry a t)"
proof -
  note d = ok [unfolded adapter_ok_def, rule_format, of t]
  have step: "List.map_filter (\<lambda>(t', c). if t' = t then f c else None) cs =
      List.map_filter f (map snd (filter (\<lambda>p. fst p = t) cs))" for f :: "nat \<Rightarrow> nat option" and cs
    by (induction cs) (auto simp: List.map_filter_def)
  have "unwrap a t w = Some l" if "(l, w) \<in> set (registry a t)" for l w
    unfolding unwrap_def by (rule map_of_is_SomeI) (use d that in \<open>force simp: comp_def case_prod_beta\<close>)+
  then have "List.map_filter (unwrap a t) (map snd ps) = map fst ps" if "set ps \<subseteq> set (registry a t)" for ps
    using that by (induction ps) (auto simp: List.map_filter_def)
  then show ?thesis using d by (simp add: called_listeners_def step)
qed

lemma step_refines:
  assumes ok: "adapter_ok a"
  shows "adapter_ok (adapter_step c a)" "called_listeners (adapter_step c a) = listeners_step c (called_listeners a)"
proof -
  show ok': "adapter_ok (adapter_step c a)" by (cases c) (simp_all add: add_ok remove_ok ok)
  have reg: "called_listeners b = (\<lambda>t. map fst (registry b t))" if "adapter_ok b" for b
    using called_registered [OF that] by (rule ext)
  have keys: "map fst (filter (\<lambda>p. fst p \<noteq> l) ps) = filter (\<lambda>x. x \<noteq> l) (map fst ps)" for l and ps :: "(nat \<times> nat) list"
    by (simp add: filter_map comp_def)
  show "called_listeners (adapter_step c a) = listeners_step c (called_listeners a)"
    unfolding reg [OF ok'] reg [OF ok]
  proof (cases c)
    case (Add_listener t l)
    then show "(\<lambda>t. map fst (registry (adapter_step c a) t)) = listeners_step c (\<lambda>t. map fst (registry a t))"
      by (auto simp: addSocketListener_def Let_def fun_eq_iff image_iff)
  next
    case (Remove_listener t l)
    then show "(\<lambda>t. map fst (registry (adapter_step c a) t)) = listeners_step c (\<lambda>t. map fst (registry a t))"
    proof (cases "map_of (registry a t) l")
      case None
      then have "filter (\<lambda>x. x \<noteq> l) (map fst (registry a t)) = map fst (registry a t)"
        by (intro filter_True) (auto simp: map_of_eq_None_iff)
      then show ?thesis using Remove_listener None by (auto simp: removeSocketListener_def fun_eq_iff)
    qed (use Remove_listener keys in \<open>auto simp: removeSocketListener_def fun_eq_iff\<close>)
  qed
qed


text \<open>Every event becomes a well-formed transport event: a message event carries its string, or is marked as
  malformed and carries nothing, and a native message event with a string is never marked; an error always has a message
  and its code is a non-empty string or a finite number; a close without a finite code counts as abnormal (1006).\<close>

theorem normalized_events_are_well_formed:
  "(me_malformed (normalizeTransportMessageEvent collate ev) = None \<longleftrightarrow>
      (\<exists>cls props keys d. ev = Event_object cls props keys \<and> read_field props (js ''data'') = J_str d \<and>
         (cls = Message_event \<or> d \<noteq> []) \<and> me_data (normalizeTransportMessageEvent collate ev) = d)) \<and>
   (me_malformed (normalizeTransportMessageEvent collate ev) \<noteq> None \<longrightarrow>
      me_data (normalizeTransportMessageEvent collate ev) = []) \<and>
   ee_message (normalizeTransportErrorEvent collate ev) \<noteq> [] \<and>
   ee_code (normalizeTransportErrorEvent collate ev) \<noteq> Some (Code_string []) \<and>
   ((\<nexists>cls props keys q. ev = Event_object cls props keys \<and> read_field props (js ''code'') = J_num (Finite q)) \<longrightarrow>
      fst (normalizeTransportCloseEvent ev) = 1006)"
proof -
  have joined: "me_malformed (normalizeTransportMessageEvent collate ev) = None \<longleftrightarrow>
      (\<exists>cls props keys d. ev = Event_object cls props keys \<and> read_field props (js ''data'') = J_str d \<and>
         (cls = Message_event \<or> d \<noteq> []) \<and> me_data (normalizeTransportMessageEvent collate ev) = d)"
    by (auto simp: normalizeTransportMessageEvent_def split: dom_event.split jsval.split)
  have "me_malformed (normalizeTransportMessageEvent collate ev) \<noteq> None \<longrightarrow>
      me_data (normalizeTransportMessageEvent collate ev) = []"
    by (auto simp: normalizeTransportMessageEvent_def split: dom_event.split jsval.split)
  moreover have "ee_message (normalizeTransportErrorEvent collate ev) \<noteq> []"
    by (auto simp: normalizeTransportErrorEvent_def Let_def split: dom_event.split)
  moreover have "ee_code (normalizeTransportErrorEvent collate ev) \<noteq> Some (Code_string [])"
    by (auto simp: normalizeTransportErrorEvent_def readErrorCode_def Let_def split: dom_event.split jsval.split jsnum.split)
  moreover have "fst (normalizeTransportCloseEvent ev) = 1006"
    if "\<nexists>cls props keys q. ev = Event_object cls props keys \<and> read_field props (js ''code'') = J_num (Finite q)"
    using that by (auto simp: normalizeTransportCloseEvent_def finite_code_def split: dom_event.split jsval.split jsnum.split)
  ultimately show ?thesis using joined by blast
qed

theorem normalized_events_are_well_formed_witness:
  "fst (normalizeTransportCloseEvent (Primitive J_null)) = 1006"
  using normalized_events_are_well_formed [of id "Primitive J_null"] by simp


end
