(* ===== verification/Commands.thy ===== *)
theory Commands
  imports Prelude
begin

section \<open>Commands, shortcuts and floating controls\<close>

text \<open>
  \<open>commands/\<close>: the command manifest, the registry built from it, dispatch, the keyboard shortcuts
  (\<open>shortcut-command-map.ts\<close>, \<open>app/bindings/shortcut-binding.ts\<close>) and the catalogue of floating
  controls.  A map that refuses duplicates is an association list built by \<open>insertUnique\<close>, the exception being
  the text of its message.
\<close>

subsection \<open>The manifest\<close>

datatype shortcut_action =
    Reconnect_command
  | Clear_command
  | Decrease_font
  | Increase_font
  | Reset_font
  | Toggle_fullscreen
  | Toggle_controls
  | Toggle_help

fun command_name :: "shortcut_action \<Rightarrow> jsstring" where
  "command_name Reconnect_command = js ''reconnect''"
| "command_name Clear_command = js ''clear''"
| "command_name Decrease_font = js ''decreaseFont''"
| "command_name Increase_font = js ''increaseFont''"
| "command_name Reset_font = js ''resetFont''"
| "command_name Toggle_fullscreen = js ''toggleFullscreen''"
| "command_name Toggle_controls = js ''toggleControls''"
| "command_name Toggle_help = js ''toggleHelp''"

datatype handler_kind = Runtime_handler | Viewport_handler

datatype metadata_key =
    Key_reconnect | Key_clear | Key_decreaseFont | Key_increaseFont | Key_resetFont | Key_fullscreen | Key_help

fun metadata_key_name :: "metadata_key \<Rightarrow> jsstring" where
  "metadata_key_name Key_reconnect = js ''reconnect''"
| "metadata_key_name Key_clear = js ''clear''"
| "metadata_key_name Key_decreaseFont = js ''decreaseFont''"
| "metadata_key_name Key_increaseFont = js ''increaseFont''"
| "metadata_key_name Key_resetFont = js ''resetFont''"
| "metadata_key_name Key_fullscreen = js ''fullscreen''"
| "metadata_key_name Key_help = js ''help''"

record manifest_entry =
  cmd_id :: shortcut_action
  cmd_handler :: handler_kind
  cmd_shortcutCode :: jsstring
  cmd_label :: jsstring
  cmd_floatingControl :: "(jsstring \<times> metadata_key) option"

definition manifest_row ::
  "shortcut_action \<Rightarrow> handler_kind \<Rightarrow> string \<Rightarrow> string \<Rightarrow> (string \<times> metadata_key) option \<Rightarrow> manifest_entry" where
  "manifest_row c h code label fc =
     \<lparr>cmd_id = c, cmd_handler = h, cmd_shortcutCode = js code, cmd_label = js label,
      cmd_floatingControl = map_option (\<lambda>(t, k). (js t, k)) fc\<rparr>"

definition COMMAND_MANIFEST :: "manifest_entry list" where
  "COMMAND_MANIFEST =
     [manifest_row Reconnect_command Runtime_handler ''KeyR'' ''Reconnect'' (Some (''reconnect-button'', Key_reconnect)),
      manifest_row Clear_command Runtime_handler ''KeyK'' ''Clear terminal'' (Some (''clear-button'', Key_clear)),
      manifest_row Decrease_font Viewport_handler ''Minus'' ''Decrease font size'' (Some (''font-decrease-button'', Key_decreaseFont)),
      manifest_row Increase_font Viewport_handler ''Equal'' ''Increase font size'' (Some (''font-increase-button'', Key_increaseFont)),
      manifest_row Reset_font Viewport_handler ''Digit0'' ''Reset font size'' (Some (''font-reset-button'', Key_resetFont)),
      manifest_row Toggle_fullscreen Viewport_handler ''KeyF'' ''Toggle fullscreen'' (Some (''fullscreen-button'', Key_fullscreen)),
      manifest_row Toggle_controls Viewport_handler ''KeyB'' ''Toggle controls'' None,
      manifest_row Toggle_help Viewport_handler ''Period'' ''Keyboard shortcuts'' (Some (''help-button'', Key_help))]"

subsection \<open>The registry\<close>

record command_registry =
  commandByShortcutCode :: "(jsstring \<times> shortcut_action) list"
  handlerByCommand :: "(shortcut_action \<times> handler_kind) list"

definition registry_step :: "jsstring + command_registry \<Rightarrow> manifest_entry \<Rightarrow> jsstring + command_registry" where
  "registry_step acc command =
     (case acc of
        Inl e \<Rightarrow> Inl e
      | Inr r \<Rightarrow>
          if cmd_shortcutCode command \<in> fst ` set (commandByShortcutCode r)
          then Inl (js ''Duplicate shortcut descriptor for key code '' @ [39] @ cmd_shortcutCode command @ [39] @ js ''.'')
          else if cmd_id command \<in> fst ` set (handlerByCommand r)
          then Inl (js ''Duplicate command handler descriptor for '' @ [39] @ command_name (cmd_id command) @ [39] @ js ''.'')
          else Inr \<lparr>commandByShortcutCode = commandByShortcutCode r @ [(cmd_shortcutCode command, cmd_id command)],
                    handlerByCommand = handlerByCommand r @ [(cmd_id command, cmd_handler command)]\<rparr>)"

definition buildCommandRegistry :: "manifest_entry list \<Rightarrow> jsstring + command_registry" where
  "buildCommandRegistry manifest =
     foldl registry_step (Inr \<lparr>commandByShortcutCode = [], handlerByCommand = []\<rparr>) manifest"

definition resolveCommandFromShortcutCode :: "command_registry \<Rightarrow> jsstring \<Rightarrow> shortcut_action option" where
  "resolveCommandFromShortcutCode r code = map_of (commandByShortcutCode r) code"

definition resolveHandlerForCommand :: "command_registry \<Rightarrow> shortcut_action \<Rightarrow> jsstring + handler_kind" where
  "resolveHandlerForCommand r command =
     (case map_of (handlerByCommand r) command of
        Some h \<Rightarrow> Inr h
      | None \<Rightarrow> Inl (js ''No command handler descriptor found for '' @ [39] @ command_name command @ [39] @ js ''.''))"

text \<open>The handlers are the two tables, as functions of the state they act on.\<close>

definition dispatchCommand ::
  "command_registry \<Rightarrow> (shortcut_action \<Rightarrow> 's \<Rightarrow> 's) \<Rightarrow> (shortcut_action \<Rightarrow> 's \<Rightarrow> 's) \<Rightarrow> shortcut_action \<Rightarrow> 's \<Rightarrow> jsstring + 's" where
  "dispatchCommand r runtime viewport command s =
     (case resolveHandlerForCommand r command of
        Inl e \<Rightarrow> Inl e
      | Inr Runtime_handler \<Rightarrow> Inr (runtime command s)
      | Inr Viewport_handler \<Rightarrow> Inr (viewport command s))"

subsection \<open>Shortcuts\<close>

record key_event =
  key_ctrl :: bool
  key_meta :: bool
  key_shift :: bool
  key_code :: jsstring
  key_isComposing :: bool
  key_targetIsEditable :: bool
  key_targetInTerminal :: bool

definition readShortcutAction :: "command_registry \<Rightarrow> key_event \<Rightarrow> shortcut_action option" where
  "readShortcutAction r ev =
     (let ctrlOrMeta = key_ctrl ev \<or> key_meta ev
      in if \<not> ctrlOrMeta \<or> \<not> key_shift ev then None else resolveCommandFromShortcutCode r (key_code ev))"

text \<open>The key handler: the action to run, in which case the default action and the propagation are stopped.\<close>

definition keyHandler :: "command_registry \<Rightarrow> key_event \<Rightarrow> shortcut_action option" where
  "keyHandler r ev =
     (if key_isComposing ev \<or> key_targetIsEditable ev \<and> \<not> key_targetInTerminal ev then None
      else readShortcutAction r ev)"

subsection \<open>Floating controls\<close>

record control_state =
  cs_terminalReady :: bool
  cs_fontSize :: int
  cs_fontSizeMin :: int
  cs_fontSizeMax :: int
  cs_defaultFontSize :: int
  cs_isFullscreen :: bool

fun isDisabled :: "metadata_key \<Rightarrow> control_state \<Rightarrow> bool" where
  "isDisabled Key_reconnect m = (\<not> cs_terminalReady m)"
| "isDisabled Key_clear m = (\<not> cs_terminalReady m)"
| "isDisabled Key_decreaseFont m = (\<not> cs_terminalReady m \<or> cs_fontSize m \<le> cs_fontSizeMin m)"
| "isDisabled Key_increaseFont m = (\<not> cs_terminalReady m \<or> cs_fontSize m \<ge> cs_fontSizeMax m)"
| "isDisabled Key_resetFont m = (\<not> cs_terminalReady m \<or> cs_fontSize m = cs_defaultFontSize m)"
| "isDisabled Key_fullscreen m = (\<not> cs_terminalReady m)"
| "isDisabled Key_help m = False"

datatype icon = Icon_reconnect | Icon_clear | Icon_fontDecrease | Icon_fontIncrease | Icon_fontReset
  | Icon_fullscreenEnter | Icon_fullscreenExit | Icon_help

fun resolveIcon :: "metadata_key \<Rightarrow> control_state \<Rightarrow> icon" where
  "resolveIcon Key_reconnect m = Icon_reconnect"
| "resolveIcon Key_clear m = Icon_clear"
| "resolveIcon Key_decreaseFont m = Icon_fontDecrease"
| "resolveIcon Key_increaseFont m = Icon_fontIncrease"
| "resolveIcon Key_resetFont m = Icon_fontReset"
| "resolveIcon Key_fullscreen m = (if cs_isFullscreen m then Icon_fullscreenExit else Icon_fullscreenEnter)"
| "resolveIcon Key_help m = Icon_help"

record control_metadata =
  md_tooltip :: jsstring
  md_ariaLabel :: jsstring
  md_ariaKeyShortcuts :: "jsstring option"

definition metadata_row :: "string \<Rightarrow> string \<Rightarrow> string option \<Rightarrow> control_metadata" where
  "metadata_row t l k = \<lparr>md_tooltip = js t, md_ariaLabel = js l, md_ariaKeyShortcuts = map_option js k\<rparr>"

fun COMMAND_FLOATING_CONTROL_METADATA :: "metadata_key \<Rightarrow> control_metadata" where
  "COMMAND_FLOATING_CONTROL_METADATA Key_reconnect =
     metadata_row ''Reconnect'' ''Reconnect terminal session'' (Some ''Control+Shift+R Meta+Shift+R'')"
| "COMMAND_FLOATING_CONTROL_METADATA Key_clear =
     metadata_row ''Clear'' ''Clear terminal viewport'' (Some ''Control+Shift+K Meta+Shift+K'')"
| "COMMAND_FLOATING_CONTROL_METADATA Key_decreaseFont =
     metadata_row ''Font down'' ''Decrease terminal font size'' (Some ''Control+Shift+- Meta+Shift+-'')"
| "COMMAND_FLOATING_CONTROL_METADATA Key_increaseFont =
     metadata_row ''Font up'' ''Increase terminal font size'' (Some ''Control+Shift+= Meta+Shift+='')"
| "COMMAND_FLOATING_CONTROL_METADATA Key_resetFont =
     metadata_row ''Reset font'' ''Reset terminal font size'' (Some ''Control+Shift+0 Meta+Shift+0'')"
| "COMMAND_FLOATING_CONTROL_METADATA Key_fullscreen = metadata_row ''Fullscreen'' ''Toggle fullscreen terminal'' None"
| "COMMAND_FLOATING_CONTROL_METADATA Key_help =
     metadata_row ''About'' ''About WooTTY'' (Some ''Control+Shift+. Meta+Shift+.'')"

definition resolveLabel :: "metadata_key \<Rightarrow> control_state \<Rightarrow> jsstring \<Rightarrow> jsstring" where
  "resolveLabel k m defaultLabel =
     (if k = Key_fullscreen \<and> cs_isFullscreen m then js ''Exit fullscreen terminal'' else defaultLabel)"

definition resolveTooltip :: "metadata_key \<Rightarrow> control_state \<Rightarrow> jsstring \<Rightarrow> jsstring" where
  "resolveTooltip k m defaultTooltip =
     (if k = Key_fullscreen \<and> cs_isFullscreen m then js ''Exit fullscreen'' else defaultTooltip)"

record catalog_entry =
  ce_action :: shortcut_action
  ce_testId :: jsstring
  ce_metadataKey :: metadata_key
  ce_metadata :: control_metadata

definition FLOATING_CONTROL_REGISTRY :: "(shortcut_action \<times> jsstring \<times> metadata_key) list" where
  "FLOATING_CONTROL_REGISTRY =
     concat (map (\<lambda>e. case cmd_floatingControl e of None \<Rightarrow> [] | Some (t, k) \<Rightarrow> [(cmd_id e, t, k)]) COMMAND_MANIFEST)"

definition buildFloatingControlCatalog :: "(shortcut_action \<times> jsstring \<times> metadata_key) list \<Rightarrow> catalog_entry list" where
  "buildFloatingControlCatalog entries =
     map (\<lambda>(a, t, k). \<lparr>ce_action = a, ce_testId = t, ce_metadataKey = k, ce_metadata = COMMAND_FLOATING_CONTROL_METADATA k\<rparr>) entries"

definition insertUnique ::
  "('k \<Rightarrow> jsstring) \<Rightarrow> jsstring \<Rightarrow> ('k \<times> 'v) list \<Rightarrow> 'k \<Rightarrow> 'v \<Rightarrow> jsstring + ('k \<times> 'v) list" where
  "insertUnique name label m k v =
     (if k \<in> fst ` set m then Inl (js ''Duplicate '' @ label @ js '' '' @ [39] @ name k @ [39] @ js ''.'')
      else Inr (m @ [(k, v)]))"

definition requireLookupValue :: "('k \<Rightarrow> jsstring) \<Rightarrow> jsstring \<Rightarrow> ('k \<times> 'v) list \<Rightarrow> 'k \<Rightarrow> jsstring + 'v" where
  "requireLookupValue name label m k =
     (case map_of m k of
        Some v \<Rightarrow> Inr v
      | None \<Rightarrow> Inl (js ''Unknown '' @ label @ js '' '' @ [39] @ name k @ [39] @ js ''.''))"

text \<open>A policy is named by its metadata key.\<close>

record control_lookup =
  policyByAction :: "(shortcut_action \<times> metadata_key) list"
  metadataByKey :: "(metadata_key \<times> control_metadata) list"

definition lookup_step :: "jsstring + control_lookup \<Rightarrow> catalog_entry \<Rightarrow> jsstring + control_lookup" where
  "lookup_step acc e =
     (case acc of
        Inl x \<Rightarrow> Inl x
      | Inr l \<Rightarrow>
          (case insertUnique command_name (js ''floating-control action policy'') (policyByAction l) (ce_action e) (ce_metadataKey e) of
             Inl x \<Rightarrow> Inl x
           | Inr p \<Rightarrow>
               (case insertUnique metadata_key_name (js ''floating-control metadata key'') (metadataByKey l)
                       (ce_metadataKey e) (ce_metadata e) of
                  Inl x \<Rightarrow> Inl x
                | Inr m \<Rightarrow> Inr \<lparr>policyByAction = p, metadataByKey = m\<rparr>)))"

definition buildFloatingControlLookup :: "catalog_entry list \<Rightarrow> jsstring + control_lookup" where
  "buildFloatingControlLookup entries = foldl lookup_step (Inr \<lparr>policyByAction = [], metadataByKey = []\<rparr>) entries"

definition floatingControlPolicy :: "control_lookup \<Rightarrow> shortcut_action \<Rightarrow> jsstring + metadata_key" where
  "floatingControlPolicy l = requireLookupValue command_name (js ''floating control action policy'') (policyByAction l)"

definition floatingControlDescriptor :: "control_lookup \<Rightarrow> metadata_key \<Rightarrow> jsstring + control_metadata" where
  "floatingControlDescriptor l = requireLookupValue metadata_key_name (js ''floating control metadata'') (metadataByKey l)"

subsection \<open>The registry is the manifest\<close>

lemma registry_stuck: "foldl registry_step (Inl e) ms = Inl e"
  by (induction ms) (simp_all add: registry_step_def)

definition registry_of :: "(jsstring \<times> shortcut_action) list \<Rightarrow> (shortcut_action \<times> handler_kind) list \<Rightarrow> manifest_entry list \<Rightarrow> command_registry" where
  "registry_of cs hs ms = \<lparr>commandByShortcutCode = cs @ map (\<lambda>m. (cmd_shortcutCode m, cmd_id m)) ms,
     handlerByCommand = hs @ map (\<lambda>m. (cmd_id m, cmd_handler m)) ms\<rparr>"

lemma registry_step_fresh:
  "registry_step (Inr (registry_of cs hs ms)) m =
     (if cmd_shortcutCode m \<notin> fst ` set cs \<union> cmd_shortcutCode ` set ms \<and> cmd_id m \<notin> fst ` set hs \<union> cmd_id ` set ms
      then Inr (registry_of cs hs (ms @ [m])) else registry_step (Inr (registry_of cs hs ms)) m)"
  by (simp add: registry_step_def registry_of_def image_Un image_comp comp_def)

lemma registry_step_taken:
  assumes "registry_step (Inr (registry_of cs hs ms)) m = Inr r"
  shows "cmd_shortcutCode m \<notin> fst ` set cs \<union> cmd_shortcutCode ` set ms \<and> cmd_id m \<notin> fst ` set hs \<union> cmd_id ` set ms"
  using assms by (simp add: registry_step_def registry_of_def image_Un image_comp comp_def split: if_splits)

lemma registry_built:
  "foldl registry_step (Inr (registry_of [] [] ms0)) ms = Inr r \<longleftrightarrow>
     r = registry_of [] [] (ms0 @ ms) \<and>
     (\<forall>i < length ms. cmd_shortcutCode (ms ! i) \<notin> cmd_shortcutCode ` set (ms0 @ take i ms) \<and>
        cmd_id (ms ! i) \<notin> cmd_id ` set (ms0 @ take i ms))"
proof (induction ms arbitrary: ms0)
  case (Cons m ms)
  have split: "(\<forall>i < length (m # ms). P i) \<longleftrightarrow> P 0 \<and> (\<forall>i < length ms. P (Suc i))" for P
    by (auto simp: less_Suc_eq_0_disj)
  show ?case
  proof (cases "cmd_shortcutCode m \<notin> cmd_shortcutCode ` set ms0 \<and> cmd_id m \<notin> cmd_id ` set ms0")
    case True
    then have "registry_step (Inr (registry_of [] [] ms0)) m = Inr (registry_of [] [] (ms0 @ [m]))"
      by (subst registry_step_fresh) simp
    then show ?thesis using Cons.IH [of "ms0 @ [m]"] True unfolding split by simp
  next
    case False
    then obtain e where "registry_step (Inr (registry_of [] [] ms0)) m = Inl e"
      using registry_step_taken [of "[]" "[]" ms0 m] by (cases "registry_step (Inr (registry_of [] [] ms0)) m") auto
    then show ?thesis using False unfolding split by (auto simp: registry_stuck)
  qed
qed auto

lemma fresh_distinct: "(\<forall>i < length ms. f (ms ! i) \<notin> f ` set (take i ms)) \<longleftrightarrow> distinct (map f ms)"
proof (induction ms rule: rev_induct)
  case (snoc m ms)
  have "(\<forall>i < length (ms @ [m]). f ((ms @ [m]) ! i) \<notin> f ` set (take i (ms @ [m]))) \<longleftrightarrow>
      (\<forall>i < length ms. f (ms ! i) \<notin> f ` set (take i ms)) \<and> f m \<notin> f ` set ms"
    by (auto simp: less_Suc_eq nth_append)
  then show ?case using snoc by auto
qed simp

lemma registry_iff:
  "buildCommandRegistry ms = Inr r \<longleftrightarrow>
     r = registry_of [] [] ms \<and> distinct (map cmd_shortcutCode ms) \<and> distinct (map cmd_id ms)"
proof -
  have "buildCommandRegistry ms = foldl registry_step (Inr (registry_of [] [] [])) ms"
    by (simp add: buildCommandRegistry_def registry_of_def)
  then show ?thesis using registry_built [of "[]" ms r]
    by (simp add: fresh_distinct [symmetric]) blast
qed

lemma manifest_distinct: "distinct (map cmd_shortcutCode COMMAND_MANIFEST)" "distinct (map cmd_id COMMAND_MANIFEST)"
  by (simp_all add: COMMAND_MANIFEST_def manifest_row_def)

lemma manifest_complete: "\<exists>m. m \<in> set COMMAND_MANIFEST \<and> cmd_id m = c"
proof -
  have "c \<in> set (map cmd_id COMMAND_MANIFEST)" by (cases c) (simp_all add: COMMAND_MANIFEST_def manifest_row_def)
  then show ?thesis by (metis imageE list.set_map)
qed

lemma manifest_handlers:
  "m \<in> set COMMAND_MANIFEST \<Longrightarrow>
     cmd_handler m = (if cmd_id m = Reconnect_command \<or> cmd_id m = Clear_command then Runtime_handler else Viewport_handler)"
  by (auto simp: COMMAND_MANIFEST_def manifest_row_def)

lemma registry_lookup:
  assumes "distinct (map cmd_shortcutCode ms)" "distinct (map cmd_id ms)" "m \<in> set ms"
  shows "resolveCommandFromShortcutCode (registry_of [] [] ms) (cmd_shortcutCode m) = Some (cmd_id m)"
    "resolveHandlerForCommand (registry_of [] [] ms) (cmd_id m) = Inr (cmd_handler m)"
proof -
  have "map_of (map (\<lambda>m. (cmd_shortcutCode m, cmd_id m)) ms) (cmd_shortcutCode m) = Some (cmd_id m)"
    by (rule map_of_is_SomeI) (use assms in \<open>auto simp: comp_def\<close>)
  then show "resolveCommandFromShortcutCode (registry_of [] [] ms) (cmd_shortcutCode m) = Some (cmd_id m)"
    by (simp add: resolveCommandFromShortcutCode_def registry_of_def)
  have "map_of (map (\<lambda>m. (cmd_id m, cmd_handler m)) ms) (cmd_id m) = Some (cmd_handler m)"
    by (rule map_of_is_SomeI) (use assms in \<open>auto simp: comp_def\<close>)
  then show "resolveHandlerForCommand (registry_of [] [] ms) (cmd_id m) = Inr (cmd_handler m)"
    by (simp add: resolveHandlerForCommand_def registry_of_def)
qed

lemma registry_shortcut_unique:
  assumes "distinct (map cmd_id ms)" "m \<in> set ms"
    "resolveCommandFromShortcutCode (registry_of [] [] ms) code = Some (cmd_id m)"
  shows "code = cmd_shortcutCode m"
proof -
  have "(code, cmd_id m) \<in> set (map (\<lambda>m. (cmd_shortcutCode m, cmd_id m)) ms)"
    using assms(3) by (intro map_of_SomeD) (simp add: resolveCommandFromShortcutCode_def registry_of_def)
  then obtain m' where "m' \<in> set ms" "cmd_shortcutCode m' = code" "cmd_id m' = cmd_id m" by auto
  moreover have "inj_on cmd_id (set ms)" using assms(1) by (simp add: distinct_map)
  ultimately show ?thesis using assms(2) by (metis inj_onD)
qed

text \<open>The manifest of the program.\<close>

lemma manifest_built: "buildCommandRegistry COMMAND_MANIFEST = Inr (registry_of [] [] COMMAND_MANIFEST)"
  using manifest_distinct by (simp add: registry_iff)

lemma manifest_dispatch:
  "dispatchCommand (registry_of [] [] COMMAND_MANIFEST) runtime viewport c s =
     Inr (if c = Reconnect_command \<or> c = Clear_command then runtime c s else viewport c s)"
proof -
  obtain m where m: "m \<in> set COMMAND_MANIFEST" "cmd_id m = c" using manifest_complete by meson
  then show ?thesis using registry_lookup(2) [OF manifest_distinct m(1)] manifest_handlers [OF m(1)]
    by (simp add: dispatchCommand_def)
qed

text \<open>The command registry is built exactly when no two entries of the manifest share a key code or a command, and then
  it looks up what the manifest says; for the manifest of the program it is built, every command has one shortcut,
  and dispatch sends reconnect and clear to the runtime and every other command to the viewport.\<close>

theorem command_registry_is_manifest:
  "((\<exists>r. buildCommandRegistry ms = Inr r) \<longleftrightarrow> distinct (map cmd_shortcutCode ms) \<and> distinct (map cmd_id ms)) \<and>
   (\<forall>r. buildCommandRegistry ms = Inr r \<longrightarrow>
      (\<forall>m \<in> set ms. resolveCommandFromShortcutCode r (cmd_shortcutCode m) = Some (cmd_id m) \<and>
         resolveHandlerForCommand r (cmd_id m) = Inr (cmd_handler m))) \<and>
   (case buildCommandRegistry COMMAND_MANIFEST of
      Inl e \<Rightarrow> False
    | Inr r \<Rightarrow> (\<forall>c. \<exists>!code. resolveCommandFromShortcutCode r code = Some c) \<and>
        (\<forall>c. dispatchCommand r runtime viewport c s =
           Inr (if c = Reconnect_command \<or> c = Clear_command then runtime c s else viewport c s)))"
proof (intro conjI)
  show "(\<exists>r. buildCommandRegistry ms = Inr r) \<longleftrightarrow> distinct (map cmd_shortcutCode ms) \<and> distinct (map cmd_id ms)"
    by (auto simp: registry_iff)
  show "\<forall>r. buildCommandRegistry ms = Inr r \<longrightarrow>
      (\<forall>m \<in> set ms. resolveCommandFromShortcutCode r (cmd_shortcutCode m) = Some (cmd_id m) \<and>
         resolveHandlerForCommand r (cmd_id m) = Inr (cmd_handler m))"
    by (simp add: registry_iff registry_lookup)
  let ?r = "registry_of [] [] COMMAND_MANIFEST"
  note look = registry_lookup [OF manifest_distinct]
  have "\<exists>!code. resolveCommandFromShortcutCode ?r code = Some c" for c
  proof -
    obtain m where m: "m \<in> set COMMAND_MANIFEST" "cmd_id m = c" using manifest_complete by meson
    show ?thesis
    proof (rule ex1I)
      show "resolveCommandFromShortcutCode ?r (cmd_shortcutCode m) = Some c" using look(1) [OF m(1)] m(2) by simp
    next
      fix code
      assume "resolveCommandFromShortcutCode ?r code = Some c"
      then show "code = cmd_shortcutCode m" using registry_shortcut_unique [OF manifest_distinct(2) m(1)] m(2) by simp
    qed
  qed
  then show "case buildCommandRegistry COMMAND_MANIFEST of
      Inl e \<Rightarrow> False
    | Inr r \<Rightarrow> (\<forall>c. \<exists>!code. resolveCommandFromShortcutCode r code = Some c) \<and>
        (\<forall>c. dispatchCommand r runtime viewport c s =
           Inr (if c = Reconnect_command \<or> c = Clear_command then runtime c s else viewport c s))"
    by (simp add: manifest_built manifest_dispatch)
qed

theorem command_registry_is_manifest_witness:
  "resolveHandlerForCommand (registry_of [] [] COMMAND_MANIFEST) Toggle_help = Inr Viewport_handler"
proof -
  note manifest_built
  moreover have "manifest_row Toggle_help Viewport_handler ''Period'' ''Keyboard shortcuts'' (Some (''help-button'', Key_help))
      \<in> set COMMAND_MANIFEST" by (simp add: COMMAND_MANIFEST_def)
  ultimately have "resolveHandlerForCommand (registry_of [] [] COMMAND_MANIFEST)
      (cmd_id (manifest_row Toggle_help Viewport_handler ''Period'' ''Keyboard shortcuts'' (Some (''help-button'', Key_help)))) =
      Inr (cmd_handler (manifest_row Toggle_help Viewport_handler ''Period'' ''Keyboard shortcuts'' (Some (''help-button'', Key_help))))"
    by (rule command_registry_is_manifest [of COMMAND_MANIFEST "\<lambda>_ s. s" "\<lambda>_ s. s" "()", THEN conjunct2, THEN conjunct1,
        rule_format, THEN conjunct2])
  then show ?thesis by (simp add: manifest_row_def)
qed

text \<open>The catalogue of floating controls has no duplicates, so its look-up is built, with every action but the toggle of
  the controls themselves.\<close>

definition floating_rows :: "(shortcut_action \<times> metadata_key) list" where
  "floating_rows =
     [(Reconnect_command, Key_reconnect), (Clear_command, Key_clear), (Decrease_font, Key_decreaseFont),
      (Increase_font, Key_increaseFont), (Reset_font, Key_resetFont), (Toggle_fullscreen, Key_fullscreen), (Toggle_help, Key_help)]"

lemma floating_registry: "map (\<lambda>(a, t, k). (a, k)) FLOATING_CONTROL_REGISTRY = floating_rows"
  by (simp add: FLOATING_CONTROL_REGISTRY_def COMMAND_MANIFEST_def manifest_row_def floating_rows_def)

lemma floating_lookup:
  "buildFloatingControlLookup (buildFloatingControlCatalog FLOATING_CONTROL_REGISTRY) =
     Inr \<lparr>policyByAction = floating_rows, metadataByKey = map (\<lambda>(c, k). (k, COMMAND_FLOATING_CONTROL_METADATA k)) floating_rows\<rparr>"
  by (simp add: buildFloatingControlLookup_def buildFloatingControlCatalog_def FLOATING_CONTROL_REGISTRY_def COMMAND_MANIFEST_def
      manifest_row_def lookup_step_def insertUnique_def floating_rows_def)

lemma floating_controls_built:
  assumes "buildFloatingControlLookup (buildFloatingControlCatalog FLOATING_CONTROL_REGISTRY) = Inr l" "(c, k) \<in> set floating_rows"
  shows "floatingControlPolicy l c = Inr k" "floatingControlDescriptor l k = Inr (COMMAND_FLOATING_CONTROL_METADATA k)"
proof -
  have "map_of (policyByAction l) c = Some k"
    "map_of (metadataByKey l) k = Some (COMMAND_FLOATING_CONTROL_METADATA k)"
    using assms by (auto simp: floating_lookup floating_rows_def simp del: COMMAND_FLOATING_CONTROL_METADATA.simps)
  then show "floatingControlPolicy l c = Inr k" "floatingControlDescriptor l k = Inr (COMMAND_FLOATING_CONTROL_METADATA k)"
    by (simp_all add: floatingControlPolicy_def floatingControlDescriptor_def requireLookupValue_def)
qed

end
