(* ===== verification/Preferences.thy ===== *)
theory Preferences
  imports Session_Notices
begin

section \<open>The font size\<close>

text \<open>
  \<open>preferences/font-size-policy.ts\<close>, \<open>app/preferences/font-size-preferences.ts\<close> and the interface state of
  \<open>app/composition/terminal-session-domain.ts\<close>.  \<open>Number\<close> of a text of decimal digits is finite below
  \<open>NUMBER_OVERFLOW\<close>, where rounding to the nearest double reaches infinity; how a smaller number is rounded cannot be
  observed, because a number that is rounded at all is far above the largest font size.
\<close>

subsection \<open>Policy\<close>

definition FONT_SIZE_MIN :: int where "FONT_SIZE_MIN = 11"

definition FONT_SIZE_MAX :: int where "FONT_SIZE_MAX = 22"

definition DEFAULT_FONT_SIZE :: int where "DEFAULT_FONT_SIZE = FONT_SIZE_MIN"

definition clampFontSize :: "int \<Rightarrow> int" where
  "clampFontSize v = min FONT_SIZE_MAX (max FONT_SIZE_MIN v)"

definition font_ok :: "int \<Rightarrow> bool" where
  "font_ok n \<longleftrightarrow> FONT_SIZE_MIN \<le> n \<and> n \<le> FONT_SIZE_MAX"

lemma clamp_ok [simp]: "font_ok (clampFontSize v)" and default_ok [simp]: "font_ok DEFAULT_FONT_SIZE"
  by (simp_all add: font_ok_def clampFontSize_def DEFAULT_FONT_SIZE_def FONT_SIZE_MIN_def FONT_SIZE_MAX_def)

lemma clamp_id: "font_ok v \<Longrightarrow> clampFontSize v = v"
  by (simp add: font_ok_def clampFontSize_def)

subsection \<open>Numbers in texts\<close>

definition is_digit :: "code_unit \<Rightarrow> bool" where
  "is_digit u \<longleftrightarrow> 48 \<le> u \<and> u \<le> 57"

text \<open>The test against a sequence of one or more decimal digits.\<close>

definition decimal_text :: "jsstring \<Rightarrow> bool" where
  "decimal_text s \<longleftrightarrow> s \<noteq> [] \<and> list_all is_digit s"

definition digits_value :: "jsstring \<Rightarrow> nat" where
  "digits_value s = foldl (\<lambda>n u. 10 * n + unat (u - 48)) 0 s"

definition NUMBER_OVERFLOW :: nat where
  "NUMBER_OVERFLOW = 2 ^ 1024 - 2 ^ 970"

subsection \<open>The stored preference\<close>

definition FONT_SIZE_STORAGE_KEY :: jsstring where
  "FONT_SIZE_STORAGE_KEY = js ''wootty.fontSize''"

definition invalid_font_size :: "jsstring \<Rightarrow> storage_failure" where
  "invalid_font_size raw =
     \<lparr>sf_operation = Op_parse, sf_key = FONT_SIZE_STORAGE_KEY, sf_reason = Some Invalid_value, sf_cause = J_str raw\<rparr>"

definition readInitialFontSizeResult :: "web_storage option \<Rightarrow> int \<times> storage_failure option" where
  "readInitialFontSizeResult storage =
     (case storage of
        None \<Rightarrow> (DEFAULT_FONT_SIZE, None)
      | Some st \<Rightarrow>
          (case withStorageErrorHandling Op_read FONT_SIZE_STORAGE_KEY (getItem st FONT_SIZE_STORAGE_KEY) of
             (_, Some error) \<Rightarrow> (DEFAULT_FONT_SIZE, Some error)
           | (value, None) \<Rightarrow>
               (let raw = (case value of Some (Some r) \<Rightarrow> r | _ \<Rightarrow> []) in
                if raw = [] then (DEFAULT_FONT_SIZE, None)
                else let normalized = trim raw in
                  if \<not> decimal_text normalized then (DEFAULT_FONT_SIZE, Some (invalid_font_size raw))
                  else let parsed = digits_value normalized in
                    if parsed \<ge> NUMBER_OVERFLOW then (DEFAULT_FONT_SIZE, Some (invalid_font_size raw))
                    else (clampFontSize (int parsed), None))))"

definition writeFontSizePreferenceResult ::
  "web_storage option \<Rightarrow> int \<Rightarrow> storage_failure option \<times> web_storage option" where
  "writeFontSizePreferenceResult storage fontSize =
     (case storage of
        None \<Rightarrow> (None, None)
      | Some st \<Rightarrow>
          (case withStorageErrorHandling Op_write FONT_SIZE_STORAGE_KEY
                  (setItem st FONT_SIZE_STORAGE_KEY (js (int_digits (clampFontSize fontSize)))) of
             (Some st', _) \<Rightarrow> (None, Some st')
           | (None, error) \<Rightarrow> (error, Some st)))"

text \<open>The first read, with the failures of the access and of the read, in order.\<close>

definition readInitialFontSizeState :: "storage_access \<Rightarrow> int \<times> storage_failure list" where
  "readInitialFontSizeState access =
     (let (size, error) = readInitialFontSizeResult (acc_storage access)
      in (size, (case acc_error access of Some e \<Rightarrow> [e] | None \<Rightarrow> []) @ (case error of Some e \<Rightarrow> [e] | None \<Rightarrow> [])))"

definition initialFontNotice :: "host \<Rightarrow> storage_access \<Rightarrow> jsstring" where
  "initialFontNotice H access =
     (case snd (readInitialFontSizeState access) of
        [] \<Rightarrow> []
      | initialFailure # _ \<Rightarrow> toUserNotice H (toStorageFailureNoticeDetails H initialFailure))"

subsection \<open>Reading back\<close>

lemma digit_unit:
  assumes "d < 10"
  shows "is_digit (of_char (char_of (48 + d)))" "unat (of_char (char_of (48 + d)) - 48 :: code_unit) = d"
    "\<not> is_space (of_char (char_of (48 + d)))"
proof -
  have "\<forall>d \<in> set [0, 1, 2, 3, 4, 5, 6, 7, 8, 9 :: nat]. is_digit (of_char (char_of (48 + d))) \<and>
      unat (of_char (char_of (48 + d)) - 48 :: code_unit) = d \<and> \<not> is_space (of_char (char_of (48 + d)))"
    by code_simp
  moreover have "d \<in> set [0, 1, 2, 3, 4, 5, 6, 7, 8, 9]" using assms by simp arith
  ultimately show "is_digit (of_char (char_of (48 + d)))" "unat (of_char (char_of (48 + d)) - 48 :: code_unit) = d"
    "\<not> is_space (of_char (char_of (48 + d)))" by blast+
qed

lemma digits_value_append: "digits_value (s @ [u]) = 10 * digits_value s + unat (u - 48)"
  by (simp add: digits_value_def)

lemma nat_digits_value: "decimal_text (js (nat_digits n)) \<and> digits_value (js (nat_digits n)) = n"
proof (induction n rule: nat_digits.induct)
  case (1 n)
  show ?case
  proof (cases "n < 10")
    case True
    then show ?thesis using digit_unit [OF True]
      by (subst (1 2) nat_digits.simps) (simp add: js_def decimal_text_def digits_value_def)
  next
    case False
    have m: "n mod 10 < 10" by simp
    show ?thesis using 1 [OF False] False digit_unit [OF m] digits_value_append [of "js (nat_digits (n div 10))"]
      by (subst (1 2) nat_digits.simps) (simp add: js_def decimal_text_def)
  qed
qed

lemma digit_not_space: "is_digit u \<Longrightarrow> \<not> is_space u"
  unfolding is_digit_def is_space_def by (auto simp: word_le_nat_alt)

lemma trim_decimal: "decimal_text s \<Longrightarrow> trim s = s"
proof -
  assume d: "decimal_text s"
  have none: "u \<in> set s \<Longrightarrow> \<not> is_space u" for u using d by (auto simp: decimal_text_def list_all_iff digit_not_space)
  have keep: "dropWhile is_space t = t" if "\<And>u. u \<in> set t \<Longrightarrow> \<not> is_space u" for t
    using that by (cases t) auto
  have "dropWhile is_space s = s" "dropWhile is_space (rev s) = rev s" using none by (auto intro: keep)
  then show ?thesis by (simp add: trim_def)
qed

lemma int_digits_nat: "0 \<le> i \<Longrightarrow> int_digits i = nat_digits (nat i)"
  by (simp add: int_digits_def)

lemma stored_number:
  assumes "0 \<le> i" "i < int NUMBER_OVERFLOW" "ws_readError st = None"
    "ws_items st FONT_SIZE_STORAGE_KEY = Some (js (int_digits i))"
  shows "readInitialFontSizeResult (Some st) = (clampFontSize i, None)"
proof -
  have "decimal_text (js (int_digits i))" "digits_value (js (int_digits i)) = nat i"
    using nat_digits_value [of "nat i"] assms(1) by (simp_all add: int_digits_nat)
  moreover from this(1) have "js (int_digits i) \<noteq> []" by (simp add: decimal_text_def)
  ultimately show ?thesis using assms
    by (simp add: readInitialFontSizeResult_def withStorageErrorHandling_def getItem_def trim_decimal Let_def)
qed

lemma overflow_above: "i \<le> 22 \<Longrightarrow> i < int NUMBER_OVERFLOW"
proof -
  have "(2::int) ^ 1024 = 2 ^ 54 * 2 ^ 970" by (simp flip: power_add)
  moreover have "(2::int) ^ 970 \<ge> 1" by (rule one_le_power) simp
  ultimately have "(2::int) ^ 1024 - 2 ^ 970 \<ge> 23" by simp
  moreover have "int NUMBER_OVERFLOW = 2 ^ 1024 - 2 ^ 970"
    unfolding NUMBER_OVERFLOW_def by (subst of_nat_diff) (simp_all add: power_increasing)
  ultimately show "i \<le> 22 \<Longrightarrow> ?thesis" by linarith
qed

text \<open>Whatever an area holds, the font size read from it lies between the smallest and the largest one; and once a size is
  stored without an error, a later start reads the same size back, brought into that range, without an error, while no other entry
  of the area has changed.\<close>

theorem font_preference_roundtrip:
  assumes "writeFontSizePreferenceResult (Some st) n = (None, Some st')" "ws_readError st = None"
  shows "readInitialFontSizeResult (Some st') = (clampFontSize n, None) \<and>
    (\<forall>k. k \<noteq> FONT_SIZE_STORAGE_KEY \<longrightarrow> ws_items st' k = ws_items st k) \<and>
    (\<forall>area. font_ok (fst (readInitialFontSizeResult area)))"
proof (intro conjI)
  have st': "st' = st\<lparr>ws_items := (ws_items st)(FONT_SIZE_STORAGE_KEY \<mapsto> js (int_digits (clampFontSize n)))\<rparr>"
    using assms(1) by (auto simp: writeFontSizePreferenceResult_def withStorageErrorHandling_def setItem_def split: option.splits)
  have "0 \<le> clampFontSize n" "clampFontSize n \<le> 22" by (simp_all add: clampFontSize_def FONT_SIZE_MAX_def FONT_SIZE_MIN_def)
  then show "readInitialFontSizeResult (Some st') = (clampFontSize n, None)"
    using stored_number [of "clampFontSize n" st'] overflow_above assms(2) by (simp add: st' clamp_id)
  show "\<forall>k. k \<noteq> FONT_SIZE_STORAGE_KEY \<longrightarrow> ws_items st' k = ws_items st k" by (simp add: st')
  show "\<forall>area. font_ok (fst (readInitialFontSizeResult area))"
    by (simp add: readInitialFontSizeResult_def Let_def split: option.split prod.split)
qed

definition sample_area :: web_storage where
  "sample_area = \<lparr>ws_items = Map.empty, ws_readError = None, ws_writeError = (\<lambda>_ _. None), ws_removeError = None\<rparr>"

theorem font_preference_roundtrip_witness:
  "readInitialFontSizeResult (snd (writeFontSizePreferenceResult (Some sample_area) 40)) = (22, None)"
proof -
  obtain st' where "writeFontSizePreferenceResult (Some sample_area) 40 = (None, Some st')"
    by (simp add: writeFontSizePreferenceResult_def withStorageErrorHandling_def setItem_def sample_area_def)
  from font_preference_roundtrip [OF this] this show ?thesis
    by (simp add: sample_area_def clampFontSize_def FONT_SIZE_MAX_def FONT_SIZE_MIN_def)
qed

end
