(* ===== verification/Endpoints.thy ===== *)
theory Endpoints
  imports Notices Sample_Host
begin

section \<open>Backend endpoints and browser sign-in\<close>

text \<open>
  \<open>bootstrap/url/socket-url-resolution.ts\<close>, \<open>bootstrap/backend-endpoint-resolver.ts\<close>,
  \<open>bootstrap/terminal-environment.ts\<close> (the configured URL) and \<open>bootstrap/auth-bootstrap.ts\<close>.
  What the browser itself does with URLs is the record \<open>web_platform\<close>: resolving against a base,
  assigning a path while clearing query and fragment, and reading and writing the parameters of a fragment.
\<close>

record web_platform =
  url_resolve :: "jsstring \<Rightarrow> jsstring \<Rightarrow> url option"
  url_with_path :: "url \<Rightarrow> jsstring \<Rightarrow> url"
  params_parse :: "jsstring \<Rightarrow> (jsstring \<times> jsstring) list"
  params_text :: "(jsstring \<times> jsstring) list \<Rightarrow> jsstring"

record window_location =
  loc_protocol :: jsstring
  loc_host :: jsstring
  loc_pathname :: jsstring
  loc_search :: jsstring
  loc_hash :: jsstring

subsection \<open>Strings\<close>

definition startsWith :: "jsstring \<Rightarrow> jsstring \<Rightarrow> bool" where
  "startsWith s p = (take (length p) s = p)"

definition endsWith :: "jsstring \<Rightarrow> jsstring \<Rightarrow> bool" where
  "endsWith s p = (length p \<le> length s \<and> drop (length s - length p) s = p)"

definition dropEnd :: "nat \<Rightarrow> jsstring \<Rightarrow> jsstring" where
  "dropEnd n s = take (length s - n) s"

fun containsText :: "jsstring \<Rightarrow> jsstring \<Rightarrow> bool" where
  "containsText s p = (startsWith s p \<or> (case s of [] \<Rightarrow> False | _ # rest \<Rightarrow> containsText rest p))"

declare containsText.simps [simp del]

lemma endsWith_append [simp]: "endsWith (a @ p) p" by (simp add: endsWith_def)

lemma dropEnd_append [simp]: "dropEnd (length p) (a @ p) = a" by (simp add: dropEnd_def)

lemma endsWithE:
  assumes "endsWith s p"
  obtains a where "s = a @ p"
  using assms append_take_drop_id [of "length s - length p" s] that unfolding endsWith_def by metis

lemma startsWith_append [simp]: "startsWith (p @ s) p" by (simp add: startsWith_def)

lemma trim_idem: "trim (trim s) = trim s"
proof -
  define a where "a = dropWhile is_space s"
  define b where "b = rev (dropWhile is_space (rev a))"
  have ab: "a = b @ rev (takeWhile is_space (rev a))"
    unfolding b_def by (metis rev_append rev_rev_ident takeWhile_dropWhile_id)
  have "dropWhile is_space b = b"
  proof (cases b)
    case (Cons u us)
    then have "hd a = u" using ab by (metis append_Cons list.sel(1))
    moreover have "a \<noteq> []" using ab Cons by auto
    ultimately have "\<not> is_space u" unfolding a_def using hd_dropWhile by blast
    then show ?thesis using Cons by simp
  qed simp
  moreover have "rev b = dropWhile is_space (rev a)" by (simp add: b_def)
  moreover have "dropWhile is_space (dropWhile is_space (rev a)) = dropWhile is_space (rev a)"
    by (rule dropWhile_idem_suffix)
  ultimately have "trim b = b" by (simp add: trim_def b_def)
  then show ?thesis by (simp add: trim_def a_def b_def)
qed

subsection \<open>Routes\<close>

definition SESSIONS_HTTP :: jsstring where "SESSIONS_HTTP = js ''/api/sessions''"

definition TERMINAL_WS :: jsstring where "TERMINAL_WS = js ''/api/terminal''"

definition AUTH_BOOTSTRAP_HTTP_ROUTE :: jsstring where "AUTH_BOOTSTRAP_HTTP_ROUTE = js ''/api/auth/bootstrap''"

definition deriveTerminalPathFromHttpUrl :: "jsstring \<Rightarrow> jsstring" where
  "deriveTerminalPathFromHttpUrl pathname =
     (let normalizedPath =
            (if length pathname > 1 \<and> endsWith pathname (js ''/'') then dropEnd 1 pathname else pathname)
      in if endsWith normalizedPath TERMINAL_WS then normalizedPath
         else if endsWith normalizedPath SESSIONS_HTTP
         then dropEnd (length SESSIONS_HTTP) normalizedPath @ TERMINAL_WS
         else if normalizedPath = js ''/'' then TERMINAL_WS
         else normalizedPath @ TERMINAL_WS)"

definition deriveSessionsPath :: "jsstring \<Rightarrow> jsstring" where
  "deriveSessionsPath socketPathname =
     (if endsWith socketPathname TERMINAL_WS
      then dropEnd (length TERMINAL_WS) socketPathname @ SESSIONS_HTTP
      else SESSIONS_HTTP)"

subsection \<open>The socket URL\<close>

definition unsupportedProtocolIssue :: "host \<Rightarrow> jsstring \<Rightarrow> backend_issue" where
  "unsupportedProtocolIssue H configured =
     \<lparr>bi_code = Env_socket_url_unsupported_protocol,
      bi_details = js ''VITE_WOOTTY_WS_URL uses an unsupported protocol: '' @ redactTokenInUrlForNotice H configured\<rparr>"

definition invalidFormatIssue :: "host \<Rightarrow> jsstring \<Rightarrow> backend_issue" where
  "invalidFormatIssue H configured =
     \<lparr>bi_code = Env_socket_url_invalid_format,
      bi_details = js ''VITE_WOOTTY_WS_URL is not a valid URL: '' @ redactTokenInUrlForNotice H configured\<rparr>"

definition resolveAbsoluteWsSocketUrl :: "host \<Rightarrow> jsstring \<Rightarrow> backend_issue + jsstring" where
  "resolveAbsoluteWsSocketUrl H configured =
     (case validateWebsocketEndpoint H (Some configured) of
        Inl (Unsupported_protocol _) \<Rightarrow> Inl (unsupportedProtocolIssue H configured)
      | Inl _ \<Rightarrow> Inl (invalidFormatIssue H configured)
      | Inr endpoint \<Rightarrow> Inr endpoint)"

definition resolveAbsoluteHttpSocketUrl :: "host \<Rightarrow> jsstring \<Rightarrow> backend_issue + jsstring" where
  "resolveAbsoluteHttpSocketUrl H configured =
     (case url_parse H configured of
        None \<Rightarrow> Inl (invalidFormatIssue H configured)
      | Some u \<Rightarrow>
          Inr ((if url_protocol u = js ''https:'' then js ''wss:'' else js ''ws:'') @ js ''//'' @ url_host u @
               deriveTerminalPathFromHttpUrl (url_pathname u) @ url_search u))"

definition resolveRelativeSocketUrl ::
  "host \<Rightarrow> web_platform \<Rightarrow> window_location option \<Rightarrow> jsstring \<Rightarrow> backend_issue + jsstring" where
  "resolveRelativeSocketUrl H W windowRef configured =
     (case windowRef of
        None \<Rightarrow> Inl \<lparr>bi_code = Env_socket_url_requires_window_host,
                     bi_details = js ''VITE_WOOTTY_WS_URL requires a browser host to resolve relative path values.''\<rparr>
      | Some l \<Rightarrow>
          (let protocol = (if loc_protocol l = js ''https:'' then js ''wss:'' else js ''ws:'');
               candidatePath = (if startsWith configured (js ''/'') then configured else js ''/'' @ configured)
           in case url_resolve W candidatePath (loc_protocol l @ js ''//'' @ loc_host l) of
                None \<Rightarrow> Inl (invalidFormatIssue H configured)
              | Some u \<Rightarrow>
                  Inr (protocol @ js ''//'' @ loc_host l @ deriveTerminalPathFromHttpUrl (url_pathname u) @ url_search u)))"

definition defaultSocketUrl :: "window_location option \<Rightarrow> backend_issue + jsstring" where
  "defaultSocketUrl windowRef =
     (case windowRef of
        None \<Rightarrow> Inl \<lparr>bi_code = Env_socket_url_required,
                     bi_details = js ''Socket URL must be explicitly configured in non-browser environments. Set VITE_WOOTTY_WS_URL or provide an injected endpoint.''\<rparr>
      | Some l \<Rightarrow>
          Inr ((if loc_protocol l = js ''https:'' then js ''wss:'' else js ''ws:'') @ js ''//'' @ loc_host l @ TERMINAL_WS))"

definition resolveSocketUrl ::
  "host \<Rightarrow> web_platform \<Rightarrow> window_location option \<Rightarrow> jsstring option \<Rightarrow> backend_issue + jsstring" where
  "resolveSocketUrl H W windowRef envUrl =
     (let configured = (case envUrl of None \<Rightarrow> [] | Some e \<Rightarrow> trim e)
      in if configured = [] then defaultSocketUrl windowRef
         else if startsWith configured (js ''ws://'') \<or> startsWith configured (js ''wss://'')
         then resolveAbsoluteWsSocketUrl H configured
         else if startsWith configured (js ''http://'') \<or> startsWith configured (js ''https://'')
         then resolveAbsoluteHttpSocketUrl H configured
         else if containsText configured (js ''://'') then Inl (unsupportedProtocolIssue H configured)
         else resolveRelativeSocketUrl H W windowRef configured)"

subsection \<open>Both endpoints\<close>

record backend_endpoints =
  be_sessionsHttpUrl :: jsstring
  be_terminalWsUrl :: jsstring

definition resolveSessionUrlFromSocket :: "host \<Rightarrow> jsstring \<Rightarrow> backend_issue + jsstring" where
  "resolveSessionUrlFromSocket H socketUrl =
     (case url_parse H socketUrl of
        None \<Rightarrow> Inl \<lparr>bi_code = Socket_url_invalid_format, bi_details = js ''invalid websocket URL format''\<rparr>
      | Some u \<Rightarrow>
          if url_protocol u \<noteq> js ''ws:'' \<and> url_protocol u \<noteq> js ''wss:''
          then Inl \<lparr>bi_code = Socket_url_unsupported_protocol,
                    bi_details = js ''unsupported websocket protocol ('' @ url_protocol u @ js '')''\<rparr>
          else Inr ((if url_protocol u = js ''wss:'' then js ''https:'' else js ''http:'') @ js ''//'' @ url_host u @
                    deriveSessionsPath (url_pathname u)))"

definition resolveTerminalBackendEndpoints ::
  "host \<Rightarrow> web_platform \<Rightarrow> window_location option \<Rightarrow> jsstring option \<Rightarrow> backend_issue + backend_endpoints" where
  "resolveTerminalBackendEndpoints H W windowRef envSocketUrl =
     (case resolveSocketUrl H W windowRef envSocketUrl of
        Inl issue \<Rightarrow> Inl issue
      | Inr terminalWsUrl \<Rightarrow>
          (case resolveSessionUrlFromSocket H terminalWsUrl of
             Inl issue \<Rightarrow>
               Inl \<lparr>bi_code = bi_code issue,
                    bi_details = js ''Derived websocket endpoint is invalid: '' @ redactTokenInUrlForNotice H terminalWsUrl @
                      js '' ('' @ bi_details issue @ js '')''\<rparr>
           | Inr sessionsHttpUrl \<Rightarrow>
               Inr \<lparr>be_sessionsHttpUrl = sessionsHttpUrl, be_terminalWsUrl = terminalWsUrl\<rparr>))"

text \<open>\<open>options.socketUrl ?? import.meta.env.VITE_WOOTTY_WS_URL\<close>\<close>

definition resolveConfiguredSocketUrl :: "jsstring option \<Rightarrow> jsstring option \<Rightarrow> jsstring option" where
  "resolveConfiguredSocketUrl optionsSocketUrl env =
     (case (case optionsSocketUrl of Some u \<Rightarrow> Some u | None \<Rightarrow> env) of
        None \<Rightarrow> None
      | Some candidate \<Rightarrow> if trim candidate = [] then None else Some (trim candidate))"

fun isBackendResolutionIssueCode :: "jsval \<Rightarrow> bool" where
  "isBackendResolutionIssueCode (J_str s) =
     (s \<in> set (map issue_code_name
       [Env_socket_url_invalid_format, Env_socket_url_requires_window_host, Env_socket_url_unsupported_protocol,
        Env_socket_url_required, Socket_url_invalid_format, Socket_url_unsupported_protocol]))"
| "isBackendResolutionIssueCode _ = False"

definition isBackendResolutionIssue :: "jsval \<Rightarrow> bool" where
  "isBackendResolutionIssue v =
     (is_object v \<and> isBackendResolutionIssueCode (get_prop v (js ''code'')) \<and>
      (case get_prop v (js ''details'') of J_str _ \<Rightarrow> True | _ \<Rightarrow> False))"

subsection \<open>Signing in\<close>

definition normalizeAuthToken :: "jsstring option \<Rightarrow> jsstring option" where
  "normalizeAuthToken token =
     (case token of
        None \<Rightarrow> None
      | Some t \<Rightarrow> if t = [] then None else if trim t = [] then None else Some (trim t))"

definition raw_hash :: "window_location \<Rightarrow> jsstring" where
  "raw_hash l = (if startsWith (loc_hash l) (js ''#'') then drop 1 (loc_hash l) else loc_hash l)"

definition readAuthTokenFromWindowHash :: "web_platform \<Rightarrow> window_location option \<Rightarrow> jsstring option" where
  "readAuthTokenFromWindowHash W windowRef =
     (case windowRef of
        None \<Rightarrow> None
      | Some l \<Rightarrow>
          if raw_hash l = [] then None
          else normalizeAuthToken (map_of (params_parse W (raw_hash l)) (js ''token'')))"

text \<open>\<open>history.replaceState\<close> keeps path and query and sets the fragment.\<close>

definition stripAuthTokenFromWindowHash :: "web_platform \<Rightarrow> window_location \<Rightarrow> window_location" where
  "stripAuthTokenFromWindowHash W l =
     (if raw_hash l = [] then l
      else let params = params_parse W (raw_hash l)
           in if js ''token'' \<notin> fst ` set params then l
              else let nextHash = params_text W (filter (\<lambda>p. fst p \<noteq> js ''token'') params)
                   in l\<lparr>loc_hash := (if nextHash = [] then [] else js ''#'' @ nextHash)\<rparr>)"

definition deriveAuthBootstrapUrlFromSessions :: "host \<Rightarrow> web_platform \<Rightarrow> jsstring \<Rightarrow> jsstring option" where
  "deriveAuthBootstrapUrlFromSessions H W sessionsHttpUrl =
     (case url_parse H sessionsHttpUrl of
        None \<Rightarrow> None
      | Some u \<Rightarrow>
          Some (url_text H (url_with_path W u
            (if endsWith (url_pathname u) SESSIONS_HTTP
             then dropEnd (length SESSIONS_HTTP) (url_pathname u) @ AUTH_BOOTSTRAP_HTTP_ROUTE
             else AUTH_BOOTSTRAP_HTTP_ROUTE))))"

record auth_request =
  ar_url :: jsstring
  ar_method :: jsstring
  ar_credentials :: jsstring
  ar_authorization :: jsstring

text \<open>Nothing to do, an exception, or a request whose answer is awaited.\<close>

datatype auth_start = No_token | Auth_failed jsstring | Invalid_sessions_url | Auth_posted auth_request

definition bootstrapBrowserAuth :: "host \<Rightarrow> web_platform \<Rightarrow> window_location option \<Rightarrow> jsstring option \<Rightarrow> auth_start" where
  "bootstrapBrowserAuth H W windowRef envSocketUrl =
     (case readAuthTokenFromWindowHash W windowRef of
        None \<Rightarrow> No_token
      | Some token \<Rightarrow>
          (case resolveTerminalBackendEndpoints H W windowRef envSocketUrl of
             Inl issue \<Rightarrow> Auth_failed (js ''terminal auth bootstrap failed: '' @ bi_details issue)
           | Inr endpoints \<Rightarrow>
               (case deriveAuthBootstrapUrlFromSessions H W (be_sessionsHttpUrl endpoints) of
                  None \<Rightarrow> Invalid_sessions_url
                | Some u \<Rightarrow>
                    Auth_posted \<lparr>ar_url = u, ar_method = js ''POST'', ar_credentials = js ''include'',
                                 ar_authorization = js ''Bearer '' @ token\<rparr>)))"

text \<open>The continuation after the answer, with \<open>response.ok\<close> and \<open>response.status\<close>.\<close>

definition auth_answered ::
  "host \<Rightarrow> web_platform \<Rightarrow> bool \<Rightarrow> int \<Rightarrow> window_location \<Rightarrow> jsstring option \<times> window_location" where
  "auth_answered H W ok status l =
     (if \<not> ok then (Some (js ''terminal auth bootstrap failed with status '' @ js (int_digits status)), l)
      else (None, stripAuthTokenFromWindowHash W l))"

subsection \<open>Paths\<close>

text \<open>The prefix under which the server's routes live: the configured path without a trailing slash and
  without either route.\<close>

definition base_path :: "jsstring \<Rightarrow> jsstring" where
  "base_path pathname =
     (let p = (if endsWith pathname (js ''/'') then dropEnd 1 pathname else pathname)
      in if endsWith p TERMINAL_WS then dropEnd (length TERMINAL_WS) p
         else if endsWith p SESSIONS_HTTP then dropEnd (length SESSIONS_HTTP) p
         else if p = js ''/'' then [] else p)"

lemma routes_differ:
  "\<not> endsWith (a @ SESSIONS_HTTP) TERMINAL_WS" "\<not> endsWith (a @ TERMINAL_WS) (js ''/'')" "\<not> endsWith (a @ SESSIONS_HTTP) (js ''/'')"
  by (simp_all add: endsWith_def SESSIONS_HTTP_def TERMINAL_WS_def js_def)

lemma route_last: "js ''/'' \<noteq> a @ TERMINAL_WS" "js ''/'' \<noteq> a @ SESSIONS_HTTP"
  by (simp_all add: SESSIONS_HTTP_def TERMINAL_WS_def js_def)

lemma derived_terminal_path: "deriveTerminalPathFromHttpUrl p = base_path p @ TERMINAL_WS"
proof -
  define q where "q = (if endsWith p (js ''/'') then dropEnd 1 p else p)"
  have drop: "endsWith q r \<Longrightarrow> dropEnd (length r) q @ r = q" for r by (erule endsWithE) simp
  show ?thesis
  proof (cases "p = js ''/''")
    case True
    then have "deriveTerminalPathFromHttpUrl p = TERMINAL_WS" by (simp only:) code_simp
    moreover have "base_path p = []" unfolding True by code_simp
    ultimately show ?thesis by simp
  next
    case False
    have "length p > 1" if e: "endsWith p (js ''/'')"
      using e False by (cases p) (auto simp: endsWith_def js_def split: if_splits)
    then have n: "(if length p > 1 \<and> endsWith p (js ''/'') then dropEnd 1 p else p) = q" by (simp add: q_def)
    show ?thesis unfolding deriveTerminalPathFromHttpUrl_def base_path_def n q_def [symmetric] Let_def
      using drop by auto
  qed
qed

lemma sessions_path_of_terminal: "deriveSessionsPath (a @ TERMINAL_WS) = a @ SESSIONS_HTTP"
  by (simp add: deriveSessionsPath_def)

lemma terminal_path_of_sessions: "deriveTerminalPathFromHttpUrl (a @ SESSIONS_HTTP) = a @ TERMINAL_WS"
  by (simp add: deriveTerminalPathFromHttpUrl_def routes_differ Let_def)

lemma terminal_path_stable: "deriveTerminalPathFromHttpUrl (a @ TERMINAL_WS) = a @ TERMINAL_WS"
  by (simp add: deriveTerminalPathFromHttpUrl_def routes_differ Let_def)

text \<open>Both endpoints live under one prefix: from any configured path the client derives the terminal route and
  the sessions route under the same prefix, and starting again from either derived path leads to the same
  pair.\<close>

theorem endpoint_paths_share_prefix:
  "deriveTerminalPathFromHttpUrl p = base_path p @ js ''/api/terminal'' \<and>
   deriveSessionsPath (deriveTerminalPathFromHttpUrl p) = base_path p @ js ''/api/sessions'' \<and>
   deriveTerminalPathFromHttpUrl (deriveTerminalPathFromHttpUrl p) = deriveTerminalPathFromHttpUrl p \<and>
   deriveTerminalPathFromHttpUrl (deriveSessionsPath (deriveTerminalPathFromHttpUrl p)) = deriveTerminalPathFromHttpUrl p"
  unfolding TERMINAL_WS_def [symmetric] SESSIONS_HTTP_def [symmetric] derived_terminal_path [of p] sessions_path_of_terminal
    terminal_path_stable terminal_path_of_sessions by simp

subsection \<open>Resolution\<close>


definition no_platform :: web_platform where
  "no_platform = \<lparr>url_resolve = (\<lambda>_ _. None), url_with_path = (\<lambda>u p. u\<lparr>url_pathname := p, url_search := [], url_params := []\<rparr>),
     params_parse = (\<lambda>s. if take 6 s = js ''token='' then [(js ''token'', drop 6 s)] else []), params_text = (\<lambda>_. [])\<rparr>"

definition sample_location :: window_location where
  "sample_location = \<lparr>loc_protocol = js ''https:'', loc_host = js ''h'', loc_pathname = js ''/'', loc_search = [],
     loc_hash = js ''#token=abc''\<rparr>"

text \<open>A parser that splits scheme, host and path, for the concrete runs.\<close>

definition split_url :: "jsstring \<Rightarrow> url option" where
  "split_url t =
     (case map_of [(js ''ws:'', 5), (js ''wss:'', 6), (js ''http:'', 7), (js ''https:'', 8)] (takeWhile (\<lambda>c. c \<noteq> 58) t @ js '':'') of
        None \<Rightarrow> None
      | Some n \<Rightarrow> Some \<lparr>url_protocol = takeWhile (\<lambda>c. c \<noteq> 58) t @ js '':'', url_host = takeWhile (\<lambda>c. c \<noteq> 47) (drop n t),
          url_pathname = dropWhile (\<lambda>c. c \<noteq> 47) (drop n t), url_search = [], url_params = [], url_rest = []\<rparr>)"

definition web_host :: host where
  "web_host = sample_host\<lparr>url_parse := split_url, url_text := (\<lambda>u. url_protocol u @ js ''//'' @ url_host u @ url_pathname u)\<rparr>"

lemma sample_resolution:
  "resolveTerminalBackendEndpoints web_host no_platform (Some sample_location) None =
     Inr \<lparr>be_sessionsHttpUrl = js ''https://h/api/sessions'', be_terminalWsUrl = js ''wss://h/api/terminal''\<rparr>"
  by code_simp


subsection \<open>Signing in\<close>

text \<open>What is left of the fragment when the token is stripped.\<close>

lemma stripped_location:
  assumes "params_parse W (params_text W (filter (\<lambda>p. fst p \<noteq> js ''token'') (params_parse W (raw_hash l)))) =
      filter (\<lambda>p. fst p \<noteq> js ''token'') (params_parse W (raw_hash l))"
  shows "readAuthTokenFromWindowHash W (Some (stripAuthTokenFromWindowHash W l)) = None \<and>
    loc_pathname (stripAuthTokenFromWindowHash W l) = loc_pathname l \<and> loc_search (stripAuthTokenFromWindowHash W l) = loc_search l \<and>
    (raw_hash (stripAuthTokenFromWindowHash W l) \<noteq> [] \<longrightarrow>
       params_parse W (raw_hash (stripAuthTokenFromWindowHash W l)) = filter (\<lambda>p. fst p \<noteq> js ''token'') (params_parse W (raw_hash l)))"
proof -
  let ?ps = "params_parse W (raw_hash l)"
  let ?kept = "filter (\<lambda>p. fst p \<noteq> js ''token'') ?ps"
  let ?l = "stripAuthTokenFromWindowHash W l"
  have none: "map_of ?kept (js ''token'') = None" by (simp add: map_of_eq_None_iff image_iff)
  consider (empty) "raw_hash l = []" | (plain) "raw_hash l \<noteq> []" "js ''token'' \<notin> fst ` set ?ps"
    | (token) "raw_hash l \<noteq> []" "js ''token'' \<in> fst ` set ?ps" by blast
  then show ?thesis
  proof cases
    case empty
    then show ?thesis by (simp add: stripAuthTokenFromWindowHash_def readAuthTokenFromWindowHash_def)
  next
    case plain
    then have "?l = l" by (simp add: stripAuthTokenFromWindowHash_def)
    moreover have "?kept = ?ps" using plain(2) by (intro filter_True) (metis image_eqI)
    moreover have "map_of ?ps (js ''token'') = None" using plain(2) by (simp add: map_of_eq_None_iff)
    ultimately show ?thesis by (simp add: readAuthTokenFromWindowHash_def normalizeAuthToken_def)
  next
    case token
    let ?k = "params_text W ?kept"
    have l: "?l = l\<lparr>loc_hash := (if ?k = [] then [] else js ''#'' @ ?k)\<rparr>"
      using token by (simp add: stripAuthTokenFromWindowHash_def Let_def)
    have rh: "raw_hash ?l = ?k" unfolding l by (simp add: raw_hash_def)
    have "loc_pathname ?l = loc_pathname l" "loc_search ?l = loc_search l" unfolding l by simp_all
    then show ?thesis using assms none rh by (simp add: readAuthTokenFromWindowHash_def normalizeAuthToken_def)
  qed
qed

text \<open>C39: The sign-in token is used once and only for signing in: without a token in the fragment no request is made; with
  one the request carries exactly it, trimmed, in its authorization header; if the server refuses, the page is left
  as it is and an error is raised; if it accepts, the fragment no longer holds a token and every other
  parameter is still there.\<close>

theorem sign_in_token_used_once:
  assumes "params_parse W (params_text W (filter (\<lambda>p. fst p \<noteq> js ''token'') (params_parse W (raw_hash l)))) =
      filter (\<lambda>p. fst p \<noteq> js ''token'') (params_parse W (raw_hash l))"
  shows "(readAuthTokenFromWindowHash W (Some l) = None \<longleftrightarrow> bootstrapBrowserAuth H W (Some l) env = No_token) \<and>
    (\<forall>rq. bootstrapBrowserAuth H W (Some l) env = Auth_posted rq \<longrightarrow>
       (\<exists>token e. readAuthTokenFromWindowHash W (Some l) = Some token \<and> token \<noteq> [] \<and> trim token = token \<and>
          ar_authorization rq = js ''Bearer '' @ token \<and>
          resolveTerminalBackendEndpoints H W (Some l) env = Inr e \<and>
          deriveAuthBootstrapUrlFromSessions H W (be_sessionsHttpUrl e) = Some (ar_url rq))) \<and>
    auth_answered H W False status l = (Some (js ''terminal auth bootstrap failed with status '' @ js (int_digits status)), l) \<and>
    fst (auth_answered H W True status l) = None \<and>
    readAuthTokenFromWindowHash W (Some (snd (auth_answered H W True status l))) = None \<and>
    loc_pathname (snd (auth_answered H W True status l)) = loc_pathname l \<and>
    loc_search (snd (auth_answered H W True status l)) = loc_search l \<and>
    (raw_hash (snd (auth_answered H W True status l)) \<noteq> [] \<longrightarrow>
       params_parse W (raw_hash (snd (auth_answered H W True status l))) =
       filter (\<lambda>p. fst p \<noteq> js ''token'') (params_parse W (raw_hash l)))"
proof -
  note stripped_location [OF assms]
  moreover have "token \<noteq> [] \<and> trim token = token" if "readAuthTokenFromWindowHash W (Some l) = Some token" for token
    using that by (auto simp: readAuthTokenFromWindowHash_def normalizeAuthToken_def trim_idem split: if_splits option.splits)
  moreover have "readAuthTokenFromWindowHash W (Some l) = None \<longleftrightarrow> bootstrapBrowserAuth H W (Some l) env = No_token"
    by (simp add: bootstrapBrowserAuth_def split: option.split sum.split)
  moreover have "\<exists>token e. readAuthTokenFromWindowHash W (Some l) = Some token \<and> ar_authorization rq = js ''Bearer '' @ token \<and>
      resolveTerminalBackendEndpoints H W (Some l) env = Inr e \<and>
      deriveAuthBootstrapUrlFromSessions H W (be_sessionsHttpUrl e) = Some (ar_url rq)"
    if "bootstrapBrowserAuth H W (Some l) env = Auth_posted rq" for rq
    using that by (auto simp: bootstrapBrowserAuth_def split: option.splits sum.splits)
  ultimately show ?thesis by (auto simp: auth_answered_def)
qed

theorem sign_in_token_used_once_witness:
  "readAuthTokenFromWindowHash no_platform (Some (snd (auth_answered web_host no_platform True 204 sample_location))) = None"
proof -
  have "params_parse no_platform (params_text no_platform (filter (\<lambda>p. fst p \<noteq> js ''token'')
      (params_parse no_platform (raw_hash sample_location)))) =
      filter (\<lambda>p. fst p \<noteq> js ''token'') (params_parse no_platform (raw_hash sample_location))"
    by code_simp
  then show ?thesis using sign_in_token_used_once [of no_platform sample_location] by blast
qed

end
