(* ===== verification/Client.thy ===== *)
theory Client
  imports Coordinator_Laws Session_Steps Commands Preferences Endpoints
begin

section \<open>The client\<close>

text \<open>
  \<open>app/composition/terminal-domain-composition.ts\<close>, \<open>app/composition/terminal-session-domain.ts\<close>,
  \<open>app/controller-actions.ts\<close>, \<open>app/controller-bindings.ts\<close> and \<open>app/bindings/window-bindings.ts\<close>: the
  connection coordinator and the session layer put together, with the state of the interface and the commands of
  the user.  A handler of the coordinator calls the session layer while it runs; as neither reads the state of the
  other, the calls, kept in their order in \<open>session_calls\<close>, are performed when the handler returns.
  What the closures of the last commit captured is \<open>view\<close>, \<open>shownLastSessionId\<close> and the
  dependencies of the effects; \<open>commit\<close> is a commit of React with the effects it runs.
\<close>

datatype ui_task = Fullscreen_settled

record client =
  conn :: coordinator
  sess :: session_layer
  view :: render_view
  shownLastSessionId :: "jsstring option"
  connectDeps :: "(bool \<times> bool) option"
  statusDep :: "connection_status option"
  menuDep :: "bool option"
  lastBootstrapIssue :: "jsstring option"
  fontSizeRef :: int
  fontSize :: int
  controlsOpen :: bool
  isFullscreen :: bool
  helpOpen :: bool
  uiTimers :: "ui_task scheduler"
  fullscreenTimer :: "nat option"

subsection \<open>The two halves\<close>

fun deliver_call :: "host \<Rightarrow> session_call \<Rightarrow> 'a session_layer_scheme \<Rightarrow> 'a session_layer_scheme" where
  "deliver_call H (Apply_ready_session sid readOnly) s = applyReadySession H sid readOnly s"
| "deliver_call H Clear_missing_session s = clearMissingSession H s"
| "deliver_call H (Set_session_mode m) s = s\<lparr>attachMode := m\<rparr>"
| "deliver_call H Request_transport_refresh s = snd (requestTransportRefresh s)"
| "deliver_call H (Publish_notice n) s = publishNoticeDetails H n s"

definition on_session :: "(session_layer \<Rightarrow> session_layer) \<Rightarrow> client \<Rightarrow> client" where
  "on_session f c = c\<lparr>sess := f (sess c)\<rparr>"

definition on_connection :: "host \<Rightarrow> (coordinator \<Rightarrow> coordinator) \<Rightarrow> client \<Rightarrow> client" where
  "on_connection H f c =
     (let s = f (conn c)
      in c\<lparr>conn := s\<lparr>session_calls := []\<rparr>, sess := fold (deliver_call H) (session_calls s) (sess c)\<rparr>)"

text \<open>The clean-up of the effect that follows the full screen.\<close>

definition cancelFullscreenTimer :: "client \<Rightarrow> client" where
  "cancelFullscreenTimer c =
     (case fullscreenTimer c of
        None \<Rightarrow> c
      | Some h \<Rightarrow> c\<lparr>uiTimers := clearTimeout h (uiTimers c), fullscreenTimer := None\<rparr>)"

subsection \<open>A commit and its effects\<close>

definition backendNoticeEffect :: "host \<Rightarrow> backend_issue + backend_endpoints \<Rightarrow> client \<Rightarrow> client" where
  "backendNoticeEffect H backendResolution c =
     (case backendResolution of
        Inr _ \<Rightarrow> c\<lparr>lastBootstrapIssue := None\<rparr>
      | Inl issue \<Rightarrow>
          (let issueKey = issue_code_name (bi_code issue) @ js '':'' @ bi_details issue
           in if lastBootstrapIssue c = Some issueKey then c
              else on_session (publishNoticeDetails H (toBackendResolutionNotice issue)) (c\<lparr>lastBootstrapIssue := Some issueKey\<rparr>)))"

text \<open>What \<open>useFetchSessions\<close> answers: without endpoints there is nothing to ask.\<close>

definition fetchSessions :: "host \<Rightarrow> backend_issue + backend_endpoints \<Rightarrow> http_outcome \<Rightarrow> sessions_fetch_result" where
  "fetchSessions H backendResolution outcome =
     (case backendResolution of Inl issue \<Rightarrow> Inl (Bootstrap_error issue) | Inr _ \<Rightarrow> fetchSessionsFromEndpoint H outcome)"

text \<open>
  The cleanups run before the effects, that of the effect that connects and, when the attach mode and with it
  \<open>fitAndSyncSize\<close> has changed, that of the effect that follows the full screen; an effect runs only when one of its
  dependencies has changed, unless running it again is the same as not running it.
\<close>

definition commit :: "host \<Rightarrow> bool \<Rightarrow> backend_issue + backend_endpoints \<Rightarrow> client \<Rightarrow> client" where
  "commit H hasWindow backendResolution c =
     (let rv = \<lparr>rv_sessionId = sessionId (sess c), rv_attachMode = attachMode (sess c)\<rparr>;
          endpoint = (case backendResolution of Inl _ \<Rightarrow> None | Inr e \<Rightarrow> Some (be_terminalWsUrl e));
          enabled = (case backendResolution of Inl _ \<Rightarrow> False | Inr _ \<Rightarrow> True);
          status = ts_status (tstate (conn c));
          deps = (terminalReady (conn c), enabled);
          hasActiveSession = (sessionId (sess c) \<noteq> None);
          menuOpen = sessionMenuOpen (sess c);
          c0 = (if rv_attachMode rv \<noteq> rv_attachMode (view c) then cancelFullscreenTimer c else c);
          c1 = c0\<lparr>view := rv, shownLastSessionId := lastSessionId (sess c), connectDeps := Some deps,
                 statusDep := Some status, menuDep := Some menuOpen\<rparr>;
          c2 = (if connectDeps c \<noteq> Some deps \<and> connectDeps c = Some (True, True) then on_connection H dispose c1 else c1);
          c3 = on_connection H (updateRuntime endpoint hasActiveSession) (backendNoticeEffect H backendResolution c2);
          c4 = (if connectDeps c \<noteq> Some deps then on_connection H (connectEffect H rv enabled) c3 else c3);
          c5 = on_connection H (endpointEffect H rv enabled endpoint) c4;
          c6 = (if statusDep c \<noteq> Some status then on_connection H (dispatchStatusEvent (Transport_status status)) c5 else c5)
      in if menuDep c \<noteq> Some menuOpen then on_session (poll_effect hasWindow) c6 else c6)"

subsection \<open>The session menu\<close>

datatype session_menu_action = Start_fresh_session | Resume_last_session | Attach_to_session jsstring attach_mode

definition startFreshSession :: "host \<Rightarrow> client \<Rightarrow> client" where
  "startFreshSession H c =
     on_connection H (coordinatorFreshConnection H (view c))
       (on_session (transitionSessionContext H None Control) (on_connection H resetRuntimeBuffers c))"

definition attachToSession :: "host \<Rightarrow> jsstring \<Rightarrow> attach_mode \<Rightarrow> client \<Rightarrow> client" where
  "attachToSession H targetSessionId mode c =
     (if targetSessionId = [] then c
      else on_connection H (coordinatorReconnectNow H (view c))
             (on_session (transitionSessionContext H (Some targetSessionId) mode) (on_connection H resetRuntimeBuffers c)))"

definition resumePreviousSession :: "host \<Rightarrow> client \<Rightarrow> client" where
  "resumePreviousSession H c =
     (case shownLastSessionId c of None \<Rightarrow> c | Some l \<Rightarrow> if l = [] then c else attachToSession H l Control c)"

fun dispatchSessionMenu :: "host \<Rightarrow> session_menu_action \<Rightarrow> client \<Rightarrow> client" where
  "dispatchSessionMenu H Start_fresh_session c = startFreshSession H c"
| "dispatchSessionMenu H Resume_last_session c = resumePreviousSession H c"
| "dispatchSessionMenu H (Attach_to_session sid mode) c = attachToSession H sid mode c"

subsection \<open>Commands\<close>

definition storeFontSize :: "host \<Rightarrow> int \<Rightarrow> 'a session_identity_scheme \<Rightarrow> 'a session_identity_scheme" where
  "storeFontSize H normalized s =
     (let (storage, s1) = resolveStorageAccess H (localAccess s) s;
          (error, storage') = writeFontSizePreferenceResult storage normalized;
          s2 = (case storage' of None \<Rightarrow> s1 | Some st \<Rightarrow> set_local st s1)
      in reportFailure H error s2)"

definition fitNow :: "host \<Rightarrow> (terminal \<Rightarrow> terminal) \<Rightarrow> client \<Rightarrow> client" where
  "fitNow H fit c = on_connection H (coordinator_run_step H fit (view c) Fit) c"

definition applyFontSize :: "host \<Rightarrow> (terminal \<Rightarrow> terminal) \<Rightarrow> int \<Rightarrow> client \<Rightarrow> client" where
  "applyFontSize H fit next c =
     (let normalized = clampFontSize next;
          c1 = c\<lparr>fontSizeRef := normalized, fontSize := normalized\<rparr>;
          c2 = on_session (storeFontSize H normalized) c1
      in on_connection H (coordinator_run_step H fit (view c) (Font_size normalized)) c2)"

fun runtimeCommandHandlers :: "host \<Rightarrow> shortcut_action \<Rightarrow> client \<Rightarrow> client" where
  "runtimeCommandHandlers H Reconnect_command c = on_connection H (coordinatorReconnectNow H (view c)) c"
| "runtimeCommandHandlers H Clear_command c = on_connection H clearTerminal c"
| "runtimeCommandHandlers H _ c = c"

text \<open>A request to enter or leave full screen is answered later by an event or a failure, steps of their own.\<close>

fun viewportCommandHandlers :: "host \<Rightarrow> (terminal \<Rightarrow> terminal) \<Rightarrow> shortcut_action \<Rightarrow> client \<Rightarrow> client" where
  "viewportCommandHandlers H fit Decrease_font c = applyFontSize H fit (fontSizeRef c - 1) c"
| "viewportCommandHandlers H fit Increase_font c = applyFontSize H fit (fontSizeRef c + 1) c"
| "viewportCommandHandlers H fit Reset_font c = applyFontSize H fit DEFAULT_FONT_SIZE c"
| "viewportCommandHandlers H fit Toggle_fullscreen c = c"
| "viewportCommandHandlers H fit Toggle_controls c = c\<lparr>controlsOpen := \<not> controlsOpen c\<rparr>"
| "viewportCommandHandlers H fit Toggle_help c = c\<lparr>helpOpen := \<not> helpOpen c\<rparr>"
| "viewportCommandHandlers H fit _ c = c"

text \<open>An exception of the registry leaves the client as it is.\<close>

definition runCommand :: "host \<Rightarrow> (terminal \<Rightarrow> terminal) \<Rightarrow> shortcut_action \<Rightarrow> client \<Rightarrow> client" where
  "runCommand H fit command c =
     (case buildCommandRegistry COMMAND_MANIFEST of
        Inl _ \<Rightarrow> c
      | Inr r \<Rightarrow>
          (case dispatchCommand r (runtimeCommandHandlers H) (viewportCommandHandlers H fit) command c of
             Inl _ \<Rightarrow> c
           | Inr c' \<Rightarrow> c'))"

text \<open>The status bar; a download leaves the state as it is.\<close>

datatype status_bar_action = Bar_toggle_controls | Toggle_session_menu | Download_transcript | Rename_session jsstring

fun dispatchStatusBar :: "host \<Rightarrow> (terminal \<Rightarrow> terminal) \<Rightarrow> status_bar_action \<Rightarrow> client \<Rightarrow> client" where
  "dispatchStatusBar H fit Bar_toggle_controls c = viewportCommandHandlers H fit Toggle_controls c"
| "dispatchStatusBar H fit Toggle_session_menu c = on_session (\<lambda>s. s\<lparr>sessionMenuOpen := \<not> sessionMenuOpen s\<rparr>) c"
| "dispatchStatusBar H fit Download_transcript c = c"
| "dispatchStatusBar H fit (Rename_session name) c =
     on_session (\<lambda>s. snd (requestTransportRefresh s)) (on_connection H (\<lambda>s. snd (sendNow H (createRenameMessage name) s)) c)"

subsection \<open>Full screen\<close>

definition onFullscreenChange :: "host \<Rightarrow> (terminal \<Rightarrow> terminal) \<Rightarrow> bool \<Rightarrow> bool \<Rightarrow> client \<Rightarrow> client" where
  "onFullscreenChange H fit hasWindow fullscreen c =
     (let c1 = c\<lparr>isFullscreen := fullscreen\<rparr>
      in if \<not> hasWindow then fitNow H fit c1
         else let c2 = cancelFullscreenTimer c1;
                  (h, sc) = setTimeout Fullscreen_settled 40 (uiTimers c2)
              in c2\<lparr>uiTimers := sc, fullscreenTimer := Some h\<rparr>)"

definition fireUiTimer :: "host \<Rightarrow> (terminal \<Rightarrow> terminal) \<Rightarrow> nat \<Rightarrow> client \<Rightarrow> client" where
  "fireUiTimer H fit h c =
     (case fire h (uiTimers c) of
        None \<Rightarrow> c
      | Some (_, sc) \<Rightarrow> (fitNow H fit (c\<lparr>uiTimers := sc\<rparr>))\<lparr>fullscreenTimer := None\<rparr>)"

subsection \<open>Runs\<close>

text \<open>
  Of the steps of the two halves, these come from outside; the others are taken by the commits and
  commands of the client.
\<close>

fun transport_event :: "transport_step \<Rightarrow> bool" where
  "transport_event (Fire _) = True"
| "transport_event (Socket_open _) = True"
| "transport_event (Socket_message _ _) = True"
| "transport_event (Socket_failed _ _) = True"
| "transport_event (Socket_closing _) = True"
| "transport_event (Socket_close _ _ _) = True"
| "transport_event (Weather _ _) = True"
| "transport_event _ = False"

fun connection_event :: "coordinator_step \<Rightarrow> bool" where
  "connection_event (Transport_step e) = transport_event e"
| "connection_event (Key_input _) = True"
| "connection_event Fit = True"
| "connection_event (Setup_settled _ _) = True"
| "connection_event _ = False"

fun session_event :: "session_step \<Rightarrow> bool" where
  "session_event (Session_fetched _ _) = True"
| "session_event (Session_fetch_rejected _ _) = True"
| "session_event (Session_resume _) = True"
| "session_event (Session_finish _) = True"
| "session_event (Session_poll_then _) = True"
| "session_event (Session_poll_finally _) = True"
| "session_event (Session_timer _) = True"
| "session_event (Session_areas _ _) = True"
| "session_event _ = False"

datatype client_step =
    Connection coordinator_step
  | Session_event session_step
  | Time nat int
  | Commit "backend_issue + backend_endpoints"
  | Session_menu session_menu_action
  | Status_bar status_bar_action
  | Floating_control shortcut_action
  | Key_down key_event
  | Close_session_menu
  | Close_help
  | Fullscreen_changed bool
  | Fullscreen_failed jsval
  | Ui_timer nat
  | Unmount

text \<open>The key handler is bound while the terminal is ready and there is a window.\<close>

definition keyDown :: "host \<Rightarrow> (terminal \<Rightarrow> terminal) \<Rightarrow> bool \<Rightarrow> key_event \<Rightarrow> client \<Rightarrow> client" where
  "keyDown H fit hasWindow ev c =
     (if connectDeps c \<notin> {Some (True, False), Some (True, True)} \<or> \<not> hasWindow then c
      else case buildCommandRegistry COMMAND_MANIFEST of
             Inl _ \<Rightarrow> c
           | Inr r \<Rightarrow> (case keyHandler r ev of None \<Rightarrow> c | Some command \<Rightarrow> runCommand H fit command c))"

definition unmountClient :: "host \<Rightarrow> client \<Rightarrow> client" where
  "unmountClient H c =
     (let c1 = (if connectDeps c = Some (True, True) then on_connection H dispose c else c)
      in cancelFullscreenTimer
           (on_session unmount_session (on_connection H cleanupRuntime (c1\<lparr>connectDeps := None\<rparr>))))"

fun client_run_step :: "host \<Rightarrow> (terminal \<Rightarrow> terminal) \<Rightarrow> bool \<Rightarrow> client_step \<Rightarrow> client \<Rightarrow> client" where
  "client_run_step H fit w (Connection e) c =
     (if connection_event e then on_connection H (coordinator_run_step H fit (view c) e) c else c)"
| "client_run_step H fit w (Session_event e) c = (if session_event e then on_session (session_run_step H e) c else c)"
| "client_run_step H fit w (Time d clock) c =
     (on_session (session_run_step H (Session_time d clock))
       (on_connection H (coordinator_run_step H fit (view c) (Transport_step (Pass_time d clock))) c))
     \<lparr>uiTimers := pass_time d clock (uiTimers c)\<rparr>"
| "client_run_step H fit w (Commit r) c = commit H w r c"
| "client_run_step H fit w (Session_menu a) c = dispatchSessionMenu H a c"
| "client_run_step H fit w (Status_bar a) c = dispatchStatusBar H fit a c"
| "client_run_step H fit w (Floating_control command) c = runCommand H fit command c"
| "client_run_step H fit w (Key_down ev) c = keyDown H fit w ev c"
| "client_run_step H fit w Close_session_menu c = on_session (\<lambda>s. s\<lparr>sessionMenuOpen := False\<rparr>) c"
| "client_run_step H fit w Close_help c = c\<lparr>helpOpen := False\<rparr>"
| "client_run_step H fit w (Fullscreen_changed b) c = onFullscreenChange H fit w b c"
| "client_run_step H fit w (Fullscreen_failed e) c = on_session (publishNoticeDetails H (N_fullscreen e)) c"
| "client_run_step H fit w (Ui_timer h) c = fireUiTimer H fit h c"
| "client_run_step H fit w Unmount c = unmountClient H c"

definition client_run :: "host \<Rightarrow> (terminal \<Rightarrow> terminal) \<Rightarrow> bool \<Rightarrow> client_step list \<Rightarrow> client \<Rightarrow> client" where
  "client_run H fit w es c = fold (client_run_step H fit w) es c"

text \<open>The first render, before its effects: the font size is read before the session layer is mounted.\<close>

definition mount_client :: "host \<Rightarrow> int \<Rightarrow> jsstring option \<Rightarrow> storage_access \<Rightarrow> storage_access \<Rightarrow> client" where
  "mount_client H clock endpoint la sa =
     (let s = mount_session H clock (initialFontNotice H la) la sa;
          size = fst (readInitialFontSizeState la)
      in \<lparr>conn = initialCoordinator clock endpoint, sess = s,
          view = \<lparr>rv_sessionId = sessionId s, rv_attachMode = attachMode s\<rparr>, shownLastSessionId = lastSessionId s,
          connectDeps = None, statusDep = None, menuDep = None, lastBootstrapIssue = None,
          fontSizeRef = size, fontSize = size, controlsOpen = True, isFullscreen = False, helpOpen = False,
          uiTimers = new_scheduler clock, fullscreenTimer = None\<rparr>)"

end
