(* ===== verification/Doubles.thy ===== *)
theory Doubles
  imports Prelude
begin

section \<open>Rounding to doubles, and the numbers in texts\<close>

text \<open>
  The rounding of JavaScript's arithmetic, and \<open>Number(text)\<close> as the port number of \<open>scripts/dev.mjs\<close> needs it: the
  grammar of numeric strings with the value rounded to a double where the rounding can make a port of it.
\<close>

definition round_half_even :: "rat \<Rightarrow> int" where
  "round_half_even q =
     (let n = \<lfloor>q\<rfloor>; d = q - of_int n
      in if d < 1 / 2 then n else if d > 1 / 2 then n + 1 else if even n then n else n + 1)"

text \<open>The number of times a whole number can be halved before it is below 2.\<close>

fun halvings :: "nat \<Rightarrow> nat" where
  "halvings n = (if n < 2 then 0 else Suc (halvings (n div 2)))"

declare halvings.simps [simp del]

text \<open>The nearest double of a rational number from 1 up to below \<open>2 ^ 1023\<close>: 53 significant bits, ties to even.\<close>

definition nearest_double :: "rat \<Rightarrow> rat" where
  "nearest_double q =
     (let ulps = 2 ^ 52 / 2 ^ halvings (nat \<lfloor>q\<rfloor>) in of_int (round_half_even (q * ulps)) / ulps)"

subsection \<open>Numeric strings\<close>

text \<open>The value of a digit or letter, 36 and more for anything else.\<close>

definition digit_value :: "code_unit \<Rightarrow> nat" where
  "digit_value u =
     (if 48 \<le> u \<and> u \<le> 57 then unat (u - 48)
      else if 97 \<le> u \<and> u \<le> 122 then unat (u - 87)
      else if 65 \<le> u \<and> u \<le> 90 then unat (u - 55)
      else 36)"

definition digits_only :: "nat \<Rightarrow> jsstring \<Rightarrow> bool" where
  "digits_only base s \<longleftrightarrow> list_all (\<lambda>u. digit_value u < base) s"

definition digits_number :: "nat \<Rightarrow> jsstring \<Rightarrow> int" where
  "digits_number base s = foldl (\<lambda>n u. int base * n + int (digit_value u)) 0 s"

text \<open>An optional sign in front.\<close>

definition signed :: "jsstring \<Rightarrow> rat \<times> jsstring" where
  "signed s =
     (case s of
        [] \<Rightarrow> (1, [])
      | u # rest \<Rightarrow> if u = 43 then (1, rest) else if u = 45 then (- 1, rest) else (1, s))"

text \<open>The text before the first of some characters, and the text after it when there is one.\<close>

definition cut_at :: "code_unit set \<Rightarrow> jsstring \<Rightarrow> jsstring \<times> jsstring option" where
  "cut_at us s =
     (let before = takeWhile (\<lambda>u. u \<notin> us) s; rest = dropWhile (\<lambda>u. u \<notin> us) s
      in (before, if rest = [] then None else Some (tl rest)))"

text \<open>Digits with an optional fraction and an optional exponent.\<close>

definition unsigned_decimal :: "jsstring \<Rightarrow> rat option" where
  "unsigned_decimal s =
     (let (mantissa, exponent) = cut_at {69, 101} s;
          (whole, point) = cut_at {46} mantissa;
          fraction = (case point of None \<Rightarrow> [] | Some f \<Rightarrow> f);
          (esign, edigits) = (case exponent of None \<Rightarrow> (1, [48]) | Some e \<Rightarrow> signed e);
          shift = esign * of_int (digits_number 10 edigits) - of_nat (length fraction)
      in if whole @ fraction = [] \<or> edigits = [] \<or> \<not> digits_only 10 (whole @ fraction @ edigits) then None
         else Some (of_int (digits_number 10 (whole @ fraction)) * (if shift < 0 then 1 / 10 ^ nat \<lfloor>- shift\<rfloor> else 10 ^ nat \<lfloor>shift\<rfloor>)))"

text \<open>
  Rounding: a number from one half to 1 is next to a multiple of \<open>2 ^ -53\<close>, one from 1 has 53 significant bits.  Below
  one half nothing rounds to a whole number but 0, and from \<open>2 ^ 17\<close> on nothing rounds to a port: there the
  value stands for the double next to it.
\<close>

definition as_double :: "rat \<Rightarrow> jsnum" where
  "as_double q =
     Finite (if 1 / 2 \<le> q \<and> q < 1 then of_int (round_half_even (q * 2 ^ 53)) / 2 ^ 53
             else if 1 \<le> q \<and> q < 2 ^ 17 then nearest_double q else q)"

definition radix_number :: "nat \<Rightarrow> jsstring \<Rightarrow> jsnum" where
  "radix_number base s =
     (if s = [] \<or> \<not> digits_only base s then Not_a_number else as_double (of_int (digits_number base s)))"

definition Number_of_text :: "jsstring \<Rightarrow> jsnum" where
  "Number_of_text text_value =
     (let s = trim text_value; (sgn, rest) = signed s in
      if s = [] then Finite 0
      else if take 2 s \<in> {js ''0x'', js ''0X''} then radix_number 16 (drop 2 s)
      else if take 2 s \<in> {js ''0o'', js ''0O''} then radix_number 8 (drop 2 s)
      else if take 2 s \<in> {js ''0b'', js ''0B''} then radix_number 2 (drop 2 s)
      else if rest = js ''Infinity'' then (if sgn < 0 then Neg_infinity else Pos_infinity)
      else (case unsigned_decimal rest of
              None \<Rightarrow> Not_a_number
            | Some q \<Rightarrow> if sgn < 0 then Finite (- q) else as_double q))"

end
