(* ===== verification/Presentation.thy ===== *)
theory Presentation
  imports Client Doubles
begin

section \<open>What the interface shows\<close>

text \<open>
  \<open>presentation/formatters.ts\<close>, \<open>presentation/document-title.ts\<close>, \<open>presentation/session-menu-presenter.ts\<close>,
  \<open>lib/terminal-format.ts\<close>, \<open>view/terminal-view-models.ts\<close>, \<open>app/controller/terminal-presentation.ts\<close>,
  \<open>app/controller/use-terminal-controller.ts\<close> and the transcript of
  \<open>app/composition/terminal-domain-composition.ts\<close>: the models of the three parts of the interface as functions of
  the state of the client.  Counters and times are whole numbers; a quotient of two of them is rounded to the nearest
  double, as the division of JavaScript does.
\<close>

subsection \<open>Numbers as texts\<close>

text \<open>\<open>toFixed\<close> of a number that is not negative: of two nearest decimals the larger.\<close>

definition toFixed :: "nat \<Rightarrow> rat \<Rightarrow> jsstring" where
  "toFixed precision x =
     (let digits = nat_digits (nat \<lfloor>x * 10 ^ precision + 1 / 2\<rfloor>);
          padded = replicate (precision + 1 - length digits) (CHR ''0'') @ digits;
          whole = length padded - precision
      in if precision = 0 then js digits else js (take whole padded) @ js ''.'' @ js (drop whole padded))"

definition formatLatency :: "int option \<Rightarrow> jsstring" where
  "formatLatency latency =
     (case latency of
        None \<Rightarrow> js ''-''
      | Some ms \<Rightarrow>
          if ms < 1000 then js (int_digits ms) @ js ''ms''
          else toFixed 1 (nearest_double (of_int ms / 1000)) @ js ''s'')"

text \<open>The loop that divides by 1024 is exact: a power of two only moves the exponent.\<close>

definition BYTE_UNITS :: "string list" where
  "BYTE_UNITS = [''B'', ''KiB'', ''MiB'', ''GiB'', ''TiB'']"

fun scale_bytes :: "rat \<Rightarrow> string list \<Rightarrow> rat \<times> string" where
  "scale_bytes v [] = (v, [])"
| "scale_bytes v [u] = (v, u)"
| "scale_bytes v (u # u' # us) = (if v \<ge> 1024 then scale_bytes (v / 1024) (u' # us) else (v, u))"

definition formatBytes :: "int \<Rightarrow> jsstring" where
  "formatBytes bytes =
     (let normalized = max 0 bytes
      in if normalized < 1024 then js (int_digits normalized) @ js '' B''
         else let (v, unit_name) = scale_bytes (of_int normalized) BYTE_UNITS
              in toFixed (if v < 10 then 1 else 0) v @ js '' '' @ js unit_name)"

subsection \<open>Labels\<close>

fun statusLabel :: "connection_status \<Rightarrow> jsstring" where
  "statusLabel Connecting = js ''Connecting''"
| "statusLabel Connected = js ''Connected''"
| "statusLabel Reconnecting = js ''Reconnecting''"
| "statusLabel Closed = js ''Closed''"
| "statusLabel Error = js ''Error''"

datatype latency_tone = Tone_neutral | Tone_good | Tone_warn | Tone_bad

definition latencyTone :: "connection_status \<Rightarrow> int option \<Rightarrow> latency_tone" where
  "latencyTone status latency =
     (case latency of
        None \<Rightarrow> Tone_neutral
      | Some ms \<Rightarrow>
          if status \<noteq> Connected then Tone_neutral
          else if ms \<le> 90 then Tone_good else if ms \<le> 250 then Tone_warn else Tone_bad)"

definition ageLabel :: "int \<Rightarrow> nat \<Rightarrow> jsstring" where
  "ageLabel clock timestampMs =
     (if timestampMs = 0 then js ''activity unknown''
      else let elapsed = clock - int timestampMs in
        if elapsed < 0 then js ''active recently''
        else let seconds = nat elapsed div 1000; minutes = seconds div 60; hours = minutes div 60 in
          if seconds < 60 then js (nat_digits seconds) @ js ''s ago''
          else if minutes < 60 then js (nat_digits minutes) @ js ''m ago''
          else if hours < 24 then js (nat_digits hours) @ js ''h ago''
          else js (nat_digits (hours div 24)) @ js ''d ago'')"

definition shortSessionId :: "jsstring \<Rightarrow> jsstring" where
  "shortSessionId v = (if length v \<le> 12 then v else take 8 v @ [0x2026] @ drop (length v - 4) v)"

definition sessionDisplayName :: "jsstring option \<Rightarrow> jsstring \<Rightarrow> jsstring" where
  "sessionDisplayName name i = (case name of Some n \<Rightarrow> n | None \<Rightarrow> shortSessionId i)"

text \<open>\<open>toUpperCase\<close> of a text of ASCII letters.\<close>

definition ascii_upper :: "jsstring \<Rightarrow> jsstring" where
  "ascii_upper s = map (\<lambda>u. if 97 \<le> u \<and> u \<le> 122 then u - 32 else u) s"

definition middle_dot :: jsstring where "middle_dot = [32, 0xB7, 32]"

definition buildDocumentTitle :: "attach_mode \<Rightarrow> jsstring option \<Rightarrow> connection_status \<Rightarrow> jsstring" where
  "buildDocumentTitle mode sid status =
     (let modeLabel = (if mode = Watch then js ''WATCH'' else js ''LIVE'');
          statusText = ascii_upper (statusLabel status);
          idText = (case sid of None \<Rightarrow> js ''pending'' | Some i \<Rightarrow> if i = [] then js ''pending'' else shortSessionId i)
      in modeLabel @ js '' '' @ idText @ js '' '' @ statusText @ middle_dot @ js ''WooTTY'')"

subsection \<open>The session menu\<close>

record menu_row =
  row_id :: jsstring
  row_mode :: attach_mode
  row_actionLabel :: jsstring
  row_secondaryText :: jsstring

definition presentSessionCandidate :: "session_candidate \<Rightarrow> (nat \<Rightarrow> jsstring) \<Rightarrow> menu_row" where
  "presentSessionCandidate candidate formatAgeLabel =
     (let command = (case sc_command candidate of Some c \<Rightarrow> c | None \<Rightarrow> js ''interactive shell'');
          n = sc_watchers candidate;
          watching = (if n > 0
                      then middle_dot @ js (nat_digits n) @ js '' watcher'' @ (if n = 1 then [] else js ''s'') else [])
      in \<lparr>row_id = sc_id candidate, row_mode = sc_mode candidate,
          row_actionLabel = (if sc_mode candidate = Watch then js ''Watch'' else js ''Resume''),
          row_secondaryText = command @ middle_dot @ formatAgeLabel (sc_lastActivityMs candidate) @ watching\<rparr>)"

record live_row =
  lr_id :: jsstring
  lr_mode :: attach_mode
  lr_primaryText :: jsstring
  lr_secondaryText :: jsstring
  lr_actionLabel :: jsstring

record session_menu_model =
  sm_sessionMenuOpen :: bool
  sm_terminalReady :: bool
  sm_canResumeLast :: bool
  sm_sessionNotice :: jsstring
  sm_liveRows :: "live_row list"
  sm_historyRows :: "(jsstring \<times> jsstring) list"

record status_bar_model =
  sb_controlsOpen :: bool
  sb_sessionMenuOpen :: bool
  sb_status :: connection_status
  sb_latencyTone :: latency_tone
  sb_statusText :: jsstring
  sb_latencyText :: jsstring
  sb_sessionName :: "jsstring option"
  sb_sessionDisplay :: jsstring
  sb_attachMode :: attach_mode
  sb_reconnectAttempt :: nat
  sb_queuedInputText :: jsstring
  sb_droppedInputText :: jsstring
  sb_canDownloadTranscript :: bool
  sb_outputText :: jsstring
  sb_outputBytes :: int

subsection \<open>The view models\<close>

record view_input =
  vi_controlsOpen :: bool
  vi_fontSize :: int
  vi_isFullscreen :: bool
  vi_sessionMenuOpen :: bool
  vi_lastSessionId :: "jsstring option"
  vi_sessionNotice :: jsstring
  vi_liveSessions :: "session_snapshot list"
  vi_sessionId :: "jsstring option"
  vi_sessionHistoryIds :: "jsstring list"
  vi_attachMode :: attach_mode
  vi_terminalReady :: bool
  vi_status :: connection_status
  vi_latencyMs :: "int option"
  vi_reconnectAttempt :: nat
  vi_queuedInputBytes :: int
  vi_droppedInputBytes :: int
  vi_outputBytes :: int

text \<open>An empty session id is as good as none.\<close>

definition some_text :: "jsstring option \<Rightarrow> jsstring option" where
  "some_text s = (if s = Some [] then None else s)"

definition current_session :: "jsstring option \<Rightarrow> session_snapshot list \<Rightarrow> session_snapshot option" where
  "current_session sid sessions = (case some_text sid of None \<Rightarrow> None | Some i \<Rightarrow> find (\<lambda>l. ss_id l = i) sessions)"

definition current_name :: "jsstring option \<Rightarrow> session_snapshot list \<Rightarrow> jsstring option" where
  "current_name sid sessions = (case current_session sid sessions of None \<Rightarrow> None | Some l \<Rightarrow> ss_name l)"

definition sessionMenuLiveRow :: "int \<Rightarrow> session_candidate \<Rightarrow> live_row" where
  "sessionMenuLiveRow clock candidate =
     (let row = presentSessionCandidate candidate (ageLabel clock)
      in \<lparr>lr_id = row_id row, lr_mode = row_mode row, lr_primaryText = sessionDisplayName (sc_name candidate) (row_id row),
          lr_secondaryText = row_secondaryText row, lr_actionLabel = row_actionLabel row\<rparr>)"

definition floatingControlsModel :: "view_input \<Rightarrow> bool \<times> control_state" where
  "floatingControlsModel i =
     (vi_controlsOpen i,
      \<lparr>cs_terminalReady = vi_terminalReady i, cs_fontSize = vi_fontSize i, cs_fontSizeMin = FONT_SIZE_MIN,
       cs_fontSizeMax = FONT_SIZE_MAX, cs_defaultFontSize = DEFAULT_FONT_SIZE, cs_isFullscreen = vi_isFullscreen i\<rparr>)"

definition sessionMenuModel :: "int \<Rightarrow> view_input \<Rightarrow> session_menu_model" where
  "sessionMenuModel clock i =
     (let (live, history) =
            deriveSessionCandidates (vi_liveSessions i) (vi_sessionId i) (vi_sessionHistoryIds i) (vi_lastSessionId i)
      in \<lparr>sm_sessionMenuOpen = vi_sessionMenuOpen i, sm_terminalReady = vi_terminalReady i,
          sm_canResumeLast = (vi_lastSessionId i \<noteq> None), sm_sessionNotice = vi_sessionNotice i,
          sm_liveRows = map (sessionMenuLiveRow clock) live, sm_historyRows = map (\<lambda>h. (h, shortSessionId h)) history\<rparr>)"

definition statusBarModel :: "view_input \<Rightarrow> status_bar_model" where
  "statusBarModel i =
     (let name = current_name (vi_sessionId i) (vi_liveSessions i)
      in \<lparr>sb_controlsOpen = vi_controlsOpen i, sb_sessionMenuOpen = vi_sessionMenuOpen i, sb_status = vi_status i,
          sb_latencyTone = latencyTone (vi_status i) (vi_latencyMs i), sb_statusText = statusLabel (vi_status i),
          sb_latencyText = formatLatency (vi_latencyMs i),
          sb_sessionName = (case name of Some n \<Rightarrow> Some n | None \<Rightarrow> vi_sessionId i),
          sb_sessionDisplay = (case some_text (vi_sessionId i) of None \<Rightarrow> js ''pending'' | Some sid \<Rightarrow> sessionDisplayName name sid),
          sb_attachMode = vi_attachMode i, sb_reconnectAttempt = vi_reconnectAttempt i,
          sb_queuedInputText = formatBytes (vi_queuedInputBytes i), sb_droppedInputText = formatBytes (vi_droppedInputBytes i),
          sb_canDownloadTranscript = (vi_outputBytes i > 0), sb_outputText = formatBytes (vi_outputBytes i),
          sb_outputBytes = vi_outputBytes i\<rparr>)"

definition summarizeTransportFailure :: "host \<Rightarrow> failure_context option \<Rightarrow> jsstring" where
  "summarizeTransportFailure H failure =
     (case failure of
        None \<Rightarrow> []
      | Some f \<Rightarrow>
          source_name (fc_source f) @
          (case fc_reasonCode f of None \<Rightarrow> [] | Some r \<Rightarrow> js '' reason='' @ reason_name r) @
          (case fc_code f of
             None \<Rightarrow> [] | Some (Code_string c) \<Rightarrow> js '' code='' @ c | Some (Code_number q) \<Rightarrow> js '' code='' @ number_text H q) @
          (case fc_technicalDetail f of None \<Rightarrow> [] | Some d \<Rightarrow> if d = [] then [] else js '' detail='' @ d))"

definition buildStatusAnnouncement ::
  "host \<Rightarrow> bool \<Rightarrow> connection_status \<Rightarrow> nat \<Rightarrow> failure_context option \<Rightarrow> jsstring \<Rightarrow> attach_mode \<Rightarrow> jsstring" where
  "buildStatusAnnouncement H isReady status attempt failure statusText mode =
     (let modeLabel = (if mode = Watch then js ''Read-only watch'' else js ''Control'');
          failureSummary = summarizeTransportFailure H failure;
          or_default = (\<lambda>d. if failureSummary = [] then d else failureSummary)
      in if \<not> isReady then js ''Loading terminal runtime.''
         else if status = Reconnecting then
           js ''Reconnecting. Attempt '' @ js (nat_digits attempt) @ js ''. '' @ or_default (js ''Connection issue detected.'')
         else if status = Error then js ''Connection error. '' @ or_default (js ''Unable to maintain transport.'')
         else js ''Connection status '' @ statusText @ js ''. '' @ modeLabel @ js '' mode.'')"

subsection \<open>The model of a render\<close>

text \<open>What the hooks hand over to the view models: the state of the client as it is rendered.\<close>

definition domain_input :: "bool \<Rightarrow> client \<Rightarrow> view_input" where
  "domain_input bootstrapFailure c =
     \<lparr>vi_controlsOpen = controlsOpen c, vi_fontSize = fontSize c, vi_isFullscreen = isFullscreen c,
      vi_sessionMenuOpen = sessionMenuOpen (sess c), vi_lastSessionId = lastSessionId (sess c),
      vi_sessionNotice = sessionNotice (sess c), vi_liveSessions = liveSessions (sess c), vi_sessionId = sessionId (sess c),
      vi_sessionHistoryIds = sessionHistoryIds (sess c), vi_attachMode = attachMode (sess c),
      vi_terminalReady = terminalReady (conn c), vi_status = coordinatorStatus bootstrapFailure (conn c),
      vi_latencyMs = latencyMs (tstate (conn c)), vi_reconnectAttempt = reconnectAttempt (tstate (conn c)),
      vi_queuedInputBytes = queuedInputBytes (conn c), vi_droppedInputBytes = droppedInputBytes (conn c),
      vi_outputBytes = outputBytes (conn c)\<rparr>"

record presentation_model =
  pm_statusText :: jsstring
  pm_statusAnnouncement :: jsstring
  pm_floatingControls :: "bool \<times> control_state"
  pm_sessionMenu :: session_menu_model
  pm_statusBar :: status_bar_model

definition buildTerminalPresentationModel :: "host \<Rightarrow> int \<Rightarrow> bool \<Rightarrow> client \<Rightarrow> presentation_model" where
  "buildTerminalPresentationModel H clock bootstrapFailure c =
     (let i = domain_input bootstrapFailure c; statusText = statusLabel (vi_status i)
      in \<lparr>pm_statusText = statusText,
          pm_statusAnnouncement =
            buildStatusAnnouncement H (vi_terminalReady i) (vi_status i) (vi_reconnectAttempt i)
              (lastSocketFailure (tstate (conn c))) statusText (vi_attachMode i),
          pm_floatingControls = floatingControlsModel i, pm_sessionMenu = sessionMenuModel clock i,
          pm_statusBar = statusBarModel i\<rparr>)"

record about_session =
  ab_id :: "jsstring option"
  ab_name :: "jsstring option"
  ab_command :: "jsstring option"
  ab_attachMode :: attach_mode
  ab_status :: jsstring
  ab_watchers :: nat

definition aboutSession :: "presentation_model \<Rightarrow> client \<Rightarrow> about_session" where
  "aboutSession p c =
     (let current = current_session (sessionId (sess c)) (liveSessions (sess c))
      in \<lparr>ab_id = sessionId (sess c), ab_name = (case current of None \<Rightarrow> None | Some l \<Rightarrow> ss_name l),
          ab_command = (case current of None \<Rightarrow> None | Some l \<Rightarrow> ss_command l), ab_attachMode = attachMode (sess c),
          ab_status = pm_statusText p, ab_watchers = (case current of None \<Rightarrow> 0 | Some l \<Rightarrow> ss_watchers l)\<rparr>)"

text \<open>The text over the terminal while it is not connected.\<close>

definition terminal_overlay :: "bool \<Rightarrow> connection_status \<Rightarrow> jsstring \<Rightarrow> (jsstring \<times> jsstring) option" where
  "terminal_overlay isReady status statusText =
     (if status = Connected then None
      else Some
        (if isReady then statusText else js ''Loading terminal engine'',
         if isReady
         then if status = Reconnecting then js ''Connection lost. Restoring session and replaying output.''
              else js ''Preparing terminal transport.''
         else js ''Downloading terminal runtime and preparing renderer.''))"

subsection \<open>The transcript\<close>

definition filename_unit :: "code_unit \<Rightarrow> bool" where
  "filename_unit u \<longleftrightarrow> 97 \<le> u \<and> u \<le> 122 \<or> 48 \<le> u \<and> u \<le> 57"

text \<open>The two replacements: every run of other units becomes one dash; the dashes at both ends are removed.\<close>

fun dash_runs :: "jsstring \<Rightarrow> jsstring" where
  "dash_runs [] = []"
| "dash_runs (u # us) =
     (if filename_unit u then u # dash_runs us
      else case us of
             [] \<Rightarrow> [45]
           | v # vs \<Rightarrow> if filename_unit v then 45 # dash_runs us else dash_runs us)"

definition strip_dashes :: "jsstring \<Rightarrow> jsstring" where
  "strip_dashes s = rev (dropWhile (\<lambda>u. u = 45) (rev (dropWhile (\<lambda>u. u = 45) s)))"

definition normalizeTranscriptFilenamePart :: "host \<Rightarrow> jsstring option \<Rightarrow> jsstring" where
  "normalizeTranscriptFilenamePart H v =
     (let normalized = strip_dashes (dash_runs (lower_case H (trim (case v of None \<Rightarrow> js ''terminal'' | Some t \<Rightarrow> t))))
      in if normalized = [] then js ''terminal'' else normalized)"

text \<open>\<open>isoDate\<close> is the text of \<open>toISOString\<close>.\<close>

definition buildTranscriptFilename :: "host \<Rightarrow> jsstring \<Rightarrow> jsstring option \<Rightarrow> jsstring" where
  "buildTranscriptFilename H isoDate sessionLabel =
     (let timestamp = map (\<lambda>u. if u = 58 \<or> u = 46 then 45 else u) isoDate
      in js ''wootty-'' @ normalizeTranscriptFilenamePart H sessionLabel @ js ''-'' @ timestamp @ js ''.txt'')"

text \<open>
  The label of the session, which the callback captured at the last render, and the file a click downloads, if any: its
  name and its content, read when the click is made.
\<close>

definition transcriptLabel :: "client \<Rightarrow> jsstring option" where
  "transcriptLabel c =
     (case current_name (sessionId (sess c)) (liveSessions (sess c)) of Some n \<Rightarrow> Some n | None \<Rightarrow> sessionId (sess c))"

definition downloadTranscript ::
  "host \<Rightarrow> bool \<Rightarrow> jsstring \<Rightarrow> buffer_line list option \<Rightarrow> jsstring option \<Rightarrow> (jsstring \<times> jsstring) option" where
  "downloadTranscript H canDownload isoDate buffer label =
     (let transcript = readTranscript buffer
      in if length transcript = 0 \<or> \<not> canDownload then None
         else Some (buildTranscriptFilename H isoDate label, transcript))"

end
