(* ===== verification/Components.thy ===== *)
theory Components
  imports Presentation
begin

section \<open>The parts of the interface\<close>

text \<open>
  \<open>components/SessionMenu.tsx\<close>, \<open>components/StatusBar.tsx\<close>, \<open>components/FloatingControls.tsx\<close> and
  \<open>app/TerminalApp.tsx\<close>: what a part keeps for itself, what it lists, which of its buttons are enabled and which
  action a click dispatches.  A click on a disabled button dispatches nothing.
\<close>

subsection \<open>The session menu\<close>

datatype dashboard_filter = Filter_all | Filter_control | Filter_watch | Filter_recent

definition text_includes :: "jsstring \<Rightarrow> jsstring \<Rightarrow> bool" where
  "text_includes s q \<longleftrightarrow> list_ex (\<lambda>i. take (length q) (drop i s) = q) [0..<Suc (length s)]"

definition matchesSessionSearch :: "host \<Rightarrow> jsstring \<Rightarrow> jsstring list \<Rightarrow> bool" where
  "matchesSessionSearch H query vs \<longleftrightarrow> query = [] \<or> list_ex (\<lambda>v. text_includes (lower_case H v) query) vs"

fun filter_takes :: "dashboard_filter \<Rightarrow> attach_mode \<Rightarrow> bool" where
  "filter_takes Filter_all _ = True"
| "filter_takes Filter_control m = (m = Control)"
| "filter_takes Filter_watch m = (m = Watch)"
| "filter_takes Filter_recent _ = False"

definition normalizedQuery :: "host \<Rightarrow> jsstring \<Rightarrow> jsstring" where
  "normalizedQuery H searchQuery = lower_case H (trim searchQuery)"

definition filteredLiveRows :: "host \<Rightarrow> jsstring \<Rightarrow> dashboard_filter \<Rightarrow> session_menu_model \<Rightarrow> live_row list" where
  "filteredLiveRows H searchQuery f m =
     filter (\<lambda>row. filter_takes f (lr_mode row) \<and>
       matchesSessionSearch H (normalizedQuery H searchQuery)
         [lr_id row, lr_primaryText row, lr_secondaryText row, lr_actionLabel row]) (sm_liveRows m)"

definition filteredHistoryRows ::
  "host \<Rightarrow> jsstring \<Rightarrow> dashboard_filter \<Rightarrow> session_menu_model \<Rightarrow> (jsstring \<times> jsstring) list" where
  "filteredHistoryRows H searchQuery f m =
     filter (\<lambda>(i, t). f \<in> {Filter_all, Filter_recent} \<and> matchesSessionSearch H (normalizedQuery H searchQuery) [i, t])
       (sm_historyRows m)"

definition liveCount :: "attach_mode \<Rightarrow> session_menu_model \<Rightarrow> nat" where
  "liveCount mode m = length (filter (\<lambda>row. lr_mode row = mode) (sm_liveRows m))"

datatype menu_button = New_session_button | Resume_last_button | Live_session_button nat

definition menu_click ::
  "host \<Rightarrow> jsstring \<Rightarrow> dashboard_filter \<Rightarrow> session_menu_model \<Rightarrow> menu_button \<Rightarrow> session_menu_action option" where
  "menu_click H searchQuery f m button =
     (if \<not> sm_sessionMenuOpen m then None
      else case button of
        New_session_button \<Rightarrow> if \<not> sm_terminalReady m then None else Some Start_fresh_session
      | Resume_last_button \<Rightarrow> if \<not> sm_terminalReady m \<or> \<not> sm_canResumeLast m then None else Some Resume_last_session
      | Live_session_button i \<Rightarrow>
          (let rows = filteredLiveRows H searchQuery f m
           in if i \<ge> length rows \<or> \<not> sm_terminalReady m then None
              else Some (Attach_to_session (lr_id (rows ! i)) (lr_mode (rows ! i)))))"

text \<open>The two fields of the menu and its buttons: what an event leaves in the fields, and what it dispatches.\<close>

record menu_fields =
  menuQuery :: jsstring
  menuFilter :: dashboard_filter

datatype menu_event = Search_changed jsstring | Filter_chosen dashboard_filter | Menu_clicked menu_button

definition initial_menu :: menu_fields where
  "initial_menu = \<lparr>menuQuery = [], menuFilter = Filter_all\<rparr>"

fun menu_step :: "host \<Rightarrow> session_menu_model \<Rightarrow> menu_event \<Rightarrow> menu_fields \<Rightarrow> session_menu_action option \<times> menu_fields" where
  "menu_step H m (Search_changed v) s = (None, if sm_sessionMenuOpen m then s\<lparr>menuQuery := v\<rparr> else s)"
| "menu_step H m (Filter_chosen f) s = (None, if sm_sessionMenuOpen m then s\<lparr>menuFilter := f\<rparr> else s)"
| "menu_step H m (Menu_clicked b) s = (menu_click H (menuQuery s) (menuFilter s) m b, s)"

subsection \<open>The floating controls\<close>

text \<open>The buttons stand in the order of the registry; while the controls are closed they are inert.\<close>

definition floating_click :: "control_lookup \<Rightarrow> bool \<times> control_state \<Rightarrow> nat \<Rightarrow> shortcut_action option" where
  "floating_click l m i =
     (if \<not> fst m \<or> i \<ge> length FLOATING_CONTROL_REGISTRY then None
      else let (action, testId, key) = FLOATING_CONTROL_REGISTRY ! i
           in case floatingControlPolicy l action of
                Inl _ \<Rightarrow> None
              | Inr policy \<Rightarrow> if isDisabled policy (snd m) then None else Some action)"

subsection \<open>The status bar\<close>

text \<open>
  Its own state: whether the name was copied, the timer that takes the confirmation back, and the draft of a new name.
  The clipboard answers later; its answers are events, like those of the input field.
\<close>

record status_bar =
  copyConfirmed :: bool
  copyResetTimer :: "nat option"
  copyTimers :: "unit scheduler"
  renaming :: bool
  renameDraft :: jsstring

datatype status_bar_event =
    Click_controls
  | Click_session
  | Click_rename
  | Click_copy
  | Click_download
  | Copied
  | Copy_rejected
  | Copy_timer nat
  | Bar_time nat int
  | Draft_changed jsstring
  | Key_enter
  | Key_escape
  | Blur

definition scheduleCopyFeedbackReset :: "status_bar \<Rightarrow> status_bar" where
  "scheduleCopyFeedbackReset b =
     (let sc = (case copyResetTimer b of None \<Rightarrow> copyTimers b | Some h \<Rightarrow> clearTimeout h (copyTimers b));
          (h, sc') = setTimeout () 1400 sc
      in b\<lparr>copyTimers := sc', copyResetTimer := Some h\<rparr>)"

definition nonempty :: "jsstring option \<Rightarrow> bool" where
  "nonempty s \<longleftrightarrow> (case s of None \<Rightarrow> False | Some t \<Rightarrow> t \<noteq> [])"

definition startRenaming :: "status_bar_model \<Rightarrow> status_bar \<Rightarrow> status_bar" where
  "startRenaming m b =
     (if \<not> nonempty (sb_sessionName m) \<or> sb_attachMode m = Watch then b
      else b\<lparr>renameDraft := sb_sessionDisplay m, renaming := True\<rparr>)"

definition commitRename :: "status_bar \<Rightarrow> status_bar_action option \<times> status_bar" where
  "commitRename b =
     (let trimmed = trim (renameDraft b)
      in (if length trimmed > 0 then Some (Rename_session trimmed) else None, b\<lparr>renaming := False\<rparr>))"

text \<open>An event of the bar under the model it was rendered with; the second button of a session is hidden by the input field.\<close>

fun status_bar_step :: "status_bar_model \<Rightarrow> status_bar_event \<Rightarrow> status_bar \<Rightarrow> status_bar_action option \<times> status_bar" where
  "status_bar_step m Click_controls b = (Some Bar_toggle_controls, b)"
| "status_bar_step m Click_session b = (if renaming b then None else Some Toggle_session_menu, b)"
| "status_bar_step m Click_rename b =
     (None, if renaming b \<or> \<not> nonempty (sb_sessionName m) \<or> sb_attachMode m = Watch then b else startRenaming m b)"
| "status_bar_step m Click_copy b = (None, b)"
| "status_bar_step m Click_download b = (if sb_canDownloadTranscript m then Some Download_transcript else None, b)"
| "status_bar_step m Copied b = (None, scheduleCopyFeedbackReset (b\<lparr>copyConfirmed := True\<rparr>))"
| "status_bar_step m Copy_rejected b = (None, b\<lparr>copyConfirmed := False\<rparr>)"
| "status_bar_step m (Copy_timer h) b =
     (case fire h (copyTimers b) of
        None \<Rightarrow> (None, b)
      | Some (_, sc) \<Rightarrow> (None, b\<lparr>copyTimers := sc, copyConfirmed := False, copyResetTimer := None\<rparr>))"
| "status_bar_step m (Bar_time d clock) b = (None, b\<lparr>copyTimers := pass_time d clock (copyTimers b)\<rparr>)"
| "status_bar_step m (Draft_changed v) b = (None, if renaming b then b\<lparr>renameDraft := v\<rparr> else b)"
| "status_bar_step m Key_enter b = (if renaming b then commitRename b else (None, b))"
| "status_bar_step m Key_escape b = (None, if renaming b then b\<lparr>renaming := False\<rparr> else b)"
| "status_bar_step m Blur b = (None, if renaming b then b\<lparr>renaming := False\<rparr> else b)"

text \<open>The clean-up when the bar is unmounted.\<close>

definition unmountStatusBar :: "status_bar \<Rightarrow> status_bar" where
  "unmountStatusBar b =
     (case copyResetTimer b of None \<Rightarrow> b | Some h \<Rightarrow> b\<lparr>copyTimers := clearTimeout h (copyTimers b)\<rparr>)"

definition initial_status_bar :: "int \<Rightarrow> status_bar" where
  "initial_status_bar clock =
     \<lparr>copyConfirmed = False, copyResetTimer = None, copyTimers = new_scheduler clock, renaming = False, renameDraft = []\<rparr>"

text \<open>The text written to the clipboard by a click on the copy button, if any.\<close>

definition copyCurrentSessionName :: "bool \<Rightarrow> status_bar_model \<Rightarrow> jsstring option" where
  "copyCurrentSessionName hasClipboard m =
     (if \<not> nonempty (sb_sessionName m) \<or> \<not> hasClipboard then None else sb_sessionName m)"

text \<open>The bar over a run of events, each under a model of its own: the actions it dispatches, in order.\<close>

fun status_bar_run ::
  "(status_bar_model \<times> status_bar_event) list \<Rightarrow> status_bar \<Rightarrow> status_bar_action list \<times> status_bar" where
  "status_bar_run [] b = ([], b)"
| "status_bar_run ((m, e) # es) b =
     (let (action, b1) = status_bar_step m e b; (actions, b2) = status_bar_run es b1
      in ((case action of None \<Rightarrow> [] | Some a \<Rightarrow> [a]) @ actions, b2))"

subsection \<open>Authentication before the terminal\<close>

text \<open>
  Environments are objects, named here by numbers: \<open>hasAuth\<close> says which of them have \<open>bootstrapAuth\<close>.  Each run
  of the effect starts one authentication, whose answer is an event; \<open>active\<close> holds the run whose clean-up has
  not been executed.
\<close>

datatype auth_status = Auth_pending | Auth_ready | Auth_error

record auth_bootstrap_state =
  ab_authStatus :: auth_status
  ab_message :: jsstring
  ab_environment :: nat

record terminal_app =
  effectiveEnvironment :: nat
  authBootstrapState :: auth_bootstrap_state
  authRuns :: "(nat, nat) map"
  activeRun :: "nat option"
  nextRun :: nat

datatype app_event = App_environment nat | Auth_resolved nat | Auth_rejected nat jsval

definition establishing :: jsstring where
  "establishing = js ''Establishing terminal authentication''"

definition auth_effect :: "(nat \<Rightarrow> bool) \<Rightarrow> terminal_app \<Rightarrow> terminal_app" where
  "auth_effect hasAuth a =
     (if \<not> hasAuth (effectiveEnvironment a) then a\<lparr>activeRun := None\<rparr>
      else a\<lparr>authRuns := (authRuns a)(nextRun a \<mapsto> effectiveEnvironment a), activeRun := Some (nextRun a),
             nextRun := Suc (nextRun a)\<rparr>)"

definition mount_app :: "(nat \<Rightarrow> bool) \<Rightarrow> nat \<Rightarrow> terminal_app" where
  "mount_app hasAuth env =
     auth_effect hasAuth
       \<lparr>effectiveEnvironment = env,
        authBootstrapState =
          (if hasAuth env then \<lparr>ab_authStatus = Auth_pending, ab_message = establishing, ab_environment = env\<rparr>
           else \<lparr>ab_authStatus = Auth_ready, ab_message = [], ab_environment = env\<rparr>),
        authRuns = Map.empty, activeRun = None, nextRun = 0\<rparr>"

definition auth_error_message :: "jsval \<Rightarrow> jsstring" where
  "auth_error_message e =
     (case e of J_error m \<Rightarrow> if length m > 0 then m else js ''Unable to establish terminal authentication''
      | _ \<Rightarrow> js ''Unable to establish terminal authentication'')"

text \<open>An answer settles its run once; it is dropped when the run is not the active one.\<close>

definition settle_auth :: "nat \<Rightarrow> (nat \<Rightarrow> auth_bootstrap_state) \<Rightarrow> terminal_app \<Rightarrow> terminal_app" where
  "settle_auth k result a =
     (case authRuns a k of
        None \<Rightarrow> a
      | Some env \<Rightarrow>
          (let a1 = a\<lparr>authRuns := (authRuns a)(k := None)\<rparr>
           in if activeRun a \<noteq> Some k then a1 else a1\<lparr>authBootstrapState := result env\<rparr>))"

fun app_step :: "(nat \<Rightarrow> bool) \<Rightarrow> app_event \<Rightarrow> terminal_app \<Rightarrow> terminal_app" where
  "app_step hasAuth (App_environment env) a =
     (if env = effectiveEnvironment a then a else auth_effect hasAuth (a\<lparr>effectiveEnvironment := env\<rparr>))"
| "app_step hasAuth (Auth_resolved k) a =
     settle_auth k (\<lambda>env. \<lparr>ab_authStatus = Auth_ready, ab_message = [], ab_environment = env\<rparr>) a"
| "app_step hasAuth (Auth_rejected k e) a =
     settle_auth k (\<lambda>env. \<lparr>ab_authStatus = Auth_error, ab_message = auth_error_message e, ab_environment = env\<rparr>) a"

datatype app_view = Bootstrap_message jsstring | Terminal_shell nat

definition app_view :: "(nat \<Rightarrow> bool) \<Rightarrow> terminal_app \<Rightarrow> app_view" where
  "app_view hasAuth a =
     (let env = effectiveEnvironment a; st = authBootstrapState a
      in if hasAuth env \<and> ab_environment st \<noteq> env then Bootstrap_message establishing
         else if hasAuth env \<and> ab_authStatus st \<noteq> Auth_ready then Bootstrap_message (ab_message st)
         else Terminal_shell env)"

end
