(* ===== verification/Client_Frame.thy ===== *)
theory Client_Frame
  imports Client
begin

section \<open>Invariants of the client\<close>

text \<open>
  The interface between the client and what is shown of it: a predicate that survives the operations of the two halves
  (\<open>connection_op\<close>, \<open>session_op\<close>), a render, the switches, a font size in its range and the full screen timer
  survives every step but an unmount, and every step when it survives the unmounting of the session layer too.  Each
  invariant of the client is an interpretation.
\<close>

definition connection_op :: "host \<Rightarrow> (coordinator \<Rightarrow> coordinator) \<Rightarrow> bool" where
  "connection_op H f \<longleftrightarrow>
     (\<exists>fit rv e. f = coordinator_run_step H fit rv e) \<or> (\<exists>ev. f = dispatchStatusEvent ev)"

definition session_op :: "host \<Rightarrow> (session_layer \<Rightarrow> session_layer) \<Rightarrow> bool" where
  "session_op H g \<longleftrightarrow>
     (\<exists>e. g = session_run_step H e) \<or> (\<exists>n. g = storeFontSize H n) \<or>
     (\<exists>f. g = (\<lambda>s. s\<lparr>sessionMenuOpen := f (sessionMenuOpen s)\<rparr>))"

lemma connection_ops [simp]:
  "connection_op H (coordinator_run_step H fit rv e)" "connection_op H (dispatchStatusEvent ev)"
  "connection_op H dispose" "connection_op H (updateRuntime u ctx)" "connection_op H (connectEffect H rv enabled)"
  "connection_op H (endpointEffect H rv enabled u)" "connection_op H resetRuntimeBuffers" "connection_op H clearTerminal"
  "connection_op H cleanupRuntime" "connection_op H (coordinatorReconnectNow H rv)"
  "connection_op H (coordinatorFreshConnection H rv)" "connection_op H (\<lambda>s. snd (sendNow H p s))"
proof -
  have op: "connection_op H f" if "\<And>s. f s = coordinator_run_step H fit rv e s" for f fit rv e
    unfolding connection_op_def using that by (intro disjI1 exI [of _ fit] exI [of _ rv] exI [of _ e] ext)
  show "connection_op H (coordinator_run_step H fit rv e)" "connection_op H (dispatchStatusEvent ev)"
    unfolding connection_op_def by blast+
  show "connection_op H dispose" by (rule op [where e = "Transport_step Dispose_service"]) simp
  show "connection_op H (updateRuntime u ctx)" by (rule op [where e = "Transport_step (Update_runtime u ctx)"]) simp
  show "connection_op H (connectEffect H rv enabled)" by (rule op [where e = "Connect_effect enabled"]) simp
  show "connection_op H (endpointEffect H rv enabled u)" by (rule op [where e = "Endpoint_effect enabled u"]) simp
  show "connection_op H resetRuntimeBuffers" by (rule op [where e = Reset_buffers]) simp
  show "connection_op H clearTerminal" by (rule op [where e = Clear_screen]) simp
  show "connection_op H cleanupRuntime" by (rule op [where e = Runtime_cleanup]) simp
  show "connection_op H (coordinatorReconnectNow H rv)" by (rule op [where e = User_reconnect]) simp
  show "connection_op H (coordinatorFreshConnection H rv)" by (rule op [where e = User_fresh_session]) simp
  show "connection_op H (\<lambda>s. snd (sendNow H p s))"
    by (rule op [where e = "Transport_step (Send p)"]) (simp add: sendNow_def transportHandlers_def)
qed

lemma session_ops [simp]:
  "session_op H (session_run_step H e)" "session_op H (storeFontSize H n)"
  "session_op H (transitionSessionContext H sido m)" "session_op H (publishNoticeDetails H d)" "session_op H (poll_effect w)"
  "session_op H (\<lambda>s. snd (requestTransportRefresh s))" "session_op H (\<lambda>s. s\<lparr>sessionMenuOpen := b\<rparr>)"
  "session_op H (\<lambda>s. s\<lparr>sessionMenuOpen := \<not> sessionMenuOpen s\<rparr>)"
proof -
  have op: "session_op H g" if "\<And>s. g s = session_run_step H e s" for g e
    unfolding session_op_def using that by (intro disjI1 exI [of _ e] ext)
  show "session_op H (session_run_step H e)" "session_op H (storeFontSize H n)" unfolding session_op_def by blast+
  show "session_op H (transitionSessionContext H sido m)" by (rule op [where e = "Session_transition sido m"]) simp
  show "session_op H (publishNoticeDetails H d)" by (rule op [where e = "Session_notice d"]) simp
  show "session_op H (poll_effect w)" by (rule op [where e = "Session_poll_effect w"]) simp
  show "session_op H (\<lambda>s. snd (requestTransportRefresh s))" by (rule op [where e = Session_transport_refresh]) simp
  show "session_op H (\<lambda>s. s\<lparr>sessionMenuOpen := b\<rparr>)" by (rule op [where e = "session_step.Session_menu b"]) simp
  show "session_op H (\<lambda>s. s\<lparr>sessionMenuOpen := \<not> sessionMenuOpen s\<rparr>)"
    unfolding session_op_def by (intro disjI2 exI [of _ Not] refl)
qed

text \<open>A command is one of the handlers or nothing.\<close>

lemma run_command_cases:
  obtains "runCommand H fit command c = c"
  | "runCommand H fit command c = runtimeCommandHandlers H command c"
  | "runCommand H fit command c = viewportCommandHandlers H fit command c"
  by (cases "command = Reconnect_command \<or> command = Clear_command") (auto simp: runCommand_def manifest_built manifest_dispatch)

lemma key_down_cases:
  obtains "keyDown H fit w ev c = c" | command where "keyDown H fit w ev c = runCommand H fit command c"
proof (cases "connectDeps c \<notin> {Some (True, False), Some (True, True)} \<or> \<not> w")
  case False
  show thesis
  proof (cases "buildCommandRegistry COMMAND_MANIFEST")
    case (Inr r)
    then show thesis using False that by (cases "keyHandler r ev") (simp_all add: keyDown_def)
  qed (use False that in \<open>simp add: keyDown_def\<close>)
qed (use that in \<open>simp add: keyDown_def\<close>)

subsection \<open>The locale\<close>

locale client_invariant =
  fixes H :: host and P :: "client \<Rightarrow> bool"
  assumes connection: "connection_op H f \<Longrightarrow> P c \<Longrightarrow> P (on_connection H f c)"
    and session: "session_op H g \<Longrightarrow> P c \<Longrightarrow> P (on_session g c)"
    and render: "P c \<Longrightarrow> P (c\<lparr>view := v, shownLastSessionId := l, connectDeps := d, statusDep := st, menuDep := m\<rparr>)"
    and issue: "P c \<Longrightarrow> P (c\<lparr>lastBootstrapIssue := li\<rparr>)"
    and controls: "P c \<Longrightarrow> P (c\<lparr>controlsOpen := b\<rparr>)"
    and help_switch: "P c \<Longrightarrow> P (c\<lparr>helpOpen := b\<rparr>)"
    and font: "P c \<Longrightarrow> font_ok n \<Longrightarrow> P (c\<lparr>fontSizeRef := n, fontSize := n\<rparr>)"
    and cancel_timer: "P c \<Longrightarrow> P (cancelFullscreenTimer c)"
    and fullscreen: "P c \<Longrightarrow> P (onFullscreenChange H fit w b c)"
    and timer: "P c \<Longrightarrow> P (fireUiTimer H fit h c)"
    and passing: "P c \<Longrightarrow> P (c\<lparr>uiTimers := pass_time days clock (uiTimers c)\<rparr>)"
begin

lemmas kept = connection session render issue controls help_switch font cancel_timer fullscreen timer

lemma kept_menu: "P c \<Longrightarrow> P (dispatchSessionMenu H a c)"
  by (cases a) (simp_all add: startFreshSession_def attachToSession_def resumePreviousSession_def kept split: option.split)

lemma kept_font: "P c \<Longrightarrow> P (applyFontSize H fit n c)"
  by (simp add: applyFontSize_def Let_def kept del: coordinator_run_step.simps)

lemma kept_handlers:
  assumes "P c"
  shows "P (runtimeCommandHandlers H k c)" "P (viewportCommandHandlers H fit k c)"
  using assms by (cases k; simp add: kept kept_font)+

lemma kept_command: "P c \<Longrightarrow> P (runCommand H fit k c)"
  by (cases rule: run_command_cases [of H fit k c]) (simp_all add: kept_handlers)

lemma kept_key: "P c \<Longrightarrow> P (keyDown H fit w ev c)"
  by (cases rule: key_down_cases [of H fit w ev c]) (simp_all add: kept_command)

lemma kept_status_bar: "P c \<Longrightarrow> P (dispatchStatusBar H fit a c)"
  by (cases a) (simp_all add: kept)

lemma kept_commit: "P c \<Longrightarrow> P (commit H w r c)"
  by (simp add: commit_def backendNoticeEffect_def Let_def kept split: sum.split)

theorem kept_step: "P c \<Longrightarrow> e \<noteq> Unmount \<Longrightarrow> P (client_run_step H fit w e c)"
proof (cases e)
  case (Time d clock)
  assume "P c"
  define c' where "c' = on_session (session_run_step H (Session_time d clock))
    (on_connection H (coordinator_run_step H fit (view c) (Transport_step (Pass_time d clock))) c)"
  have "uiTimers c' = uiTimers c" by (simp add: c'_def on_session_def on_connection_def Let_def)
  moreover have "P c'" unfolding c'_def using \<open>P c\<close> by (intro session connection) simp_all
  ultimately show ?thesis unfolding Time client_run_step.simps c'_def [symmetric] using passing [of c' d clock] by simp
qed (simp_all add: kept kept_menu kept_command kept_key kept_status_bar kept_commit
    del: coordinator_run_step.simps session_run_step.simps dispatchSessionMenu.simps dispatchStatusBar.simps)

lemma kept_run: "P c \<Longrightarrow> Unmount \<notin> set es \<Longrightarrow> P (client_run H fit w es c)"
  by (induction es arbitrary: c) (auto simp: client_run_def kept_step simp del: client_run_step.simps)

end

text \<open>Invariants that an unmount keeps as well.\<close>

locale client_lifetime_invariant = client_invariant +
  assumes unmount: "P c \<Longrightarrow> P (on_session unmount_session c)"
    and forget: "P c \<Longrightarrow> P (c\<lparr>connectDeps := None\<rparr>)"
begin

theorem always_step: "P c \<Longrightarrow> P (client_run_step H fit w e c)"
  by (cases "e = Unmount") (simp_all add: kept_step unmountClient_def Let_def kept unmount forget)

theorem always_run: "P c \<Longrightarrow> P (client_run H fit w es c)"
  by (induction es arbitrary: c) (auto simp: client_run_def always_step simp del: client_run_step.simps)

end

end
