(* ===== verification/Client_Laws.thy ===== *)
theory Client_Laws
  imports Client_Frame
begin

section \<open>What the steps of the client keep\<close>

text \<open>
  The identity of the session layer (session id and attach mode) changes only through the calls of the
  coordinator that say so and through the session menu; the calls of every other handler are harmless.  With these
  two frames the invariants of the halves carry over to the whole client.
\<close>

subsection \<open>Operations that keep the identity\<close>

definition who :: "'a session_layer_scheme \<Rightarrow> jsstring option \<times> attach_mode" where
  "who s = (sessionId s, attachMode s)"

lemmas notice_defs = publishSessionNotice_def publishNoticeDetails_def publishThrottledSessionNotice_def
  notifyWithFailureThrottle_def reportStorageFailure_def reportFailure_def resolveStorageAccess_def
  notice_expired_def initial_notice_expired_def publishRefreshFailure_def onRefreshSuccess_def onInvalidEntries_def

lemma who_notices [simp]:
  "who (publishSessionNotice m s) = who s"
  "who (publishNoticeDetails H d s) = who s"
  "who (publishRefreshFailure H f s) = who s"
  "who (onRefreshSuccess ss s) = who s"
  "who (onInvalidEntries H n s) = who s"
  "who (reportStorageFailure H sf s) = who s"
  "who (reportFailure H osf s) = who s"
  "who (notice_expired s) = who s" "who (initial_notice_expired s) = who s"
  by (simp_all add: who_def notice_defs Let_def case_prod_beta split: option.split)

lemma who_fields [simp]:
  "who (s\<lparr>timers := a\<rparr>) = who s" "who (s\<lparr>requests := b\<rparr>) = who s" "who (s\<lparr>activeRefreshController := d\<rparr>) = who s"
  "who (s\<lparr>pendingRefresh := e\<rparr>) = who s" "who (s\<lparr>polls := f\<rparr>) = who s" "who (s\<lparr>currentPoll := g\<rparr>) = who s"
  "who (s\<lparr>sessionMenuOpen := b2\<rparr>) = who s" "who (s\<lparr>lastTransportRefreshAt := h\<rparr>) = who s"
  "who (s\<lparr>localAccess := la\<rparr>) = who s" "who (s\<lparr>localAccess := la, sessionAccess := sa\<rparr>) = who s"
  "who (s\<lparr>timers := a, pendingTransportRefreshTimer := p\<rparr>) = who s"
  "who (s\<lparr>pendingTransportRefreshTimer := p\<rparr>) = who s"
  "who (s\<lparr>polls := f, currentPoll := g, nextPoll := n\<rparr>) = who s"
  by (simp_all add: who_def)

lemma who_requests [simp]:
  "who (on_request r q s) = who s" "who (abort_controller r s) = who s" "who (settle_fetch r out s) = who s"
  "who (answer r res s) = who s" "who (outer_abort r s) = who s" "who (refresh_timed_out r s) = who s"
  by (simp_all add: who_def on_request_def abort_controller_def settle_fetch_def answer_def outer_abort_def
      refresh_timed_out_def split: option.split)

lemma who_refresh [simp]:
  "who (snd (launch_request sig s)) = who s"
  "who (snd (requestSessionRefresh tr sig s)) = who s"
  "who (fail_with H r f s) = who s"
  "who (consume_payload H r payload s) = who s"
proof -
  show l: "who (snd (launch_request sig t)) = who t" for t :: "'a session_layer_scheme"
    by (simp add: who_def launch_request_def abort_controller_def on_request_def Let_def case_prod_beta split: option.split)
  show "who (snd (requestSessionRefresh tr sig s)) = who s"
    by (simp add: requestSessionRefresh_def l Let_def)
  show "who (fail_with H r f s) = who s" by (simp add: fail_with_def)
  show "who (consume_payload H r payload s) = who s"
    by (simp add: consume_payload_def Let_def split: sum.split prod.split)
qed

lemma who_resume [simp]: "who (resume_refresh H r s) = who s"
  by (auto simp: resume_refresh_def split: option.split refresh_phase.split race_outcome.split sum.split)

lemma who_finish [simp]: "who (finish_refresh r s) = who s"
  by (simp add: finish_refresh_def Let_def split: option.split refresh_phase.split)

lemma who_transport_refresh [simp]:
  "who (scheduleTrailingTransportRefresh t s) = who s"
  "who (snd (requestTransportRefresh s)) = who s"
  "who (trailing_refresh s) = who s"
proof -
  show t: "who (scheduleTrailingTransportRefresh t s) = who s" for t
    by (simp add: scheduleTrailingTransportRefresh_def Let_def case_prod_beta split: option.split)
  show "who (snd (requestTransportRefresh s)) = who s" by (simp add: requestTransportRefresh_def Let_def t)
  show "who (trailing_refresh s) = who s" by (simp add: trailing_refresh_def who_def requestSessionRefresh_def Let_def
     launch_request_def abort_controller_def on_request_def case_prod_beta split: option.split)
qed

lemma who_poll [simp]:
  "who (on_poll i f s) = who s"
  "who (arm_poll_timer i task d s) = who s"
  "who (scheduleNext i p s) = who s"
  "who (scheduleBootstrapRecoveryRetry i p s) = who s"
  "who (onRefreshCircuitOpen H n s) = who s"
  "who (openCircuitBreaker H i p s) = who s"
proof -
  show on: "who (on_poll i f t) = who t" for f and t :: "'a session_layer_scheme"
    by (simp add: on_poll_def split: option.split)
  show arm: "who (arm_poll_timer i task d t) = who t" for task d and t :: "'a session_layer_scheme"
    by (simp add: arm_poll_timer_def on case_prod_beta)
  show "who (scheduleNext i p s) = who s" by (simp add: scheduleNext_def arm)
  show "who (scheduleBootstrapRecoveryRetry i p s) = who s" by (simp add: scheduleBootstrapRecoveryRetry_def arm)
  show n: "who (onRefreshCircuitOpen H n t) = who t" for n and t :: "'a session_layer_scheme"
    by (simp add: onRefreshCircuitOpen_def)
  show "who (openCircuitBreaker H i p s) = who s" by (simp add: openCircuitBreaker_def arm on n)
qed

lemma who_loop [simp]:
  "who (runRefreshLoop i s) = who s"
  "who (poll_result H i res s) = who s"
  "who (poll_then H i s) = who s"
  "who (poll_finally i s) = who s"
  "who (poll_timer_fired task i s) = who s"
  "who (start_polling s) = who s"
  "who (stop_polling s) = who s"
  "who (poll_effect w s) = who s"
proof -
  show run: "who (runRefreshLoop i t) = who t" for i and t :: "'a session_layer_scheme"
    by (simp add: runRefreshLoop_def case_prod_beta split: option.split)
  show res: "who (poll_result H i res t) = who t" for res and t :: "'a session_layer_scheme"
    by (simp add: poll_result_def Let_def split: option.split polling_result.split)
  show "who (poll_then H i s) = who s"
    by (simp add: poll_then_def res split: option.split poll_flight.split)
  show "who (poll_finally i s) = who s" by (simp add: poll_finally_def Let_def split: option.split)
  show "who (poll_timer_fired task i s) = who s"
    by (simp add: poll_timer_fired_def run Let_def split: option.split session_task.split)
  show start: "who (start_polling t) = who t" for t :: "'a session_layer_scheme" by (simp add: start_polling_def run Let_def)
  show stop: "who (stop_polling t) = who t" for t :: "'a session_layer_scheme"
    by (simp add: stop_polling_def abortActiveRefresh_def Let_def split: option.split refresh_ticket.split)
  show "who (poll_effect w s) = who s" by (simp add: poll_effect_def start stop Let_def)
qed

lemma who_timer [simp]: "who (fire_session_timer h s) = who s"
  by (simp add: fire_session_timer_def run_session_task_def split: option.split session_task.split)

lemma who_session_event: "session_event e \<Longrightarrow> who (session_run_step H e s) = who s"
  by (cases e) simp_all

lemma who_store_font [simp]: "who (storeFontSize H n s) = who s"
  by (simp add: storeFontSize_def resolveStorageAccess_def set_local_def case_prod_beta Let_def split: option.split)

lemma who_unmount [simp]: "who (unmount_session s) = who s"
  by (simp add: unmount_session_def clear_trailing_refresh_def unmount_refresh_def unmount_notice_def clear_notice_timer_def
      Let_def split: option.split) (simp add: who_def)

subsection \<open>Calls of the coordinator\<close>

text \<open>A message that may change the identity: a session is ready, or an error whose policy clears or degrades it.\<close>

definition identity_message :: "host \<Rightarrow> message_event \<Rightarrow> bool" where
  "identity_message H ev \<longleftrightarrow>
     truthy (me_malformed ev) = None \<and> me_data ev \<noteq> [] \<and>
     (case parseServerMessageWithReason (json_parse H) (J_str (me_data ev)) of
        Inr (Ready _ _) \<Rightarrow> True
      | Inr (Server_error _ code rawCode) \<Rightarrow> code = Some Session_not_found \<or> code = Some Attach_forbidden
      | _ \<Rightarrow> False)"

fun harmless :: "session_call \<Rightarrow> bool" where
  "harmless (Publish_notice _) = True"
| "harmless Request_transport_refresh = True"
| "harmless _ = False"

definition quietly :: "'a coordinator_scheme \<Rightarrow> bool" where
  "quietly s \<longleftrightarrow> list_all harmless (session_calls s)"

lemma quietly_same: "session_calls t = session_calls s \<Longrightarrow> quietly t = quietly s"
  by (simp add: quietly_def)

lemma quietly_ops [simp]:
  "quietly (publishNotice n s) = quietly s" "quietly (dispatchStatusEvent e s) = quietly s"
  "quietly (setStatusFlag f s) = quietly s" "quietly (on_term g s) = quietly s"
  "quietly (reportSocketFailure tf s) = quietly s" "quietly (lc_markPong s) = quietly s"
  "quietly (resetQueuedBuffers s) = quietly s" "quietly (show_outbox s) = quietly s"
  "quietly (s\<lparr>termRef := tr\<rparr>) = quietly s" "quietly (s\<lparr>pendingResize := pr\<rparr>) = quietly s"
  "quietly (s\<lparr>outbox := ob\<rparr>) = quietly s" "quietly (s\<lparr>runtimeFitSize := fs\<rparr>) = quietly s"
  "quietly (s\<lparr>outputBytes := nb\<rparr>) = quietly s" "quietly (s\<lparr>terminalReady := b\<rparr>) = quietly s"
  "quietly (s\<lparr>previousWsUrl := u\<rparr>) = quietly s" "quietly (s\<lparr>termRef := tr, terminalReady := b\<rparr>) = quietly s"
  "quietly (s\<lparr>outbox := ob, queuedInputBytes := q, droppedInputBytes := d\<rparr>) = quietly s"
  "quietly (updateRuntime u2 ctx s) = quietly s"
  "quietly (call_session Request_transport_refresh s) = quietly s"
  by (simp_all add: quietly_def publishNotice_def call_session_def dispatchStatusEvent_def setStatusFlag_def on_term_def
      reportSocketFailure_def lc_markPong_def rel_markPong_def markPong_eq resetQueuedBuffers_def show_outbox_def updateRuntime_def)

lemma quietly_send: "quietly s \<Longrightarrow> quietly (snd (sendNow H p s))"
  by (simp add: quietly_def sendNow_def sendPayload_def reportSendFailure_def report_def notifyWithFailureThrottle_def
      reportSocketFailure_def publishNotice_def call_session_def dispatchEvent_def Let_def split: option.split prod.split)

lemma quietly_sent: "sendNow H p s = (ok, t) \<Longrightarrow> quietly s \<Longrightarrow> quietly t"
  using quietly_send [of s H p] by simp

lemma quietly_open: "quietly s \<Longrightarrow> quietly (onOpen H rv s)"
  by (auto simp: onOpen_def Let_def split: prod.split dest!: quietly_sent)

interpretation quiet: owner_frame H "transportHandlers H rv" "quietly :: 'a coordinator_scheme \<Rightarrow> bool" for H rv
proof unfold_locales
  fix s t :: "'a coordinator_scheme" and f
  show "lifecycle.more s = lifecycle.more t \<Longrightarrow> quietly s = quietly t"
    by (rule quietly_same) (cases s; cases t; simp)
  show "quietly s \<Longrightarrow> quietly (h_failure (transportHandlers H rv) f s)" by (simp add: transportHandlers_def)
  show "quietly s \<Longrightarrow> quietly (h_open (transportHandlers H rv) s)" by (simp add: transportHandlers_def quietly_open)
qed

lemma quietly_message:
  assumes "\<not> identity_message H ev" "quietly s"
  shows "quietly (onMessage H rv ev s)"
proof (cases "truthy (me_malformed ev)")
  case None
  show ?thesis
  proof (cases "me_data ev = []")
    case False
    have fail: "quietly (onProtocolFailure f s)" for f
      using assms(2) by (simp add: onProtocolFailure_def Let_def)
    have err: "quietly (handleServerError m code raw s)" if "code \<noteq> Some Session_not_found" "code \<noteq> Some Attach_forbidden" for m code raw
      using assms(2) that server_error_policy_table [of code raw]
      by (auto simp: handleServerError_def writeServerError_def Let_def split: option.split)
    show ?thesis using assms None False
      by (auto simp: onMessage_def handleSocketMessage_def handleIncomingServerMessage_def identity_message_def
          fail err writeOutputAndTrackBytes_def writeOutput_def writeExit_def split: sum.splits server_message.splits option.splits)
  qed (use assms None in \<open>simp add: onMessage_def handleSocketMessage_def handleIncomingServerMessage_def\<close>)
qed (use assms in \<open>simp add: onMessage_def\<close>)

fun quiet_transport :: "host \<Rightarrow> transport_step \<Rightarrow> bool" where
  "quiet_transport H (Socket_message k ev) = (\<not> identity_message H ev)"
| "quiet_transport H _ = True"

lemma quietly_transport:
  "quiet_transport H e \<Longrightarrow> quietly s \<Longrightarrow> quietly (transport_run_step H (transportHandlers H rv) e s)"
  by (rule quiet.keeps_step_if) (auto simp: transportHandlers_def quietly_message)

lemma quietly_flush: "quietly s \<Longrightarrow> quietly (snd (flush_input (sendNow H) s))"
proof -
  obtain n ob t where f: "flushOutbox (\<lambda>t chunk. sendNow H (createInputMessage chunk) t) (outbox s) s = (n, ob, t)"
    by (metis prod_cases3)
  have "quietly s \<longrightarrow> quietly t"
    by (rule flush_frame [where R = "\<lambda>s t. quietly s \<longrightarrow> quietly t", OF _ _ _ f]) (auto simp: quietly_send)
  then show "quietly s \<Longrightarrow> ?thesis" using f by (simp add: flush_input_def)
qed

lemma quietly_key: "quietly s \<Longrightarrow> quietly (handleRuntimeInput m (sendNow H) d s)"
  using quietly_flush [of s H]
  by (auto simp: handleRuntimeInput_def Let_def quietly_send split: prod.split dest!: quietly_sent)

lemma quietly_fit: "quietly s \<Longrightarrow> quietly (fitAndSyncSize fit m (sendNow H) s)"
  by (auto simp: fitAndSyncSize_def fitRuntimeAndSyncSize_def sendResize_def Let_def split: option.split prod.split dest!: quietly_sent)

fun quiet_connection :: "host \<Rightarrow> coordinator_step \<Rightarrow> bool" where
  "quiet_connection H (Transport_step e) = quiet_transport H e"
| "quiet_connection H _ = True"

lemma quietly_commands:
  "quietly s \<Longrightarrow> quietly (coordinatorReconnectNow H rv s)"
  "quietly s \<Longrightarrow> quietly (coordinatorFreshConnection H rv s)"
  "quietly s \<Longrightarrow> quietly (connectEffect H rv enabled s)"
  "quietly s \<Longrightarrow> quietly (endpointEffect H rv enabled u s)"
  "quietly s \<Longrightarrow> quietly (resetRuntimeBuffers s)"
proof -
  assume q: "quietly s"
  have cmd: "quietly t \<Longrightarrow> quietly (reconnectNow H (transportHandlers H rv) t)"
    "quietly t \<Longrightarrow> quietly (scheduleFreshConnection H (transportHandlers H rv) t)"
    "quietly t \<Longrightarrow> quietly (connect H (transportHandlers H rv) t)"
    "quietly t \<Longrightarrow> quietly (reconnectWithEndpointChange H (transportHandlers H rv) t)" for t :: "'a coordinator_scheme"
    using quietly_transport [of H Reconnect_now t rv] quietly_transport [of H Start_fresh t rv]
      quietly_transport [of H Connect t rv] quietly_transport [of H Endpoint_changed t rv] by simp_all
  show "quietly (coordinatorReconnectNow H rv s)" "quietly (coordinatorFreshConnection H rv s)"
    "quietly (connectEffect H rv enabled s)" "quietly (endpointEffect H rv enabled u s)" "quietly (resetRuntimeBuffers s)"
    using q by (simp_all add: coordinatorReconnectNow_def coordinatorFreshConnection_def connectEffect_def endpointEffect_def
        resetRuntimeBuffers_def resetTerminal_def cmd)
qed

lemma quietly_step:
  assumes "quiet_connection H e" "quietly s"
  shows "quietly (coordinator_run_step H fit rv e s)"
  using assms
  by (cases e)
    (auto simp: quietly_transport quietly_commands quietly_key quietly_fit statusEffect_def updateFontSize_def finishSetup_def
      handleRuntimeBootError_def coordinatorBootError_def disposeRuntime_def cleanupRuntime_def clearTerminal_def Let_def
      split: option.split sum.split)

subsection \<open>The invariant of the connection half\<close>

definition conn_ok :: "host \<Rightarrow> client \<Rightarrow> bool" where
  "conn_ok H c \<longleftrightarrow> coordinator_inv H (conn c) \<and> session_calls (conn c) = []"

lemma coordinator_op_inv:
  assumes "connection_op H f" "coordinator_inv H s"
  shows "coordinator_inv H (f s)"
proof -
  have "io_ok s" using assms(2) by (simp add: coordinator_inv_def)
  then have "coordinator_inv H (dispatchStatusEvent ev s)" for ev
    using calm_step_inv [OF assms(2) calm_status io_ok_flag] by blast
  then show ?thesis using assms(1) coordinator_step_inv [OF assms(2)] by (auto simp: connection_op_def)
qed

lemma inv_no_calls: "coordinator_inv H s \<Longrightarrow> coordinator_inv H (s\<lparr>session_calls := cs\<rparr>)" for s :: coordinator
proof (rule calm_step_inv [OF _ calm_upper])
  show "lifecycle.truncate (s\<lparr>session_calls := cs\<rparr>) = lifecycle.truncate s" by (simp add: lifecycle.truncate_def)
  show "coordinator_inv H s \<Longrightarrow> io_ok (s\<lparr>session_calls := cs\<rparr>)" by (simp add: coordinator_inv_def io_ok_def)
qed

lemma on_connection_ok: "coordinator_inv H (f (conn c)) \<Longrightarrow> conn_ok H (on_connection H f c)"
  by (simp add: conn_ok_def on_connection_def inv_no_calls Let_def)

lemma cancel_parts [simp]:
  "conn (cancelFullscreenTimer c) = conn c" "sess (cancelFullscreenTimer c) = sess c"
  "connectDeps (cancelFullscreenTimer c) = connectDeps c" "statusDep (cancelFullscreenTimer c) = statusDep c"
  "menuDep (cancelFullscreenTimer c) = menuDep c" "lastBootstrapIssue (cancelFullscreenTimer c) = lastBootstrapIssue c"
  by (simp_all add: cancelFullscreenTimer_def split: option.split)

lemma conn_ok_fields [simp]:
  "conn_ok H (on_session g c) = conn_ok H c" "conn_ok H (c\<lparr>view := v\<rparr>) = conn_ok H c"
  "conn_ok H (c\<lparr>view := v, shownLastSessionId := l, connectDeps := d, statusDep := st, menuDep := m\<rparr>) = conn_ok H c"
  "conn_ok H (c\<lparr>lastBootstrapIssue := li\<rparr>) = conn_ok H c" "conn_ok H (c\<lparr>fontSizeRef := n, fontSize := n'\<rparr>) = conn_ok H c"
  "conn_ok H (c\<lparr>controlsOpen := b\<rparr>) = conn_ok H c" "conn_ok H (c\<lparr>helpOpen := b\<rparr>) = conn_ok H c"
  "conn_ok H (c\<lparr>isFullscreen := b\<rparr>) = conn_ok H c" "conn_ok H (c\<lparr>uiTimers := ut, fullscreenTimer := ft\<rparr>) = conn_ok H c"
  "conn_ok H (c\<lparr>uiTimers := ut\<rparr>) = conn_ok H c" "conn_ok H (c\<lparr>fullscreenTimer := ft\<rparr>) = conn_ok H c"
  "conn_ok H (c\<lparr>connectDeps := d\<rparr>) = conn_ok H c"
  by (simp_all add: conn_ok_def on_session_def)

lemma conn_ok_op: "connection_op H f \<Longrightarrow> conn_ok H c \<Longrightarrow> conn_ok H (on_connection H f c)"
  by (rule on_connection_ok) (simp add: conn_ok_def coordinator_op_inv)

lemma conn_ok_cancel: "conn_ok H c \<Longrightarrow> conn_ok H (cancelFullscreenTimer c)"
  by (simp add: conn_ok_def)

interpretation connection_half: client_lifetime_invariant H "conn_ok H" for H
  by unfold_locales
    (simp_all add: conn_ok_op conn_ok_cancel onFullscreenChange_def fireUiTimer_def fitNow_def Let_def case_prod_beta split: option.split)

lemmas conn_ok_step = connection_half.always_step
lemmas conn_ok_run = connection_half.always_run

lemma conn_ok_mount: "conn_ok H (mount_client H clock endpoint la sa)"
  using initial_inv [of H clock endpoint] by (simp add: conn_ok_def mount_client_def Let_def) (simp add: initialCoordinator_def)

subsection \<open>Steps that keep the identity\<close>

text \<open>Everything but a choice in the session menu and a message that speaks of the session.\<close>

fun quiet_step :: "host \<Rightarrow> client_step \<Rightarrow> bool" where
  "quiet_step H (Connection e) = quiet_connection H e"
| "quiet_step H (Session_menu _) = False"
| "quiet_step H _ = True"

definition current_view :: "client \<Rightarrow> render_view" where
  "current_view c = \<lparr>rv_sessionId = sessionId (sess c), rv_attachMode = attachMode (sess c)\<rparr>"

text \<open>The identity is kept, and the handlers use the identity of the last commit or the present one.\<close>

definition same_identity :: "client \<Rightarrow> client \<Rightarrow> bool" where
  "same_identity c c' \<longleftrightarrow> who (sess c') = who (sess c) \<and> (view c' = view c \<or> view c' = current_view c)"

lemma current_view_who: "who (sess c') = who (sess c) \<Longrightarrow> current_view c' = current_view c"
  by (simp add: who_def current_view_def)

lemma same_refl [simp]: "same_identity c c" by (simp add: same_identity_def)

lemma same_trans: "same_identity a b \<Longrightarrow> same_identity b c \<Longrightarrow> same_identity a c"
  by (auto simp: same_identity_def dest: current_view_who)

lemma deliver_harmless: "list_all harmless cs \<Longrightarrow> who (fold (deliver_call H) cs s) = who s"
proof (induction cs arbitrary: s)
  case (Cons call cs)
  then show ?case by (cases call) simp_all
qed simp

lemma same_connection:
  "quietly (f (conn c)) \<Longrightarrow> same_identity c (on_connection H f c)"
  by (simp add: same_identity_def on_connection_def Let_def quietly_def deliver_harmless)

lemma same_session: "who (g (sess c)) = who (sess c) \<Longrightarrow> same_identity c (on_session g c)"
  by (simp add: same_identity_def on_session_def)

lemma same_fields [simp]:
  "same_identity c (a\<lparr>lastBootstrapIssue := li\<rparr>) = same_identity c a"
  "same_identity c (a\<lparr>fontSizeRef := n, fontSize := n'\<rparr>) = same_identity c a"
  "same_identity c (a\<lparr>controlsOpen := b\<rparr>) = same_identity c a" "same_identity c (a\<lparr>helpOpen := b\<rparr>) = same_identity c a"
  "same_identity c (a\<lparr>isFullscreen := b\<rparr>) = same_identity c a" "same_identity c (a\<lparr>connectDeps := d\<rparr>) = same_identity c a"
  "same_identity c (a\<lparr>uiTimers := ut, fullscreenTimer := ft\<rparr>) = same_identity c a"
  "same_identity c (a\<lparr>uiTimers := ut\<rparr>) = same_identity c a" "same_identity c (a\<lparr>fullscreenTimer := ft\<rparr>) = same_identity c a"
  by (simp_all add: same_identity_def)

lemma conn_quietly: "conn_ok H c \<Longrightarrow> quietly (conn c)"
  by (simp add: conn_ok_def quietly_def)

lemma same_ops:
  assumes ok: "conn_ok H a" and same: "same_identity c a"
  shows "quiet_connection H e \<Longrightarrow> same_identity c (on_connection H (coordinator_run_step H fit rv e) a)"
    "same_identity c (on_connection H dispose a)" "same_identity c (on_connection H (updateRuntime u ctx) a)"
    "same_identity c (on_connection H (connectEffect H rv enabled) a)"
    "same_identity c (on_connection H (endpointEffect H rv enabled u) a)"
    "same_identity c (on_connection H (dispatchStatusEvent ev) a)"
    "same_identity c (on_connection H clearTerminal a)" "same_identity c (on_connection H cleanupRuntime a)"
    "same_identity c (on_connection H (coordinatorReconnectNow H rv) a)"
    "same_identity c (on_connection H (\<lambda>s. snd (sendNow H p s)) a)"
    "same_identity c (fitNow H fit a)" "same_identity c (applyFontSize H fit n a)" "same_identity c (cancelFullscreenTimer a)"
proof -
  note q = conn_quietly [OF ok] and step = same_trans [OF same same_connection]
  show st: "quiet_connection H e \<Longrightarrow> same_identity c (on_connection H (coordinator_run_step H fit rv e) a)" for rv e
    by (rule step) (simp add: quietly_step q)
  show "same_identity c (on_connection H dispose a)" "same_identity c (on_connection H (updateRuntime u ctx) a)"
    using st [of "Transport_step Dispose_service"] st [of "Transport_step (Update_runtime u ctx)"]
    by (simp_all add: on_connection_def)
  show "same_identity c (on_connection H (connectEffect H rv enabled) a)"
    "same_identity c (on_connection H (endpointEffect H rv enabled u) a)"
    "same_identity c (on_connection H (dispatchStatusEvent ev) a)"
    "same_identity c (on_connection H clearTerminal a)" "same_identity c (on_connection H cleanupRuntime a)"
    "same_identity c (on_connection H (coordinatorReconnectNow H rv) a)"
    "same_identity c (on_connection H (\<lambda>s. snd (sendNow H p s)) a)"
    by (rule step; simp add: q quietly_commands quietly_send clearTerminal_def cleanupRuntime_def disposeRuntime_def)+
  show "same_identity c (fitNow H fit a)" by (simp add: fitNow_def st)
  have "same_identity c (on_session (storeFontSize H m) a)" for m by (rule same_trans [OF same same_session]) simp
  then have "same_identity c (on_session (storeFontSize H m) (a\<lparr>fontSizeRef := m, fontSize := m\<rparr>))" for m
    by (simp add: same_identity_def on_session_def)
  moreover have "quietly (conn (on_session (storeFontSize H m) (a\<lparr>fontSizeRef := m, fontSize := m\<rparr>)))" for m
    using q by (simp add: on_session_def)
  ultimately show "same_identity c (applyFontSize H fit n a)"
    unfolding applyFontSize_def Let_def by (intro same_trans [OF _ same_connection] quietly_step) simp_all
  show "same_identity c (cancelFullscreenTimer a)" using same by (simp add: cancelFullscreenTimer_def split: option.split)
qed

lemma same_commands:
  assumes "conn_ok H a" "same_identity c a"
  shows "same_identity c (runCommand H fit command a)" "same_identity c (keyDown H fit w ev a)"
proof -
  show run: "same_identity c (runCommand H fit command a)" for command
  proof (cases rule: run_command_cases [of H fit command a])
    case 2
    then show ?thesis using assms by (cases command) (simp_all add: same_ops)
  next
    case 3
    then show ?thesis using assms by (cases command) (simp_all add: same_ops)
  qed (use assms in simp)
  show "same_identity c (keyDown H fit w ev a)"
    by (cases rule: key_down_cases [of H fit w ev a]) (simp_all add: assms run)
qed

lemma commit_identity:
  assumes ok: "conn_ok H c"
  shows "who (sess (commit H w r c)) = who (sess c) \<and> view (commit H w r c) = current_view c"
proof -
  define deps where "deps = (terminalReady (conn c), case r of Inl _ \<Rightarrow> False | Inr _ \<Rightarrow> True)"
  define c0 where "c0 = (if rv_attachMode (current_view c) \<noteq> rv_attachMode (view c) then cancelFullscreenTimer c else c)"
  have c0: "conn_ok H c0" "sess c0 = sess c" using ok by (simp_all add: c0_def cancelFullscreenTimer_def split: option.split)
  define c1 where "c1 = c0\<lparr>view := current_view c, shownLastSessionId := lastSessionId (sess c), connectDeps := Some deps,
    statusDep := Some (ts_status (tstate (conn c))), menuDep := Some (sessionMenuOpen (sess c))\<rparr>"
  have c1: "conn_ok H c1" "same_identity c1 c1" using c0 by (simp_all add: c1_def)
  have notice: "same_identity c1 (backendNoticeEffect H r a)" if "same_identity c1 a" for a
    using same_trans [OF that] same_session [of "publishNoticeDetails H n" "a\<lparr>lastBootstrapIssue := li\<rparr>" for n li] that
    by (auto simp: backendNoticeEffect_def Let_def same_identity_def on_session_def split: sum.split)
  have poll: "same_identity c1 (on_session (poll_effect w) a)" if "same_identity c1 a" for a
    by (rule same_trans [OF that same_session]) simp
  have nok: "conn_ok H (backendNoticeEffect H r a)" if "conn_ok H a" for a
    using that by (simp add: backendNoticeEffect_def Let_def split: sum.split)
  have "same_identity c1 (commit H w r c)"
    unfolding commit_def Let_def c1_def [symmetric, unfolded c0_def deps_def current_view_def]
    by (simp add: same_ops conn_ok_op c1 notice nok poll)
  moreover have "who (sess c1) = who (sess c)" "view c1 = current_view c" "current_view c1 = current_view c"
    using c0(2) by (simp_all add: c1_def current_view_def)
  ultimately show ?thesis by (simp add: same_identity_def)
qed

lemma quiet_step_identity:
  assumes ok: "conn_ok H c" and quiet: "quiet_step H e"
  shows "same_identity c (client_run_step H fit w e c)"
proof (cases e)
  case (Commit r)
  then show ?thesis using commit_identity [OF ok] by (simp add: same_identity_def)
next
  case (Time d clock)
  have "same_identity c (on_connection H (coordinator_run_step H fit (view c) (Transport_step (Pass_time d clock))) c)"
    by (rule same_ops(1) [OF ok]) simp_all
  then show ?thesis using Time by (simp add: same_identity_def on_session_def who_def)
next
  case (Status_bar a)
  show ?thesis
  proof (cases a)
    case (Rename_session name)
    have "same_identity c (on_connection H (\<lambda>s. snd (sendNow H (createRenameMessage name) s)) c)"
      by (rule same_ops(10) [OF ok]) simp
    from same_trans [OF this same_session] show ?thesis using Status_bar Rename_session by simp
  qed (use Status_bar in \<open>simp_all add: same_session\<close>)
next
  case (Session_event ev)
  then show ?thesis by (simp add: same_session who_session_event)
next
  case (Session_menu a)
  then show ?thesis using quiet by simp
next
  case Unmount
  have rest: "same_identity c (cancelFullscreenTimer (on_session unmount_session
      (on_connection H cleanupRuntime (a\<lparr>connectDeps := None\<rparr>))))" if "conn_ok H a" "same_identity c a" for a
  proof -
    let ?b = "on_connection H cleanupRuntime (a\<lparr>connectDeps := None\<rparr>)"
    have b: "conn_ok H ?b" "same_identity c ?b" using that by (simp_all add: conn_ok_op same_ops)
    then have "same_identity c (on_session unmount_session ?b)" by (intro same_trans [OF b(2) same_session]) simp
    then show ?thesis using b by (intro same_ops(13)) simp_all
  qed
  show ?thesis using Unmount rest [OF ok same_refl] rest [OF conn_ok_op [OF connection_ops(3) ok] same_ops(2) [OF ok same_refl]]
    by (simp add: unmountClient_def Let_def)
qed (use quiet ok in \<open>simp_all add: same_ops same_commands same_session onFullscreenChange_def fireUiTimer_def Let_def case_prod_beta
    split: option.split\<close>)

text \<open>Once the handlers use the identity of the session layer, they keep using it through quiet steps.\<close>

definition attached_as :: "jsstring option \<Rightarrow> attach_mode \<Rightarrow> client \<Rightarrow> bool" where
  "attached_as sid m c \<longleftrightarrow> who (sess c) = (sid, m) \<and> view c = \<lparr>rv_sessionId = sid, rv_attachMode = m\<rparr>"

lemma quiet_run_identity:
  "conn_ok H c \<Longrightarrow> attached_as sid m c \<Longrightarrow> list_all (quiet_step H) es \<Longrightarrow> attached_as sid m (client_run H fit w es c)"
proof (induction es arbitrary: c)
  case (Cons e es)
  have "same_identity c (client_run_step H fit w e c)" using Cons.prems by (simp add: quiet_step_identity)
  then have "attached_as sid m (client_run_step H fit w e c)"
    using Cons.prems(2) by (auto simp: same_identity_def attached_as_def current_view_def who_def)
  then show ?case using Cons.IH [OF conn_ok_step [OF Cons.prems(1)]] Cons.prems(3) by (simp add: client_run_def)
qed (simp add: client_run_def)

lemma commit_attaches: "conn_ok H c \<Longrightarrow> who (sess c) = (sid, m) \<Longrightarrow> attached_as sid m (commit H w r c)"
  using commit_identity [of H c w r] by (simp add: attached_as_def current_view_def who_def)

end
