(* ===== verification/Client_Halves.thy ===== *)
theory Client_Halves
  imports Client_Laws
begin

section \<open>The halves of the client\<close>

text \<open>
  The session layer inside a client moves only by steps of the session layer: whatever is shown of its runs holds in
  the client.  The same runs keep the invariant of the connection (\<open>conn_ok\<close> of \<open>Client_Laws\<close>), the font
  size in its range and the only timer of the interface in its field.
\<close>

subsection \<open>Session runs behind the steps of the client\<close>

fun call_step :: "session_call \<Rightarrow> session_step" where
  "call_step (Apply_ready_session sid ro) = Session_ready sid ro"
| "call_step Clear_missing_session = Session_missing"
| "call_step (Set_session_mode m) = Session_mode m"
| "call_step Request_transport_refresh = Session_transport_refresh"
| "call_step (Publish_notice n) = Session_notice n"

lemma deliver_is_step: "deliver_call H call s = session_run_step H (call_step call) s"
  by (cases call) simp_all

lemma deliver_is_run: "fold (deliver_call H) calls s = session_run H (map call_step calls) s"
  unfolding session_run_def by (induction calls arbitrary: s) (simp_all add: deliver_is_step)

lemma run_append: "session_run H (es @ es') s = session_run H es' (session_run H es s)"
  by (simp add: session_run_def)

definition session_moves :: "host \<Rightarrow> session_layer \<Rightarrow> session_layer \<Rightarrow> bool" where
  "session_moves H s t \<longleftrightarrow> (\<exists>es. t = session_run H es s)"

lemma moves_refl [simp]: "session_moves H s s"
  unfolding session_moves_def by (rule exI [of _ "[]"]) (simp add: session_run_def)

lemma moves_trans: "session_moves H s t \<Longrightarrow> session_moves H t u \<Longrightarrow> session_moves H s u"
  unfolding session_moves_def by (metis run_append)

lemma moves_step: "session_moves H s t \<Longrightarrow> session_moves H s (session_run_step H e t)"
  by (rule moves_trans, assumption) (auto simp: session_moves_def session_run_def intro: exI [of _ "[e]"])

lemma moves_connection: "session_moves H s (sess c) \<Longrightarrow> session_moves H s (sess (on_connection H f c))"
  by (rule moves_trans, assumption) (auto simp: session_moves_def on_connection_def Let_def deliver_is_run)

lemma moves_report: "session_moves H s t \<Longrightarrow> session_moves H s (reportFailure H failure t)"
  using moves_step [of H s t "Session_storage_failure f" for f] by (simp add: reportFailure_def split: option.split)

lemma moves_font: "session_moves H s t \<Longrightarrow> session_moves H s (storeFontSize H n t)"
proof -
  assume t: "session_moves H s t"
  have area: "session_moves H s u \<Longrightarrow> session_moves H s (set_local st u)" for st u
    using moves_step [of H s u "Session_areas ((localAccess u)\<lparr>acc_storage := Some st\<rparr>) (sessionAccess u)"] by (simp add: set_local_def)
  show ?thesis using t
    by (simp add: storeFontSize_def resolveStorageAccess_def case_prod_beta Let_def moves_report area split: option.split)
qed

text \<open>The operations of the session layer the client calls are steps of it.\<close>

lemma moves_session: "session_op H g \<Longrightarrow> session_moves H s t \<Longrightarrow> session_moves H s (g t)"
  using moves_step [of H s t "session_step.Session_menu b" for b] by (auto simp: session_op_def moves_step moves_font)

definition moved :: "host \<Rightarrow> session_layer \<Rightarrow> client \<Rightarrow> bool" where
  "moved H s c \<longleftrightarrow> session_moves H s (sess c)"

lemma moved_fields [simp]:
  "moved H s (c\<lparr>conn := k\<rparr>) = moved H s c" "moved H s (c\<lparr>view := v\<rparr>) = moved H s c"
  "moved H s (c\<lparr>view := v, shownLastSessionId := l, connectDeps := d, statusDep := st, menuDep := m\<rparr>) = moved H s c"
  "moved H s (c\<lparr>lastBootstrapIssue := li\<rparr>) = moved H s c" "moved H s (c\<lparr>fontSizeRef := n, fontSize := n'\<rparr>) = moved H s c"
  "moved H s (c\<lparr>controlsOpen := b\<rparr>) = moved H s c" "moved H s (c\<lparr>helpOpen := b\<rparr>) = moved H s c"
  "moved H s (c\<lparr>isFullscreen := b\<rparr>) = moved H s c" "moved H s (c\<lparr>uiTimers := ut, fullscreenTimer := ft\<rparr>) = moved H s c"
  "moved H s (c\<lparr>uiTimers := ut\<rparr>) = moved H s c" "moved H s (c\<lparr>fullscreenTimer := ft\<rparr>) = moved H s c"
  by (simp_all add: moved_def)

lemma moved_cancel: "moved H s c \<Longrightarrow> moved H s (cancelFullscreenTimer c)"
  by (simp add: cancelFullscreenTimer_def split: option.split)

lemma moved_connection: "moved H s c \<Longrightarrow> moved H s (on_connection H f c)"
  by (simp add: moved_def moves_connection)

interpretation session_half: client_invariant H "moved H s" for H s
  by unfold_locales
    (simp_all add: moved_connection moved_cancel onFullscreenChange_def fireUiTimer_def fitNow_def Let_def case_prod_beta
      split: option.split, simp add: moved_def on_session_def moves_session)

lemmas moved_step = session_half.kept_step
lemmas moved_run = session_half.kept_run

subsection \<open>The state of the interface\<close>

definition timer_table :: "nat option \<Rightarrow> nat \<Rightarrow> (ui_task \<times> bool) option" where
  "timer_table timer = (\<lambda>h. if timer = Some h then Some (Fullscreen_settled, False) else None)"

definition interface_ok :: "client \<Rightarrow> bool" where
  "interface_ok c \<longleftrightarrow> font_ok (fontSizeRef c) \<and> fontSize c = fontSizeRef c \<and> pending (uiTimers c) = timer_table (fullscreenTimer c)"

lemma interface_frame [simp]:
  "interface_ok (on_connection H f c) = interface_ok c" "interface_ok (on_session g c) = interface_ok c"
  "interface_ok (fitNow H fit c) = interface_ok c" "interface_ok (c\<lparr>view := v\<rparr>) = interface_ok c"
  "interface_ok (c\<lparr>view := v, shownLastSessionId := l, connectDeps := d, statusDep := st, menuDep := m\<rparr>) = interface_ok c"
  "interface_ok (c\<lparr>lastBootstrapIssue := li\<rparr>) = interface_ok c" "interface_ok (c\<lparr>connectDeps := d\<rparr>) = interface_ok c"
  "interface_ok (c\<lparr>controlsOpen := b\<rparr>) = interface_ok c" "interface_ok (c\<lparr>helpOpen := b\<rparr>) = interface_ok c"
  "interface_ok (c\<lparr>isFullscreen := b\<rparr>) = interface_ok c"
  by (simp_all add: interface_ok_def on_connection_def on_session_def fitNow_def Let_def)

lemma interface_cancel: "interface_ok c \<Longrightarrow> interface_ok (cancelFullscreenTimer c) \<and> fullscreenTimer (cancelFullscreenTimer c) = None"
proof (cases "fullscreenTimer c")
  case (Some h)
  assume ok: "interface_ok c"
  have "pending (clearTimeout h (uiTimers c)) = timer_table None"
    using ok Some by (auto simp: interface_ok_def browser.clear_law timer_table_def)
  then show ?thesis using ok Some by (simp add: cancelFullscreenTimer_def interface_ok_def)
qed (simp add: cancelFullscreenTimer_def)

lemma interface_fullscreen: "interface_ok c \<Longrightarrow> interface_ok (onFullscreenChange H fit w b c)"
proof -
  assume "interface_ok c"
  then have c: "interface_ok (cancelFullscreenTimer (c\<lparr>isFullscreen := b\<rparr>))"
    "fullscreenTimer (cancelFullscreenTimer (c\<lparr>isFullscreen := b\<rparr>)) = None"
    using interface_cancel [of "c\<lparr>isFullscreen := b\<rparr>"] by simp_all
  let ?a = "cancelFullscreenTimer (c\<lparr>isFullscreen := b\<rparr>)"
  obtain h sc where set: "setTimeout Fullscreen_settled 40 (uiTimers ?a) = (h, sc)" by (metis prod.exhaust)
  then have "pending sc = timer_table (Some h)"
    using browser.set_timeout_law [OF set] c by (auto simp: interface_ok_def timer_table_def)
  then show ?thesis using c \<open>interface_ok c\<close> set by (simp add: onFullscreenChange_def Let_def) (simp add: interface_ok_def)
qed

lemma interface_timer: "interface_ok c \<Longrightarrow> interface_ok (fireUiTimer H fit h c)"
proof (cases "fire h (uiTimers c)")
  case (Some r)
  assume ok: "interface_ok c"
  obtain t sc where r: "fire h (uiTimers c) = Some (t, sc)" using Some by (cases r) simp
  then have "pending sc = timer_table None"
    using browser.fire_law [OF r] ok by (auto simp: interface_ok_def timer_table_def split: if_splits)
  then show ?thesis using ok r by (simp add: fireUiTimer_def fitNow_def on_connection_def Let_def interface_ok_def)
qed (simp add: fireUiTimer_def)

interpretation interface_half: client_lifetime_invariant H interface_ok for H
  by unfold_locales
    (simp_all add: interface_cancel interface_fullscreen interface_timer, simp_all add: interface_ok_def)

lemmas interface_step = interface_half.always_step
lemmas interface_run = interface_half.always_run

lemma interface_mount: "interface_ok (mount_client H clock endpoint la sa)"
  by (simp add: mount_client_def Let_def interface_ok_def readInitialFontSizeState_def readInitialFontSizeResult_def case_prod_beta
      pending_def new_scheduler_def timer_table_def fun_eq_iff split: option.split prod.split)

end
