(* ===== verification/Client_Properties.thy ===== *)
theory Client_Properties
  imports Client_Laws Input_Properties
begin

section \<open>Properties of the whole client\<close>

text \<open>
  The identity of the client as an abstract machine: the session and the mode it attaches with, which the
  server's messages and the choices in the session menu change.  The client refines it, and the first frame on every
  new socket names its state.
\<close>

subsection \<open>The identity machine\<close>

type_synonym identity = "jsstring option \<times> attach_mode"

definition message_identity :: "host \<Rightarrow> message_event \<Rightarrow> identity \<Rightarrow> identity" where
  "message_identity H ev p =
     (if truthy (me_malformed ev) \<noteq> None \<or> me_data ev = [] then p
      else case parseServerMessageWithReason (json_parse H) (J_str (me_data ev)) of
             Inr (Ready sid readOnly) \<Rightarrow> (Some sid, if readOnly then Watch else Control)
           | Inr (Server_error _ code _) \<Rightarrow>
               if code = Some Session_not_found then (None, Control)
               else if code = Some Attach_forbidden then (fst p, Watch) else p
           | _ \<Rightarrow> p)"

fun menu_identity :: "jsstring option \<Rightarrow> session_menu_action \<Rightarrow> identity \<Rightarrow> identity" where
  "menu_identity shown Start_fresh_session p = (None, Control)"
| "menu_identity shown Resume_last_session p = (case shown of None \<Rightarrow> p | Some l \<Rightarrow> if l = [] then p else (Some l, Control))"
| "menu_identity shown (Attach_to_session sid m) p = (if sid = [] then p else (Some sid, m))"

definition next_identity :: "host \<Rightarrow> client \<Rightarrow> client_step \<Rightarrow> identity \<Rightarrow> identity" where
  "next_identity H c e p =
     (case e of
        Connection (Transport_step (Socket_message k ev)) \<Rightarrow> if socket (conn c) = Some k then message_identity H ev p else p
      | Session_menu a \<Rightarrow> menu_identity (shownLastSessionId c) a p
      | _ \<Rightarrow> p)"

subsection \<open>The calls behind a message\<close>

definition adds :: "'a coordinator_scheme \<Rightarrow> 'a coordinator_scheme \<Rightarrow> bool" where
  "adds s t \<longleftrightarrow> (\<exists>cs. session_calls t = session_calls s @ cs \<and> list_all harmless cs)"

lemma adds_refl [simp]: "adds s s" by (simp add: adds_def)

lemma adds_trans: "adds a b \<Longrightarrow> adds b c \<Longrightarrow> adds a c"
  by (force simp: adds_def)

lemma adds_same: "session_calls t = session_calls s \<Longrightarrow> adds s t" by (simp add: adds_def)

lemma adds_send: "adds s (snd (sendNow H p s))"
  by (simp add: adds_def sendNow_def sendPayload_def reportSendFailure_def report_def notifyWithFailureThrottle_def
      reportSocketFailure_def publishNotice_def call_session_def dispatchEvent_def Let_def split: option.split prod.split)

lemma adds_sent: "sendNow H p s = (ok, t) \<Longrightarrow> adds s t"
  using adds_send [of s H p] by simp

lemma adds_flush: "flush_input (sendNow H) s = (n, t) \<Longrightarrow> adds s t"
proof -
  obtain m ob u where f: "flushOutbox (\<lambda>t chunk. sendNow H (createInputMessage chunk) t) (outbox s) s = (m, ob, u)"
    by (metis prod_cases3)
  have "adds s u" by (rule flush_frame [where R = adds, OF adds_send adds_refl adds_trans f])
  then show "flush_input (sendNow H) s = (n, t) \<Longrightarrow> adds s t"
    using f by (auto simp: flush_input_def adds_def)
qed

lemma adds_after_ready: "adds s (flushAfterReady m (sendNow H) ro s)"
proof -
  define t where "t = (resetTerminal s)\<lparr>outputBytes := 0\<rparr>"
  have t: "adds s t" by (rule adds_same) (simp add: t_def resetTerminal_def on_term_def)
  have queued: "adds t (flushQueuedInput m (sendNow H) t)"
    by (auto simp: flushQueuedInput_def show_outbox_def adds_def split: prod.split dest!: adds_flush)
  have resize: "adds u (flushPendingResize (sendNow H) u)" for u :: "'a coordinator_scheme"
    by (auto simp: flushPendingResize_def adds_def split: option.split prod.split dest!: adds_sent)
  have "adds t (resetQueuedBuffers t)" by (rule adds_same) (simp add: resetQueuedBuffers_def)
  then show ?thesis unfolding flushAfterReady_def t_def [symmetric] Let_def
    using adds_trans [OF t] adds_trans [OF adds_trans [OF t queued] resize] by simp
qed

lemma ready_calls:
  "\<exists>cs. session_calls (onReady H rv sid ro s) = session_calls s @ Apply_ready_session sid ro # cs \<and> list_all harmless cs"
proof -
  let ?s1 = "setStatusFlag None (call_session (Apply_ready_session sid ro) s)"
  obtain cs where "session_calls (flushAfterReady (rv_attachMode rv) (sendNow H) ro ?s1) = session_calls ?s1 @ cs" "list_all harmless cs"
    using adds_after_ready [of ?s1] unfolding adds_def by blast
  then show ?thesis
    by (intro exI [of _ "cs @ [Request_transport_refresh]"])
      (simp add: onReady_def call_session_def setStatusFlag_def dispatchStatusEvent_def)
qed

lemma error_calls:
  "session_calls (handleServerError msg code raw s) = session_calls s @
     [Publish_notice (N_server (sp_notice (resolveServerErrorPolicy code raw)))] @
     (if code = Some Session_not_found then [Clear_missing_session, Request_transport_refresh]
      else if code = Some Attach_forbidden then [Set_session_mode Watch] else [])"
  using server_error_policy_table [of code raw]
  by (auto simp: handleServerError_def publishNotice_def call_session_def toServerPolicyNotice_def writeServerError_def
      on_term_def setStatusFlag_def dispatchStatusEvent_def Let_def split: option.split)

subsection \<open>The refinement\<close>

lemma who_areas [simp]:
  "who (set_local st s) = who s" "who (set_session st s) = who s"
  "who (s\<lparr>sessionHistoryIds := hs, lastSessionId := l\<rparr>) = who s" "who (clearSessionNotice s) = who s"
  by (simp_all add: who_def set_local_def set_session_def clearSessionNotice_def clear_notice_timer_def split: option.split)

lemma who_persist [simp]:
  "who (persistActiveSessionStorage H sid s) = who s" "who (clearActiveSessionStorage H s) = who s"
  "who (rememberSession H sid s) = who s"
  by (simp_all add: persistActiveSessionStorage_def clearActiveSessionStorage_def rememberSession_def resolveStorageAccess_def
      Let_def split: option.split prod.split)

lemma who_identity_calls [simp]:
  "who (applyReadySession H sid ro s) = (Some sid, if ro then Watch else Control)"
  "who (clearMissingSession H s) = (None, Control)"
  "who (transitionSessionContext H sido m s) = (sido, m)"
proof -
  have set: "who (t\<lparr>sessionId := i\<rparr>) = (i, snd (who t))" for t :: "'a session_layer_scheme" and i
    by (simp add: who_def)
  have mode: "snd (who (s\<lparr>attachMode := m\<rparr>)) = m" for m by (simp add: who_def)
  show "who (applyReadySession H sid ro s) = (Some sid, if ro then Watch else Control)"
    by (simp add: applyReadySession_def Let_def set mode)
  show "who (clearMissingSession H s) = (None, Control)" by (simp add: clearMissingSession_def who_def)
  have both: "who (t\<lparr>attachMode := m, sessionId := sido\<rparr>) = (sido, m)" for t :: "'a session_layer_scheme" and m sido
    by (simp add: who_def)
  show "who (transitionSessionContext H sido m s) = (sido, m)"
    by (simp add: transitionSessionContext_def Let_def both split: option.split)
qed

lemma message_delivered:
  assumes "conn_ok H c"
  shows "coordinator_run_step H fit rv (Transport_step (Socket_message k ev)) (conn c) =
    (if socket (conn c) = Some k then onMessage H rv ev (conn c) else conn c)"
proof -
  have "session_inv (conn c)" using assms by (simp add: conn_ok_def coordinator_inv_def lc_inv_def core_inv_def)
  then show ?thesis
    by (simp add: deliver_current onSocketMessage_def withCurrentSocket_def isCurrent_def transportHandlers_def)
qed

lemma message_identity_calls:
  assumes "session_calls s = []"
  shows "who (fold (deliver_call H) (session_calls (onMessage H rv ev s)) (t :: 'b session_layer_scheme)) =
    message_identity H ev (who t)"
proof (cases "identity_message H ev")
  case False
  then have "message_identity H ev p = p" for p
    by (auto simp: identity_message_def message_identity_def split: sum.split server_message.split)
  moreover have "list_all harmless (session_calls (onMessage H rv ev s))"
    using quietly_message [OF False, of s rv] assms by (simp add: quietly_def)
  ultimately show ?thesis by (simp add: deliver_harmless)
next
  case True
  then have ev: "truthy (me_malformed ev) = None" "me_data ev \<noteq> []" by (simp_all add: identity_message_def)
  consider (ready) sid ro where "parseServerMessageWithReason (json_parse H) (J_str (me_data ev)) = Inr (Ready sid ro)"
    | (err) m code raw where "parseServerMessageWithReason (json_parse H) (J_str (me_data ev)) = Inr (Server_error m code raw)"
      "code = Some Session_not_found \<or> code = Some Attach_forbidden"
    using True by (auto simp: identity_message_def split: sum.splits server_message.splits)
  then show ?thesis
  proof cases
    case ready
    then have "onMessage H rv ev s = onReady H rv sid ro s"
      using ev by (simp add: onMessage_def handleSocketMessage_def handleIncomingServerMessage_def)
    then show ?thesis using ready_calls [of H rv sid ro s] ev ready assms
      by (auto simp: message_identity_def deliver_harmless)
  next
    case err
    then have "onMessage H rv ev s = handleServerError m code raw s"
      using ev by (simp add: onMessage_def handleSocketMessage_def handleIncomingServerMessage_def)
    have mode: "who (u\<lparr>attachMode := md\<rparr>) = (fst (who u), md)" for u :: "'b session_layer_scheme" and md by (simp add: who_def)
    show ?thesis using err ev assms \<open>onMessage H rv ev s = _\<close> by (auto simp: message_identity_def error_calls mode)
  qed
qed

text \<open>What only a commit changes, and the full screen, which only its event changes.\<close>

lemma view_kept [simp]:
  "view (on_connection H f c) = view c" "view (on_session g c) = view c" "view (cancelFullscreenTimer c) = view c"
  "view (fitNow H fit c) = view c" "view (applyFontSize H fit n c) = view c"
  by (simp_all add: on_connection_def on_session_def cancelFullscreenTimer_def fitNow_def applyFontSize_def Let_def split: option.split)

lemma shown_kept [simp]:
  "shownLastSessionId (on_connection H f c) = shownLastSessionId c" "shownLastSessionId (on_session g c) = shownLastSessionId c"
  "shownLastSessionId (cancelFullscreenTimer c) = shownLastSessionId c" "shownLastSessionId (fitNow H fit c) = shownLastSessionId c"
  "shownLastSessionId (applyFontSize H fit n c) = shownLastSessionId c"
  "isFullscreen (on_connection H f c) = isFullscreen c" "isFullscreen (on_session g c) = isFullscreen c"
  "isFullscreen (cancelFullscreenTimer c) = isFullscreen c" "isFullscreen (fitNow H fit c) = isFullscreen c"
  "isFullscreen (applyFontSize H fit n c) = isFullscreen c"
  by (simp_all add: on_connection_def on_session_def cancelFullscreenTimer_def fitNow_def applyFontSize_def Let_def split: option.split)

lemma shown_commands:
  fixes f :: "client \<Rightarrow> 'x"
  assumes "\<And>k. f (runtimeCommandHandlers H k c) = f c" "\<And>k. f (viewportCommandHandlers H fit k c) = f c"
  shows "f (runCommand H fit command c) = f c" "f (keyDown H fit w ev c) = f c"
proof -
  show run: "f (runCommand H fit k c) = f c" for k
    by (cases rule: run_command_cases [of H fit k c]) (simp_all add: assms)
  show "f (keyDown H fit w ev c) = f c"
    by (cases rule: key_down_cases [of H fit w ev c]) (simp_all add: run)
qed

lemma handlers_kept:
  "view (runtimeCommandHandlers H k c) = view c" "view (viewportCommandHandlers H fit k c) = view c"
  "shownLastSessionId (runtimeCommandHandlers H k c) = shownLastSessionId c"
  "shownLastSessionId (viewportCommandHandlers H fit k c) = shownLastSessionId c"
  "isFullscreen (runtimeCommandHandlers H k c) = isFullscreen c" "isFullscreen (viewportCommandHandlers H fit k c) = isFullscreen c"
  by (cases k; simp)+

lemmas view_commands [simp] =
  shown_commands [where f = view, OF handlers_kept(1,2)]
  shown_commands [where f = shownLastSessionId, OF handlers_kept(3,4)]
  shown_commands [where f = isFullscreen, OF handlers_kept(5,6)]

lemma view_step:
  "\<forall>r. e \<noteq> Commit r \<Longrightarrow> view (client_run_step H fit w e c) = view c"
  "\<forall>r. e \<noteq> Commit r \<Longrightarrow> shownLastSessionId (client_run_step H fit w e c) = shownLastSessionId c"
  "\<forall>b. e \<noteq> Fullscreen_changed b \<Longrightarrow> isFullscreen (client_run_step H fit w e c) = isFullscreen c"
proof -
  have bar: "view (dispatchStatusBar H fit a c) = view c" "shownLastSessionId (dispatchStatusBar H fit a c) = shownLastSessionId c"
    "isFullscreen (dispatchStatusBar H fit a c) = isFullscreen c" for a by (cases a; simp)+
  have menu: "view (dispatchSessionMenu H a c) = view c" "shownLastSessionId (dispatchSessionMenu H a c) = shownLastSessionId c"
    "isFullscreen (dispatchSessionMenu H a c) = isFullscreen c" for a
    by (cases a; simp add: attachToSession_def startFreshSession_def resumePreviousSession_def split: option.split)+
  note defs = onFullscreenChange_def fireUiTimer_def unmountClient_def Let_def case_prod_beta
  show "\<forall>r. e \<noteq> Commit r \<Longrightarrow> view (client_run_step H fit w e c) = view c"
    "\<forall>r. e \<noteq> Commit r \<Longrightarrow> shownLastSessionId (client_run_step H fit w e c) = shownLastSessionId c"
    by (cases e; simp add: bar menu defs del: coordinator_run_step.simps session_run_step.simps dispatchSessionMenu.simps dispatchStatusBar.simps split: option.split)+
  show "\<forall>b. e \<noteq> Fullscreen_changed b \<Longrightarrow> isFullscreen (client_run_step H fit w e c) = isFullscreen c"
  proof -
    assume e: "\<forall>b. e \<noteq> Fullscreen_changed b"
    have "isFullscreen (if P then on_connection H f a else a) = isFullscreen a" "isFullscreen (if P then on_session g a else a) = isFullscreen a"
      "isFullscreen (if P then cancelFullscreenTimer a else a) = isFullscreen a" for P f g a by simp_all
    moreover have "isFullscreen (backendNoticeEffect H r a) = isFullscreen a" for r a
      by (simp add: backendNoticeEffect_def Let_def split: sum.split)
    ultimately have "isFullscreen (commit H w r c) = isFullscreen c" for r
      unfolding commit_def Let_def by (simp only: shown_kept client.simps) simp
    then show ?thesis using e
    proof (cases e)
      case (Fullscreen_changed b)
      then show ?thesis using e by blast
    qed (simp_all add: bar menu defs del: coordinator_run_step.simps session_run_step.simps dispatchSessionMenu.simps
        dispatchStatusBar.simps split: option.split)
  qed
qed

lemma menu_identity_step:
  assumes ok: "conn_ok H c"
  shows "who (sess (dispatchSessionMenu H a c)) = menu_identity (shownLastSessionId c) a (who (sess c))"
proof -
  have after: "who (sess (on_connection H f (on_session (transitionSessionContext H sido m) b))) = (sido, m)"
    if "quietly (f (conn b))" for f sido m b
    using that by (simp add: on_connection_def on_session_def Let_def quietly_def deliver_harmless)
  have b: "quietly (conn (on_connection H resetRuntimeBuffers c))" by (simp add: on_connection_def quietly_def Let_def)
  have attach: "who (sess (attachToSession H sid m c)) = (if sid = [] then who (sess c) else (Some sid, m))" for sid m
    using b by (simp add: attachToSession_def after quietly_commands)
  show ?thesis using b
    by (cases a) (simp_all add: startFreshSession_def after quietly_commands attach resumePreviousSession_def split: option.split)
qed

lemma step_identity:
  assumes ok: "conn_ok H c"
  shows "who (sess (client_run_step H fit w e c)) = next_identity H c e (who (sess c))"
proof (cases "quiet_step H e")
  case True
  then have "who (sess (client_run_step H fit w e c)) = who (sess c)"
    using quiet_step_identity [OF ok] by (simp add: same_identity_def)
  moreover have "next_identity H c e (who (sess c)) = who (sess c)"
  proof (cases "\<exists>k ev. e = Connection (Transport_step (Socket_message k ev))")
    case t: True
    then obtain k ev where e: "e = Connection (Transport_step (Socket_message k ev))" by blast
    then have "\<not> identity_message H ev" using True by simp
    then have "message_identity H ev p = p" for p
      by (auto simp: identity_message_def message_identity_def split: sum.split server_message.split)
    then show ?thesis using e by (simp add: next_identity_def)
  next
    case False
    then show ?thesis using True
      by (auto simp: next_identity_def split: client_step.split coordinator_step.split transport_step.split)
  qed
  ultimately show ?thesis by simp
next
  case False
  then consider (menu) a where "e = Session_menu a" | (msg) k ev where "e = Connection (Transport_step (Socket_message k ev))"
    by (cases e) (auto elim!: quiet_connection.elims quiet_transport.elims)
  then show ?thesis
  proof cases
    case menu
    then show ?thesis using menu_identity_step [OF ok] by (simp add: next_identity_def)
  next
    case msg
    have calls: "session_calls (conn c) = []" using ok by (simp add: conn_ok_def)
    have "sess (client_run_step H fit w e c) =
        fold (deliver_call H) (session_calls (coordinator_run_step H fit (view c) (Transport_step (Socket_message k ev)) (conn c))) (sess c)"
      unfolding msg by (simp add: on_connection_def Let_def del: coordinator_run_step.simps)
    then show ?thesis unfolding message_delivered [OF ok] msg
      using message_identity_calls [OF calls, of H "view c" ev "sess c"] by (simp add: next_identity_def calls)
  qed
qed

subsection \<open>The properties\<close>

text \<open>Every state a mounted client reaches.\<close>

definition client_reached ::
  "host \<Rightarrow> (terminal \<Rightarrow> terminal) \<Rightarrow> bool \<Rightarrow> client_step list \<Rightarrow> int \<Rightarrow> jsstring option \<Rightarrow> storage_access \<Rightarrow>
   storage_access \<Rightarrow> client" where
  "client_reached H fit w es clock endpoint la sa = client_run H fit w es (mount_client H clock endpoint la sa)"

lemma reached_ok: "conn_ok H (client_reached H fit w es clock endpoint la sa)"
  unfolding client_reached_def by (intro conn_ok_run conn_ok_mount)

text \<open>A client that has mounted and been told its endpoints, and then attaches to a session as a watcher.\<close>

definition sample_endpoints :: "backend_issue + backend_endpoints" where
  "sample_endpoints = Inr \<lparr>be_sessionsHttpUrl = js ''http://h'', be_terminalWsUrl = js ''ws://h''\<rparr>"
definition sample_access :: storage_access where
  "sample_access = \<lparr>acc_storage = Some sample_area, acc_error = None\<rparr>"

lemma conn_parts: "conn (on_connection H f c) = (f (conn c))\<lparr>session_calls := []\<rparr>" "conn (on_session g c) = conn c"
  by (simp_all add: on_connection_def on_session_def Let_def)

lemma reconnect_fresh:
  fixes s :: coordinator
  assumes "socket s = None" "reconnectTimer s = None" "pingTimer s = None" "pongTimeout s = None"
    "validateWebsocketEndpoint H (wsUrl s) = Inr u" "create_throws s = None" "detachListeners s = None"
  shows "socket (coordinatorReconnectNow H rv s) = Some (next_socket s)"
    "ready (coordinatorReconnectNow H rv s) (next_socket s) = RS_connecting"
    "send_throws (coordinatorReconnectNow H rv s) = send_throws s"
    "wire (coordinatorReconnectNow H rv s) = wire s" "runtimeFitSize (coordinatorReconnectNow H rv s) = runtimeFitSize s"
    "wsUrl (coordinatorReconnectNow H rv s) = wsUrl s" "terminalReady (coordinatorReconnectNow H rv s) = terminalReady s"
  using assms
  by (simp_all add: coordinatorReconnectNow_def reconnectNow_def command_eq quiesce_def hb_stop_eq stop_sched_def clearReconnect_eq closeActive_def connect_def
    hasActiveConnection_def createSocket_def createTransport_def attach_def bindSocketHandlers_def Let_def dispatchEvent_def dispatchStatusEvent_def clear_session_def)


text \<open>A commit before the terminal is ready leaves the sockets alone.\<close>

lemma early_commit:
  fixes c H w r e
  assumes "\<not> terminalReady (conn c)" "connectDeps c \<noteq> Some (True, True)" "r = Inr e"
  defines "s \<equiv> conn (commit H w r c)"
  shows "socket s = socket (conn c)" "ready s = ready (conn c)" "send_throws s = send_throws (conn c)" "wire s = wire (conn c)"
    "runtimeFitSize s = runtimeFitSize (conn c)" "wsUrl s = Some (be_terminalWsUrl e)" "terminalReady s = terminalReady (conn c)"
    "reconnectTimer s = reconnectTimer (conn c)" "pingTimer s = pingTimer (conn c)" "pongTimeout s = pongTimeout (conn c)"
    "create_throws s = create_throws (conn c)" "detachListeners s = detachListeners (conn c)" "next_socket s = next_socket (conn c)"
  using assms
  by (simp_all add: s_def commit_def conn_parts Let_def backendNoticeEffect_def updateRuntime_def connectEffect_def endpointEffect_def
     dispatchStatusEvent_def)


definition sample_client :: client where
  "sample_client = client_reached sample_host id True [Commit sample_endpoints] 0 None sample_access sample_access"

definition sample_attached :: client where
  "sample_attached = client_run sample_host id True [Session_menu (Attach_to_session (js ''abc'') Watch), Commit sample_endpoints]
     sample_client"

lemma commit_deps: "connectDeps (commit H w (Inr e) c) = Some (terminalReady (conn c), True)"
  by (simp add: commit_def Let_def backendNoticeEffect_def on_connection_def on_session_def)

lemma sample_client_parts:
  "socket (conn sample_client) = None" "reconnectTimer (conn sample_client) = None" "pingTimer (conn sample_client) = None"
  "pongTimeout (conn sample_client) = None" "create_throws (conn sample_client) = None" "detachListeners (conn sample_client) = None"
  "next_socket (conn sample_client) = 0" "wire (conn sample_client) = []" "runtimeFitSize (conn sample_client) = (80, 24)"
  "send_throws (conn sample_client) = None" "wsUrl (conn sample_client) = Some (js ''ws://h'')"
  "terminalReady (conn sample_client) = False" "ready (conn sample_client) = (\<lambda>_. RS_closed)"
  "connectDeps sample_client = Some (False, True)"
proof -
  define m where "m = mount_client sample_host 0 None sample_access sample_access"
  have m: "conn m = initialCoordinator 0 None" "connectDeps m = None" by (simp_all add: m_def mount_client_def Let_def)
  have c: "sample_client = commit sample_host True sample_endpoints m"
    by (simp add: sample_client_def client_reached_def client_run_def m_def)
  have m2: "\<not> terminalReady (conn m)" "connectDeps m \<noteq> Some (True, True)" by (simp_all add: m initialCoordinator_def)
  note parts = early_commit [OF m2 sample_endpoints_def, of sample_host True, folded c]
  show "socket (conn sample_client) = None" "reconnectTimer (conn sample_client) = None" "pingTimer (conn sample_client) = None"
    "pongTimeout (conn sample_client) = None" "create_throws (conn sample_client) = None" "detachListeners (conn sample_client) = None"
    "next_socket (conn sample_client) = 0" "wire (conn sample_client) = []" "runtimeFitSize (conn sample_client) = (80, 24)"
    "send_throws (conn sample_client) = None" "wsUrl (conn sample_client) = Some (js ''ws://h'')"
    "terminalReady (conn sample_client) = False" "ready (conn sample_client) = (\<lambda>_. RS_closed)"
    by (simp_all add: parts m) (simp_all add: initialCoordinator_def)
  show "connectDeps sample_client = Some (False, True)"
    using m2(1) by (simp add: c sample_endpoints_def commit_deps)
qed

lemma sample_attached_parts:
  "socket (conn sample_attached) = Some 0" "ready (conn sample_attached) 0 = RS_connecting" "send_throws (conn sample_attached) = None"
  "wire (conn sample_attached) = []" "runtimeFitSize (conn sample_attached) = (80, 24)"
proof -
  let ?b = "client_run_step sample_host id True (Session_menu (Attach_to_session (js ''abc'') Watch)) sample_client"
  have b: "conn ?b = coordinatorReconnectNow sample_host (view sample_client) 
      (resetRuntimeBuffers (conn sample_client)\<lparr>session_calls := []\<rparr>)\<lparr>session_calls := []\<rparr>"
    by (simp add: attachToSession_def conn_parts)
  have url: "validateWebsocketEndpoint sample_host (Some (js ''ws://h'')) = Inr (js ''ws://h'')" by code_simp
  let ?s = "resetRuntimeBuffers (conn sample_client)\<lparr>session_calls := []\<rparr>"
  have s: "socket ?s = None" "reconnectTimer ?s = None" "pingTimer ?s = None" "pongTimeout ?s = None"
    "validateWebsocketEndpoint sample_host (wsUrl ?s) = Inr (js ''ws://h'')" "create_throws ?s = None" "detachListeners ?s = None"
    using sample_client_parts url by (simp_all add: resetRuntimeBuffers_def resetQueuedBuffers_def resetTerminal_def on_term_def)
  note r = reconnect_fresh [OF s, of "view sample_client"]
  have bs: "terminalReady (conn ?b) = False" "connectDeps ?b = Some (False, True)"
    "socket (conn ?b) = Some 0" "ready (conn ?b) 0 = RS_connecting" "send_throws (conn ?b) = None"
    "wire (conn ?b) = []" "runtimeFitSize (conn ?b) = (80, 24)"
    using sample_client_parts r by (simp_all add: b attachToSession_def on_connection_def on_session_def Let_def
      resetRuntimeBuffers_def resetQueuedBuffers_def resetTerminal_def on_term_def)
  show "socket (conn sample_attached) = Some 0" "ready (conn sample_attached) 0 = RS_connecting"
    "send_throws (conn sample_attached) = None" "wire (conn sample_attached) = []" "runtimeFitSize (conn sample_attached) = (80, 24)"
    using early_commit [OF _ _ sample_endpoints_def, of ?b sample_host True] bs
    by (simp_all add: sample_attached_def client_run_def del: client_run_step.simps(5))
qed

text \<open>C8: Whatever has happened to the client, a step changes the session and the attach mode exactly as the identity machine
  says: a ready message or a fatal error of the server on the current socket and a choice in the session menu, nothing else;
  and the handlers of the connection take over the identity at a commit, never in between.\<close>

theorem client_refines_identity_machine:
  "let c = client_reached H fit w es clock endpoint la sa; c' = client_run_step H fit w e c
   in who (sess c') = next_identity H c e (who (sess c)) \<and>
      view c' = (case e of Commit _ \<Rightarrow> current_view c | _ \<Rightarrow> view c)"
proof -
  define c where "c = client_reached H fit w es clock endpoint la sa"
  have ok: "conn_ok H c" unfolding c_def by (rule reached_ok)
  have "view (client_run_step H fit w e c) = (case e of Commit _ \<Rightarrow> current_view c | _ \<Rightarrow> view c)"
    using commit_identity [OF ok] view_step(1) [of e H fit w c] by (cases e) auto
  then show ?thesis using step_identity [OF ok] by (simp add: Let_def c_def [symmetric])
qed

text \<open>C9: Once the server has announced a session or the user has chosen one, and React has committed it, every socket
  that opens later, after any number of drops, retries and refreshes without another such event, first sends an attach request
  for this session with the watch flag of its mode.\<close>

theorem identity_reaches_server:
  fixes H fit w es0 clock endpoint la sa
  defines "c \<equiv> client_reached H fit w es0 clock endpoint la sa"
  assumes "list_all (quiet_step H) es" "c1 = client_run H fit w (e # Commit r # es) c"
    "socket (conn c1) = Some j" "ready (conn c1) j = RS_connecting" "send_throws (conn c1) = None"
    "next_identity H c e (who (sess c)) = (sid, m)"
  shows "wire (conn (client_run_step H fit w (Connection (Transport_step (Socket_open j))) c1)) =
    wire (conn c1) @ [(j, createAttachMessage (as_num (fst (runtimeFitSize (conn c1)))) (as_num (snd (runtimeFitSize (conn c1))))
      sid (Some (m = Watch)))]"
proof -
  have ok: "conn_ok H c" unfolding c_def by (rule reached_ok)
  let ?b = "client_run_step H fit w e c"
  have b: "conn_ok H ?b" "who (sess ?b) = (sid, m)" using conn_ok_step [OF ok] step_identity [OF ok] assms(7) by simp_all
  have "attached_as sid m (commit H w r ?b)" by (rule commit_attaches [OF b])
  moreover have ok1: "conn_ok H (commit H w r ?b)" using b(1) by (rule connection_half.kept_commit)
  moreover have "c1 = client_run H fit w es (commit H w r ?b)" using assms(3) by (simp add: client_run_def)
  ultimately have c1: "attached_as sid m c1" "conn_ok H c1"
    using quiet_run_identity [OF ok1 _ assms(2)] conn_ok_run [OF ok1] by simp_all
  then have v: "view c1 = \<lparr>rv_sessionId = sid, rv_attachMode = m\<rparr>" "coordinator_inv H (conn c1)"
    by (simp_all add: attached_as_def conn_ok_def)
  from socket_open_attaches [OF v(2) assms(4-6) refl, of "view c1"] show ?thesis
    by (simp add: on_connection_def Let_def v(1) del: transport_run_step.simps)
qed

theorem identity_reaches_server_witness:
  "wire (conn (client_run_step sample_host id True (Connection (Transport_step (Socket_open 0))) sample_attached)) =
     [(0, Attach 80 24 (Some (js ''abc'')) (Some True))]"
proof -
  let ?e = "Session_menu (Attach_to_session (js ''abc'') Watch)"
  have run: "sample_attached = client_run sample_host id True (?e # Commit sample_endpoints # []) sample_client"
    by (simp add: sample_attached_def)
  have id: "next_identity sample_host sample_client ?e (who (sess sample_client)) = (Some (js ''abc''), Watch)"
    by (simp add: next_identity_def)
  have "createAttachMessage (as_num 80) (as_num 24) (Some (js ''abc'')) (Some True) = Attach 80 24 (Some (js ''abc'')) (Some True)"
    by (simp add: createAttachMessage_def as_num_def DIMENSION_MIN_def DIMENSION_MAX_def)
  with identity_reaches_server [where es = "[]", OF _ run [unfolded sample_client_def] sample_attached_parts(1-3) id [unfolded sample_client_def]]
  show ?thesis by (simp add: sample_attached_parts del: client_run_step.simps)
qed

end
