(* ===== verification/Client_Runs.thy ===== *)
theory Client_Runs
  imports Client_Halves Client_Properties Session_Policies
begin

section \<open>Runs of the client\<close>

text \<open>
  What holds in every state a mounted client reaches, what an unmount releases, and what the font commands do.
\<close>

lemma reached_moves:
  assumes "Unmount \<notin> set es"
  shows "\<exists>es'. sess (client_reached H fit w es clock endpoint la sa) =
    session_run H es' (mount_session H clock (initialFontNotice H la) la sa)"
proof -
  let ?m = "mount_client H clock endpoint la sa"
  have "moved H (sess ?m) ?m" by (simp add: moved_def)
  then have "moved H (sess ?m) (client_run H fit w es ?m)" using assms by (rule moved_run)
  then show ?thesis by (simp add: moved_def session_moves_def client_reached_def mount_client_def Let_def)
qed

lemma reached_layer_ok:
  assumes "Unmount \<notin> set es" "initialFontNotice H la = []"
  shows "layer_ok {} (sess (client_reached H fit w es clock endpoint la sa))"
proof -
  obtain es' where "sess (client_reached H fit w es clock endpoint la sa) = session_run H es' (mount_session H clock [] la sa)"
    using reached_moves [OF assms(1)] assms(2) by metis
  then show ?thesis using session_run_ok [OF mount_ok] by simp
qed


lemma sample_no_notice: "initialFontNotice sample_host sample_access = []"
  by (simp add: initialFontNotice_def readInitialFontSizeState_def readInitialFontSizeResult_def sample_access_def sample_area_def
      withStorageErrorHandling_def getItem_def)




subsection \<open>Unmounting\<close>

lemma cleanup_parts [simp]:
  "socket (cleanupRuntime s) = socket s" "ready (cleanupRuntime s) = ready s" "sched (cleanupRuntime s) = sched s"
  "opened_urls (cleanupRuntime s) = opened_urls s" "termRef (cleanupRuntime s) = None" "terminalReady (cleanupRuntime s) = False"
  "hasActiveConnection (cleanupRuntime s) = hasActiveConnection s"
  by (simp_all add: cleanupRuntime_def disposeRuntime_def hasActiveConnection_def split: option.split)

lemma on_connection_calls [simp]: "hasActiveConnection (s\<lparr>session_calls := cs\<rparr>) = hasActiveConnection s"
  by (simp add: hasActiveConnection_def split: option.split)


text \<open>A client whose terminal became ready before it was told its endpoints.\<close>

definition sample_running :: client where
  "sample_running = client_reached sample_host id True
     [Connection (Setup_settled False (Inr \<lparr>term_cols = 80, term_rows = 24, term_font = 11, term_calls = []\<rparr>)), Commit sample_endpoints]
     0 None sample_access sample_access"


subsection \<open>The font commands\<close>

lemma local_reports [simp]:
  "localAccess (reportFailure H e s) = localAccess s" "localAccess (publishNoticeDetails H n s) = localAccess s"
  "localAccess (clearSessionNotice s) = localAccess s" "localAccess (snd (requestTransportRefresh s)) = localAccess s"
proof -
  show n: "localAccess (publishNoticeDetails H n t) = localAccess t" for n and t :: "'a session_layer_scheme"
    by (simp add: notice_defs Let_def case_prod_beta split: option.split)
  show "localAccess (clearSessionNotice s) = localAccess s"
    by (simp add: clearSessionNotice_def clear_notice_timer_def split: option.split)
  show "localAccess (reportFailure H e s) = localAccess s"
    by (simp add: notice_defs Let_def case_prod_beta split: option.split)
  show "localAccess (snd (requestTransportRefresh s)) = localAccess s"
    by (simp add: requestTransportRefresh_def scheduleTrailingTransportRefresh_def requestSessionRefresh_def launch_request_def
        abort_controller_def on_request_def Let_def case_prod_beta split: option.split)
qed

lemma local_delivered: "list_all harmless cs \<Longrightarrow> localAccess (fold (deliver_call H) cs s) = localAccess s"
proof (induction cs arbitrary: s)
  case (Cons call cs)
  then show ?case by (cases call) simp_all
qed simp

lemma font_applied:
  assumes keeps: "\<And>t. term_font (fit t) = term_font t"
  shows "map_option term_font (termRef (coordinator_run_step H fit rv (Font_size n) s)) = map_option (\<lambda>_. n) (termRef s)"
proof (cases "termRef s")
  case (Some t)
  then show ?thesis using keeps [of "t\<lparr>term_font := n\<rparr>"]
    by (simp add: updateFontSize_def fitAndSyncSize_def fitRuntimeAndSyncSize_def sendResize_def Let_def case_prod_beta)
qed (simp add: updateFontSize_def)

lemma apply_font_size:
  fixes H fit and m :: int and c :: client
  assumes keeps: "\<And>t. term_font (fit t) = term_font t" and calls: "session_calls (conn c) = []"
  defines "n \<equiv> clampFontSize m" and "c' \<equiv> applyFontSize H fit m c"
  shows "fontSizeRef c' = n" "fontSize c' = n"
    "map_option term_font (termRef (conn c')) = map_option (\<lambda>_. n) (termRef (conn c))"
    "localAccess (sess c') = localAccess (storeFontSize H n (sess c))"
proof -
  let ?b = "on_session (storeFontSize H n) (c\<lparr>fontSizeRef := n, fontSize := n\<rparr>)"
  let ?s = "coordinator_run_step H fit (view c) (Font_size n) (conn c)"
  have "list_all harmless (session_calls ?s)" using quietly_step [of H "Font_size n" "conn c" fit "view c"] calls by (simp add: quietly_def)
  then show "localAccess (sess c') = localAccess (storeFontSize H n (sess c))"
    by (simp add: c'_def n_def applyFontSize_def on_session_def on_connection_def Let_def local_delivered del: coordinator_run_step.simps)
  show "fontSizeRef c' = n" "fontSize c' = n"
    by (simp_all add: c'_def n_def applyFontSize_def on_session_def on_connection_def Let_def)
  show "map_option term_font (termRef (conn c')) = map_option (\<lambda>_. n) (termRef (conn c))"
    using font_applied [where fit = fit, OF keeps, of H "view c" n "conn c"]
    by (simp add: c'_def n_def applyFontSize_def on_session_def on_connection_def Let_def del: coordinator_run_step.simps)
qed

lemma stored_font:
  assumes "acc_storage (localAccess s) = Some st" "ws_readError st = None" "font_ok n"
    "ws_writeError st FONT_SIZE_STORAGE_KEY (js (int_digits n)) = None"
  shows "fst (readInitialFontSizeState (localAccess (storeFontSize H n s))) = n"
proof -
  let ?st' = "st\<lparr>ws_items := (ws_items st)(FONT_SIZE_STORAGE_KEY \<mapsto> js (int_digits n))\<rparr>"
  have w: "writeFontSizePreferenceResult (Some st) n = (None, Some ?st')"
    using assms(3,4) by (simp add: writeFontSizePreferenceResult_def withStorageErrorHandling_def setItem_def clamp_id)
  have n: "0 \<le> n" "n \<le> 22" using assms(3) by (simp_all add: font_ok_def FONT_SIZE_MIN_def FONT_SIZE_MAX_def)
  have "readInitialFontSizeResult (Some ?st') = (n, None)"
    using stored_number [OF n(1) overflow_above [OF n(2)], of ?st'] assms(2,3) by (simp add: clamp_id)
  then show ?thesis using assms(1) w
    by (simp add: storeFontSize_def resolveStorageAccess_def reportFailure_def set_local_def readInitialFontSizeState_def Let_def
       split: option.split)
qed

fun font_target :: "shortcut_action \<Rightarrow> int \<Rightarrow> int" where
  "font_target Decrease_font n = max FONT_SIZE_MIN (n - 1)"
| "font_target Increase_font n = min FONT_SIZE_MAX (n + 1)"
| "font_target _ n = DEFAULT_FONT_SIZE"

lemma run_command_eq:
  "runCommand H fit k c = (if k = Reconnect_command \<or> k = Clear_command then runtimeCommandHandlers H k c else viewportCommandHandlers H fit k c)"
  by (simp add: runCommand_def manifest_built manifest_dispatch)



lemma local_mounted [simp]: "localAccess (mount_session H clock n la sa) = la"
  by (simp add: mount_session_def load_session_id_def load_last_session_id_def load_session_history_def initial_notice_effect_def
      resolveStorageAccess_def initialSession_def Let_def case_prod_beta split: option.split)


end
