(* ===== verification/Interface_Properties.thy ===== *)
theory Interface_Properties
  imports Components Client_Runs
begin

section \<open>Properties of the interface\<close>

text \<open>
  What the buttons offer is what the client can do: the session menu attaches only to live sessions and in the mode
  they allow, the font buttons are enabled exactly while they change something, the status bar renames only what it may,
  and the terminal is shown only after its environment is authenticated.
\<close>

subsection \<open>The session menu\<close>

lemma menu_rows:
  assumes "row \<in> set (sm_liveRows (sessionMenuModel clock i))"
  shows "vi_sessionId i \<noteq> Some (lr_id row) \<and>
    (\<exists>l \<in> set (vi_liveSessions i). ss_id l = lr_id row \<and> (lr_mode row = Control \<longleftrightarrow> ss_canControl l))"
proof -
  obtain cs seen where loop:
    "live_loop (vi_sessionId i) (sort_key (\<lambda>l. - int (ss_lastActivityMs l)) (vi_liveSessions i)) [] = (cs, seen)" by fastforce
  then have "sm_liveRows (sessionMenuModel clock i) = map (sessionMenuLiveRow clock) cs"
    by (simp add: sessionMenuModel_def deriveSessionCandidates_def Let_def)
  with assms obtain k where k: "k \<in> set cs" "row = sessionMenuLiveRow clock k" by auto
  then have row: "lr_id row = sc_id k" "lr_mode row = sc_mode k"
    by (simp_all add: sessionMenuLiveRow_def presentSessionCandidate_def Let_def)
  obtain l where l: "l \<in> set (vi_liveSessions i)" "k = as_candidate l" using live_loop_spec(4) [OF loop] k(1) by auto
  have "sc_id k \<notin> set_option (vi_sessionId i)" using live_loop_spec(3) [OF loop] k(1) by blast
  then show ?thesis using row l by (auto simp: as_candidate_def)
qed

lemma menu_offers:
  assumes "menu_click H searchQuery f (sessionMenuModel clock i) b = Some action"
  shows "vi_sessionMenuOpen i" "vi_terminalReady i"
    "case b of
       New_session_button \<Rightarrow> action = Start_fresh_session
     | Resume_last_button \<Rightarrow> action = Resume_last_session \<and> vi_lastSessionId i \<noteq> None
     | Live_session_button n \<Rightarrow> \<exists>l \<in> set (vi_liveSessions i). vi_sessionId i \<noteq> Some (ss_id l) \<and>
         action = Attach_to_session (ss_id l) (if ss_canControl l then Control else Watch)"
proof -
  let ?m = "sessionMenuModel clock i"
  have m: "sm_sessionMenuOpen ?m = vi_sessionMenuOpen i" "sm_terminalReady ?m = vi_terminalReady i"
    "sm_canResumeLast ?m = (vi_lastSessionId i \<noteq> None)"
    by (simp_all add: sessionMenuModel_def case_prod_beta)
  have rows: "set (filteredLiveRows H searchQuery f ?m) \<subseteq> set (sm_liveRows ?m)" by (auto simp: filteredLiveRows_def)
  show "vi_sessionMenuOpen i" "vi_terminalReady i" using assms m
    by (auto simp: menu_click_def Let_def split: if_splits menu_button.splits)
  show "case b of New_session_button \<Rightarrow> action = Start_fresh_session
     | Resume_last_button \<Rightarrow> action = Resume_last_session \<and> vi_lastSessionId i \<noteq> None
     | Live_session_button n \<Rightarrow> \<exists>l \<in> set (vi_liveSessions i). vi_sessionId i \<noteq> Some (ss_id l) \<and>
         action = Attach_to_session (ss_id l) (if ss_canControl l then Control else Watch)"
  proof (cases b)
    case (Live_session_button n)
    let ?row = "filteredLiveRows H searchQuery f ?m ! n"
    have a: "action = Attach_to_session (lr_id ?row) (lr_mode ?row)" "n < length (filteredLiveRows H searchQuery f ?m)"
      using assms m Live_session_button by (auto simp: menu_click_def Let_def split: if_splits)
    then have "?row \<in> set (sm_liveRows ?m)" using rows nth_mem by blast
    from menu_rows [OF this] obtain l where l: "l \<in> set (vi_liveSessions i)" "ss_id l = lr_id ?row"
      "lr_mode ?row = Control \<longleftrightarrow> ss_canControl l" "vi_sessionId i \<noteq> Some (lr_id ?row)" by blast
    then have "action = Attach_to_session (ss_id l) (if ss_canControl l then Control else Watch)"
      using a(1) by (cases "lr_mode ?row") auto
    moreover have "vi_sessionId i \<noteq> Some (ss_id l)" using l(2,4) by simp
    ultimately show ?thesis unfolding Live_session_button menu_button.case using l(1) by blast
  qed (use assms m in \<open>auto simp: menu_click_def split: if_splits\<close>)
qed

text \<open>A session row of the menu that can be clicked attaches to a session that is live and is not the current one, as its
  controller exactly when the server says it can be controlled and as a watcher otherwise; while the terminal is loading or
  the menu is closed no click does anything.\<close>

theorem menu_attaches_to_live_sessions:
  assumes "menu_click H searchQuery f (sessionMenuModel clock i) b = Some action"
  shows "vi_sessionMenuOpen i \<and> vi_terminalReady i \<and>
    (case action of
       Attach_to_session sid m \<Rightarrow> vi_sessionId i \<noteq> Some sid \<and>
         (\<exists>l \<in> set (vi_liveSessions i). ss_id l = sid \<and> (m = Control \<longleftrightarrow> ss_canControl l))
     | Resume_last_session \<Rightarrow> vi_lastSessionId i \<noteq> None
     | Start_fresh_session \<Rightarrow> True)"
  using menu_offers [OF assms] by (cases b) auto

definition sample_session :: session_snapshot where
  "sample_session =
     \<lparr>ss_id = js ''s1'', ss_hasController = True, ss_canControl = False, ss_watchers = 0, ss_createdAtMs = 1, ss_lastActivityMs = 5,
      ss_command = None, ss_name = None\<rparr>"

definition sample_input :: view_input where
  "sample_input =
     \<lparr>vi_controlsOpen = True, vi_fontSize = 11, vi_isFullscreen = False, vi_sessionMenuOpen = True, vi_lastSessionId = None,
      vi_sessionNotice = [], vi_liveSessions = [sample_session], vi_sessionId = None, vi_sessionHistoryIds = [],
      vi_attachMode = Control, vi_terminalReady = True, vi_status = Connected, vi_latencyMs = None, vi_reconnectAttempt = 0,
      vi_queuedInputBytes = 0, vi_droppedInputBytes = 0, vi_outputBytes = 0\<rparr>"

theorem menu_attaches_to_live_sessions_witness:
  "menu_click sample_host [] Filter_all (sessionMenuModel 9 sample_input) (Live_session_button 0) =
     Some (Attach_to_session (js ''s1'') Watch) \<and> vi_terminalReady sample_input"
proof -
  have "menu_click sample_host [] Filter_all (sessionMenuModel 9 sample_input) (Live_session_button 0) =
      Some (Attach_to_session (js ''s1'') Watch)"
    by (simp add: menu_click_def sessionMenuModel_def deriveSessionCandidates_def fallback_history_def sample_input_def
        sample_session_def as_candidate_def sessionMenuLiveRow_def presentSessionCandidate_def filteredLiveRows_def
        matchesSessionSearch_def normalizedQuery_def sample_host_def Let_def)
  from menu_attaches_to_live_sessions [OF this] this show ?thesis by blast
qed

subsection \<open>The floating controls\<close>

lemma floating_click_iff:
  assumes "buildFloatingControlLookup (buildFloatingControlCatalog FLOATING_CONTROL_REGISTRY) = Inr l"
  shows "(\<exists>n. floating_click l m n = Some k) \<longleftrightarrow> fst m \<and> (\<exists>key. (k, key) \<in> set floating_rows \<and> \<not> isDisabled key (snd m))"
proof -
  have entry: "(fst e, snd (snd e)) \<in> set floating_rows" if "e \<in> set FLOATING_CONTROL_REGISTRY" for e
    using imageI [OF that, of "\<lambda>(a, t, y). (a, y)"] unfolding floating_registry [symmetric] by (simp add: case_prod_beta)
  have click: "floating_click l m n = Some k \<longleftrightarrow> fst m \<and> n < length FLOATING_CONTROL_REGISTRY \<and>
      \<not> isDisabled (snd (snd (FLOATING_CONTROL_REGISTRY ! n))) (snd m) \<and> fst (FLOATING_CONTROL_REGISTRY ! n) = k" for n
  proof (cases "n < length FLOATING_CONTROL_REGISTRY")
    case True
    then have "floatingControlPolicy l (fst (FLOATING_CONTROL_REGISTRY ! n)) = Inr (snd (snd (FLOATING_CONTROL_REGISTRY ! n)))"
      by (intro floating_controls_built(1) [OF assms] entry) simp
    then show ?thesis using True by (simp add: floating_click_def case_prod_beta)
  qed (simp add: floating_click_def)
  have "\<exists>n < length FLOATING_CONTROL_REGISTRY. fst (FLOATING_CONTROL_REGISTRY ! n) = k \<and>
      snd (snd (FLOATING_CONTROL_REGISTRY ! n)) = key" if "(k, key) \<in> set floating_rows" for key
    using that unfolding floating_registry [symmetric] by (force simp: in_set_conv_nth)
  moreover have "(fst (FLOATING_CONTROL_REGISTRY ! n), snd (snd (FLOATING_CONTROL_REGISTRY ! n))) \<in> set floating_rows"
    if "n < length FLOATING_CONTROL_REGISTRY" for n using entry that by simp
  ultimately show ?thesis unfolding click by blast
qed

text \<open>While the controls are open and the terminal is ready, a font button can be clicked exactly when its command would
  change the font size; otherwise none can.  So no click on them is without effect, and the keyboard shortcuts are
  the only way to ask for a size that is already there.\<close>

theorem font_buttons_enabled_iff_effective:
  assumes "buildFloatingControlLookup (buildFloatingControlCatalog FLOATING_CONTROL_REGISTRY) = Inr l"
    "FONT_SIZE_MIN \<le> vi_fontSize i" "vi_fontSize i \<le> FONT_SIZE_MAX" "k \<in> {Decrease_font, Increase_font, Reset_font}"
  shows "(\<exists>n. floating_click l (floatingControlsModel i) n = Some k) \<longleftrightarrow>
    vi_controlsOpen i \<and> vi_terminalReady i \<and> font_target k (vi_fontSize i) \<noteq> vi_fontSize i"
  unfolding floating_click_iff [OF assms(1)] using assms(2-4)
  by (auto simp: floating_rows_def floatingControlsModel_def FONT_SIZE_MIN_def FONT_SIZE_MAX_def DEFAULT_FONT_SIZE_def)

theorem font_buttons_enabled_iff_effective_witness:
  "case buildFloatingControlLookup (buildFloatingControlCatalog FLOATING_CONTROL_REGISTRY) of
     Inl _ \<Rightarrow> False
   | Inr l \<Rightarrow> (\<exists>n. floating_click l (floatingControlsModel sample_input) n = Some Increase_font) \<and>
       \<not> (\<exists>n. floating_click l (floatingControlsModel sample_input) n = Some Decrease_font)"
  using font_buttons_enabled_iff_effective [OF floating_lookup, of sample_input Increase_font]
    font_buttons_enabled_iff_effective [OF floating_lookup, of sample_input Decrease_font]
  by (simp add: floating_lookup sample_input_def FONT_SIZE_MIN_def FONT_SIZE_MAX_def)

subsection \<open>Authentication\<close>

text \<open>The active run, as long as it is not settled, is a run for the present environment.\<close>

definition app_ok :: "terminal_app \<Rightarrow> bool" where
  "app_ok a \<longleftrightarrow>
     (\<forall>k env. authRuns a k = Some env \<longrightarrow> k < nextRun a) \<and>
     (\<forall>k env. activeRun a = Some k \<longrightarrow> authRuns a k = Some env \<longrightarrow> env = effectiveEnvironment a)"

lemma app_ok_effect: "app_ok (a\<lparr>activeRun := None\<rparr>) \<Longrightarrow> app_ok (auth_effect hasAuth a)"
  by (auto simp: app_ok_def auth_effect_def less_Suc_eq)

lemma app_ok_settle: "app_ok a \<Longrightarrow> app_ok (settle_auth k r a)"
  by (auto simp: app_ok_def settle_auth_def Let_def split: option.split)

lemma app_ok_step: "app_ok a \<Longrightarrow> app_ok (app_step hasAuth e a)"
  by (cases e) (auto simp: app_ok_settle intro!: app_ok_effect, auto simp: app_ok_def)

definition app_reached :: "(nat \<Rightarrow> bool) \<Rightarrow> nat \<Rightarrow> app_event list \<Rightarrow> terminal_app" where
  "app_reached hasAuth env0 es = fold (app_step hasAuth) es (mount_app hasAuth env0)"

lemma app_reached_snoc: "app_reached hasAuth env0 (es @ [e]) = app_step hasAuth e (app_reached hasAuth env0 es)"
  by (simp add: app_reached_def)

lemma app_reached_ok: "app_ok (app_reached hasAuth env0 es)"
proof (induction es rule: rev_induct)
  case Nil
  show ?case unfolding app_reached_def mount_app_def fold.simps id_apply by (rule app_ok_effect) (simp add: app_ok_def)
qed (simp add: app_reached_snoc app_ok_step)

lemma auth_effect_state [simp]:
  "authBootstrapState (auth_effect hasAuth a) = authBootstrapState a"
  "effectiveEnvironment (auth_effect hasAuth a) = effectiveEnvironment a"
  by (simp_all add: auth_effect_def)

lemma settle_auth_parts [simp]: "effectiveEnvironment (settle_auth k r a) = effectiveEnvironment a"
  by (simp add: settle_auth_def Let_def split: option.split)

lemma ready_after_success:
  "ab_authStatus (authBootstrapState (app_reached hasAuth env0 es)) = Auth_ready \<Longrightarrow>
   ab_environment (authBootstrapState (app_reached hasAuth env0 es)) = env \<Longrightarrow> hasAuth env \<Longrightarrow>
   \<exists>es1 k es2. es = es1 @ Auth_resolved k # es2 \<and> activeRun (app_reached hasAuth env0 es1) = Some k \<and>
     authRuns (app_reached hasAuth env0 es1) k = Some env"
proof (induction es rule: rev_induct)
  case Nil
  then show ?case by (simp add: app_reached_def mount_app_def split: if_splits)
next
  case (snoc e es)
  let ?a = "app_reached hasAuth env0 es"
  have later: "?case" if "authBootstrapState (app_step hasAuth e ?a) = authBootstrapState ?a"
    using snoc that unfolding app_reached_snoc by (metis append.assoc append_Cons)
  show ?case
  proof (cases "authBootstrapState (app_step hasAuth e ?a) = authBootstrapState ?a")
    case False
    then obtain k where e: "e = Auth_resolved k" "activeRun ?a = Some k" "authRuns ?a k = Some env"
      using snoc.prems(1,2) unfolding app_reached_snoc
      by (cases e) (auto simp: settle_auth_def Let_def split: option.splits if_splits)
    then show ?thesis by (intro exI [of _ es] exI [of _ k] exI [of _ "[]"]) simp
  qed (rule later)
qed

text \<open>The terminal of an environment that asks for authentication is shown only after an authentication begun for this
  very environment succeeded while it was the active one; the answer of a run that is no longer active changes nothing on the
  screen, and the success of the active one shows the terminal.\<close>

theorem terminal_shown_only_after_auth:
  "(app_view hasAuth (app_reached hasAuth env0 es) = Terminal_shell env \<and> hasAuth env \<longrightarrow>
      (\<exists>es1 k es2. es = es1 @ Auth_resolved k # es2 \<and> activeRun (app_reached hasAuth env0 es1) = Some k \<and>
        authRuns (app_reached hasAuth env0 es1) k = Some env)) \<and>
   (activeRun (app_reached hasAuth env0 es) \<noteq> Some k \<longrightarrow>
      app_view hasAuth (app_step hasAuth (Auth_resolved k) (app_reached hasAuth env0 es)) =
      app_view hasAuth (app_reached hasAuth env0 es)) \<and>
   (activeRun (app_reached hasAuth env0 es) = Some k \<and> authRuns (app_reached hasAuth env0 es) k \<noteq> None \<longrightarrow>
      app_view hasAuth (app_step hasAuth (Auth_resolved k) (app_reached hasAuth env0 es)) =
      Terminal_shell (effectiveEnvironment (app_reached hasAuth env0 es)))"
proof (intro conjI impI)
  let ?a = "app_reached hasAuth env0 es"
  assume shown: "app_view hasAuth ?a = Terminal_shell env \<and> hasAuth env"
  then have "ab_authStatus (authBootstrapState ?a) = Auth_ready" "ab_environment (authBootstrapState ?a) = env"
    by (auto simp: app_view_def Let_def split: if_splits)
  then show "\<exists>es1 k es2. es = es1 @ Auth_resolved k # es2 \<and> activeRun (app_reached hasAuth env0 es1) = Some k \<and>
      authRuns (app_reached hasAuth env0 es1) k = Some env"
    using ready_after_success shown by blast
next
  let ?a = "app_reached hasAuth env0 es"
  assume "activeRun ?a \<noteq> Some k"
  then show "app_view hasAuth (app_step hasAuth (Auth_resolved k) ?a) = app_view hasAuth ?a"
    by (simp add: app_view_def settle_auth_def Let_def split: option.split)
next
  let ?a = "app_reached hasAuth env0 es"
  assume k: "activeRun ?a = Some k \<and> authRuns ?a k \<noteq> None"
  then have "authRuns ?a k = Some (effectiveEnvironment ?a)"
    using app_reached_ok [of hasAuth env0 es] unfolding app_ok_def by blast
  then show "app_view hasAuth (app_step hasAuth (Auth_resolved k) ?a) = Terminal_shell (effectiveEnvironment ?a)"
    using k by (simp add: app_view_def settle_auth_def Let_def)
qed

theorem terminal_shown_only_after_auth_witness:
  "app_view (\<lambda>_. True) (app_reached (\<lambda>_. True) 0 [App_environment 1, Auth_resolved 0]) = Bootstrap_message establishing \<and>
   app_view (\<lambda>_. True) (app_step (\<lambda>_. True) (Auth_resolved 1) (app_reached (\<lambda>_. True) 0 [App_environment 1, Auth_resolved 0])) =
     Terminal_shell 1"
proof -
  have a: "activeRun (app_reached (\<lambda>_. True) 0 [App_environment 1, Auth_resolved 0]) = Some 1"
    "authRuns (app_reached (\<lambda>_. True) 0 [App_environment 1, Auth_resolved 0]) 1 \<noteq> None"
    "effectiveEnvironment (app_reached (\<lambda>_. True) 0 [App_environment 1, Auth_resolved 0]) = 1"
    "app_view (\<lambda>_. True) (app_reached (\<lambda>_. True) 0 [App_environment 1, Auth_resolved 0]) = Bootstrap_message establishing"
    by (simp_all add: app_reached_def mount_app_def auth_effect_def settle_auth_def app_view_def Let_def)
  then show ?thesis
    using terminal_shown_only_after_auth [of "\<lambda>_. True" 0 "[App_environment 1, Auth_resolved 0]" 1 1] by simp
qed

subsection \<open>Stripped texts\<close>

lemma stripped:
  fixes P :: "'a \<Rightarrow> bool"
  defines "strip \<equiv> \<lambda>s. rev (dropWhile P (rev (dropWhile P s)))"
  shows "strip s \<noteq> [] \<Longrightarrow> \<not> P (hd (strip s)) \<and> \<not> P (last (strip s))" "\<exists>a b. s = a @ strip s @ b" "strip (strip s) = strip s"
proof -
  let ?t = "dropWhile P s" and ?r = "dropWhile P (rev (dropWhile P s))"
  have e: "strip x = rev (dropWhile P (rev (dropWhile P x)))" for x by (simp add: strip_def)
  have t: "?t = strip s @ rev (takeWhile P (rev ?t))"
    unfolding strip_def by (metis rev_append rev_rev_ident takeWhile_dropWhile_id)
  have ends: "\<not> P (hd (strip s)) \<and> \<not> P (last (strip s))" if ne: "strip s \<noteq> []" for s
  proof -
    have "rev (dropWhile P s) = takeWhile P (rev (dropWhile P s)) @ dropWhile P (rev (dropWhile P s))" by simp
    then have t: "dropWhile P s = strip s @ rev (takeWhile P (rev (dropWhile P s)))"
      unfolding strip_def by (metis rev_append rev_rev_ident)
    then have "dropWhile P s \<noteq> []" "hd (dropWhile P s) = hd (strip s)" using ne by (metis Nil_is_append_conv, metis hd_append2)
    moreover have "last (strip s) = hd (dropWhile P (rev (dropWhile P s)))" using ne by (simp add: strip_def last_rev)
    moreover have "dropWhile P (rev (dropWhile P s)) \<noteq> []" using ne by (simp add: strip_def)
    ultimately show ?thesis using hd_dropWhile [of P s] hd_dropWhile [of P "rev (dropWhile P s)"] by metis
  qed
  then show "strip s \<noteq> [] \<Longrightarrow> \<not> P (hd (strip s)) \<and> \<not> P (last (strip s))" by blast
  show "\<exists>a b. s = a @ strip s @ b" using t takeWhile_dropWhile_id [of P s] by metis
  show "strip (strip s) = strip s"
  proof (cases "strip s = []")
    case False
    have "dropWhile P (strip s) = strip s" using ends [OF False] by (cases "strip s") auto
    moreover have "dropWhile P (rev (strip s)) = rev (strip s)" using ends [OF False] False
      by (cases "rev (strip s)") (auto simp: last_rev hd_rev)
    ultimately show ?thesis using e [of "strip s"] by simp
  qed (use e [of "[]"] in simp)
qed

lemma trim_trim: "trim (trim s) = trim s"
  unfolding trim_def by (rule stripped(3))

lemma dash_runs_shape:
  "list_all (\<lambda>u. filename_unit u \<or> u = 45) (dash_runs s) \<and> successively (\<lambda>a b. a \<noteq> 45 \<or> b \<noteq> 45) (dash_runs s) \<and>
   (s \<noteq> [] \<longrightarrow> dash_runs s \<noteq> [] \<and> (filename_unit (hd s) \<longrightarrow> hd (dash_runs s) = hd s))"
proof (induction s)
  case (Cons u us)
  have "\<not> filename_unit 45" by (simp add: filename_unit_def)
  then show ?case using Cons.IH by (cases us) (auto simp: successively_Cons)
qed simp

text \<open>Whatever a session is called, the name of the file its transcript is downloaded to is made of lower-case ASCII letters, digits
  and single dashes, begins and ends with a letter or digit, and is never empty.\<close>

theorem transcript_filename_is_safe:
  "let p = normalizeTranscriptFilenamePart H v
   in p \<noteq> [] \<and> list_all (\<lambda>u. filename_unit u \<or> u = 45) p \<and> filename_unit (hd p) \<and> filename_unit (last p) \<and>
      successively (\<lambda>a b. a \<noteq> 45 \<or> b \<noteq> 45) p"
proof -
  let ?d = "dash_runs (lower_case H (trim (case v of None \<Rightarrow> js ''terminal'' | Some t \<Rightarrow> t)))"
  obtain a b where split: "?d = a @ strip_dashes ?d @ b" unfolding strip_dashes_def using stripped(2) by metis
  have shape: "list_all (\<lambda>u. filename_unit u \<or> u = 45) (a @ strip_dashes ?d @ b)"
    "successively (\<lambda>a b. a \<noteq> 45 \<or> b \<noteq> 45) (a @ strip_dashes ?d @ b)"
    unfolding split [symmetric] using dash_runs_shape by blast+
  have all: "list_all (\<lambda>u. filename_unit u \<or> u = 45) (strip_dashes ?d)"
    using shape by simp
  have one: "successively (\<lambda>a b. a \<noteq> 45 \<or> b \<noteq> 45) (strip_dashes ?d)"
    using shape by (simp add: successively_append_iff)
  have default: "list_all filename_unit (js ''terminal'')" "successively (\<lambda>a b. a \<noteq> 45 \<or> b \<noteq> 45) (js ''terminal'')"
    by code_simp+
  show ?thesis
  proof (cases "strip_dashes ?d = []")
    case True
    then show ?thesis using default by (simp add: normalizeTranscriptFilenamePart_def Let_def list_all_iff js_def)
  next
    case False
    then have "hd (strip_dashes ?d) \<noteq> 45 \<and> last (strip_dashes ?d) \<noteq> 45" unfolding strip_dashes_def by (rule stripped(1))
    moreover have "hd (strip_dashes ?d) \<in> set (strip_dashes ?d)" "last (strip_dashes ?d) \<in> set (strip_dashes ?d)" using False by simp_all
    ultimately have "filename_unit (hd (strip_dashes ?d)) \<and> filename_unit (last (strip_dashes ?d))"
      using all unfolding list_all_iff by blast
    then show ?thesis using False all one by (simp add: normalizeTranscriptFilenamePart_def Let_def)
  qed
qed

subsection \<open>The status bar\<close>

definition rename_allowed :: "status_bar_model \<Rightarrow> bool" where
  "rename_allowed m \<longleftrightarrow> nonempty (sb_sessionName m) \<and> sb_attachMode m = Control"

definition copy_ok :: "status_bar \<Rightarrow> bool" where
  "copy_ok b \<longleftrightarrow> pending (copyTimers b) = (\<lambda>h. if copyResetTimer b = Some h then Some ((), False) else None) \<and>
     (copyConfirmed b \<longrightarrow> copyResetTimer b \<noteq> None)"

lemma bar_step:
  assumes "status_bar_step m e b = (action, b')"
  shows "action = Some (Rename_session name) \<Longrightarrow> renaming b \<and> name \<noteq> [] \<and> trim name = name"
    "renaming b' \<Longrightarrow> renaming b \<or> e = Click_rename \<and> rename_allowed m"
  using assms by (cases e; auto simp: commitRename_def startRenaming_def rename_allowed_def scheduleCopyFeedbackReset_def Let_def
      trim_trim split: if_splits option.splits prod.splits attach_mode.split; metis attach_mode.exhaust)+

lemma bar_copy:
  assumes "copy_ok b" "status_bar_step m e b = (action, b')"
  shows "copy_ok b'"
proof (cases e)
  case Copied
  let ?sc = "case copyResetTimer b of None \<Rightarrow> copyTimers b | Some h \<Rightarrow> clearTimeout h (copyTimers b)"
  obtain h sc where set: "setTimeout () 1400 ?sc = (h, sc)" by fastforce
  have "pending ?sc = Map.empty"
    using assms(1) by (auto simp: copy_ok_def browser.clear_law split: option.split)
  then have "pending sc = (\<lambda>k. if Some h = Some k then Some ((), False) else None)"
    using browser.set_timeout_law [OF set] by (auto simp: fun_eq_iff)
  then show ?thesis using assms(2) Copied set
    by (cases "copyResetTimer b") (auto simp: scheduleCopyFeedbackReset_def copy_ok_def Let_def)
next
  case (Copy_timer h)
  show ?thesis
  proof (cases "fire h (copyTimers b)")
    case (Some r)
    obtain t sc where r: "fire h (copyTimers b) = Some (t, sc)" using Some by (cases r) simp
    then have "pending sc = Map.empty"
      using browser.fire_law [OF r] assms(1) by (auto simp: copy_ok_def split: if_splits)
    then show ?thesis using assms(2) Copy_timer r by (auto simp: copy_ok_def)
  qed (use assms Copy_timer in simp)
qed (use assms in \<open>auto simp: copy_ok_def commitRename_def startRenaming_def Let_def split: if_splits\<close>)

lemma bar_run:
  "status_bar_run es b = (actions, b') \<Longrightarrow> copy_ok b \<Longrightarrow> copy_ok b' \<and>
   (\<forall>name. Rename_session name \<in> set actions \<longrightarrow> name \<noteq> [] \<and> trim name = name \<and>
     (renaming b \<or> (\<exists>(m, e) \<in> set es. e = Click_rename \<and> rename_allowed m)))"
proof (induction es arbitrary: b actions)
  case (Cons x es)
  obtain m e where x: "x = (m, e)" by fastforce
  obtain a b1 where step: "status_bar_step m e b = (a, b1)" by fastforce
  obtain as where rest: "status_bar_run es b1 = (as, b')" "actions = (case a of None \<Rightarrow> [] | Some y \<Rightarrow> [y]) @ as"
    using Cons.prems(1) step x by (auto split: prod.splits)
  have ih: "copy_ok b'" "\<And>name. Rename_session name \<in> set as \<Longrightarrow> name \<noteq> [] \<and> trim name = name \<and>
      (renaming b1 \<or> (\<exists>(m, e) \<in> set es. e = Click_rename \<and> rename_allowed m))"
    using Cons.IH [OF rest(1) bar_copy [OF Cons.prems(2) step]] by blast+
  have "name \<noteq> [] \<and> trim name = name \<and> (renaming b \<or> (\<exists>(m, e) \<in> set (x # es). e = Click_rename \<and> rename_allowed m))"
    if n: "Rename_session name \<in> set actions" for name
  proof (cases "a = Some (Rename_session name)")
    case True
    then show ?thesis using bar_step(1) [OF step True] by blast
  next
    case False
    then have "Rename_session name \<in> set as" using n rest(2) by (auto split: option.splits)
    then show ?thesis using ih(2) bar_step(2) [OF step] x by fastforce
  qed
  then show ?case using ih(1) by blast
qed simp

text \<open>C35: Over any run of clicks, keys, clipboard answers and renders, the status bar asks for a rename only with a trimmed, non-empty
  name and only after the user began to rename a named session that he controlled; and its one timer, live exactly while
  its field holds it, is always there to take back the confirmation of a copy, and gone when the bar is unmounted.\<close>

theorem status_bar_is_well_behaved:
  assumes "status_bar_run es (initial_status_bar clock) = (actions, b)"
  shows "(\<forall>name. Rename_session name \<in> set actions \<longrightarrow> name \<noteq> [] \<and> trim name = name \<and>
      (\<exists>(m, e) \<in> set es. e = Click_rename \<and> nonempty (sb_sessionName m) \<and> sb_attachMode m = Control)) \<and>
    pending (copyTimers b) = (\<lambda>h. if copyResetTimer b = Some h then Some ((), False) else None) \<and>
    (copyConfirmed b \<longrightarrow> copyResetTimer b \<noteq> None) \<and> pending (copyTimers (unmountStatusBar b)) = Map.empty"
proof -
  have gone: "pending (copyTimers b) = (\<lambda>h. if copyResetTimer b = Some h then Some ((), False) else None) \<Longrightarrow>
      pending (copyTimers (unmountStatusBar b)) = Map.empty"
    by (cases "copyResetTimer b") (auto simp: unmountStatusBar_def browser.clear_law fun_eq_iff)
  have "copy_ok (initial_status_bar clock)" "\<not> renaming (initial_status_bar clock)"
    by (simp_all add: copy_ok_def initial_status_bar_def pending_def new_scheduler_def fun_eq_iff)
  then show ?thesis using bar_run [OF assms] gone unfolding copy_ok_def rename_allowed_def by simp
qed

definition sample_bar_events :: "(status_bar_model \<times> status_bar_event) list" where
  "sample_bar_events =
     (let m = (statusBarModel sample_input)\<lparr>sb_sessionName := Some (js ''s1''), sb_sessionDisplay := js ''s1''\<rparr>
      in [(m, Click_rename), (m, Draft_changed (js '' build '')), (m, Copied), (m, Key_enter)])"

theorem status_bar_is_well_behaved_witness:
  "fst (status_bar_run sample_bar_events (initial_status_bar 0)) = [Rename_session (js ''build'')] \<and>
   copyResetTimer (snd (status_bar_run sample_bar_events (initial_status_bar 0))) \<noteq> None"
proof -
  have t: "trim (js '' build '') = js ''build''" by code_simp
  have run: "fst (status_bar_run sample_bar_events (initial_status_bar 0)) = [Rename_session (js ''build'')]"
    by (simp add: sample_bar_events_def startRenaming_def nonempty_def statusBarModel_def sample_input_def initial_status_bar_def
        commitRename_def t scheduleCopyFeedbackReset_def case_prod_beta Let_def)
  have copied: "copyConfirmed (snd (status_bar_run sample_bar_events (initial_status_bar 0)))"
    by (simp add: sample_bar_events_def startRenaming_def nonempty_def statusBarModel_def sample_input_def initial_status_bar_def
        commitRename_def scheduleCopyFeedbackReset_def case_prod_beta Let_def)
  show ?thesis using run copied status_bar_is_well_behaved [OF surjective_pairing, of sample_bar_events 0] by blast
qed

end
