(* ===== verification/Dom_Bindings.thy ===== *)
theory Dom_Bindings
  imports Components
begin

section \<open>Bindings to the document\<close>

text \<open>
  \<open>app/bindings/document-bindings.ts\<close>, \<open>app/bindings/window-bindings.ts\<close>, \<open>app/bindings/shortcut-binding.ts\<close>,
  the lazy loader of \<open>runtime/xterm-runtime.ts\<close> and \<open>bootstrap/runtime-loader.ts\<close>, \<open>runtime/terminal-theme.ts\<close> and the
  shortcuts listed by \<open>components/AboutDialog.tsx\<close>.  An element of the document is what the code asks of it.
\<close>

subsection \<open>Targets of events\<close>

record dom_target =
  dt_isNode :: bool
  dt_isHtmlElement :: bool
  dt_isContentEditable :: bool
  dt_insideEditable :: bool
  dt_tagName :: jsstring
  dt_inTerminal :: bool
  dt_inSessionMenu :: bool
  dt_inSessionButton :: bool

definition targetIsEditable :: "dom_target \<Rightarrow> bool" where
  "targetIsEditable t \<longleftrightarrow>
     dt_isHtmlElement t \<and>
     (dt_isContentEditable t \<or> dt_insideEditable t \<or> dt_tagName t \<in> {js ''INPUT'', js ''TEXTAREA'', js ''SELECT''})"

text \<open>The event the key handler of \<open>Commands\<close> sees, from the target and the keys.\<close>

definition key_event_of :: "dom_target \<Rightarrow> bool \<Rightarrow> bool \<Rightarrow> bool \<Rightarrow> jsstring \<Rightarrow> bool \<Rightarrow> key_event" where
  "key_event_of t ctrl meta shift code composing =
     \<lparr>key_ctrl = ctrl, key_meta = meta, key_shift = shift, key_code = code, key_isComposing = composing,
      key_targetIsEditable = targetIsEditable t, key_targetInTerminal = (dt_isNode t \<and> dt_inTerminal t)\<rparr>"

subsection \<open>Dismissing the session menu\<close>

datatype dismiss_event = Pointer_down dom_target | Document_key jsstring

text \<open>Whether the event closes the menu; the binding is there only while the menu is open.\<close>

fun dismisses :: "bool \<Rightarrow> dismiss_event \<Rightarrow> bool" where
  "dismisses menuOpen (Pointer_down t) \<longleftrightarrow> menuOpen \<and> dt_isNode t \<and> \<not> dt_inSessionMenu t \<and> \<not> dt_inSessionButton t"
| "dismisses menuOpen (Document_key key) \<longleftrightarrow> menuOpen \<and> key = js ''Escape''"

definition dismiss_step :: "host \<Rightarrow> (terminal \<Rightarrow> terminal) \<Rightarrow> bool \<Rightarrow> dismiss_event \<Rightarrow> client \<Rightarrow> client" where
  "dismiss_step H fit w e c =
     (if dismisses (menuDep c = Some True) e then client_run_step H fit w Close_session_menu c else c)"

text \<open>
  The focus: opening the menu moves it to the search field, if there is one; the clean-up gives it back to the element
  that had it, when that is an HTML element still in the document and the focus is on the body or within the menu.
  Elements are numbers, and nothing may have the focus.
\<close>

record focus_state =
  activeElement :: "nat option"
  htmlElements :: "nat set"
  connected :: "nat set"
  bodyElement :: nat
  menuElements :: "nat set"

definition focus_menu :: "nat option \<Rightarrow> focus_state \<Rightarrow> nat option \<times> focus_state" where
  "focus_menu searchField s =
     (activeElement s, case searchField of None \<Rightarrow> s | Some e \<Rightarrow> s\<lparr>activeElement := Some e\<rparr>)"

definition restore_focus :: "nat option \<Rightarrow> focus_state \<Rightarrow> focus_state" where
  "restore_focus previousFocus s =
     (case previousFocus of
        None \<Rightarrow> s
      | Some e \<Rightarrow>
          if e \<in> htmlElements s \<and> e \<in> connected s \<and>
             (activeElement s = Some (bodyElement s) \<or> (\<exists>f\<in>menuElements s. activeElement s = Some f))
          then s\<lparr>activeElement := Some e\<rparr> else s)"

text \<open>Opening the menu and closing it again leaves the focus where it was, unless it was taken elsewhere meanwhile.\<close>

lemma focus_comes_back:
  assumes "focus_menu (Some field) s = (before, s1)" "field \<in> menuElements s" "before = Some e"
    "e \<in> htmlElements s" "e \<in> connected s"
  shows "activeElement (restore_focus before s1) = activeElement s"
  using assms by (auto simp: focus_menu_def restore_focus_def)

subsection \<open>Fitting the terminal to its element\<close>

text \<open>
  \<open>useTerminalResizeBinding\<close>: the animation frames asked for and not yet run or cancelled, the one the binding knows of,
  and how often it has fitted.
\<close>

record resize_binding =
  resizeFrame :: nat
  frames :: "nat set"
  nextFrame :: nat
  fits :: nat

datatype resize_event = Resize_observed | Frame_runs nat | Resolution_changed | Visibility_changed bool

fun resize_step :: "resize_event \<Rightarrow> resize_binding \<Rightarrow> resize_binding" where
  "resize_step Resize_observed b =
     (let b1 = b\<lparr>frames := frames b - {resizeFrame b}\<rparr>
      in b1\<lparr>frames := insert (nextFrame b1) (frames b1), resizeFrame := nextFrame b1, nextFrame := Suc (nextFrame b1)\<rparr>)"
| "resize_step (Frame_runs h) b =
     (if h \<in> frames b then b\<lparr>frames := frames b - {h}, fits := Suc (fits b)\<rparr> else b)"
| "resize_step Resolution_changed b = b\<lparr>fits := Suc (fits b)\<rparr>"
| "resize_step (Visibility_changed visible) b = (if visible then b\<lparr>fits := Suc (fits b)\<rparr> else b)"

text \<open>Handles of frames are positive; the binding starts with the handle 0, which no frame has.\<close>

definition mount_resize :: resize_binding where
  "mount_resize = \<lparr>resizeFrame = 0, frames = {}, nextFrame = 1, fits = 0\<rparr>"

definition unmount_resize :: "resize_binding \<Rightarrow> resize_binding" where
  "unmount_resize b = b\<lparr>frames := frames b - {resizeFrame b}\<rparr>"

subsection \<open>The lazy runtime loader\<close>

text \<open>
  \<open>createXtermRuntimeProvider\<close>: promises are numbers in the order of the loads; \<open>loads\<close> holds what became of each,
  nothing yet, a failure or success.
\<close>

datatype load_outcome = Load_pending | Load_failed | Load_done

record runtime_provider =
  runtimePromise :: "nat option"
  loads :: "load_outcome list"

definition new_provider :: runtime_provider where
  "new_provider = \<lparr>runtimePromise = None, loads = []\<rparr>"

definition load_runtime :: "runtime_provider \<Rightarrow> nat \<times> runtime_provider" where
  "load_runtime p =
     (case runtimePromise p of
        Some k \<Rightarrow> (k, p)
      | None \<Rightarrow> (length (loads p), p\<lparr>runtimePromise := Some (length (loads p)), loads := loads p @ [Load_pending]\<rparr>))"

definition reset_provider :: "runtime_provider \<Rightarrow> runtime_provider" where
  "reset_provider p = p\<lparr>runtimePromise := None\<rparr>"

definition settle_load :: "nat \<Rightarrow> bool \<Rightarrow> runtime_provider \<Rightarrow> runtime_provider" where
  "settle_load k success p =
     (if k \<ge> length (loads p) \<or> loads p ! k \<noteq> Load_pending then p
      else if success then p\<lparr>loads := (loads p)[k := Load_done]\<rparr>
      else reset_provider (p\<lparr>loads := (loads p)[k := Load_failed]\<rparr>))"

datatype loader_event = Load_requested | Load_settled nat bool

fun loader_step :: "loader_event \<Rightarrow> runtime_provider \<Rightarrow> runtime_provider" where
  "loader_step Load_requested p = snd (load_runtime p)"
| "loader_step (Load_settled k success) p = settle_load k success p"

subsection \<open>Colours and shortcuts\<close>

record terminal_theme =
  th_background :: jsstring
  th_foreground :: jsstring
  th_cursor :: jsstring
  th_selectionBackground :: jsstring
  th_black :: jsstring

text \<open>\<open>css\<close> is the computed value of a custom property of the document, if there is a document.\<close>

definition readCssColorVariable :: "(jsstring \<Rightarrow> jsstring) option \<Rightarrow> string \<Rightarrow> string \<Rightarrow> jsstring" where
  "readCssColorVariable css variableName fallback =
     (case css of
        None \<Rightarrow> js fallback
      | Some property \<Rightarrow> (let v = trim (property (js variableName)) in if length v > 0 then v else js fallback))"

definition readTerminalTheme :: "(jsstring \<Rightarrow> jsstring) option \<Rightarrow> terminal_theme" where
  "readTerminalTheme css =
     \<lparr>th_background = readCssColorVariable css ''--terminal-bg'' ''transparent'',
      th_foreground = readCssColorVariable css ''--terminal-fg'' ''aliceblue'',
      th_cursor = readCssColorVariable css ''--terminal-cursor'' ''gold'',
      th_selectionBackground = readCssColorVariable css ''--terminal-selection'' ''cadetblue'',
      th_black = readCssColorVariable css ''--terminal-black'' ''black''\<rparr>"

definition SHORTCUT_CODE_DISPLAY :: "(jsstring \<times> jsstring) list" where
  "SHORTCUT_CODE_DISPLAY =
     map (\<lambda>(k, v). (js k, js v))
       [(''KeyR'', ''R''), (''KeyK'', ''K''), (''KeyF'', ''F''), (''KeyB'', ''B''), (''Minus'', ''-''), (''Equal'', ''=''),
        (''Digit0'', ''0''), (''Period'', ''.'')]"

definition formatShortcutCompact :: "jsstring \<Rightarrow> bool \<Rightarrow> jsstring" where
  "formatShortcutCompact shortcutCode isMac =
     (let key = (case map_of SHORTCUT_CODE_DISPLAY shortcutCode of Some k \<Rightarrow> k | None \<Rightarrow> shortcutCode)
      in (if isMac then js ''Cmd Shift'' else js ''Ctrl Shift'') @ js '' '' @ key)"

text \<open>The test of the user agent ignores the case of ASCII letters; there is none without a navigator.\<close>

definition isMacPlatform :: "jsstring option \<Rightarrow> bool" where
  "isMacPlatform userAgent =
     (case userAgent of
        None \<Rightarrow> False
      | Some ua \<Rightarrow> list_ex (\<lambda>name. text_includes (ascii_upper ua) (js name)) [''MAC'', ''IPHONE'', ''IPAD'', ''IPOD''])"

definition about_shortcuts :: "bool \<Rightarrow> (jsstring \<times> jsstring) list" where
  "about_shortcuts isMac =
     map (\<lambda>e. (cmd_label e, formatShortcutCompact (cmd_shortcutCode e) isMac)) (filter (\<lambda>e. cmd_label e \<noteq> []) COMMAND_MANIFEST)"

text \<open>The rows about the session in the dialog: none says that no session is active.\<close>

definition about_rows :: "about_session \<Rightarrow> (jsstring \<times> jsstring) list option" where
  "about_rows a =
     (case some_text (ab_id a) of
        None \<Rightarrow> None
      | Some i \<Rightarrow>
          Some ([(js ''id'', case ab_name a of Some n \<Rightarrow> n | None \<Rightarrow> i)] @
            (case some_text (ab_command a) of None \<Rightarrow> [] | Some cmd \<Rightarrow> [(js ''cmd'', cmd)]) @
            [(js ''mode'', if ab_attachMode a = Watch then js ''read-only'' else js ''control'')] @
            (if ab_watchers a > 0 then [(js ''watchers'', js (nat_digits (ab_watchers a)))] else [])))"

subsection \<open>Properties\<close>

definition resize_ok :: "resize_binding \<Rightarrow> bool" where
  "resize_ok b \<longleftrightarrow> frames b \<subseteq> {resizeFrame b} \<and> resizeFrame b < nextFrame b"

lemma resize_ok_step: "resize_ok b \<Longrightarrow> resize_ok (resize_step e b)"
  by (cases e) (auto simp: resize_ok_def Let_def)

lemma resize_ok_run: "resize_ok (fold resize_step es mount_resize)"
  by (induction es rule: rev_induct) (simp_all add: resize_ok_step, simp add: resize_ok_def mount_resize_def)

lemma resize_burst:
  fixes n :: nat
  assumes "resize_ok b"
  defines "b' \<equiv> (resize_step Resize_observed ^^ Suc n) b"
  shows "frames b' = {resizeFrame b'} \<and> fits b' = fits b"
  unfolding b'_def
proof (induction n)
  case 0
  then show ?case using assms(1) by (auto simp: resize_ok_def Let_def)
next
  case (Suc n)
  have "frames (resize_step Resize_observed x) = {resizeFrame (resize_step Resize_observed x)} \<and>
      fits (resize_step Resize_observed x) = fits x" if "frames x = {resizeFrame x}" for x
    using that by (auto simp: Let_def)
  from this [of "(resize_step Resize_observed ^^ Suc n) b"] Suc show ?case by (simp only: funpow.simps(2) [of "Suc n"] comp_apply)
qed

text \<open>However often the observer reports a change of size, at most one animation frame is waiting; a burst of reports, however
  long, costs one fit when the frame runs, and the clean-up leaves no frame behind.\<close>

theorem resize_reports_are_coalesced:
  "let b = fold resize_step es mount_resize; b' = (resize_step Resize_observed ^^ Suc n) b
   in frames b \<subseteq> {resizeFrame b} \<and> frames (unmount_resize b) = {} \<and>
      frames (resize_step (Frame_runs (resizeFrame b')) b') = {} \<and>
      fits (resize_step (Frame_runs (resizeFrame b')) b') = Suc (fits b)"
  using resize_burst [OF resize_ok_run, of n es] resize_ok_run [of es]
  by (auto simp: Let_def resize_ok_def unmount_resize_def)

definition loader_ok :: "runtime_provider \<Rightarrow> bool" where
  "loader_ok p \<longleftrightarrow>
     (\<forall>k < length (loads p). runtimePromise p \<noteq> Some k \<longrightarrow> loads p ! k = Load_failed) \<and>
     (\<forall>k. runtimePromise p = Some k \<longrightarrow> Suc k = length (loads p) \<and> loads p ! k \<noteq> Load_failed)"

lemma loader_ok_step: "loader_ok p \<Longrightarrow> loader_ok (loader_step e p)"
proof (cases e)
  case Load_requested
  assume "loader_ok p"
  then show ?thesis using Load_requested
    by (auto simp: loader_ok_def load_runtime_def nth_append less_Suc_eq split: option.split)
next
  case (Load_settled k success)
  assume ok: "loader_ok p"
  show ?thesis
  proof (cases "k \<ge> length (loads p) \<or> loads p ! k \<noteq> Load_pending")
    case False
    then have "runtimePromise p = Some k" using ok by (force simp: loader_ok_def)
    then show ?thesis using ok False Load_settled
      by (auto simp: loader_ok_def settle_load_def reset_provider_def nth_list_update)
  qed (use ok Load_settled in \<open>auto simp: settle_load_def\<close>)
qed

lemma loader_ok_run: "loader_ok (fold loader_step es new_provider)"
  by (induction es rule: rev_induct) (simp_all add: loader_ok_step, simp add: loader_ok_def new_provider_def)

text \<open>The terminal engine is loaded once: of all the loads ever started only the last can be under way or done, and while it is,
  every caller gets its promise; a load that failed is forgotten, so the next caller starts a new one.\<close>

theorem runtime_loaded_once:
  "let p = fold loader_step es new_provider
   in (\<forall>k < length (loads p). loads p ! k \<noteq> Load_failed \<longrightarrow> Suc k = length (loads p) \<and> load_runtime p = (k, p)) \<and>
      ((\<forall>k < length (loads p). loads p ! k = Load_failed) \<longrightarrow>
        fst (load_runtime p) = length (loads p) \<and> loads (snd (load_runtime p)) = loads p @ [Load_pending])"
proof -
  let ?p = "fold loader_step es new_provider"
  have ok: "loader_ok ?p" by (rule loader_ok_run)
  have "Suc k = length (loads ?p) \<and> load_runtime ?p = (k, ?p)" if "k < length (loads ?p)" "loads ?p ! k \<noteq> Load_failed" for k
  proof -
    have "runtimePromise ?p = Some k" using ok that unfolding loader_ok_def by blast
    then show ?thesis using ok by (simp add: loader_ok_def load_runtime_def)
  qed
  moreover have "runtimePromise ?p = None" if "\<forall>k < length (loads ?p). loads ?p ! k = Load_failed"
    using ok that unfolding loader_ok_def by (metis lessI not_None_eq)
  ultimately show ?thesis by (simp add: Let_def load_runtime_def)
qed

theorem runtime_loaded_once_witness:
  "load_runtime (fold loader_step [Load_requested, Load_settled 0 False, Load_requested, Load_settled 1 True] new_provider) =
     (1, fold loader_step [Load_requested, Load_settled 0 False, Load_requested, Load_settled 1 True] new_provider)"
  using runtime_loaded_once [of "[Load_requested, Load_settled 0 False, Load_requested, Load_settled 1 True]"]
  by (simp add: Let_def load_runtime_def new_provider_def settle_load_def reset_provider_def)

end
