(* ===== verification/App_Shell.thy ===== *)
theory App_Shell
  imports Interface_Properties Dom_Bindings
begin

section \<open>The application shell\<close>

text \<open>
  \<open>app/TerminalApp.tsx\<close>, \<open>app/controller/use-terminal-controller.ts\<close> and \<open>app/composition/terminal-domain-composition.ts\<close>:
  the client together with what is on the screen.  A render computes the models of the components from the state of the client
  (\<open>shown\<close>) and commits them; until the next one the user acts on these, however far the client has moved on: an input
  goes through the component it is made on, which decides whether it dispatches an action, and the action to the client.
  The requests made to the browser, to enter or leave full screen, to write to the clipboard, to download a file,
  are part of the state; their answers are events.
\<close>

subsection \<open>State\<close>

text \<open>What the platform offers: a window, a document, a clipboard and object URLs.\<close>

record platform =
  has_window :: bool
  has_document :: bool
  has_clipboard :: bool
  has_object_urls :: bool

datatype fullscreen_request = Request_fullscreen | Exit_fullscreen

text \<open>
  \<open>shown\<close> is empty before the first render and \<open>gone\<close> holds after the unmount.  The dialog is the modal \<open>dialog\<close>
  element: while it is open nothing else on the page can be clicked or typed into.  Each request for full screen comes
  with whether it has been answered.
\<close>

record shell =
  shellClient :: client
  shown :: "presentation_model option"
  gone :: bool
  menuFields :: menu_fields
  statusBar :: status_bar
  shownHelp :: bool
  dialogOpen :: bool
  documentTitle :: "jsstring option"
  shownLabel :: "jsstring option"
  fullscreenElement :: bool
  fullscreenRequests :: "(fullscreen_request \<times> bool) list"
  clipboardWrites :: "jsstring list"
  copyPending :: nat
  downloads :: "(jsstring \<times> jsstring) list"

definition in_client :: "host \<Rightarrow> (terminal \<Rightarrow> terminal) \<Rightarrow> platform \<Rightarrow> client_step \<Rightarrow> shell \<Rightarrow> shell" where
  "in_client H fit pf e s = s\<lparr>shellClient := client_run_step H fit (has_window pf) e (shellClient s)\<rparr>"

text \<open>The models the user can act on, if any.\<close>

definition interactive :: "shell \<Rightarrow> presentation_model option" where
  "interactive s = (if gone s \<or> dialogOpen s then None else shown s)"

subsection \<open>A render\<close>

text \<open>
  The session menu is mounted while it is open, so its fields start anew each time; the effect of the dialog runs when
  \<open>open\<close> has changed; the title follows the session, the mode and the status of the render.
\<close>

definition render_shell ::
  "host \<Rightarrow> (terminal \<Rightarrow> terminal) \<Rightarrow> platform \<Rightarrow> int \<Rightarrow> backend_issue + backend_endpoints \<Rightarrow> shell \<Rightarrow> shell" where
  "render_shell H fit pf clock resolution s =
     (if gone s then s
      else let c = shellClient s;
               bootstrapFailure = (case resolution of Inl _ \<Rightarrow> True | Inr _ \<Rightarrow> False);
               p = buildTerminalPresentationModel H clock bootstrapFailure c;
               open = helpOpen c
           in in_client H fit pf (Commit resolution)
                (s\<lparr>shown := Some p,
                   menuFields := (if sm_sessionMenuOpen (pm_sessionMenu p) then menuFields s else initial_menu),
                   shownHelp := open,
                   dialogOpen := (if open = shownHelp s then dialogOpen s else open),
                   documentTitle :=
                     (if has_document pf
                      then Some (buildDocumentTitle (attachMode (sess c)) (sessionId (sess c)) (sb_status (pm_statusBar p)))
                      else documentTitle s),
                   shownLabel := transcriptLabel c\<rparr>))"

subsection \<open>Full screen\<close>

definition toggleFullscreen :: "platform \<Rightarrow> shell \<Rightarrow> shell" where
  "toggleFullscreen pf s =
     (if shown s = None \<or> gone s \<or> \<not> has_document pf then s
      else s\<lparr>fullscreenRequests :=
               fullscreenRequests s @ [(if fullscreenElement s then Exit_fullscreen else Request_fullscreen, False)]\<rparr>)"

definition with_command :: "platform \<Rightarrow> shortcut_action \<Rightarrow> shell \<Rightarrow> shell" where
  "with_command pf command s = (if command = Toggle_fullscreen then toggleFullscreen pf s else s)"

text \<open>The browser answers a request once; a failure becomes a notice.\<close>

definition fullscreen_settles ::
  "host \<Rightarrow> (terminal \<Rightarrow> terminal) \<Rightarrow> platform \<Rightarrow> nat \<Rightarrow> jsval option \<Rightarrow> shell \<Rightarrow> shell" where
  "fullscreen_settles H fit pf n failure s =
     (if n \<ge> length (fullscreenRequests s) \<or> snd (fullscreenRequests s ! n) then s
      else let s1 = s\<lparr>fullscreenRequests := (fullscreenRequests s)[n := (fst (fullscreenRequests s ! n), True)]\<rparr>
           in case failure of None \<Rightarrow> s1 | Some e \<Rightarrow> in_client H fit pf (Fullscreen_failed e) s1)"

text \<open>The document enters or leaves full screen; the listener is bound with the first commit.\<close>

definition fullscreen_moves :: "host \<Rightarrow> (terminal \<Rightarrow> terminal) \<Rightarrow> platform \<Rightarrow> bool \<Rightarrow> shell \<Rightarrow> shell" where
  "fullscreen_moves H fit pf on s =
     (let s1 = s\<lparr>fullscreenElement := on\<rparr>
      in if shown s = None \<or> gone s \<or> \<not> has_document pf then s1 else in_client H fit pf (Fullscreen_changed on) s1)"

subsection \<open>Inputs\<close>

definition menu_input :: "host \<Rightarrow> (terminal \<Rightarrow> terminal) \<Rightarrow> platform \<Rightarrow> menu_event \<Rightarrow> shell \<Rightarrow> shell" where
  "menu_input H fit pf e s =
     (case interactive s of
        None \<Rightarrow> s
      | Some p \<Rightarrow>
          (let (action, fields') = menu_step H (pm_sessionMenu p) e (menuFields s); s1 = s\<lparr>menuFields := fields'\<rparr>
           in case action of None \<Rightarrow> s1 | Some a \<Rightarrow> in_client H fit pf (Session_menu a) s1))"

text \<open>
  When an event of the status bar can happen: the answers of the clipboard only after a request, the clicks and keys only
  while the page can be used.  A click on the download button and the passing of time are inputs of their own.
\<close>

fun bar_enabled :: "status_bar_event \<Rightarrow> shell \<Rightarrow> bool" where
  "bar_enabled Copied s = (copyPending s > 0)"
| "bar_enabled Copy_rejected s = (copyPending s > 0)"
| "bar_enabled (Copy_timer h) s = True"
| "bar_enabled Blur s = (\<not> gone s)"
| "bar_enabled (Bar_time d clock) s = False"
| "bar_enabled Click_download s = False"
| "bar_enabled _ s = (interactive s \<noteq> None)"

definition bar_input :: "host \<Rightarrow> (terminal \<Rightarrow> terminal) \<Rightarrow> platform \<Rightarrow> status_bar_event \<Rightarrow> shell \<Rightarrow> shell" where
  "bar_input H fit pf e s =
     (case shown s of
        None \<Rightarrow> s
      | Some p \<Rightarrow>
          if \<not> bar_enabled e s then s
          else let m = pm_statusBar p;
                   (action, bar) = status_bar_step m e (statusBar s);
                   copied = (if e = Click_copy then copyCurrentSessionName (has_clipboard pf) m else None);
                   s1 = s\<lparr>statusBar := bar,
                          clipboardWrites := clipboardWrites s @ (case copied of None \<Rightarrow> [] | Some t \<Rightarrow> [t]),
                          copyPending :=
                            (if e = Copied \<or> e = Copy_rejected then copyPending s - 1
                             else case copied of None \<Rightarrow> copyPending s | Some _ \<Rightarrow> Suc (copyPending s))\<rparr>
               in case action of None \<Rightarrow> s1 | Some a \<Rightarrow> in_client H fit pf (Status_bar a) s1)"

text \<open>A click on the download button while the clock shows a date and the terminal holds the given lines.\<close>

definition download_input ::
  "host \<Rightarrow> (terminal \<Rightarrow> terminal) \<Rightarrow> platform \<Rightarrow> jsstring \<Rightarrow> buffer_line list option \<Rightarrow> shell \<Rightarrow> shell" where
  "download_input H fit pf isoDate buffer s =
     (case interactive s of
        None \<Rightarrow> s
      | Some p \<Rightarrow>
          (case fst (status_bar_step (pm_statusBar p) Click_download (statusBar s)) of
             None \<Rightarrow> s
           | Some a \<Rightarrow>
               in_client H fit pf (Status_bar a)
                 (s\<lparr>downloads := downloads s @
                     (case downloadTranscript H (has_document pf \<and> has_object_urls pf) isoDate buffer (shownLabel s) of
                        None \<Rightarrow> [] | Some f \<Rightarrow> [f])\<rparr>)))"

definition control_input :: "host \<Rightarrow> (terminal \<Rightarrow> terminal) \<Rightarrow> platform \<Rightarrow> nat \<Rightarrow> shell \<Rightarrow> shell" where
  "control_input H fit pf n s =
     (case interactive s of
        None \<Rightarrow> s
      | Some p \<Rightarrow>
          (case buildFloatingControlLookup (buildFloatingControlCatalog FLOATING_CONTROL_REGISTRY) of
             Inl _ \<Rightarrow> s
           | Inr l \<Rightarrow>
               (case floating_click l (pm_floatingControls p) n of
                  None \<Rightarrow> s
                | Some command \<Rightarrow> in_client H fit pf (Floating_control command) (with_command pf command s))))"

text \<open>A key reaches the window whatever has the focus; the command it stands for, if the handler is bound.\<close>

definition pressed_command :: "bool \<Rightarrow> key_event \<Rightarrow> client \<Rightarrow> shortcut_action option" where
  "pressed_command hasWindow ev c =
     (if connectDeps c \<notin> {Some (True, False), Some (True, True)} \<or> \<not> hasWindow then None
      else case buildCommandRegistry COMMAND_MANIFEST of Inl _ \<Rightarrow> None | Inr r \<Rightarrow> keyHandler r ev)"

definition key_input :: "host \<Rightarrow> (terminal \<Rightarrow> terminal) \<Rightarrow> platform \<Rightarrow> key_event \<Rightarrow> shell \<Rightarrow> shell" where
  "key_input H fit pf ev s =
     in_client H fit pf (Key_down ev)
       (case pressed_command (has_window pf) ev (shellClient s) of None \<Rightarrow> s | Some command \<Rightarrow> with_command pf command s)"

definition dismiss_input :: "host \<Rightarrow> (terminal \<Rightarrow> terminal) \<Rightarrow> platform \<Rightarrow> dismiss_event \<Rightarrow> shell \<Rightarrow> shell" where
  "dismiss_input H fit pf e s =
     (if gone s \<or> \<not> has_document pf then s
      else s\<lparr>shellClient := dismiss_step H fit (has_window pf) e (shellClient s)\<rparr>)"

text \<open>Its button, its backdrop and Escape close the dialog.\<close>

definition closeDialog :: "host \<Rightarrow> (terminal \<Rightarrow> terminal) \<Rightarrow> platform \<Rightarrow> shell \<Rightarrow> shell" where
  "closeDialog H fit pf s =
     (if gone s \<or> \<not> dialogOpen s then s else in_client H fit pf Close_help (s\<lparr>dialogOpen := False\<rparr>))"

definition unmount_shell :: "host \<Rightarrow> (terminal \<Rightarrow> terminal) \<Rightarrow> platform \<Rightarrow> shell \<Rightarrow> shell" where
  "unmount_shell H fit pf s =
     (if gone s then s
      else in_client H fit pf Unmount (s\<lparr>gone := True, dialogOpen := False, statusBar := unmountStatusBar (statusBar s)\<rparr>))"

subsection \<open>Runs\<close>

datatype shell_event =
    Menu_input menu_event
  | Bar_input status_bar_event
  | Download_input jsstring "buffer_line list option"
  | Control_input nat
  | Key_pressed key_event
  | Dismiss_input dismiss_event
  | Dialog_closed
  | Fullscreen_settles nat "jsval option"
  | Fullscreen_moves bool
  | Rendered int "backend_issue + backend_endpoints"
  | Elapsed nat int
  | Outside client_step
  | Left

text \<open>The sockets, the answers of the server, the timers and the terminal widget act on the client directly.\<close>

fun outside_event :: "client_step \<Rightarrow> bool" where
  "outside_event (Connection e) = True"
| "outside_event (Session_event e) = True"
| "outside_event (Ui_timer h) = True"
| "outside_event _ = False"

fun shell_step :: "host \<Rightarrow> (terminal \<Rightarrow> terminal) \<Rightarrow> platform \<Rightarrow> shell_event \<Rightarrow> shell \<Rightarrow> shell" where
  "shell_step H fit pf (Menu_input e) s = menu_input H fit pf e s"
| "shell_step H fit pf (Bar_input e) s = bar_input H fit pf e s"
| "shell_step H fit pf (Download_input isoDate buffer) s = download_input H fit pf isoDate buffer s"
| "shell_step H fit pf (Control_input n) s = control_input H fit pf n s"
| "shell_step H fit pf (Key_pressed ev) s = key_input H fit pf ev s"
| "shell_step H fit pf (Dismiss_input e) s = dismiss_input H fit pf e s"
| "shell_step H fit pf Dialog_closed s = closeDialog H fit pf s"
| "shell_step H fit pf (Fullscreen_settles n failure) s = fullscreen_settles H fit pf n failure s"
| "shell_step H fit pf (Fullscreen_moves on) s = fullscreen_moves H fit pf on s"
| "shell_step H fit pf (Rendered clock resolution) s = render_shell H fit pf clock resolution s"
| "shell_step H fit pf (Elapsed d clock) s =
     in_client H fit pf (Time d clock) (s\<lparr>statusBar := (statusBar s)\<lparr>copyTimers := pass_time d clock (copyTimers (statusBar s))\<rparr>\<rparr>)"
| "shell_step H fit pf (Outside e) s = (if outside_event e then in_client H fit pf e s else s)"
| "shell_step H fit pf Left s = unmount_shell H fit pf s"

definition mount_shell :: "int \<Rightarrow> client \<Rightarrow> shell" where
  "mount_shell clock c =
     \<lparr>shellClient = c, shown = None, gone = False, menuFields = initial_menu, statusBar = initial_status_bar clock,
      shownHelp = False, dialogOpen = False, documentTitle = None, shownLabel = None, fullscreenElement = False,
      fullscreenRequests = [], clipboardWrites = [], copyPending = 0, downloads = []\<rparr>"

definition shell_reached ::
  "host \<Rightarrow> (terminal \<Rightarrow> terminal) \<Rightarrow> platform \<Rightarrow> shell_event list \<Rightarrow> int \<Rightarrow> jsstring option \<Rightarrow> storage_access \<Rightarrow>
   storage_access \<Rightarrow> shell" where
  "shell_reached H fit pf es clock endpoint la sa =
     fold (shell_step H fit pf) es (mount_shell clock (mount_client H clock endpoint la sa))"

end
