(* ===== verification/Shell_Properties.thy ===== *)
theory Shell_Properties
  imports App_Shell
begin

section \<open>Properties of the shell\<close>

text \<open>
  The shell is the client seen through its interface: what it does to the client are steps of the client, so everything
  shown of client runs holds in it; and what the user can choose is what the last render has shown.
\<close>

subsection \<open>Steps of the shell\<close>

lemma in_client_fields [simp]:
  "shellClient (in_client H fit pf x s) = client_run_step H fit (has_window pf) x (shellClient s)"
  "shown (in_client H fit pf x s) = shown s" "gone (in_client H fit pf x s) = gone s"
  "menuFields (in_client H fit pf x s) = menuFields s" "statusBar (in_client H fit pf x s) = statusBar s"
  "shownHelp (in_client H fit pf x s) = shownHelp s" "dialogOpen (in_client H fit pf x s) = dialogOpen s"
  "fullscreenElement (in_client H fit pf x s) = fullscreenElement s"
  "fullscreenRequests (in_client H fit pf x s) = fullscreenRequests s" "copyPending (in_client H fit pf x s) = copyPending s"
  "clipboardWrites (in_client H fit pf x s) = clipboardWrites s"
  by (simp_all add: in_client_def)

lemma command_fields [simp]:
  "shellClient (with_command pf k s) = shellClient s" "shown (with_command pf k s) = shown s" "gone (with_command pf k s) = gone s"
  "menuFields (with_command pf k s) = menuFields s" "statusBar (with_command pf k s) = statusBar s"
  "shownHelp (with_command pf k s) = shownHelp s" "dialogOpen (with_command pf k s) = dialogOpen s"
  "fullscreenElement (with_command pf k s) = fullscreenElement s" "copyPending (with_command pf k s) = copyPending s"
  "clipboardWrites (with_command pf k s) = clipboardWrites s"
  by (simp_all add: with_command_def toggleFullscreen_def)

lemma bar_input_fields [simp]:
  "shown (bar_input H fit pf e s) = shown s" "gone (bar_input H fit pf e s) = gone s"
  "menuFields (bar_input H fit pf e s) = menuFields s" "shownHelp (bar_input H fit pf e s) = shownHelp s"
  "dialogOpen (bar_input H fit pf e s) = dialogOpen s" "fullscreenElement (bar_input H fit pf e s) = fullscreenElement s"
  by (simp_all add: bar_input_def Let_def case_prod_beta split: option.split)

lemma bar_input_parts:
  "shellClient (bar_input H fit pf e s) =
     (case shown s of
        None \<Rightarrow> shellClient s
      | Some p \<Rightarrow> if \<not> bar_enabled e s then shellClient s
          else (case fst (status_bar_step (pm_statusBar p) e (statusBar s)) of
                  None \<Rightarrow> shellClient s
                | Some a \<Rightarrow> client_run_step H fit (has_window pf) (Status_bar a) (shellClient s)))"
  "statusBar (bar_input H fit pf e s) =
     (case shown s of
        None \<Rightarrow> statusBar s
      | Some p \<Rightarrow> if bar_enabled e s then snd (status_bar_step (pm_statusBar p) e (statusBar s)) else statusBar s)"
  by (simp_all add: bar_input_def Let_def case_prod_beta del: client_run_step.simps status_bar_step.simps split: option.split)

lemma menu_input_fields [simp]:
  "shown (menu_input H fit pf e s) = shown s" "gone (menu_input H fit pf e s) = gone s"
  "statusBar (menu_input H fit pf e s) = statusBar s" "shownHelp (menu_input H fit pf e s) = shownHelp s"
  "dialogOpen (menu_input H fit pf e s) = dialogOpen s" "fullscreenElement (menu_input H fit pf e s) = fullscreenElement s"
  "menuFields (menu_input H fit pf e s) =
     (case interactive s of None \<Rightarrow> menuFields s | Some p \<Rightarrow> snd (menu_step H (pm_sessionMenu p) e (menuFields s)))"
  by (simp_all add: menu_input_def Let_def case_prod_beta split: option.split)

text \<open>Where each step of the client comes from.\<close>

fun step_of :: "host \<Rightarrow> shell \<Rightarrow> shell_event \<Rightarrow> client_step \<Rightarrow> bool" where
  "step_of H s e (Session_menu a) \<longleftrightarrow>
     (\<exists>b p. e = Menu_input (Menu_clicked b) \<and> interactive s = Some p \<and>
       menu_click H (menuQuery (menuFields s)) (menuFilter (menuFields s)) (pm_sessionMenu p) b = Some a)"
| "step_of H s e (Commit r) \<longleftrightarrow> (\<exists>clock. e = Rendered clock r) \<and> \<not> gone s"
| "step_of H s e Unmount \<longleftrightarrow> e = Left \<and> \<not> gone s"
| "step_of H s e (Fullscreen_changed b) \<longleftrightarrow> e = Fullscreen_moves b"
| "step_of H s e (Connection x) \<longleftrightarrow> e = Outside (Connection x)"
| "step_of H s e _ \<longleftrightarrow> True"

definition stays_or_moves :: "host \<Rightarrow> (terminal \<Rightarrow> terminal) \<Rightarrow> platform \<Rightarrow> shell \<Rightarrow> shell_event \<Rightarrow> client \<Rightarrow> bool" where
  "stays_or_moves H fit pf s e c \<longleftrightarrow>
     c = shellClient s \<or> (\<exists>x. c = client_run_step H fit (has_window pf) x (shellClient s) \<and> step_of H s e x)"

lemma stays [simp]: "stays_or_moves H fit pf s e (shellClient s)"
  by (simp add: stays_or_moves_def)

lemma moves [simp]: "step_of H s e x \<Longrightarrow> stays_or_moves H fit pf s e (client_run_step H fit (has_window pf) x (shellClient s))"
  unfolding stays_or_moves_def by blast

lemma menu_input_moves: "stays_or_moves H fit pf s (Menu_input e) (shellClient (menu_input H fit pf e s))"
proof (cases "interactive s")
  case (Some p)
  obtain a f where step: "menu_step H (pm_sessionMenu p) e (menuFields s) = (a, f)" by fastforce
  then have a: "a = Some act \<Longrightarrow> \<exists>b. e = Menu_clicked b \<and>
      menu_click H (menuQuery (menuFields s)) (menuFilter (menuFields s)) (pm_sessionMenu p) b = Some act" for act
    by (cases e) auto
  show ?thesis
  proof (cases a)
    case None
    then show ?thesis using Some step by (simp add: menu_input_def)
  next
    case act: (Some act)
    have "step_of H s (Menu_input e) (Session_menu act)" using Some a [OF act] by auto
    from moves [OF this] show ?thesis using Some step act by (simp add: menu_input_def del: client_run_step.simps)
  qed
qed (simp add: menu_input_def)

lemma other_inputs_move:
  "stays_or_moves H fit pf s (Bar_input be) (shellClient (bar_input H fit pf be s))"
  "stays_or_moves H fit pf s (Download_input d b) (shellClient (download_input H fit pf d b s))"
  "stays_or_moves H fit pf s (Control_input n) (shellClient (control_input H fit pf n s))"
  "stays_or_moves H fit pf s (Key_pressed ev) (shellClient (key_input H fit pf ev s))"
  "stays_or_moves H fit pf s (Dismiss_input de) (shellClient (dismiss_input H fit pf de s))"
  "stays_or_moves H fit pf s Dialog_closed (shellClient (closeDialog H fit pf s))"
  by (simp_all add: bar_input_parts download_input_def control_input_def key_input_def dismiss_input_def dismiss_step_def
      closeDialog_def del: client_run_step.simps status_bar_step.simps split: option.split sum.split)

lemma browser_events_move:
  "stays_or_moves H fit pf s (Fullscreen_settles n failure) (shellClient (fullscreen_settles H fit pf n failure s))"
  "stays_or_moves H fit pf s (Fullscreen_moves on) (shellClient (fullscreen_moves H fit pf on s))"
  "stays_or_moves H fit pf s (Rendered t r) (shellClient (render_shell H fit pf t r s))"
  "stays_or_moves H fit pf s Left (shellClient (unmount_shell H fit pf s))"
  "outside_event x \<Longrightarrow> stays_or_moves H fit pf s (Outside x) (shellClient (in_client H fit pf x s))"
proof -
  show "outside_event x \<Longrightarrow> stays_or_moves H fit pf s (Outside x) (shellClient (in_client H fit pf x s))"
    by (cases x) (simp_all del: client_run_step.simps)
qed (simp_all add: fullscreen_settles_def fullscreen_moves_def render_shell_def unmount_shell_def Let_def
    del: client_run_step.simps split: option.split)

lemma shell_client_step:
  obtains (still) "shellClient (shell_step H fit pf e s) = shellClient s"
  | (moves) x where "shellClient (shell_step H fit pf e s) = client_run_step H fit (has_window pf) x (shellClient s)" "step_of H s e x"
proof -
  have "stays_or_moves H fit pf s e (shellClient (shell_step H fit pf e s))"
    by (cases e) (simp_all add: menu_input_moves other_inputs_move browser_events_move del: client_run_step.simps in_client_fields(1),
        simp del: client_run_step.simps)
  then show thesis using that unfolding stays_or_moves_def by blast
qed

lemma shell_reached_snoc:
  "shell_reached H fit pf (es @ [e]) clock endpoint la sa = shell_step H fit pf e (shell_reached H fit pf es clock endpoint la sa)"
  by (simp add: shell_reached_def)

lemma gone_step: "gone (shell_step H fit pf e s) \<longleftrightarrow> gone s \<or> e = Left"
  by (cases e)
    (auto simp: download_input_def control_input_def key_input_def dismiss_input_def closeDialog_def
      fullscreen_settles_def fullscreen_moves_def render_shell_def unmount_shell_def Let_def case_prod_beta
      simp del: client_run_step.simps split: option.split sum.split if_splits)

lemma shell_run_client:
  "\<exists>xs. shellClient (shell_reached H fit pf es clock endpoint la sa) = client_reached H fit (has_window pf) xs clock endpoint la sa \<and>
     (Unmount \<in> set xs \<longleftrightarrow> gone (shell_reached H fit pf es clock endpoint la sa))"
proof (induction es rule: rev_induct)
  case Nil
  show ?case
    by (rule exI [of _ "[]"]) (simp add: shell_reached_def mount_shell_def client_reached_def client_run_def)
next
  case (snoc e es)
  let ?s = "shell_reached H fit pf es clock endpoint la sa"
  obtain xs where xs: "shellClient ?s = client_reached H fit (has_window pf) xs clock endpoint la sa" "Unmount \<in> set xs \<longleftrightarrow> gone ?s"
    using snoc.IH by blast
  have more: "client_run_step H fit (has_window pf) x (shellClient ?s) =
      client_reached H fit (has_window pf) (xs @ [x]) clock endpoint la sa" for x
    by (simp add: xs(1) client_reached_def client_run_def del: client_run_step.simps)
  show ?case
  proof (cases "e = Left \<and> \<not> gone ?s")
    case True
    then have "shellClient (shell_step H fit pf e ?s) = client_run_step H fit (has_window pf) Unmount (shellClient ?s)"
      by (simp add: unmount_shell_def del: client_run_step.simps)
    then show ?thesis unfolding shell_reached_snoc gone_step more using True by (intro exI [of _ "xs @ [Unmount]"]) simp
  next
    case False
    then have g: "gone (shell_step H fit pf e ?s) \<longleftrightarrow> gone ?s" using gone_step by blast
    show ?thesis
    proof (cases rule: shell_client_step [of H fit pf e ?s])
      case still
      then show ?thesis unfolding shell_reached_snoc g using xs by metis
    next
      case (moves x)
      then have "x \<noteq> Unmount" using False by auto
      then show ?thesis unfolding shell_reached_snoc g moves(1) more using xs(2) by (intro exI [of _ "xs @ [x]"]) auto
    qed
  qed
qed

subsection \<open>What is shown\<close>

definition model_of :: "host \<Rightarrow> int \<Rightarrow> backend_issue + backend_endpoints \<Rightarrow> client \<Rightarrow> presentation_model" where
  "model_of H clock r c = buildTerminalPresentationModel H clock (case r of Inl _ \<Rightarrow> True | Inr _ \<Rightarrow> False) c"

fun is_render :: "shell_event \<Rightarrow> bool" where
  "is_render (Rendered clock r) = True"
| "is_render _ = False"

lemma is_render_iff: "is_render e \<longleftrightarrow> (\<exists>clock r. e = Rendered clock r)"
  by (cases e) simp_all

lemma shown_step:
  "shown (shell_step H fit pf e s) =
     (case e of Rendered clock r \<Rightarrow> if gone s then shown s else Some (model_of H clock r (shellClient s)) | _ \<Rightarrow> shown s)"
  by (cases e)
    (auto simp: download_input_def control_input_def key_input_def dismiss_input_def closeDialog_def
      fullscreen_settles_def fullscreen_moves_def render_shell_def unmount_shell_def model_of_def Let_def case_prod_beta
      simp del: client_run_step.simps split: option.split sum.split if_splits)

lemma last_shown_step:
  assumes "\<not> is_render e"
  shows "shownLastSessionId (shellClient (shell_step H fit pf e s)) = shownLastSessionId (shellClient s)"
proof (cases rule: shell_client_step [of H fit pf e s])
  case (moves x)
  have "\<forall>r. x \<noteq> Commit r" using moves(2) assms by (auto simp: is_render_iff)
  then show ?thesis unfolding moves(1) by (rule view_step(2))
qed simp

lemma commit_shows_last: "shownLastSessionId (commit H w r c) = lastSessionId (sess c)"
proof -
  have "shownLastSessionId (backendNoticeEffect H r a) = shownLastSessionId a" for a
    by (simp add: backendNoticeEffect_def Let_def split: sum.split)
  moreover have "shownLastSessionId (if P then on_connection H f a else a) = shownLastSessionId a"
    "shownLastSessionId (if P then on_session g a else a) = shownLastSessionId a" for P f g a by simp_all
  ultimately show ?thesis unfolding commit_def Let_def by (simp only: shown_kept client.simps) simp
qed

text \<open>The last render of a shell that is not gone: its models, and the last session it offers to resume.\<close>

lemma last_render:
  assumes "shown (shell_reached H fit pf es clock endpoint la sa) = Some p" "\<not> gone (shell_reached H fit pf es clock endpoint la sa)"
  obtains es1 t r es2 where "es = es1 @ Rendered t r # es2" "list_all (\<lambda>e. \<not> is_render e) es2"
    "p = model_of H t r (shellClient (shell_reached H fit pf es1 clock endpoint la sa))"
    "shownLastSessionId (shellClient (shell_reached H fit pf es clock endpoint la sa)) =
     lastSessionId (sess (shellClient (shell_reached H fit pf es1 clock endpoint la sa)))"
proof -
  have "\<exists>es1 t r es2. es = es1 @ Rendered t r # es2 \<and> list_all (\<lambda>e. \<not> is_render e) es2 \<and>
      p = model_of H t r (shellClient (shell_reached H fit pf es1 clock endpoint la sa)) \<and>
      shownLastSessionId (shellClient (shell_reached H fit pf es clock endpoint la sa)) =
        lastSessionId (sess (shellClient (shell_reached H fit pf es1 clock endpoint la sa)))"
    using assms
  proof (induction es rule: rev_induct)
    case Nil
    then show ?case by (simp add: shell_reached_def mount_shell_def)
  next
    case (snoc e es)
    let ?s = "shell_reached H fit pf es clock endpoint la sa"
    have alive: "\<not> gone ?s" using snoc.prems(2) unfolding shell_reached_snoc gone_step by blast
    show ?case
    proof (cases "is_render e")
      case True
      then obtain t r where e: "e = Rendered t r" by (auto simp: is_render_iff)
      have p: "p = model_of H t r (shellClient ?s)" using snoc.prems(1) alive unfolding shell_reached_snoc shown_step e by simp
      have "shownLastSessionId (shellClient (shell_step H fit pf e ?s)) = lastSessionId (sess (shellClient ?s))"
        using alive by (simp add: e render_shell_def Let_def commit_shows_last)
      then show ?thesis using p
        unfolding shell_reached_snoc e by (intro exI [of _ es] exI [of _ t] exI [of _ r] exI [of _ "[]"]) simp
    next
      case False
      then have "shown (shell_step H fit pf e ?s) = shown ?s" unfolding shown_step by (cases e) (auto simp: is_render_iff)
      then obtain es1 t r es2 where ih: "es = es1 @ Rendered t r # es2" "list_all (\<lambda>e. \<not> is_render e) es2"
        "p = model_of H t r (shellClient (shell_reached H fit pf es1 clock endpoint la sa))"
        "shownLastSessionId (shellClient ?s) = lastSessionId (sess (shellClient (shell_reached H fit pf es1 clock endpoint la sa)))"
        using snoc.IH snoc.prems(1) alive unfolding shell_reached_snoc by metis
      show ?thesis unfolding shell_reached_snoc last_shown_step [OF False] using ih False
        by (intro exI [of _ es1] exI [of _ t] exI [of _ r] exI [of _ "es2 @ [e]"]) simp
    qed
  qed
  then show thesis using that by blast
qed

subsection \<open>The properties\<close>


lemma offered_identity:
  assumes "case b of
       New_session_button \<Rightarrow> action = Start_fresh_session
     | Resume_last_button \<Rightarrow> action = Resume_last_session \<and> l0 \<noteq> None
     | Live_session_button n \<Rightarrow> \<exists>l \<in> set ls. sid \<noteq> Some (ss_id l) \<and>
         action = Attach_to_session (ss_id l) (if ss_canControl l then Control else Watch)"
    "menu_identity l0 action p \<noteq> p"
  shows "case b of
       New_session_button \<Rightarrow> menu_identity l0 action p = (None, Control)
     | Resume_last_button \<Rightarrow> \<exists>l. l0 = Some l \<and> menu_identity l0 action p = (Some l, Control)
     | Live_session_button n \<Rightarrow> \<exists>l \<in> set ls. sid \<noteq> Some (ss_id l) \<and>
         menu_identity l0 action p = (Some (ss_id l), if ss_canControl l then Control else Watch)"
proof (cases b)
  case (Live_session_button n)
  then obtain l where l: "l \<in> set ls" "sid \<noteq> Some (ss_id l)"
    "action = Attach_to_session (ss_id l) (if ss_canControl l then Control else Watch)" using assms(1) by auto
  then have "menu_identity l0 action p = (Some (ss_id l), if ss_canControl l then Control else Watch)" using assms(2) by auto
  then show ?thesis using l(1,2) Live_session_button by auto
qed (use assms in \<open>auto split: option.splits if_splits\<close>)

text \<open>C33: The user attaches only to what he is shown: an input or a render that changes the session or the mode of the client is a
  click in the session menu while no dialog covers it, and what it changes to was offered by the last render: a fresh
  session, the last session, or another session that was live then, as its controller exactly when the server said it can be
  controlled.\<close>

theorem user_attaches_to_what_is_shown:
  fixes e :: shell_event
  assumes s: "s = shell_reached H fit pf es clock endpoint la sa" and inside: "\<And>x. e \<noteq> Outside x"
    and changes: "who (sess (shellClient (shell_step H fit pf e s))) \<noteq> who (sess (shellClient s))"
  shows "\<exists>b es1 t r es2. e = Menu_input (Menu_clicked b) \<and> \<not> dialogOpen s \<and> \<not> gone s \<and>
    es = es1 @ Rendered t r # es2 \<and> list_all (\<lambda>e. \<not> is_render e) es2 \<and>
    (let c = shellClient (shell_reached H fit pf es1 clock endpoint la sa); new = who (sess (shellClient (shell_step H fit pf e s)))
     in sessionMenuOpen (sess c) \<and> terminalReady (conn c) \<and>
        (case b of
           New_session_button \<Rightarrow> new = (None, Control)
         | Resume_last_button \<Rightarrow> \<exists>l. lastSessionId (sess c) = Some l \<and> new = (Some l, Control)
         | Live_session_button n \<Rightarrow> \<exists>l \<in> set (liveSessions (sess c)). sessionId (sess c) \<noteq> Some (ss_id l) \<and>
             new = (Some (ss_id l), if ss_canControl l then Control else Watch)))"
proof -
  obtain xs where ok: "conn_ok H (shellClient s)" using shell_run_client reached_ok unfolding s by metis
  obtain x where x: "shellClient (shell_step H fit pf e s) = client_run_step H fit (has_window pf) x (shellClient s)" "step_of H s e x"
    using changes by (cases rule: shell_client_step [of H fit pf e s]) auto
  have new: "who (sess (shellClient (shell_step H fit pf e s))) = next_identity H (shellClient s) x (who (sess (shellClient s)))"
    unfolding x(1) by (rule step_identity [OF ok])
  have "\<exists>a. x = Session_menu a"
    using x(2) inside changes unfolding new by (auto simp: next_identity_def split: client_step.splits)
  then obtain a where a: "x = Session_menu a" by blast
  then obtain b p where b: "e = Menu_input (Menu_clicked b)" "interactive s = Some p"
    "menu_click H (menuQuery (menuFields s)) (menuFilter (menuFields s)) (pm_sessionMenu p) b = Some a"
    using x(2) by auto
  then have alive: "shown s = Some p" "\<not> gone s" "\<not> dialogOpen s" by (auto simp: interactive_def split: if_splits)
  obtain es1 t r es2 where r: "es = es1 @ Rendered t r # es2" "list_all (\<lambda>e. \<not> is_render e) es2"
    "p = model_of H t r (shellClient (shell_reached H fit pf es1 clock endpoint la sa))"
    "shownLastSessionId (shellClient s) = lastSessionId (sess (shellClient (shell_reached H fit pf es1 clock endpoint la sa)))"
    using last_render alive(1,2) unfolding s by blast
  define c where "c = shellClient (shell_reached H fit pf es1 clock endpoint la sa)"
  have menu: "pm_sessionMenu p = sessionMenuModel t (domain_input (case r of Inl _ \<Rightarrow> True | Inr _ \<Rightarrow> False) c)"
    by (simp add: r(3) c_def model_of_def buildTerminalPresentationModel_def Let_def)
  note offer = menu_offers [OF b(3) [unfolded menu]]
  have i: "vi_sessionMenuOpen (domain_input f c) = sessionMenuOpen (sess c)" "vi_terminalReady (domain_input f c) = terminalReady (conn c)"
    "vi_sessionId (domain_input f c) = sessionId (sess c)" "vi_lastSessionId (domain_input f c) = lastSessionId (sess c)"
    "vi_liveSessions (domain_input f c) = liveSessions (sess c)" for f by (simp_all add: domain_input_def)
  have who': "who (sess (shellClient (shell_step H fit pf e s))) = menu_identity (lastSessionId (sess c)) a (who (sess (shellClient s)))"
    using new r(4) by (simp add: a next_identity_def c_def)
  have kind: "case b of New_session_button \<Rightarrow> who (sess (shellClient (shell_step H fit pf e s))) = (None, Control)
      | Resume_last_button \<Rightarrow> \<exists>l. lastSessionId (sess c) = Some l \<and> who (sess (shellClient (shell_step H fit pf e s))) = (Some l, Control)
      | Live_session_button n \<Rightarrow> \<exists>l \<in> set (liveSessions (sess c)). sessionId (sess c) \<noteq> Some (ss_id l) \<and>
          who (sess (shellClient (shell_step H fit pf e s))) = (Some (ss_id l), if ss_canControl l then Control else Watch)"
    unfolding who' by (rule offered_identity [OF offer(3) [unfolded i] changes [unfolded who']])
  show ?thesis unfolding Let_def
    by (intro exI [of _ b] exI [of _ es1] exI [of _ t] exI [of _ r] exI [of _ es2] conjI b(1) alive(2,3) r(1,2)
        offer(1,2) [unfolded i, unfolded c_def] kind [unfolded c_def])
qed

text \<open>A shell whose terminal became ready and whose session menu was opened, with a last session in the storage.\<close>

definition stored_access :: storage_access where
  "stored_access = \<lparr>acc_storage = Some (sample_area\<lparr>ws_items := [LAST_SESSION_STORAGE_KEY \<mapsto> js ''s1'']\<rparr>), acc_error = None\<rparr>"

definition sample_platform :: platform where
  "sample_platform = \<lparr>has_window = True, has_document = True, has_clipboard = True, has_object_urls = True\<rparr>"

definition menu_events :: "shell_event list" where
  "menu_events =
     [Outside (Connection (Setup_settled False (Inr \<lparr>term_cols = 80, term_rows = 24, term_font = 11, term_calls = []\<rparr>))),
      Rendered 0 sample_endpoints, Bar_input Click_session, Rendered 0 sample_endpoints]"

definition menu_shell :: shell where
  "menu_shell = shell_reached sample_host id sample_platform menu_events 0 None stored_access sample_access"

definition resuming :: "shell \<Rightarrow> bool" where
  "resuming s \<longleftrightarrow>
     fst (who (sess (shellClient s))) = None \<and>
     fst (who (sess (shellClient (shell_step sample_host id sample_platform (Menu_input (Menu_clicked Resume_last_button)) s)))) \<noteq> None"

lemma menu_shell_resumes: "resuming menu_shell"
  by code_simp

theorem user_attaches_to_what_is_shown_witness:
  "\<exists>es1 t r es2. menu_events = es1 @ Rendered t r # es2 \<and>
     (\<exists>l. lastSessionId (sess (shellClient (shell_reached sample_host id sample_platform es1 0 None stored_access sample_access))) = Some l \<and>
        who (sess (shellClient (shell_step sample_host id sample_platform (Menu_input (Menu_clicked Resume_last_button)) menu_shell))) =
          (Some l, Control))"
proof -
  let ?e = "Menu_input (Menu_clicked Resume_last_button)"
  have "who (sess (shellClient (shell_step sample_host id sample_platform ?e menu_shell))) \<noteq> who (sess (shellClient menu_shell))"
    using menu_shell_resumes unfolding resuming_def by metis
  from user_attaches_to_what_is_shown [OF menu_shell_def _ this]
  obtain b es1 t r es2 where r: "?e = Menu_input (Menu_clicked b)" "menu_events = es1 @ Rendered t r # es2"
    "case b of New_session_button \<Rightarrow> who (sess (shellClient (shell_step sample_host id sample_platform ?e menu_shell))) = (None, Control)
     | Resume_last_button \<Rightarrow> \<exists>l. lastSessionId (sess (shellClient (shell_reached sample_host id sample_platform es1 0 None stored_access
         sample_access))) = Some l \<and> who (sess (shellClient (shell_step sample_host id sample_platform ?e menu_shell))) = (Some l, Control)
     | Live_session_button n \<Rightarrow> True"
    unfolding Let_def by (auto split: menu_button.splits)
  then show ?thesis by auto
qed

subsection \<open>What the components keep\<close>

text \<open>The dialog is only open while it was rendered so, a closed menu has forgotten its fields, and the status bar keeps its timer.\<close>

definition shell_ok :: "shell \<Rightarrow> bool" where
  "shell_ok s \<longleftrightarrow>
     (dialogOpen s \<longrightarrow> shownHelp s \<and> \<not> gone s) \<and>
     (\<forall>p. shown s = Some p \<and> \<not> sm_sessionMenuOpen (pm_sessionMenu p) \<longrightarrow> menuFields s = initial_menu) \<and>
     (\<not> gone s \<longrightarrow> copy_ok (statusBar s))"

lemma menu_fields_kept: "\<not> sm_sessionMenuOpen m \<Longrightarrow> snd (menu_step H m e f) = f"
  by (cases e) simp_all

lemma copy_ok_passing: "copy_ok b \<Longrightarrow> copy_ok (b\<lparr>copyTimers := pass_time d clock (copyTimers b)\<rparr>)"
  using bar_copy [of b m "Bar_time d clock" None "b\<lparr>copyTimers := pass_time d clock (copyTimers b)\<rparr>" for m] by simp

lemma shell_ok_step: "shell_ok s \<Longrightarrow> shell_ok (shell_step H fit pf e s)"
proof (cases e)
  case (Menu_input me)
  assume ok: "shell_ok s"
  then show ?thesis using Menu_input menu_fields_kept [of _ H me "menuFields s"]
    by (auto simp: shell_ok_def interactive_def)
next
  case (Bar_input be)
  assume ok: "shell_ok s"
  have "copy_ok (statusBar (bar_input H fit pf be s))" if "\<not> gone s"
    using ok that bar_copy [OF _ surjective_pairing] by (auto simp: shell_ok_def bar_input_parts split: option.split)
  then show ?thesis using ok Bar_input by (simp add: shell_ok_def)
next
  case (Elapsed d clock)
  assume "shell_ok s"
  then show ?thesis using Elapsed by (simp add: shell_ok_def copy_ok_passing del: client_run_step.simps)
next
  case (Rendered t r)
  assume "shell_ok s"
  then show ?thesis using Rendered
    by (auto simp: shell_ok_def render_shell_def Let_def simp del: client_run_step.simps)
qed (auto simp: shell_ok_def download_input_def control_input_def key_input_def dismiss_input_def closeDialog_def
    fullscreen_settles_def fullscreen_moves_def unmount_shell_def Let_def simp del: client_run_step.simps split: option.split sum.split)

lemma shell_ok_reached: "shell_ok (shell_reached H fit pf es clock endpoint la sa)"
proof (induction es rule: rev_induct)
  case Nil
  show ?case
    by (simp add: shell_reached_def mount_shell_def shell_ok_def copy_ok_def initial_status_bar_def pending_def new_scheduler_def fun_eq_iff)
next
  case (snoc e es)
  then show ?case by (simp add: shell_reached_snoc shell_ok_step del: shell_step.simps)
qed

subsection \<open>The full screen button\<close>

text \<open>Once the first commit has bound the listener, the switch of the interface follows the document.\<close>

lemma fullscreen_step:
  assumes "has_document pf" "shown s \<noteq> None" "\<not> gone (shell_step H fit pf e s)" "isFullscreen (shellClient s) = fullscreenElement s"
  shows "isFullscreen (shellClient (shell_step H fit pf e s)) = fullscreenElement (shell_step H fit pf e s)"
proof (cases "\<exists>on. e = Fullscreen_moves on")
  case True
  then obtain on where e: "e = Fullscreen_moves on" by blast
  have "isFullscreen (onFullscreenChange H fit w on c) = on" for w c
    by (simp add: onFullscreenChange_def fitNow_def on_connection_def cancelFullscreenTimer_def Let_def case_prod_beta split: option.split)
  moreover have "\<not> gone s" using assms(3) unfolding gone_step by blast
  moreover obtain p where "shown s = Some p" using assms(2) by blast
  ultimately show ?thesis using assms(1) e by (simp add: fullscreen_moves_def Let_def)
next
  case False
  have kept: "fullscreenElement (shell_step H fit pf e s) = fullscreenElement s" using False
    by (cases e) (auto simp: download_input_def control_input_def key_input_def dismiss_input_def closeDialog_def
        fullscreen_settles_def render_shell_def unmount_shell_def Let_def case_prod_beta
        simp del: client_run_step.simps split: option.split sum.split)
  show ?thesis
  proof (cases rule: shell_client_step [of H fit pf e s])
    case (moves x)
    have "\<forall>b. x \<noteq> Fullscreen_changed b" using moves(2) False by auto
    then show ?thesis unfolding moves(1) kept using assms(4) view_step(3) by metis
  qed (use assms kept in simp)
qed

lemma fullscreen_follows:
  assumes "has_document pf" "\<not> gone (shell_reached H fit pf (Rendered t r # es) clock endpoint la sa)"
  shows "isFullscreen (shellClient (shell_reached H fit pf (Rendered t r # es) clock endpoint la sa)) =
      fullscreenElement (shell_reached H fit pf (Rendered t r # es) clock endpoint la sa) \<and>
    shown (shell_reached H fit pf (Rendered t r # es) clock endpoint la sa) \<noteq> None"
  using assms(2)
proof (induction es rule: rev_induct)
  case Nil
  have "isFullscreen (commit H (has_window pf) r (mount_client H clock endpoint la sa)) = False"
    using view_step(3) [of "Commit r" H fit "has_window pf" "mount_client H clock endpoint la sa"] by (simp add: mount_client_def Let_def)
  then show ?case by (simp add: shell_reached_def mount_shell_def render_shell_def Let_def)
next
  case (snoc e es)
  let ?s = "shell_reached H fit pf (Rendered t r # es) clock endpoint la sa"
  have s: "shell_reached H fit pf (Rendered t r # es @ [e]) clock endpoint la sa = shell_step H fit pf e ?s"
    using shell_reached_snoc [of H fit pf "Rendered t r # es"] by simp
  have alive: "\<not> gone (shell_step H fit pf e ?s)" using snoc.prems unfolding s .
  then have "\<not> gone ?s" unfolding gone_step by blast
  then have ih: "isFullscreen (shellClient ?s) = fullscreenElement ?s" "shown ?s \<noteq> None" using snoc.IH by blast+
  show ?case unfolding s using fullscreen_step [OF assms(1) ih(2) alive ih(1)] ih(2)
    by (simp add: shown_step split: shell_event.split)
qed

text \<open>A click on the full screen button of an interface that is up to date asks the browser for what the icon of the button shows:
  to leave full screen when the document is in it, to enter it otherwise.\<close>

theorem fullscreen_button_does_what_it_shows:
  assumes "s = shell_reached H fit pf (Rendered t r # es) clock endpoint la sa" "has_document pf" "interactive s = Some p"
    "cs_isFullscreen (snd (pm_floatingControls p)) = isFullscreen (shellClient s)"
    "buildFloatingControlLookup (buildFloatingControlCatalog FLOATING_CONTROL_REGISTRY) = Inr l"
    "floating_click l (pm_floatingControls p) n = Some Toggle_fullscreen"
  shows "fullscreenRequests (shell_step H fit pf (Control_input n) s) = fullscreenRequests s @
    [(if resolveIcon Key_fullscreen (snd (pm_floatingControls p)) = Icon_fullscreenExit then Exit_fullscreen else Request_fullscreen, False)]"
proof -
  have alive: "\<not> gone s" "shown s = Some p" using assms(3) by (auto simp: interactive_def split: if_splits)
  then have "isFullscreen (shellClient s) = fullscreenElement s" using fullscreen_follows [OF assms(2)] unfolding assms(1) by blast
  then show ?thesis using assms(2-6) alive
    by (simp add: control_input_def with_command_def toggleFullscreen_def del: client_run_step.simps)
qed

definition empty_access :: storage_access where
  "empty_access = \<lparr>acc_storage = None, acc_error = None\<rparr>"

definition fullscreen_shell :: shell where
  "fullscreen_shell = shell_reached sample_host id sample_platform (Rendered 0 sample_endpoints # [hd menu_events, Rendered 0 sample_endpoints])
     0 None empty_access empty_access"

definition offers_fullscreen :: "shell \<Rightarrow> bool" where
  "offers_fullscreen s \<longleftrightarrow>
     \<not> isFullscreen (shellClient s) \<and>
     (case interactive s of
        None \<Rightarrow> False
      | Some p \<Rightarrow> \<not> cs_isFullscreen (snd (pm_floatingControls p)) \<and>
          floating_click \<lparr>policyByAction = floating_rows, metadataByKey = []\<rparr> (pm_floatingControls p) 5 = Some Toggle_fullscreen)"

lemma fullscreen_shell_offers: "offers_fullscreen fullscreen_shell"
  by code_simp

theorem fullscreen_button_does_what_it_shows_witness:
  "map fst (fullscreenRequests (shell_step sample_host id sample_platform (Control_input 5) fullscreen_shell)) =
     map fst (fullscreenRequests fullscreen_shell) @ [Request_fullscreen]"
proof -
  obtain p where p: "interactive fullscreen_shell = Some p" "\<not> cs_isFullscreen (snd (pm_floatingControls p))"
    "floating_click \<lparr>policyByAction = floating_rows, metadataByKey = []\<rparr> (pm_floatingControls p) 5 = Some Toggle_fullscreen"
    "\<not> isFullscreen (shellClient fullscreen_shell)"
    using fullscreen_shell_offers unfolding offers_fullscreen_def by (auto split: option.splits)
  have "floating_click \<lparr>policyByAction = floating_rows, metadataByKey = map (\<lambda>(c, k). (k, COMMAND_FLOATING_CONTROL_METADATA k)) floating_rows\<rparr>
      (pm_floatingControls p) 5 = Some Toggle_fullscreen"
    using p(3) unfolding floating_click_def floatingControlPolicy_def control_lookup.select_convs .
  from fullscreen_button_does_what_it_shows [OF fullscreen_shell_def _ p(1) _ floating_lookup this] show ?thesis
    using p(2,4) by (simp add: sample_platform_def del: shell_step.simps)
qed

end
