(* ===== verification/Web_Page.thy ===== *)
theory Web_Page
  imports Shell_Properties
begin

section \<open>The page\<close>

text \<open>
  \<open>main.tsx\<close>, \<open>App.tsx\<close>, \<open>AppErrorBoundary.tsx\<close>, \<open>bootstrap/terminal-environment.ts\<close> and the module caches of
  \<open>commands/command-registry.ts\<close> and \<open>commands/floating-controls/catalog.ts\<close>: from the loading of the page to the shell.
  The application is imported, the sign-in of the default environment is awaited, and only then is the shell mounted;
  whatever a render throws is caught by the error boundary.
\<close>

subsection \<open>Module caches\<close>

record module_caches =
  cachedRegistry :: "command_registry option"
  cachedCatalog :: "catalog_entry list option"
  cachedLookup :: "control_lookup option"

definition no_caches :: module_caches where
  "no_caches = \<lparr>cachedRegistry = None, cachedCatalog = None, cachedLookup = None\<rparr>"

definition getCommandRegistry :: "module_caches \<Rightarrow> (jsstring + command_registry) \<times> module_caches" where
  "getCommandRegistry m =
     (case cachedRegistry m of
        Some r \<Rightarrow> (Inr r, m)
      | None \<Rightarrow>
          (case buildCommandRegistry COMMAND_MANIFEST of Inl e \<Rightarrow> (Inl e, m) | Inr r \<Rightarrow> (Inr r, m\<lparr>cachedRegistry := Some r\<rparr>)))"

definition resetCommandRegistry :: "module_caches \<Rightarrow> module_caches" where
  "resetCommandRegistry m = m\<lparr>cachedRegistry := None\<rparr>"

definition getCatalog :: "module_caches \<Rightarrow> catalog_entry list \<times> module_caches" where
  "getCatalog m =
     (case cachedCatalog m of
        Some c \<Rightarrow> (c, m)
      | None \<Rightarrow> (let c = buildFloatingControlCatalog FLOATING_CONTROL_REGISTRY in (c, m\<lparr>cachedCatalog := Some c\<rparr>)))"

definition getLookup :: "module_caches \<Rightarrow> (jsstring + control_lookup) \<times> module_caches" where
  "getLookup m =
     (case cachedLookup m of
        Some l \<Rightarrow> (Inr l, m)
      | None \<Rightarrow>
          (let (c, m1) = getCatalog m
           in case buildFloatingControlLookup c of Inl e \<Rightarrow> (Inl e, m1) | Inr l \<Rightarrow> (Inr l, m1\<lparr>cachedLookup := Some l\<rparr>)))"

definition resetFloatingControlCatalog :: "module_caches \<Rightarrow> module_caches" where
  "resetFloatingControlCatalog m = m\<lparr>cachedCatalog := None, cachedLookup := None\<rparr>"

text \<open>What is cached is what would be built.\<close>

definition caches_ok :: "module_caches \<Rightarrow> bool" where
  "caches_ok m \<longleftrightarrow>
     (\<forall>r. cachedRegistry m = Some r \<longrightarrow> buildCommandRegistry COMMAND_MANIFEST = Inr r) \<and>
     (\<forall>c. cachedCatalog m = Some c \<longrightarrow> c = buildFloatingControlCatalog FLOATING_CONTROL_REGISTRY) \<and>
     (\<forall>l. cachedLookup m = Some l \<longrightarrow> buildFloatingControlLookup (buildFloatingControlCatalog FLOATING_CONTROL_REGISTRY) = Inr l)"

lemma caches_transparent:
  assumes "caches_ok m"
  shows "fst (getCommandRegistry m) = buildCommandRegistry COMMAND_MANIFEST" "caches_ok (snd (getCommandRegistry m))"
    "fst (getCatalog m) = buildFloatingControlCatalog FLOATING_CONTROL_REGISTRY" "caches_ok (snd (getCatalog m))"
    "fst (getLookup m) = buildFloatingControlLookup (buildFloatingControlCatalog FLOATING_CONTROL_REGISTRY)"
    "caches_ok (snd (getLookup m))" "caches_ok (resetCommandRegistry m)" "caches_ok (resetFloatingControlCatalog m)"
  using assms
  by (auto simp: caches_ok_def getCommandRegistry_def getCatalog_def getLookup_def resetCommandRegistry_def
      resetFloatingControlCatalog_def Let_def case_prod_beta split: option.splits sum.splits)

subsection \<open>Errors of the start\<close>

datatype boot_error = Bootstrap_invariant jsstring | Other_error jsval

definition bootstrapFailureMessage :: "boot_error \<Rightarrow> jsstring" where
  "bootstrapFailureMessage e =
     (case e of
        Bootstrap_invariant m \<Rightarrow> js ''Terminal bootstrap invariant failed: '' @ m
      | Other_error _ \<Rightarrow> js ''Unable to start terminal application.'')"

text \<open>Rendering the floating controls looks up every entry of the registry; a look-up may throw.\<close>

definition controls_error :: "control_lookup \<Rightarrow> jsstring option" where
  "controls_error l =
     fold (\<lambda>(action, testId, key) err.
         case err of
           Some e \<Rightarrow> Some e
         | None \<Rightarrow>
             (case floatingControlDescriptor l key of
                Inl e \<Rightarrow> Some e
              | Inr _ \<Rightarrow> (case floatingControlPolicy l action of Inl e \<Rightarrow> Some e | Inr _ \<Rightarrow> None)))
       FLOATING_CONTROL_REGISTRY None"

definition renderControls :: "module_caches \<Rightarrow> jsstring option \<times> module_caches" where
  "renderControls m = (case getLookup m of (Inl e, m1) \<Rightarrow> (Some e, m1) | (Inr l, m1) \<Rightarrow> (controls_error l, m1))"

subsection \<open>The default environment\<close>

text \<open>
  Its functions are closures over the configured URL and the window; the location is read when they are called.
  The areas are what reading the properties of \<open>window\<close> gives.
\<close>

record app_environment =
  documentRef :: bool
  windowRef :: bool
  bootstrapAuth :: "window_location \<Rightarrow> auth_start"
  resolveBackendEndpoints :: "window_location \<Rightarrow> backend_issue + backend_endpoints"
  getLocalStorage :: "(jsval + web_storage) \<Rightarrow> storage_access"
  getSessionStorage :: "(jsval + web_storage) \<Rightarrow> storage_access"

definition createTerminalAppEnvironment ::
  "host \<Rightarrow> web_platform \<Rightarrow> platform \<Rightarrow> jsstring option \<Rightarrow> jsstring option \<Rightarrow> app_environment" where
  "createTerminalAppEnvironment H W pf optionsSocketUrl env =
     (let envSocketUrl = resolveConfiguredSocketUrl optionsSocketUrl env;
          window = (\<lambda>l. if has_window pf then Some l else None)
      in \<lparr>documentRef = has_document pf, windowRef = has_window pf,
          bootstrapAuth = (\<lambda>l. bootstrapBrowserAuth H W (window l) envSocketUrl),
          resolveBackendEndpoints = (\<lambda>l. resolveTerminalBackendEndpoints H W (window l) envSocketUrl),
          getLocalStorage = (\<lambda>area. readStorageResult (js ''localStorage'') (if has_window pf then Some area else None)),
          getSessionStorage = (\<lambda>area. readStorageResult (js ''sessionStorage'') (if has_window pf then Some area else None))\<rparr>)"

subsection \<open>The state of the page\<close>

datatype boot_phase = Importing | Boot_failed jsstring | App_running | App_failed

record web_page =
  bootPhase :: boot_phase
  caches :: module_caches
  pageLocation :: window_location
  signIn :: "auth_start option"
  terminalApp :: "terminal_app option"
  pageShell :: "shell option"

text \<open>What the page runs in: the platform, the configured URL and the two storage areas as the page finds them.\<close>

record page_setup =
  ps_platform :: platform
  ps_web :: web_platform
  ps_socketUrl :: "jsstring option"
  ps_local :: "jsval + web_storage"
  ps_session :: "jsval + web_storage"

definition page_environment :: "host \<Rightarrow> page_setup \<Rightarrow> app_environment" where
  "page_environment H ps = createTerminalAppEnvironment H (ps_web ps) (ps_platform ps) None (ps_socketUrl ps)"

definition open_page :: "bool \<Rightarrow> window_location \<Rightarrow> web_page" where
  "open_page hasRoot l =
     \<lparr>bootPhase = (if hasRoot then Importing
                   else Boot_failed (bootstrapFailureMessage (Bootstrap_invariant (js ''Missing #root element'')))),
      caches = no_caches, pageLocation = l, signIn = None, terminalApp = None, pageShell = None\<rparr>"

subsection \<open>Steps\<close>

text \<open>
  The import of the application settles; a successful one has evaluated the modules, and the first render of \<open>TerminalApp\<close>
  starts the sign-in.
\<close>

definition import_settles :: "host \<Rightarrow> page_setup \<Rightarrow> boot_error option \<Rightarrow> web_page \<Rightarrow> web_page" where
  "import_settles H ps failure p =
     (if bootPhase p \<noteq> Importing then p
      else case failure of
             Some e \<Rightarrow> p\<lparr>bootPhase := Boot_failed (bootstrapFailureMessage e)\<rparr>
           | None \<Rightarrow>
               p\<lparr>bootPhase := App_running, caches := snd (getCatalog (caches p)), terminalApp := Some (mount_app (\<lambda>_. True) 0),
                 signIn := Some (bootstrapAuth (page_environment H ps) (pageLocation p))\<rparr>)"

text \<open>
  How the promise of the sign-in settles: without a token at once, without endpoints with an error, and otherwise as the
  request does, which is rejected or answered with \<open>ok\<close> and a status.  An exception of the browser, of the URL parser or
  of the request, comes with the event.
\<close>

definition sign_in_outcome ::
  "host \<Rightarrow> web_platform \<Rightarrow> auth_start \<Rightarrow> jsval + bool \<times> int \<Rightarrow> window_location \<Rightarrow> app_event \<times> window_location" where
  "sign_in_outcome H W start reply l =
     (case start of
        No_token \<Rightarrow> (Auth_resolved 0, l)
      | Auth_failed message \<Rightarrow> (Auth_rejected 0 (J_error message), l)
      | Invalid_sessions_url \<Rightarrow> (Auth_rejected 0 (case reply of Inl e \<Rightarrow> e | Inr _ \<Rightarrow> J_undefined), l)
      | Auth_posted rq \<Rightarrow>
          (case reply of
             Inl e \<Rightarrow> (Auth_rejected 0 e, l)
           | Inr (ok, status) \<Rightarrow>
               (case auth_answered H W ok status l of
                  (Some message, l') \<Rightarrow> (Auth_rejected 0 (J_error message), l')
                | (None, l') \<Rightarrow> (Auth_resolved 0, l'))))"

definition sign_in_settles :: "host \<Rightarrow> page_setup \<Rightarrow> jsval + bool \<times> int \<Rightarrow> web_page \<Rightarrow> web_page" where
  "sign_in_settles H ps reply p =
     (case (signIn p, terminalApp p) of
        (Some start, Some a) \<Rightarrow>
          if authRuns a 0 = None then p
          else let (ev, l) = sign_in_outcome H (ps_web ps) start reply (pageLocation p)
               in p\<lparr>terminalApp := Some (app_step (\<lambda>_. True) ev a), pageLocation := l\<rparr>
      | _ \<Rightarrow> p)"

text \<open>The error boundary unmounts what it was showing: the clean-ups run.\<close>

definition app_fails :: "host \<Rightarrow> (terminal \<Rightarrow> terminal) \<Rightarrow> page_setup \<Rightarrow> web_page \<Rightarrow> web_page" where
  "app_fails H fit ps p =
     (if bootPhase p \<noteq> App_running then p
      else p\<lparr>bootPhase := App_failed, terminalApp := map_option (\<lambda>a. a\<lparr>activeRun := None\<rparr>) (terminalApp p),
             pageShell := map_option (shell_step H fit (ps_platform ps) Left) (pageShell p)\<rparr>)"

definition mounted_shell :: "host \<Rightarrow> page_setup \<Rightarrow> int \<Rightarrow> backend_issue + backend_endpoints \<Rightarrow> shell" where
  "mounted_shell H ps clock resolution =
     mount_shell clock
       (mount_client H clock (case resolution of Inl _ \<Rightarrow> None | Inr e \<Rightarrow> Some (be_terminalWsUrl e))
         (getLocalStorage (page_environment H ps) (ps_local ps)) (getSessionStorage (page_environment H ps) (ps_session ps)))"

definition page_renders :: "host \<Rightarrow> (terminal \<Rightarrow> terminal) \<Rightarrow> page_setup \<Rightarrow> int \<Rightarrow> web_page \<Rightarrow> web_page" where
  "page_renders H fit ps clock p =
     (case (bootPhase p, terminalApp p) of
        (App_running, Some a) \<Rightarrow>
          (case app_view (\<lambda>_. True) a of
             Bootstrap_message _ \<Rightarrow> p
           | Terminal_shell _ \<Rightarrow>
               (case renderControls (caches p) of
                  (Some e, m) \<Rightarrow> app_fails H fit ps (p\<lparr>caches := m\<rparr>)
                | (None, m) \<Rightarrow>
                    (let resolution = resolveBackendEndpoints (page_environment H ps) (pageLocation p);
                         s = (case pageShell p of Some s \<Rightarrow> s | None \<Rightarrow> mounted_shell H ps clock resolution)
                     in p\<lparr>caches := m, pageShell := Some (shell_step H fit (ps_platform ps) (Rendered clock resolution) s)\<rparr>)))
      | _ \<Rightarrow> p)"

datatype page_event =
    App_imported "boot_error option"
  | Sign_in_answered "jsval + bool \<times> int"
  | Page_rendered int
  | Page_shell shell_event
  | Render_failed

text \<open>The shell is rendered and unmounted by the page.\<close>

fun by_page :: "shell_event \<Rightarrow> bool" where
  "by_page (Rendered clock resolution) = True"
| "by_page Left = True"
| "by_page _ = False"

fun page_step :: "host \<Rightarrow> (terminal \<Rightarrow> terminal) \<Rightarrow> page_setup \<Rightarrow> page_event \<Rightarrow> web_page \<Rightarrow> web_page" where
  "page_step H fit ps (App_imported failure) p = import_settles H ps failure p"
| "page_step H fit ps (Sign_in_answered reply) p = sign_in_settles H ps reply p"
| "page_step H fit ps (Page_rendered clock) p = page_renders H fit ps clock p"
| "page_step H fit ps (Page_shell e) p =
     (if by_page e then p else p\<lparr>pageShell := map_option (shell_step H fit (ps_platform ps) e) (pageShell p)\<rparr>)"
| "page_step H fit ps Render_failed p = app_fails H fit ps p"

definition page_reached ::
  "host \<Rightarrow> (terminal \<Rightarrow> terminal) \<Rightarrow> page_setup \<Rightarrow> bool \<Rightarrow> window_location \<Rightarrow> page_event list \<Rightarrow> web_page" where
  "page_reached H fit ps hasRoot l es = fold (page_step H fit ps) es (open_page hasRoot l)"

text \<open>What the visitor sees.\<close>

datatype page_view = Blank_page | Alert_page jsstring | Bootstrap_page jsstring | Terminal_page | Reload_page

definition page_view :: "web_page \<Rightarrow> page_view" where
  "page_view p =
     (case bootPhase p of
        Importing \<Rightarrow> Blank_page
      | Boot_failed m \<Rightarrow> Alert_page m
      | App_failed \<Rightarrow> Reload_page
      | App_running \<Rightarrow>
          (case terminalApp p of
             None \<Rightarrow> Blank_page
           | Some a \<Rightarrow> (case app_view (\<lambda>_. True) a of Bootstrap_message m \<Rightarrow> Bootstrap_page m | Terminal_shell _ \<Rightarrow> Terminal_page)))"

end
