(* ===== verification/Page_Properties.thy ===== *)
theory Page_Properties
  imports Web_Page
begin

section \<open>Properties of the page\<close>

text \<open>
  The terminal waits for the sign-in: no shell, and with it no socket, is there before the server has accepted the token of the
  address, which is gone from it by then; and the tables of the commands never make the start fail.
\<close>

definition awaiting :: "web_page \<Rightarrow> bool" where
  "awaiting p \<longleftrightarrow> (\<exists>a. terminalApp p = Some a \<and> authRuns a 0 \<noteq> None)"

definition signed_in :: "web_page \<Rightarrow> bool" where
  "signed_in p \<longleftrightarrow> (\<exists>a. terminalApp p = Some a \<and> ab_authStatus (authBootstrapState a) = Auth_ready)"

text \<open>The application and its one run of the sign-in.\<close>

definition app_inv :: "terminal_app \<Rightarrow> bool" where
  "app_inv a \<longleftrightarrow>
     effectiveEnvironment a = 0 \<and> ab_environment (authBootstrapState a) = 0 \<and>
     (\<forall>env. authRuns a 0 = Some env \<longrightarrow> env = 0 \<and> ab_authStatus (authBootstrapState a) = Auth_pending)"

lemma app_inv_mount: "app_inv (mount_app (\<lambda>_. True) 0)"
  by (simp add: app_inv_def mount_app_def auth_effect_def)

lemma app_inv_settle:
  assumes "app_inv a" "ab_environment (result 0) = 0"
  shows "app_inv (settle_auth 0 result a)" "authRuns (settle_auth 0 result a) 0 = None"
  using assms by (auto simp: app_inv_def settle_auth_def Let_def split: option.split)

lemma app_view_signed_in:
  "app_inv a \<Longrightarrow> app_view (\<lambda>_. True) a = (if ab_authStatus (authBootstrapState a) = Auth_ready then Terminal_shell 0
     else Bootstrap_message (ab_message (authBootstrapState a)))"
  by (simp add: app_view_def app_inv_def Let_def)

text \<open>Why a page is signed in: there was no token, or the server accepted it while the answer was awaited.\<close>

definition accepted ::
  "host \<Rightarrow> (terminal \<Rightarrow> terminal) \<Rightarrow> page_setup \<Rightarrow> bool \<Rightarrow> window_location \<Rightarrow> page_event list \<Rightarrow> auth_start option \<Rightarrow>
   window_location \<Rightarrow> bool" where
  "accepted H fit ps hasRoot l es start here \<longleftrightarrow>
     (\<exists>es1 status es2 rq. es = es1 @ Sign_in_answered (Inr (True, status)) # es2 \<and> awaiting (page_reached H fit ps hasRoot l es1) \<and>
        start = Some (Auth_posted rq) \<and> here = stripAuthTokenFromWindowHash (ps_web ps) l)"

definition page_inv ::
  "host \<Rightarrow> (terminal \<Rightarrow> terminal) \<Rightarrow> page_setup \<Rightarrow> bool \<Rightarrow> window_location \<Rightarrow> page_event list \<Rightarrow> web_page \<Rightarrow> bool" where
  "page_inv H fit ps hasRoot l es p \<longleftrightarrow>
     caches_ok (caches p) \<and>
     (terminalApp p = None \<longrightarrow> pageLocation p = l) \<and> (bootPhase p = Importing \<longrightarrow> terminalApp p = None) \<and>
     (\<forall>a. terminalApp p = Some a \<longrightarrow> app_inv a \<and> signIn p = Some (bootstrapAuth (page_environment H ps) l)) \<and>
     (awaiting p \<longrightarrow> pageLocation p = l) \<and>
     (signed_in p \<longrightarrow> signIn p = Some No_token \<and> pageLocation p = l \<or> accepted H fit ps hasRoot l es (signIn p) (pageLocation p)) \<and>
     (\<forall>s. pageShell p = Some s \<longrightarrow> signed_in p \<and>
        (\<exists>t r ses. s = shell_reached H fit (ps_platform ps) (Rendered t r # ses) t
           (case r of Inl _ \<Rightarrow> None | Inr e \<Rightarrow> Some (be_terminalWsUrl e))
           (getLocalStorage (page_environment H ps) (ps_local ps)) (getSessionStorage (page_environment H ps) (ps_session ps))))"

lemma accepted_later: "accepted H fit ps hasRoot l es start here \<Longrightarrow> accepted H fit ps hasRoot l (es @ [e]) start here"
  unfolding accepted_def by (metis append.assoc append_Cons)

lemma page_reached_snoc:
  "page_reached H fit ps hasRoot l (es @ [e]) = page_step H fit ps e (page_reached H fit ps hasRoot l es)"
  by (simp add: page_reached_def)

lemma controls_never_fail: "caches_ok m \<Longrightarrow> fst (renderControls m) = None \<and> caches_ok (snd (renderControls m))"
proof -
  assume ok: "caches_ok m"
  have "controls_error l = None" if l: "buildFloatingControlLookup (buildFloatingControlCatalog FLOATING_CONTROL_REGISTRY) = Inr l" for l
  proof -
    have good: "floatingControlPolicy l (fst x) = Inr (snd (snd x)) \<and>
        floatingControlDescriptor l (snd (snd x)) = Inr (COMMAND_FLOATING_CONTROL_METADATA (snd (snd x)))"
      if "x \<in> set FLOATING_CONTROL_REGISTRY" for x
    proof -
      have "(fst x, snd (snd x)) \<in> set floating_rows"
        using imageI [OF that, of "\<lambda>(a, t, y). (a, y)"] unfolding floating_registry [symmetric] by (simp add: case_prod_beta)
      from floating_controls_built [OF l this] show ?thesis by blast
    qed
    have "fold (\<lambda>(action, testId, key) err. case err of Some e \<Rightarrow> Some e | None \<Rightarrow>
        (case floatingControlDescriptor l key of Inl e \<Rightarrow> Some e
         | Inr _ \<Rightarrow> (case floatingControlPolicy l action of Inl e \<Rightarrow> Some e | Inr _ \<Rightarrow> None))) xs None = None"
      if "set xs \<subseteq> set FLOATING_CONTROL_REGISTRY" for xs
      using that good by (induction xs) (auto simp: case_prod_beta)
    then show ?thesis unfolding controls_error_def by blast
  qed
  then show ?thesis using caches_transparent(5,6) [OF ok] floating_lookup
    by (auto simp: renderControls_def split: prod.splits sum.splits)
qed

lemma page_inv_import:
  assumes "page_inv H fit ps hasRoot l es p"
  shows "page_inv H fit ps hasRoot l (es @ [e]) (import_settles H ps failure p)"
proof (cases "bootPhase p = Importing")
  case True
  then have p: "terminalApp p = None" "pageLocation p = l" "pageShell p = None" "caches_ok (caches p)"
    using assms by (auto simp: page_inv_def signed_in_def)
  have "ab_authStatus (authBootstrapState (mount_app (\<lambda>_. True) 0)) = Auth_pending" by (simp add: mount_app_def auth_effect_def)
  then show ?thesis using True p app_inv_mount caches_transparent(4)
    by (simp add: import_settles_def page_inv_def signed_in_def awaiting_def split: option.split)
next
  case False
  then show ?thesis using assms accepted_later
    by (auto simp: import_settles_def page_inv_def)
qed

lemma sign_in_outcome_cases:
  obtains (resolved) l' where "sign_in_outcome H W start reply l = (Auth_resolved 0, l')"
      "start = No_token \<and> l' = l \<or>
       (\<exists>rq status. start = Auth_posted rq \<and> reply = Inr (True, status) \<and> l' = stripAuthTokenFromWindowHash W l)"
  | (rejected) e l' where "sign_in_outcome H W start reply l = (Auth_rejected 0 e, l')"
proof (cases start)
  case (Auth_posted rq)
  show thesis
  proof (cases reply)
    case (Inr r)
    then show thesis using Auth_posted that
      by (cases r; cases "fst r") (simp_all add: sign_in_outcome_def auth_answered_def)
  qed (use Auth_posted that in \<open>simp add: sign_in_outcome_def\<close>)
qed (use that in \<open>simp_all add: sign_in_outcome_def\<close>)

lemma page_inv_sign_in:
  assumes inv: "page_inv H fit ps hasRoot l es p" and p: "p = page_reached H fit ps hasRoot l es"
  shows "page_inv H fit ps hasRoot l (es @ [Sign_in_answered reply]) (sign_in_settles H ps reply p)"
proof (cases "awaiting p")
  case False
  then have "sign_in_settles H ps reply p = p"
    by (auto simp: sign_in_settles_def awaiting_def split: option.split)
  then show ?thesis using inv accepted_later by (auto simp: page_inv_def)
next
  case True
  then obtain a where a: "terminalApp p = Some a" "authRuns a 0 \<noteq> None" by (auto simp: awaiting_def)
  define start where "start = bootstrapAuth (page_environment H ps) l"
  have facts: "app_inv a" "signIn p = Some start" "pageLocation p = l" "caches_ok (caches p)" "bootPhase p \<noteq> Importing"
    using inv a True by (auto simp: page_inv_def start_def)
  then have pending: "ab_authStatus (authBootstrapState a) = Auth_pending" using a(2) unfolding app_inv_def by blast
  then have none: "pageShell p = None" using inv a(1) by (auto simp: page_inv_def signed_in_def)
  obtain ev l' where o: "sign_in_outcome H (ps_web ps) start reply l = (ev, l')" by fastforce
  let ?q = "p\<lparr>terminalApp := Some (app_step (\<lambda>_. True) ev a), pageLocation := l'\<rparr>"
  have q: "sign_in_settles H ps reply p = ?q" using a facts(2,3) o by (auto simp: sign_in_settles_def)
  have settled: "app_inv (app_step (\<lambda>_. True) ev a)" "authRuns (app_step (\<lambda>_. True) ev a) 0 = None"
    using app_inv_settle [OF facts(1)] o by (cases rule: sign_in_outcome_cases [of H "ps_web ps" start reply l]; auto)+
  have "signIn ?q = Some No_token \<and> pageLocation ?q = l \<or> accepted H fit ps hasRoot l (es @ [Sign_in_answered reply]) (signIn ?q) (pageLocation ?q)"
    if "signed_in ?q"
  proof (cases rule: sign_in_outcome_cases [of H "ps_web ps" start reply l])
    case (resolved l'')
    then consider "start = No_token" "l' = l" | rq status where "start = Auth_posted rq" "reply = Inr (True, status)"
        "l' = stripAuthTokenFromWindowHash (ps_web ps) l" using o by auto
    then show ?thesis
    proof cases
      case 1
      then show ?thesis using facts(2) by simp
    next
      case 2
      then have "accepted H fit ps hasRoot l (es @ [Sign_in_answered reply]) (signIn ?q) (pageLocation ?q)" unfolding accepted_def
        using facts(2) True [unfolded p]
        by (intro exI [of _ es] exI [of _ status] exI [of _ "[]"] exI [of _ rq]) simp
      then show ?thesis ..
    qed
  next
    case (rejected e l'')
    then have "ev = Auth_rejected 0 e" using o by simp
    then have "ab_authStatus (authBootstrapState (app_step (\<lambda>_. True) ev a)) \<noteq> Auth_ready"
      using pending by (auto simp: settle_auth_def Let_def split: option.split)
    then show ?thesis using that by (simp add: signed_in_def)
  qed
  then show ?thesis unfolding q using facts settled none start_def by (simp add: page_inv_def awaiting_def)
qed

lemma page_inv_shell:
  assumes inv: "page_inv H fit ps hasRoot l es p" and caches: "caches_ok m"
  shows "page_inv H fit ps hasRoot l (es @ [e])
    (p\<lparr>caches := m, pageShell := map_option (shell_step H fit (ps_platform ps) x) (pageShell p)\<rparr>)"
proof -
  have "\<exists>t r ses. shell_step H fit (ps_platform ps) x (shell_reached H fit (ps_platform ps) (Rendered t' r' # ses') t'
           (case r' of Inl _ \<Rightarrow> None | Inr e \<Rightarrow> Some (be_terminalWsUrl e)) la sa) =
      shell_reached H fit (ps_platform ps) (Rendered t r # ses) t (case r of Inl _ \<Rightarrow> None | Inr e \<Rightarrow> Some (be_terminalWsUrl e)) la sa"
    for t' r' ses' la sa
    by (rule exI [of _ t'], rule exI [of _ r'], rule exI [of _ "ses' @ [x]"]) (simp add: shell_reached_def)
  then show ?thesis using assms accepted_later
    by (auto simp: page_inv_def signed_in_def awaiting_def)
qed

text \<open>The phase matters only until the import has settled, and the active run only to the answer.\<close>

lemma page_inv_phase: "page_inv H fit ps hasRoot l es p \<Longrightarrow> bp \<noteq> Importing \<Longrightarrow> page_inv H fit ps hasRoot l es (p\<lparr>bootPhase := bp\<rparr>)"
  by (simp add: page_inv_def signed_in_def awaiting_def)

lemma page_inv_inactive:
  assumes "page_inv H fit ps hasRoot l es p"
  shows "page_inv H fit ps hasRoot l es (p\<lparr>terminalApp := map_option (\<lambda>a. a\<lparr>activeRun := None\<rparr>) (terminalApp p)\<rparr>)"
proof (cases "terminalApp p")
  case (Some a)
  have "app_inv (a\<lparr>activeRun := None\<rparr>) = app_inv a" by (simp add: app_inv_def)
  then show ?thesis using assms Some by (auto simp: page_inv_def signed_in_def awaiting_def)
qed (use assms in \<open>cases p; simp\<close>)

lemma page_inv_fail:
  assumes inv: "page_inv H fit ps hasRoot l es p"
  shows "page_inv H fit ps hasRoot l (es @ [e]) (app_fails H fit ps p)"
proof (cases "bootPhase p = App_running")
  case True
  let ?q = "p\<lparr>caches := caches p, pageShell := map_option (shell_step H fit (ps_platform ps) Left) (pageShell p)\<rparr>"
  have "page_inv H fit ps hasRoot l (es @ [e]) ?q" 
  proof (rule page_inv_shell [OF inv])
    show "caches_ok (caches p)" using inv by (simp add: page_inv_def)
  qed
  from page_inv_inactive [OF page_inv_phase [OF this, of App_failed]] show ?thesis
    using True by (cases p) (simp add: app_fails_def)
next
  case False
  then show ?thesis using inv accepted_later by (auto simp: app_fails_def page_inv_def)
qed

lemma page_inv_render:
  assumes inv: "page_inv H fit ps hasRoot l es p"
  shows "page_inv H fit ps hasRoot l (es @ [e]) (page_renders H fit ps clock p)"
proof (cases "bootPhase p = App_running \<and> signed_in p")
  case True
  then obtain a where a: "bootPhase p = App_running" "terminalApp p = Some a" "ab_authStatus (authBootstrapState a) = Auth_ready"
    by (auto simp: signed_in_def)
  then have view: "app_view (\<lambda>_. True) a = Terminal_shell 0" using inv app_view_signed_in [of a] by (simp add: page_inv_def)
  obtain m where m: "renderControls (caches p) = (None, m)" "caches_ok m"
    using controls_never_fail [of "caches p"] inv by (cases "renderControls (caches p)") (auto simp: page_inv_def)
  let ?r = "resolveBackendEndpoints (page_environment H ps) (pageLocation p)"
  show ?thesis
  proof (cases "pageShell p")
    case (Some s)
    then show ?thesis using page_inv_shell [OF inv m(2), of e "Rendered clock ?r"] a view m(1)
      by (simp add: page_renders_def Let_def)
  next
    case None
    have "shell_step H fit (ps_platform ps) (Rendered clock ?r) (mounted_shell H ps clock ?r) =
        shell_reached H fit (ps_platform ps) [Rendered clock ?r] clock (case ?r of Inl _ \<Rightarrow> None | Inr e \<Rightarrow> Some (be_terminalWsUrl e))
          (getLocalStorage (page_environment H ps) (ps_local ps)) (getSessionStorage (page_environment H ps) (ps_session ps))"
      by (simp add: mounted_shell_def shell_reached_def)
    moreover have "page_renders H fit ps clock p =
        p\<lparr>caches := m, pageShell := Some (shell_step H fit (ps_platform ps) (Rendered clock ?r) (mounted_shell H ps clock ?r))\<rparr>"
      using a view m(1) None by (simp add: page_renders_def Let_def)
    ultimately show ?thesis using inv a True m(2) accepted_later
      by (auto simp: page_inv_def signed_in_def awaiting_def simp del: shell_step.simps)
  qed
next
  case False
  have "page_renders H fit ps clock p = p"
  proof (cases "terminalApp p")
    case (Some a)
    then have "app_inv a" using inv by (simp add: page_inv_def)
    then show ?thesis using False Some app_view_signed_in [of a]
      by (cases "bootPhase p") (auto simp: page_renders_def signed_in_def)
  qed (simp add: page_renders_def split: boot_phase.split)
  then show ?thesis using inv accepted_later by (auto simp: page_inv_def)
qed

lemma page_inv_reached: "page_inv H fit ps hasRoot l es (page_reached H fit ps hasRoot l es)"
proof (induction es rule: rev_induct)
  case Nil
  show ?case by (simp add: page_reached_def open_page_def page_inv_def caches_ok_def no_caches_def awaiting_def signed_in_def)
next
  case (snoc e es)
  let ?p = "page_reached H fit ps hasRoot l es"
  note inv = snoc.IH
  have still: "page_inv H fit ps hasRoot l (es @ [e]) ?p"
    using inv accepted_later by (auto simp: page_inv_def)
  show ?case
  proof (cases e)
    case (Page_shell x)
    have "page_inv H fit ps hasRoot l (es @ [e]) (?p\<lparr>pageShell := map_option (shell_step H fit (ps_platform ps) x) (pageShell ?p)\<rparr>)"
    proof -
      have "caches_ok (caches ?p)" using inv by (simp add: page_inv_def)
      from page_inv_shell [OF inv this, of e x] show ?thesis by simp
    qed
    then show ?thesis using still Page_shell by (simp add: page_reached_snoc)
  qed (use inv in \<open>simp_all add: page_reached_snoc page_inv_import page_inv_sign_in page_inv_render page_inv_fail\<close>)
qed

lemma nothing_shown:
  assumes inv: "page_inv H fit ps hasRoot l es p" and "awaiting p"
  shows "pageShell p = None"
proof -
  obtain a env where a: "terminalApp p = Some a" "authRuns a 0 = Some env" using assms(2) by (auto simp: awaiting_def)
  then have "app_inv a" using inv by (simp add: page_inv_def)
  then have "ab_authStatus (authBootstrapState a) \<noteq> Auth_ready" using a(2) by (simp add: app_inv_def)
  then have "\<not> signed_in p" using a(1) by (simp add: signed_in_def)
  then show ?thesis using inv by (cases "pageShell p") (simp_all add: page_inv_def)
qed

subsection \<open>The properties\<close>

text \<open>C34: The terminal waits for the sign-in: when the page shows or has shown the shell, either its address carried no token, or the
  server has accepted the request that carried it, while that answer was awaited and before there was any shell; by then the
  address holds no token any more; and what happens in the shell from then on is a run of a freshly mounted shell.\<close>

theorem terminal_waits_for_sign_in:
  assumes "pageShell (page_reached H fit ps hasRoot l es) = Some s" "has_window (ps_platform ps)"
    "params_parse (ps_web ps) (params_text (ps_web ps) (filter (\<lambda>p. fst p \<noteq> js ''token'') (params_parse (ps_web ps) (raw_hash l)))) =
      filter (\<lambda>p. fst p \<noteq> js ''token'') (params_parse (ps_web ps) (raw_hash l))"
  shows "(readAuthTokenFromWindowHash (ps_web ps) (Some l) = None \<or>
      (\<exists>es1 status es2 rq token. es = es1 @ Sign_in_answered (Inr (True, status)) # es2 \<and>
         readAuthTokenFromWindowHash (ps_web ps) (Some l) = Some token \<and> ar_authorization rq = js ''Bearer '' @ token \<and>
         signIn (page_reached H fit ps hasRoot l es1) = Some (Auth_posted rq) \<and> awaiting (page_reached H fit ps hasRoot l es1) \<and>
         pageShell (page_reached H fit ps hasRoot l es1) = None)) \<and>
    readAuthTokenFromWindowHash (ps_web ps) (Some (pageLocation (page_reached H fit ps hasRoot l es))) = None \<and>
    (\<exists>ses clock endpoint. s = shell_reached H fit (ps_platform ps) ses clock endpoint
       (getLocalStorage (page_environment H ps) (ps_local ps)) (getSessionStorage (page_environment H ps) (ps_session ps)))"
proof -
  let ?p = "page_reached H fit ps hasRoot l es"
  note inv = page_inv_reached [of H fit ps hasRoot l]
  define env where "env = resolveConfiguredSocketUrl None (ps_socketUrl ps)"
  have start: "bootstrapAuth (page_environment H ps) l = bootstrapBrowserAuth H (ps_web ps) (Some l) env"
    using assms(2) by (simp add: page_environment_def createTerminalAppEnvironment_def Let_def env_def)
  have in_app: "signIn q = Some (bootstrapBrowserAuth H (ps_web ps) (Some l) env)"
    if "page_inv H fit ps hasRoot l es' q" "signed_in q \<or> awaiting q" for es' q
    using that unfolding page_inv_def start signed_in_def awaiting_def by blast
  have shell: "signed_in ?p" "\<exists>ses clock endpoint. s = shell_reached H fit (ps_platform ps) ses clock endpoint
       (getLocalStorage (page_environment H ps) (ps_local ps)) (getSessionStorage (page_environment H ps) (ps_session ps))"
    using inv [of es] assms(1) unfolding page_inv_def by blast+
  note start_p = in_app [OF inv [of es] disjI1 [OF shell(1)]]
  have no_token: "readAuthTokenFromWindowHash (ps_web ps) (Some l) = None"
    if "bootstrapBrowserAuth H (ps_web ps) (Some l) env = No_token"
    using that by (simp add: bootstrapBrowserAuth_def split: option.splits sum.splits)
  from inv [of es] shell(1) consider (none) "signIn ?p = Some No_token" "pageLocation ?p = l"
    | (token) "accepted H fit ps hasRoot l es (signIn ?p) (pageLocation ?p)" unfolding page_inv_def by blast
  then show ?thesis
  proof cases
    case none
    then show ?thesis using no_token start_p shell(2) by simp
  next
    case token
    then obtain es1 status es2 rq where t: "es = es1 @ Sign_in_answered (Inr (True, status)) # es2"
      "awaiting (page_reached H fit ps hasRoot l es1)" "signIn ?p = Some (Auth_posted rq)"
      "pageLocation ?p = stripAuthTokenFromWindowHash (ps_web ps) l" unfolding accepted_def by blast
    have rq: "bootstrapBrowserAuth H (ps_web ps) (Some l) env = Auth_posted rq" using t(3) start_p by simp
    then obtain tk where tk: "readAuthTokenFromWindowHash (ps_web ps) (Some l) = Some tk" "ar_authorization rq = js ''Bearer '' @ tk"
      by (auto simp: bootstrapBrowserAuth_def split: option.splits sum.splits)
    have sent: "signIn (page_reached H fit ps hasRoot l es1) = Some (Auth_posted rq)" using in_app [OF inv disjI2 [OF t(2)]] rq by simp
    have empty: "pageShell (page_reached H fit ps hasRoot l es1) = None" by (rule nothing_shown [OF inv t(2)])
    have "\<exists>es1 status es2 rq token. es = es1 @ Sign_in_answered (Inr (True, status)) # es2 \<and>
         readAuthTokenFromWindowHash (ps_web ps) (Some l) = Some token \<and> ar_authorization rq = js ''Bearer '' @ token \<and>
         signIn (page_reached H fit ps hasRoot l es1) = Some (Auth_posted rq) \<and> awaiting (page_reached H fit ps hasRoot l es1) \<and>
         pageShell (page_reached H fit ps hasRoot l es1) = None"
      by (intro exI [of _ es1] exI [of _ status] exI [of _ es2] exI [of _ rq] exI [of _ tk] conjI t(1,2) tk sent empty)
    moreover have "readAuthTokenFromWindowHash (ps_web ps) (Some (pageLocation ?p)) = None"
      using stripped_location [OF assms(3)] unfolding t(4) by blast
    ultimately show ?thesis by (intro conjI disjI2 shell(2))
  qed
qed

definition sample_setup :: page_setup where
  "sample_setup = \<lparr>ps_platform = sample_platform, ps_web = no_platform, ps_socketUrl = None, ps_local = Inr sample_area,
     ps_session = Inr sample_area\<rparr>"

lemma sample_start:
  "case bootstrapAuth (page_environment web_host sample_setup) sample_location of Auth_posted rq \<Rightarrow> True | _ \<Rightarrow> False"
  by code_simp

lemma sample_page:
  "pageShell (page_reached web_host id sample_setup True sample_location
     [App_imported None, Sign_in_answered (Inr (True, 204)), Page_rendered 0]) \<noteq> None"
proof -
  obtain rq where rq: "bootstrapAuth (page_environment web_host sample_setup) sample_location = Auth_posted rq"
    using sample_start by (cases "bootstrapAuth (page_environment web_host sample_setup) sample_location") simp_all
  have "renderControls (snd (getCatalog no_caches)) = (None, snd (renderControls (snd (getCatalog no_caches))))"
    using controls_never_fail [OF caches_transparent(4), of no_caches]
    by (cases "renderControls (snd (getCatalog no_caches))") (simp add: caches_ok_def no_caches_def)
  then obtain m where "renderControls (snd (getCatalog no_caches)) = (None, m)" by blast
  then show ?thesis using rq
    by (simp add: page_reached_def open_page_def import_settles_def sign_in_settles_def sign_in_outcome_def auth_answered_def
        mount_app_def auth_effect_def settle_auth_def page_renders_def app_view_def Let_def del: shell_step.simps)
qed

theorem terminal_waits_for_sign_in_witness:
  "readAuthTokenFromWindowHash no_platform (Some sample_location) = Some (js ''abc'') \<and>
   readAuthTokenFromWindowHash no_platform (Some (pageLocation (page_reached web_host id sample_setup True sample_location
     [App_imported None, Sign_in_answered (Inr (True, 204)), Page_rendered 0]))) = None"
proof -
  obtain s where s: "pageShell (page_reached web_host id sample_setup True sample_location
     [App_imported None, Sign_in_answered (Inr (True, 204)), Page_rendered 0]) = Some s" using sample_page by blast
  have "has_window (ps_platform sample_setup)" "ps_web sample_setup = no_platform"
    by (simp_all add: sample_setup_def sample_platform_def)
  moreover have "params_parse no_platform (params_text no_platform (filter (\<lambda>p. fst p \<noteq> js ''token'')
      (params_parse no_platform (raw_hash sample_location)))) =
      filter (\<lambda>p. fst p \<noteq> js ''token'') (params_parse no_platform (raw_hash sample_location))" by code_simp
  moreover have "readAuthTokenFromWindowHash no_platform (Some sample_location) = Some (js ''abc'')" by code_simp
  ultimately show ?thesis using terminal_waits_for_sign_in [OF s] by simp
qed

text \<open>The start fails only for reasons from outside: the alert of the start page means that the root element is missing or the import was
  rejected, with the message of that error, and the reload page means that a component has thrown; the tables of the commands,
  cached or not, are always built and every look-up of the floating controls succeeds.\<close>

theorem start_fails_only_from_outside:
  fixes H fit ps hasRoot l es
  defines "p \<equiv> page_reached H fit ps hasRoot l es"
  shows "(\<forall>m. bootPhase p = Boot_failed m \<longrightarrow>
        \<not> hasRoot \<and> m = bootstrapFailureMessage (Bootstrap_invariant (js ''Missing #root element'')) \<or>
        (\<exists>e. App_imported (Some e) \<in> set es \<and> m = bootstrapFailureMessage e)) \<and>
    (bootPhase p = App_failed \<longrightarrow> Render_failed \<in> set es) \<and>
    fst (getCommandRegistry (caches p)) = Inr (registry_of [] [] COMMAND_MANIFEST) \<and> fst (renderControls (caches p)) = None"
proof -
  have ok: "caches_ok (caches (page_reached H fit ps hasRoot l es))" for es
    using page_inv_reached [of H fit ps hasRoot l es] by (simp add: page_inv_def)
  have phase: "(\<forall>m. bootPhase (page_reached H fit ps hasRoot l es) = Boot_failed m \<longrightarrow>
        \<not> hasRoot \<and> m = bootstrapFailureMessage (Bootstrap_invariant (js ''Missing #root element'')) \<or>
        (\<exists>e. App_imported (Some e) \<in> set es \<and> m = bootstrapFailureMessage e)) \<and>
    (bootPhase (page_reached H fit ps hasRoot l es) = App_failed \<longrightarrow> Render_failed \<in> set es)"
  proof (induction es rule: rev_induct)
    case Nil
    show ?case by (simp add: page_reached_def open_page_def)
  next
    case (snoc e es)
    let ?p = "page_reached H fit ps hasRoot l es"
    have "bootPhase (page_renders H fit ps clock ?p) = bootPhase ?p" for clock
      using controls_never_fail [OF ok [of es]]
      by (auto simp: page_renders_def Let_def simp del: shell_step.simps split: option.split boot_phase.split app_view.split prod.split)
    moreover have "bootPhase (sign_in_settles H ps reply ?p) = bootPhase ?p" for reply
      by (simp add: sign_in_settles_def Let_def case_prod_beta split: option.split)
    ultimately show ?case using snoc.IH
      by (cases e) (auto simp: page_reached_snoc import_settles_def app_fails_def simp del: shell_step.simps split: option.split)
  qed
  have "buildCommandRegistry COMMAND_MANIFEST = Inr (registry_of [] [] COMMAND_MANIFEST)"
    unfolding registry_iff using manifest_distinct by simp
  then show ?thesis using phase caches_transparent(1) [OF ok [of es]] controls_never_fail [OF ok [of es]] unfolding p_def by simp
qed

theorem start_fails_only_from_outside_witness:
  "fst (renderControls (caches (page_reached web_host id sample_setup True sample_location
     [App_imported None, Sign_in_answered (Inr (True, 204)), Page_rendered 0]))) = None"
  using start_fails_only_from_outside [where H = web_host and fit = id and ps = sample_setup and hasRoot = True and
      l = sample_location and es = "[App_imported None, Sign_in_answered (Inr (True, 204)), Page_rendered 0]"] by blast

end
