(* ===== verification/Dev_Launcher.thy ===== *)
theory Dev_Launcher
  imports Doubles Scheduler
begin

section \<open>The development launcher\<close>

text \<open>
  \<open>scripts/dev.mjs\<close>: the choice of a port, the lines of the two child processes with their prefix, and the supervision
  of the children until both are gone.  What the operating system does is in the arguments and the steps: the outcome
  of listening on a port, the pid of a child (absent when it could not be started), the decoding of a chunk of output and
  the outcome of sending a signal.  An exception in a handler ends the process.
\<close>

subsection \<open>The port\<close>

definition DEFAULT_PORT :: int where "DEFAULT_PORT = 8080"

definition MAX_PORT :: int where "MAX_PORT = 65535"

text \<open>The outcome of listening: bound, or an error with its code when it has one.\<close>

datatype probe = Bound | Not_bound "jsstring option"

fun probe_free :: "probe \<Rightarrow> bool" where
  "probe_free Bound = True"
| "probe_free (Not_bound code) = (code = Some (js ''EAFNOSUPPORT'') \<or> code = Some (js ''EADDRNOTAVAIL''))"

definition isPortAvailable :: "(jsstring \<Rightarrow> int \<Rightarrow> probe) \<Rightarrow> int \<Rightarrow> bool" where
  "isPortAvailable listen port = list_all (\<lambda>host. probe_free (listen host port)) [js ''0.0.0.0'', js ''::'']"

text \<open>The loop from a candidate on.\<close>

function first_available :: "(jsstring \<Rightarrow> int \<Rightarrow> probe) \<Rightarrow> int \<Rightarrow> int option" where
  "first_available listen candidate =
     (if MAX_PORT < candidate then None
      else if isPortAvailable listen candidate then Some candidate
      else first_available listen (candidate + 1))"
  by pat_completeness auto
termination by (relation "measure (\<lambda>(_, candidate). nat (MAX_PORT + 1 - candidate))") auto

declare first_available.simps [simp del]

datatype launch_failure = Invalid_port jsstring | No_port_available jsstring

definition findAvailablePort :: "(jsstring \<Rightarrow> int \<Rightarrow> probe) \<Rightarrow> int \<Rightarrow> launch_failure + int" where
  "findAvailablePort listen startPort =
     (case first_available listen startPort of
        Some port \<Rightarrow> Inr port
      | None \<Rightarrow> Inl (No_port_available
          (js ''No available port found in range '' @ js (int_digits startPort) @ js ''-'' @ js (int_digits MAX_PORT))))"

text \<open>The variable as a request: absent and empty are none.\<close>

definition requested :: "jsstring option \<Rightarrow> jsstring option" where
  "requested raw = (case raw of None \<Rightarrow> None | Some r \<Rightarrow> if r = [] then None else Some r)"

definition valid_port :: "jsnum \<Rightarrow> int option" where
  "valid_port n =
     (case n of
        Finite q \<Rightarrow> if q = of_int \<lfloor>q\<rfloor> \<and> \<not> q < 1 \<and> \<not> q > of_int MAX_PORT then Some \<lfloor>q\<rfloor> else None
      | _ \<Rightarrow> None)"

definition effectivePort :: "(jsstring \<Rightarrow> int \<Rightarrow> probe) \<Rightarrow> jsstring option \<Rightarrow> launch_failure + int" where
  "effectivePort listen requestedPortRaw =
     (case requested requestedPortRaw of
        None \<Rightarrow> findAvailablePort listen DEFAULT_PORT
      | Some r \<Rightarrow>
          (case valid_port (Number_of_text r) of
             None \<Rightarrow> Inl (Invalid_port (js ''Invalid WOOTTY_PORT value: '' @ r))
           | Some port \<Rightarrow> Inr port))"

definition portWarning :: "jsstring option \<Rightarrow> int \<Rightarrow> jsstring option" where
  "portWarning requestedPortRaw port =
     (if requested requestedPortRaw = None \<and> port \<noteq> DEFAULT_PORT
      then Some (js ''[wootty] Port '' @ js (int_digits DEFAULT_PORT) @ js '' is in use, falling back to '' @
        js (int_digits port) @ js '' for local dev.'')
      else None)"

subsection \<open>Output with a prefix\<close>

text \<open>\<open>split\<close> at a line feed with an optional carriage return in front.\<close>

fun push_unit :: "code_unit \<Rightarrow> jsstring list \<Rightarrow> jsstring list" where
  "push_unit u [] = [[u]]"
| "push_unit u (l # ls) = (u # l) # ls"

fun split_lines :: "jsstring \<Rightarrow> jsstring list" where
  "split_lines [] = [[]]"
| "split_lines (u # s) =
     (if u = 10 then [] # split_lines s
      else if u = 13 \<and> take 1 s = [10] then [] # split_lines (drop 1 s)
      else push_unit u (split_lines s))"

text \<open>The text still without a line end, and the lines written.\<close>

record pipe =
  buffer :: jsstring
  writes :: "jsstring list"

definition new_pipe :: pipe where "new_pipe = \<lparr>buffer = [], writes = []\<rparr>"

definition prefixed :: "jsstring \<Rightarrow> jsstring \<Rightarrow> jsstring" where
  "prefixed prefix line = prefix @ js '' '' @ line @ [10]"

definition pipe_data :: "jsstring \<Rightarrow> jsstring \<Rightarrow> pipe \<Rightarrow> pipe" where
  "pipe_data prefix chunk p =
     (let lines = split_lines (buffer p @ chunk)
      in \<lparr>buffer = last lines, writes = writes p @ map (prefixed prefix) (butlast lines)\<rparr>)"

definition pipe_end :: "jsstring \<Rightarrow> pipe \<Rightarrow> pipe" where
  "pipe_end prefix p = (if buffer p \<noteq> [] then p\<lparr>writes := writes p @ [prefixed prefix (buffer p)]\<rparr> else p)"

subsection \<open>Supervision\<close>

datatype child = Server_child | Web_child

fun child_name :: "child \<Rightarrow> jsstring" where
  "child_name Server_child = js ''server''"
| "child_name Web_child = js ''web''"

datatype signal = SIGINT | SIGTERM | SIGKILL

text \<open>A process, or the group it leads.\<close>

datatype kill_target = One_process nat | Process_group nat

text \<open>The outcome of sending a signal: done, or the exception with its code.\<close>

datatype kill_outcome = Sent | Kill_throws "jsstring option"

datatype launcher_task = Kill_children

datatype process_end = Exited int | Crashed

record launcher =
  pids :: "child \<Rightarrow> nat option"
  shuttingDown :: bool
  remaining :: int
  finalExitCode :: int
  shutdownTimer :: "nat option"
  table :: "launcher_task scheduler"
  kills :: "(kill_target \<times> signal) list"
  complaints :: "jsstring list"
  closed :: "child set"
  process_end :: "process_end option"

definition launched :: "(child \<Rightarrow> nat option) \<Rightarrow> int \<Rightarrow> launcher" where
  "launched started clock =
     \<lparr>pids = started, shuttingDown = False, remaining = 2, finalExitCode = 0, shutdownTimer = None,
      table = new_scheduler clock, kills = [], complaints = [], closed = {}, process_end = None\<rparr>"

definition kill_target :: "bool \<Rightarrow> nat \<Rightarrow> kill_target" where
  "kill_target windows pid = (if windows then One_process pid else Process_group pid)"

text \<open>
  One child of the loop.  \<open>kills\<close> has every call, also one that throws; a call that finds no process
  (\<open>ESRCH\<close>) counts as done, any other exception leaves the handler.
\<close>

definition stop_child :: "bool \<Rightarrow> (child \<Rightarrow> kill_outcome) \<Rightarrow> signal \<Rightarrow> child \<Rightarrow> launcher \<Rightarrow> launcher" where
  "stop_child windows outcome sig c s =
     (case pids s c of
        None \<Rightarrow> s
      | Some pid \<Rightarrow>
          let s1 = s\<lparr>kills := kills s @ [(kill_target windows pid, sig)]\<rparr>
          in (case outcome c of
                Sent \<Rightarrow> s1
              | Kill_throws code \<Rightarrow> if code = Some (js ''ESRCH'') then s1 else s1\<lparr>process_end := Some Crashed\<rparr>))"

definition stopChildren :: "bool \<Rightarrow> (child \<Rightarrow> kill_outcome) \<Rightarrow> signal \<Rightarrow> launcher \<Rightarrow> launcher" where
  "stopChildren windows outcome sig s =
     (let s1 = stop_child windows outcome sig Server_child s
      in if process_end s1 \<noteq> None then s1 else stop_child windows outcome sig Web_child s1)"

definition beginShutdown :: "bool \<Rightarrow> (child \<Rightarrow> kill_outcome) \<Rightarrow> signal \<Rightarrow> int \<Rightarrow> launcher \<Rightarrow> launcher" where
  "beginShutdown windows outcome sig exitCode s =
     (let s1 = s\<lparr>finalExitCode := max (finalExitCode s) exitCode\<rparr>
      in if shuttingDown s1 then s1
         else let s2 = stopChildren windows outcome sig (s1\<lparr>shuttingDown := True\<rparr>)
              in if process_end s2 \<noteq> None then s2
                 else let (h, sc) = setTimeout Kill_children 5000 (table s2)
                      in s2\<lparr>shutdownTimer := Some h, table := sc\<rparr>)"

definition onChildError :: "bool \<Rightarrow> (child \<Rightarrow> kill_outcome) \<Rightarrow> child \<Rightarrow> jsstring \<Rightarrow> launcher \<Rightarrow> launcher" where
  "onChildError windows outcome c message s =
     beginShutdown windows outcome SIGTERM 1
       (s\<lparr>complaints := complaints s @ [js ''['' @ child_name c @ js ''] failed to start: '' @ message @ [10]]\<rparr>)"

definition child_failed :: "int option \<Rightarrow> jsstring option \<Rightarrow> bool" where
  "child_failed code sig \<longleftrightarrow> sig \<noteq> None \<or> (case code of None \<Rightarrow> 0 | Some n \<Rightarrow> n) \<noteq> 0"

definition onChildClose ::
  "bool \<Rightarrow> (child \<Rightarrow> kill_outcome) \<Rightarrow> int option \<Rightarrow> jsstring option \<Rightarrow> launcher \<Rightarrow> launcher" where
  "onChildClose windows outcome code sig s =
     (let s1 = (if shuttingDown s then s
                else beginShutdown windows outcome SIGTERM (if child_failed code sig then 1 else 0) s)
      in if process_end s1 \<noteq> None then s1
         else let s2 = s1\<lparr>remaining := remaining s1 - 1\<rparr>
              in if remaining s2 \<noteq> 0 then s2
                 else s2\<lparr>table := (case shutdownTimer s2 of None \<Rightarrow> table s2 | Some h \<Rightarrow> clearTimeout h (table s2)),
                        process_end := Some (Exited (finalExitCode s2))\<rparr>)"

subsection \<open>Runs\<close>

text \<open>
  A child closes once.  Each step comes with the outcomes of the signals it may send.  After the end of the process
  nothing happens.
\<close>

datatype launcher_event =
    Interrupted
  | Terminated
  | Child_error child jsstring
  | Child_close child "int option" "jsstring option"
  | Launcher_timer nat
  | Launcher_time nat int

fun on_launcher_event :: "bool \<Rightarrow> (child \<Rightarrow> kill_outcome) \<Rightarrow> launcher_event \<Rightarrow> launcher \<Rightarrow> launcher" where
  "on_launcher_event windows outcome Interrupted s = beginShutdown windows outcome SIGINT 0 s"
| "on_launcher_event windows outcome Terminated s = beginShutdown windows outcome SIGTERM 0 s"
| "on_launcher_event windows outcome (Child_error c message) s = onChildError windows outcome c message s"
| "on_launcher_event windows outcome (Child_close c code sig) s =
     (if c \<in> closed s then s else onChildClose windows outcome code sig (s\<lparr>closed := insert c (closed s)\<rparr>))"
| "on_launcher_event windows outcome (Launcher_timer h) s =
     (case fire h (table s) of
        None \<Rightarrow> s
      | Some (Kill_children, sc) \<Rightarrow> stopChildren windows outcome SIGKILL (s\<lparr>table := sc\<rparr>))"
| "on_launcher_event windows outcome (Launcher_time d clock) s = s\<lparr>table := pass_time d clock (table s)\<rparr>"

definition launcher_step :: "bool \<Rightarrow> (child \<Rightarrow> kill_outcome) \<times> launcher_event \<Rightarrow> launcher \<Rightarrow> launcher" where
  "launcher_step windows e s =
     (if process_end s \<noteq> None then s else on_launcher_event windows (fst e) (snd e) s)"

definition launcher_run :: "bool \<Rightarrow> ((child \<Rightarrow> kill_outcome) \<times> launcher_event) list \<Rightarrow> launcher \<Rightarrow> launcher" where
  "launcher_run windows es s = fold (launcher_step windows) es s"

subsection \<open>Lines\<close>

lemma split_nonempty [simp]: "split_lines s \<noteq> []"
proof (induction s rule: split_lines.induct)
  case (2 u s)
  then show ?case by (cases "split_lines s") auto
qed simp

lemma split_single: "split_lines s = [l] \<Longrightarrow> l = s"
proof (induction s arbitrary: l rule: split_lines.induct)
  case (2 u s)
  then show ?case by (cases "split_lines s") (auto split: if_splits)
qed simp

text \<open>A text can be split in two goes: the last line of the first go is continued.\<close>

lemma split_append: "split_lines (a @ b) = butlast (split_lines a) @ split_lines (last (split_lines a) @ b)"
proof (induction a rule: split_lines.induct)
  case (2 u s)
  show ?case
  proof (cases "s = []")
    case False
    then have first: "take 1 (s @ b) = take 1 s" "drop 1 (s @ b) = drop 1 s @ b" by (cases s; simp)+
    show ?thesis
    proof (cases "u = 10 \<or> u = 13 \<and> take 1 s = [10]")
      case True
      then show ?thesis using 2(1,2) first by auto
    next
      case plain: False
      obtain l ls where ls: "split_lines s = l # ls" by (cases "split_lines s") simp_all
      have IH: "split_lines (s @ b) = butlast (l # ls) @ split_lines (last (l # ls) @ b)"
        using 2(3) plain ls by auto
      show ?thesis
      proof (cases "ls = []")
        case True
        then have "l = s" using ls split_single by simp
        then show ?thesis using True ls plain first by auto
      qed (use IH ls plain first in auto)
    qed
  qed auto
qed simp

text \<open>The lines of a text, the last one only when there is something in it.\<close>

definition text_lines :: "jsstring \<Rightarrow> jsstring list" where
  "text_lines s = (let ls = split_lines s in if last ls = [] then butlast ls else ls)"

lemma pipe_chunks:
  "fold (pipe_data prefix) chunks new_pipe =
     \<lparr>buffer = last (split_lines (concat chunks)), writes = map (prefixed prefix) (butlast (split_lines (concat chunks)))\<rparr>"
proof (induction chunks rule: rev_induct)
  case (snoc c cs)
  then show ?case using split_append [of "concat cs" c] by (simp add: pipe_data_def Let_def butlast_append)
qed (simp add: new_pipe_def)

theorem lines_do_not_depend_on_chunks:
  "writes (pipe_end prefix (fold (pipe_data prefix) chunks new_pipe)) = map (prefixed prefix) (text_lines (concat chunks))"
proof -
  let ?ls = "split_lines (concat chunks)"
  have "map (prefixed prefix) (butlast ?ls) @ [prefixed prefix (last ?ls)] = map (prefixed prefix) ?ls"
    using append_butlast_last_id [of ?ls] by (metis list.simps(8,9) map_append split_nonempty)
  then show ?thesis by (simp add: pipe_chunks pipe_end_def text_lines_def Let_def)
qed

subsection \<open>The port\<close>

lemma first_available_spec:
  "case first_available listen n of
     None \<Rightarrow> \<forall>p. n \<le> p \<and> p \<le> MAX_PORT \<longrightarrow> \<not> isPortAvailable listen p
   | Some p \<Rightarrow> n \<le> p \<and> p \<le> MAX_PORT \<and> isPortAvailable listen p \<and> (\<forall>q. n \<le> q \<and> q < p \<longrightarrow> \<not> isPortAvailable listen q)"
proof (induction listen n rule: first_available.induct)
  case (1 listen n)
  show ?case
  proof (cases "MAX_PORT < n \<or> isPortAvailable listen n")
    case True
    then show ?thesis by (subst first_available.simps) auto
  next
    case False
    have step: "n \<le> q \<longleftrightarrow> q = n \<or> n + 1 \<le> q" for q by auto
    have eq: "first_available listen n = first_available listen (n + 1)" using False by (subst first_available.simps) simp
    show ?thesis using 1 False unfolding eq by (cases "first_available listen (n + 1)") (auto simp: step)
  qed
qed

theorem port_is_valid:
  assumes "effectivePort listen raw = Inr port"
  shows "1 \<le> port \<and> port \<le> MAX_PORT \<and>
    (requested raw = None \<longrightarrow> DEFAULT_PORT \<le> port \<and> isPortAvailable listen port \<and>
      (\<forall>q. DEFAULT_PORT \<le> q \<and> q < port \<longrightarrow> \<not> isPortAvailable listen q))"
proof (cases "requested raw")
  case None
  then show ?thesis using assms first_available_spec [where listen = listen and n = DEFAULT_PORT]
    by (auto simp: effectivePort_def findAvailablePort_def DEFAULT_PORT_def split: option.splits)
next
  case (Some r)
  then show ?thesis using assms
    by (auto simp: effectivePort_def valid_port_def not_less le_floor_iff floor_le_iff split: option.splits jsnum.splits if_splits)
qed

subsection \<open>Supervision\<close>

text \<open>A call of \<open>kill\<close> for every child that was started.\<close>

definition signalled :: "bool \<Rightarrow> signal set \<Rightarrow> launcher \<Rightarrow> bool" where
  "signalled windows sigs s \<longleftrightarrow>
     (\<forall>c pid. pids s c = Some pid \<longrightarrow> (\<exists>sig\<in>sigs. (kill_target windows pid, sig) \<in> set (kills s)))"

definition open_children :: "launcher \<Rightarrow> int" where
  "open_children s = (if Server_child \<in> closed s then 0 else 1) + (if Web_child \<in> closed s then 0 else 1)"

text \<open>The only timer that can be live is the one in its slot.\<close>

definition kill_timer_held :: "nat option \<Rightarrow> launcher_task scheduler \<Rightarrow> bool" where
  "kill_timer_held slot sc \<longleftrightarrow> (\<forall>h r. pending sc h = Some r \<longrightarrow> slot = Some h \<and> r = (Kill_children, False))"

lemma none_held: "kill_timer_held None sc \<Longrightarrow> pending sc = Map.empty"
  by (rule ext) (metis kill_timer_held_def not_None_eq option.distinct(1))

lemma cleared_held: "kill_timer_held (Some h) sc \<Longrightarrow> pending (clearTimeout h sc) = Map.empty"
  by (rule ext) (metis browser.clear_law fun_upd_apply kill_timer_held_def not_None_eq option.inject)

lemma fired_held:
  assumes "kill_timer_held slot sc" "fire h sc = Some (t, sc')"
  shows "slot = Some h \<and> pending sc' = Map.empty"
proof -
  obtain rep where rep: "pending sc h = Some (t, rep)" "pending sc' = (pending sc)(h := if rep then Some (t, rep) else None)"
    using browser.fire_law [OF assms(2)] by blast
  then have "slot = Some h" "(t, rep) = (Kill_children, False)" using assms(1) unfolding kill_timer_held_def by blast+
  then show ?thesis using rep(2) cleared_held [of h sc] assms(1) by (simp add: browser.clear_law)
qed

lemma held_later [simp]: "kill_timer_held slot (pass_time d clock sc) = kill_timer_held slot sc"
  by (simp add: kill_timer_held_def)

lemma empty_held [simp]: "pending sc = Map.empty \<Longrightarrow> kill_timer_held slot sc"
  by (simp add: kill_timer_held_def)

lemma armed_held [simp]: "pending sc = [h \<mapsto> (Kill_children, False)] \<Longrightarrow> kill_timer_held (Some h) sc"
  by (simp add: kill_timer_held_def)

definition supervised :: "bool \<Rightarrow> launcher \<Rightarrow> bool" where
  "supervised windows s \<longleftrightarrow>
     (finalExitCode s = 0 \<or> finalExitCode s = 1) \<and> (\<not> shuttingDown s \<longrightarrow> kills s = []) \<and>
     (case process_end s of
        Some Crashed \<Rightarrow> True
      | Some (Exited n) \<Rightarrow> n = finalExitCode s \<and> open_children s = 0 \<and> shuttingDown s \<and> pending (table s) = Map.empty
      | None \<Rightarrow> remaining s = open_children s \<and> 0 < open_children s) \<and>
     (process_end s \<noteq> Some Crashed \<longrightarrow>
        (shuttingDown s \<longrightarrow> signalled windows {SIGINT, SIGTERM} s) \<and> (shuttingDown s \<longleftrightarrow> shutdownTimer s \<noteq> None) \<and>
        kill_timer_held (shutdownTimer s) (table s) \<and>
        (\<forall>h. shutdownTimer s = Some h \<and> pending (table s) h = None \<and> process_end s = None \<longrightarrow> signalled windows {SIGKILL} s))"

lemma stop_child_fields [simp]:
  "pids (stop_child w k sg c s) = pids s" "shuttingDown (stop_child w k sg c s) = shuttingDown s"
  "remaining (stop_child w k sg c s) = remaining s" "finalExitCode (stop_child w k sg c s) = finalExitCode s"
  "shutdownTimer (stop_child w k sg c s) = shutdownTimer s" "table (stop_child w k sg c s) = table s"
  "closed (stop_child w k sg c s) = closed s"
  by (simp_all add: stop_child_def Let_def split: option.split kill_outcome.split)

lemma stop_fields [simp]:
  "pids (stopChildren w k sg s) = pids s" "shuttingDown (stopChildren w k sg s) = shuttingDown s"
  "remaining (stopChildren w k sg s) = remaining s" "finalExitCode (stopChildren w k sg s) = finalExitCode s"
  "shutdownTimer (stopChildren w k sg s) = shutdownTimer s" "table (stopChildren w k sg s) = table s"
  "closed (stopChildren w k sg s) = closed s"
  by (simp_all add: stopChildren_def Let_def)

lemma stop_child_kills:
  "set (kills s) \<subseteq> set (kills (stop_child w k sg c s))"
  "pids s c = Some pid \<Longrightarrow> (kill_target w pid, sg) \<in> set (kills (stop_child w k sg c s))"
  by (auto simp: stop_child_def Let_def split: option.split kill_outcome.split)

lemma stop_child_end: "process_end s = None \<Longrightarrow> process_end (stop_child w k sg c s) \<in> {None, Some Crashed}"
  by (auto simp: stop_child_def Let_def split: option.split kill_outcome.split)

lemma stop_end: "process_end s = None \<Longrightarrow> process_end (stopChildren w k sg s) = None \<or> process_end (stopChildren w k sg s) = Some Crashed"
  using stop_child_end [of s w k sg Server_child] stop_child_end [of "stop_child w k sg Server_child s" w k sg Web_child]
  by (auto simp: stopChildren_def Let_def)

lemma stop_signals:
  assumes "process_end (stopChildren w k sg s) = None" "sg \<in> sigs"
  shows "signalled w sigs (stopChildren w k sg s)"
  unfolding signalled_def
proof (intro allI impI)
  fix c pid assume c: "pids (stopChildren w k sg s) c = Some pid"
  let ?a = "stop_child w k sg Server_child s"
  have both: "stopChildren w k sg s = stop_child w k sg Web_child ?a"
    using assms(1) by (auto simp: stopChildren_def Let_def split: if_splits)
  have "(kill_target w pid, sg) \<in> set (kills (stopChildren w k sg s))"
    using c stop_child_kills(2) [of ?a Web_child pid w sg k] stop_child_kills(2) [of s Server_child pid w sg k]
      stop_child_kills(1) [of ?a w k sg Web_child] unfolding both by (cases c) auto
  then show "\<exists>sig\<in>sigs. (kill_target w pid, sig) \<in> set (kills (stopChildren w k sg s))" using assms(2) by blast
qed

lemma stop_keeps_signals: "signalled w sigs s \<Longrightarrow> signalled w sigs (stopChildren w k sg s)"
proof -
  have "set (kills s) \<subseteq> set (kills (stopChildren w k sg s))"
    using stop_child_kills(1) [of s w k sg Server_child] stop_child_kills(1) [of "stop_child w k sg Server_child s" w k sg Web_child]
    by (auto simp: stopChildren_def Let_def)
  then show "signalled w sigs s \<Longrightarrow> ?thesis" unfolding signalled_def by (simp, blast)
qed

lemma children_cases: "open_children s \<in> {0, 1, 2}"
  by (simp add: open_children_def)

lemma close_one: "c \<notin> closed s \<Longrightarrow> open_children (s\<lparr>closed := insert c (closed s)\<rparr>) = open_children s - 1"
  by (cases c) (simp_all add: open_children_def)

text \<open>The three things a handler does to a supervised launcher.\<close>

lemma shutdown_supervised:
  assumes s: "supervised w s" "process_end s = None" and sg: "sg \<in> {SIGINT, SIGTERM}" and code: "code = 0 \<or> code = 1"
  shows "supervised w (beginShutdown w k sg code s)"
    "process_end (beginShutdown w k sg code s) = None \<Longrightarrow> shuttingDown (beginShutdown w k sg code s)"
proof -
  define s1 where "s1 = s\<lparr>finalExitCode := max (finalExitCode s) code\<rparr>"
  define s2 where "s2 = stopChildren w k sg (s1\<lparr>shuttingDown := True\<rparr>)"
  have code1: "max (finalExitCode s) code = 0 \<or> max (finalExitCode s) code = 1"
    using s(1) code by (auto simp: supervised_def)
  have s1: "supervised w s1" "process_end s1 = None" using s code1
    by (simp_all add: supervised_def s1_def signalled_def open_children_def)
  have "supervised w (beginShutdown w k sg code s) \<and>
    (process_end (beginShutdown w k sg code s) = None \<longrightarrow> shuttingDown (beginShutdown w k sg code s))"
  proof (cases "shuttingDown s")
    case True
    then show ?thesis using s1 by (simp add: beginShutdown_def Let_def s1_def)
  next
    case False
    then have eq: "beginShutdown w k sg code s = (if process_end s2 \<noteq> None then s2
        else let (h, sc) = setTimeout Kill_children 5000 (table s2) in s2\<lparr>shutdownTimer := Some h, table := sc\<rparr>)"
      by (simp add: beginShutdown_def s1_def s2_def Let_def)
    have ends: "process_end s2 = None \<or> process_end s2 = Some Crashed"
      unfolding s2_def using s1(2) by (intro stop_end) simp
    have fields: "finalExitCode s2 = finalExitCode s1" "shuttingDown s2" "remaining s2 = remaining s"
      "open_children s2 = open_children s" "table s2 = table s"
      by (simp_all add: s2_def s1_def open_children_def)
    have fin: "finalExitCode s1 = 0 \<or> finalExitCode s1 = 1" using s1(1) by (simp add: supervised_def)
    show ?thesis
    proof (cases "process_end s2 = None")
      case True
      obtain h sc where set: "setTimeout Kill_children 5000 (table s) = (h, sc)" by (metis prod.exhaust)
      have sig: "signalled w {SIGINT, SIGTERM} s2" using True sg unfolding s2_def by (rule stop_signals)
      have none: "pending (table s) = Map.empty" using s False none_held [of "table s"] by (auto simp: supervised_def)
      then have "pending sc = [h \<mapsto> (Kill_children, False)]" using browser.set_timeout_law [OF set] by simp
      moreover have "remaining s = open_children s" "0 < open_children s" using s by (simp_all add: supervised_def)
      ultimately show ?thesis using True fields fin sig
        by (simp add: eq set supervised_def) (simp add: signalled_def open_children_def)
    next
      case False
      then have "process_end s2 = Some Crashed" using ends by auto
      then show ?thesis using eq fields fin by (simp add: supervised_def)
    qed
  qed
  then show "supervised w (beginShutdown w k sg code s)"
    "process_end (beginShutdown w k sg code s) = None \<Longrightarrow> shuttingDown (beginShutdown w k sg code s)" by blast+
qed

lemma shutdown_fields [simp]:
  "closed (beginShutdown w k sg code s) = closed s" "remaining (beginShutdown w k sg code s) = remaining s"
  by (simp_all add: beginShutdown_def Let_def case_prod_beta)

lemma shutdown_closed:
  "beginShutdown w k sg code (s\<lparr>closed := X\<rparr>) = (beginShutdown w k sg code s)\<lparr>closed := X\<rparr>"
proof -
  have child: "stop_child w k sg c (t\<lparr>closed := X\<rparr>) = (stop_child w k sg c t)\<lparr>closed := X\<rparr>" for c and t :: launcher
    by (simp add: stop_child_def Let_def split: option.split kill_outcome.split)
  have stop: "stopChildren w k sg (t\<lparr>closed := X\<rparr>) = (stopChildren w k sg t)\<lparr>closed := X\<rparr>" for t :: launcher
    by (simp add: stopChildren_def child Let_def)
  have swap: "s\<lparr>closed := X, finalExitCode := n, shuttingDown := True\<rparr> =
    (s\<lparr>finalExitCode := n, shuttingDown := True\<rparr>)\<lparr>closed := X\<rparr>" for n by simp
  have "stopChildren w k sg (s\<lparr>closed := X, finalExitCode := n, shuttingDown := True\<rparr>) =
    (stopChildren w k sg (s\<lparr>finalExitCode := n, shuttingDown := True\<rparr>))\<lparr>closed := X\<rparr>" for n
    unfolding swap by (rule stop)
  then show ?thesis by (simp add: beginShutdown_def Let_def case_prod_beta)
qed

lemma closing_supervised:
  assumes s: "supervised w s" "process_end s = None" and c: "c \<notin> closed s"
  shows "supervised w (onChildClose w k code sig (s\<lparr>closed := insert c (closed s)\<rparr>))"
proof -
  define t where "t = (if shuttingDown s then s else beginShutdown w k SIGTERM (if child_failed code sig then 1 else 0) s)"
  have t: "supervised w t" "process_end t = None \<Longrightarrow> shuttingDown t" "closed t = closed s" "remaining t = remaining s"
    using s shutdown_supervised [of w s SIGTERM] by (auto simp: t_def)
  define u where "u = t\<lparr>closed := insert c (closed s)\<rparr>"
  have u: "(if shuttingDown s then s\<lparr>closed := insert c (closed s)\<rparr>
      else beginShutdown w k SIGTERM (if child_failed code sig then 1 else 0) (s\<lparr>closed := insert c (closed s)\<rparr>)) = u"
    by (simp add: u_def t_def shutdown_closed)
  have children: "open_children u = open_children t - 1" using close_one [of c t] c t(3) by (simp add: u_def)
  show ?thesis
  proof (cases "process_end t")
    case (Some r)
    have "0 < open_children s" using s by (simp add: supervised_def)
    then have "0 < open_children t" using t(3) by (simp add: open_children_def)
    then have "r = Crashed" using Some t(1) by (cases r) (auto simp: supervised_def)
    then show ?thesis using Some t(1) by (simp add: onChildClose_def u Let_def) (simp add: u_def supervised_def)
  next
    case None
    have left: "remaining t = open_children t" "0 < open_children t" using t(1) None by (simp_all add: supervised_def)
    show ?thesis
    proof (cases "open_children u = 0")
      case True
      obtain h where h: "shutdownTimer t = Some h" using t(1,2) None by (auto simp: supervised_def)
      then have "pending (clearTimeout h (table t)) = Map.empty"
        using t(1) None cleared_held [of h "table t"] by (auto simp: supervised_def)
      then show ?thesis using True None t(1,2) left children h
        by (simp add: onChildClose_def u Let_def) (simp add: u_def supervised_def signalled_def open_children_def)
    next
      case False
      then show ?thesis using None t(1,2) left children children_cases [of u]
        by (simp add: onChildClose_def u Let_def) (auto simp: u_def supervised_def signalled_def open_children_def)
    qed
  qed
qed

lemma deadline_supervised:
  assumes s: "supervised w s" "process_end s = None" and fired: "fire h (table s) = Some (t, sc)"
  shows "supervised w (stopChildren w k SIGKILL (s\<lparr>table := sc\<rparr>))"
proof -
  let ?u = "stopChildren w k SIGKILL (s\<lparr>table := sc\<rparr>)"
  have held: "kill_timer_held (shutdownTimer s) (table s)" using s by (simp add: supervised_def)
  then have h: "shutdownTimer s = Some h" and none: "pending sc = Map.empty" using fired_held [OF _ fired] by blast+
  have ends: "process_end ?u = None \<or> process_end ?u = Some Crashed" using s(2) by (intro stop_end) simp
  have "shuttingDown s" using s h by (simp add: supervised_def)
  moreover have "signalled w {SIGINT, SIGTERM} (s\<lparr>table := sc\<rparr>)" using s calculation by (simp add: supervised_def signalled_def)
  then have "signalled w {SIGINT, SIGTERM} ?u" by (rule stop_keeps_signals)
  moreover have "process_end ?u = None \<Longrightarrow> signalled w {SIGKILL} ?u" by (rule stop_signals) simp_all
  moreover have "open_children ?u = open_children s" by (simp add: open_children_def)
  ultimately show ?thesis using s ends none h by (auto simp: supervised_def)
qed

lemma supervised_step:
  assumes s: "supervised w s"
  shows "supervised w (launcher_step w e s)"
proof (cases "process_end s")
  case None
  have keep: "supervised w (s\<lparr>complaints := m\<rparr>)" "process_end (s\<lparr>complaints := m\<rparr>) = None" for m
    using s None by (simp_all add: supervised_def signalled_def open_children_def)
  show ?thesis
  proof (cases "snd e")
    case (Child_close c code sig)
    then show ?thesis using s None closing_supervised [OF s None, of c] by (simp add: launcher_step_def)
  next
    case (Launcher_timer h)
    then show ?thesis using s None deadline_supervised [OF s None, of h]
      by (cases "fire h (table s)") (auto simp: launcher_step_def split: launcher_task.split)
  next
    case (Launcher_time d clock)
    then show ?thesis using s None
      by (simp add: launcher_step_def supervised_def signalled_def open_children_def)
  qed (use None shutdown_supervised(1) [OF s None] shutdown_supervised(1) [OF keep] in
    \<open>simp_all add: launcher_step_def onChildError_def\<close>)
qed (use s in \<open>simp add: launcher_step_def\<close>)

lemma supervised_run: "supervised w s \<Longrightarrow> supervised w (launcher_run w es s)"
  unfolding launcher_run_def by (induction es arbitrary: s) (simp_all add: supervised_step)

lemma supervised_launched: "supervised w (launched started clock)"
  by (simp add: supervised_def launched_def open_children_def kill_timer_held_def pending_def new_scheduler_def)

text \<open>The deadline of the second signal is five seconds after the first.\<close>

definition deadline_kept :: "launcher \<Rightarrow> bool" where
  "deadline_kept s \<longleftrightarrow> (\<forall>h tm. armed (table s) h = Some tm \<longrightarrow> period tm = None \<and> due tm \<le> mono (table s) + 5000)"

lemma deadline_step: "deadline_kept s \<Longrightarrow> deadline_kept (launcher_step w e s)"
proof -
  assume s: "deadline_kept s"
  have shut: "deadline_kept t \<Longrightarrow> deadline_kept (beginShutdown w k sg code t)" for k sg code t
    by (auto simp: beginShutdown_def deadline_kept_def setTimeout_def add_timer_def Let_def)
  show ?thesis
  proof (cases "snd e")
    case (Child_close c code sig)
    have "deadline_kept (s\<lparr>closed := X\<rparr>)" for X using s by (simp add: deadline_kept_def)
    from shut [OF this] this have "deadline_kept (onChildClose w k code sig (s\<lparr>closed := X\<rparr>))" for k X
      by (auto simp: onChildClose_def deadline_kept_def clearTimeout_def Let_def split: option.split)
    then show ?thesis using s Child_close by (simp add: launcher_step_def)
  next
    case (Launcher_timer h)
    then show ?thesis using s
      by (auto simp: launcher_step_def deadline_kept_def fire_def split: option.splits launcher_task.split if_splits)
  next
    case (Launcher_time d clock)
    then show ?thesis using s by (fastforce simp: launcher_step_def deadline_kept_def pass_time_def)
  next
    case (Child_error c m)
    have "deadline_kept (s\<lparr>complaints := x\<rparr>)" for x using s by (simp add: deadline_kept_def)
    then show ?thesis using s Child_error shut by (simp add: launcher_step_def onChildError_def)
  qed (use s shut in \<open>simp_all add: launcher_step_def\<close>)
qed

lemma deadline_run: "deadline_kept s \<Longrightarrow> deadline_kept (launcher_run w es s)"
  unfolding launcher_run_def by (induction es arbitrary: s) (simp_all add: deadline_step)

subsection \<open>The exit code\<close>

text \<open>A step that reports a failure: a child that cannot be started, or one whose failure begins the shutdown.\<close>

definition failing_step :: "launcher \<Rightarrow> (child \<Rightarrow> kill_outcome) \<times> launcher_event \<Rightarrow> bool" where
  "failing_step s e \<longleftrightarrow> process_end s = None \<and>
     (case snd e of
        Child_error c message \<Rightarrow> True
      | Child_close c code sig \<Rightarrow> c \<notin> closed s \<and> \<not> shuttingDown s \<and> child_failed code sig
      | _ \<Rightarrow> False)"

lemma shutdown_code [simp]: "finalExitCode (beginShutdown w k sg code s) = max (finalExitCode s) code"
  by (simp add: beginShutdown_def Let_def case_prod_beta)

lemma step_code:
  assumes "supervised w s"
  shows "finalExitCode (launcher_step w e s) = (if failing_step s e then 1 else finalExitCode s)"
proof -
  have "finalExitCode s = 0 \<or> finalExitCode s = 1" using assms by (simp add: supervised_def)
  then show ?thesis
    by (cases "snd e"; cases "fire (case snd e of Launcher_timer h \<Rightarrow> h | _ \<Rightarrow> 0) (table s)")
      (auto simp: launcher_step_def failing_step_def onChildError_def onChildClose_def Let_def split: launcher_task.split)
qed

lemma run_code:
  "finalExitCode (launcher_run w es (launched started clock)) =
     (if \<exists>xs e ys. es = xs @ e # ys \<and> failing_step (launcher_run w xs (launched started clock)) e then 1 else 0)"
proof (induction es rule: rev_induct)
  case (snoc e es)
  have one: "es @ [e] = xs @ e' # ys \<longleftrightarrow> ys = [] \<and> es = xs \<and> e = e' \<or> (\<exists>zs. ys = zs @ [e] \<and> es = xs @ e' # zs)" for xs e' ys
    by (cases ys rule: rev_cases) auto
  have split: "(\<exists>xs e' ys. es @ [e] = xs @ e' # ys \<and> Q xs e') \<longleftrightarrow> Q es e \<or> (\<exists>xs e' ys. es = xs @ e' # ys \<and> Q xs e')" for Q
    unfolding one by blast
  have "launcher_run w (es @ [e]) (launched started clock) = launcher_step w e (launcher_run w es (launched started clock))"
    by (simp add: launcher_run_def)
  then show ?case using snoc step_code [OF supervised_run [OF supervised_launched [of w started clock], of es], of e]
    unfolding split by simp
qed (simp add: launcher_run_def launched_def)


text \<open>The server fails, both children get SIGTERM, the web process closes two seconds later and the launcher reports it.\<close>

definition sample_launch :: "((child \<Rightarrow> kill_outcome) \<times> launcher_event) list" where
  "sample_launch =
     [(\<lambda>_. Sent, Child_close Server_child (Some 2) None), (\<lambda>_. Sent, Launcher_time 2000 0),
      (\<lambda>_. Sent, Child_close Web_child None (Some (js ''SIGTERM'')))]"

definition sample_pids :: "child \<Rightarrow> nat option" where
  "sample_pids c = (case c of Server_child \<Rightarrow> Some 41 | Web_child \<Rightarrow> Some 42)"


end
