(* ===== verification/Regex.thy ===== *)
theory Regex
  imports Prelude
begin

section \<open>Regular expressions\<close>

text \<open>
  The regular expressions of the repository's scripts that are only tested, not captured from: where a match can end is
  the list \<open>ends\<close>, and a test succeeds when some position has an end.  A repetition stops adding positions after as
  many rounds as the text is long.  White space is that of \<open>trim\<close>, a line ends at the four terminators of the language.
\<close>

datatype rx =
    Unit "code_unit \<Rightarrow> bool"
  | Empty
  | Then rx rx
  | Either rx rx
  | Many rx
  | Word_boundary
  | Line_start
  | Line_end
  | Text_start
  | Text_end

definition is_word :: "code_unit \<Rightarrow> bool" where
  "is_word u \<longleftrightarrow> 48 \<le> u \<and> u \<le> 57 \<or> 65 \<le> u \<and> u \<le> 90 \<or> 97 \<le> u \<and> u \<le> 122 \<or> u = 95"

definition is_terminator :: "code_unit \<Rightarrow> bool" where
  "is_terminator u \<longleftrightarrow> u \<in> {10, 13, 0x2028, 0x2029}"

text \<open>The unit at a position and the one before it, if there is one and it is of the kind.\<close>

definition unit_at :: "(code_unit \<Rightarrow> bool) \<Rightarrow> jsstring \<Rightarrow> nat \<Rightarrow> bool" where
  "unit_at p s i \<longleftrightarrow> i < length s \<and> p (s ! i)"

definition unit_before :: "(code_unit \<Rightarrow> bool) \<Rightarrow> jsstring \<Rightarrow> nat \<Rightarrow> bool" where
  "unit_before p s i \<longleftrightarrow> 0 < i \<and> unit_at p s (i - 1)"

fun rounds :: "(nat \<Rightarrow> nat list) \<Rightarrow> nat \<Rightarrow> nat list \<Rightarrow> nat list" where
  "rounds f 0 is = is"
| "rounds f (Suc n) is = rounds f n (remdups (is @ concat (map f is)))"

primrec ends :: "rx \<Rightarrow> jsstring \<Rightarrow> nat \<Rightarrow> nat list" where
  "ends (Unit p) = (\<lambda>s i. if unit_at p s i then [Suc i] else [])"
| "ends Empty = (\<lambda>s i. [i])"
| "ends (Then a b) = (\<lambda>s i. remdups (concat (map (ends b s) (ends a s i))))"
| "ends (Either a b) = (\<lambda>s i. remdups (ends a s i @ ends b s i))"
| "ends (Many a) = (\<lambda>s i. rounds (ends a s) (length s) [i])"
| "ends Word_boundary = (\<lambda>s i. if unit_before is_word s i \<noteq> unit_at is_word s i then [i] else [])"
| "ends Line_start = (\<lambda>s i. if i = 0 \<or> unit_before is_terminator s i then [i] else [])"
| "ends Line_end = (\<lambda>s i. if i = length s \<or> unit_at is_terminator s i then [i] else [])"
| "ends Text_start = (\<lambda>s i. if i = 0 then [i] else [])"
| "ends Text_end = (\<lambda>s i. if i = length s then [i] else [])"

definition rx_test :: "rx \<Rightarrow> jsstring \<Rightarrow> bool" where
  "rx_test r s \<longleftrightarrow> list_ex (\<lambda>i. ends r s i \<noteq> []) [0..<Suc (length s)]"

text \<open>Shorthands: a literal text, one of some characters, one or more, an optional part.\<close>

definition literal :: "jsstring \<Rightarrow> rx" where
  "literal s = foldr (\<lambda>u r. Then (Unit (\<lambda>v. v = u)) r) s Empty"

definition rx_seq :: "rx list \<Rightarrow> rx" where
  "rx_seq rs = foldr Then rs Empty"

definition lit :: "string \<Rightarrow> rx" where
  "lit s = literal (js s)"

definition some_of :: "string \<Rightarrow> rx" where
  "some_of s = Unit (\<lambda>u. u \<in> set (js s))"

definition once_or_more :: "rx \<Rightarrow> rx" where
  "once_or_more r = Then r (Many r)"

definition optional :: "rx \<Rightarrow> rx" where
  "optional r = Either r Empty"

subsection \<open>Meaning\<close>

text \<open>The matches of an expression in a text, as a relation on positions.\<close>

primrec matches :: "rx \<Rightarrow> jsstring \<Rightarrow> (nat \<times> nat) set" where
  "matches (Unit p) s = {(i, Suc i) |i. unit_at p s i}"
| "matches Empty s = Id"
| "matches (Then a b) s = matches a s O matches b s"
| "matches (Either a b) s = matches a s \<union> matches b s"
| "matches (Many a) s = (matches a s)\<^sup>*"
| "matches Word_boundary s = {(i, i) |i. unit_before is_word s i \<noteq> unit_at is_word s i}"
| "matches Line_start s = {(i, i) |i. i = 0 \<or> unit_before is_terminator s i}"
| "matches Line_end s = {(i, i) |i. i = length s \<or> unit_at is_terminator s i}"
| "matches Text_start s = {(0, 0)}"
| "matches Text_end s = {(length s, length s)}"

text \<open>A match goes forward and stays in the text.\<close>

definition forward :: "nat \<Rightarrow> (nat \<times> nat) set \<Rightarrow> bool" where
  "forward n R \<longleftrightarrow> (\<forall>(i, j)\<in>R. i \<le> n \<longrightarrow> i \<le> j \<and> j \<le> n)"

lemma forward_star: "forward n R \<Longrightarrow> forward n (R\<^sup>*)"
proof -
  assume R: "forward n R"
  have "(i, j) \<in> R\<^sup>* \<Longrightarrow> i \<le> n \<Longrightarrow> i \<le> j \<and> j \<le> n" for i j
    by (induction rule: rtrancl_induct) (use R in \<open>auto simp: forward_def\<close>)
  then show ?thesis by (auto simp: forward_def)
qed

lemma matches_forward: "forward (length s) (matches r s)"
proof (induction r)
  case (Then a b)
  then show ?case by (fastforce simp: forward_def)
next
  case (Many a)
  then show ?case by (simp add: forward_star)
qed (auto simp: forward_def unit_at_def)

lemma set_rounds: "set (rounds f n is) = {k. \<exists>m\<le>n. \<exists>i\<in>set is. (i, k) \<in> {(x, y). y \<in> set (f x)} ^^ m}"
proof (induction n arbitrary: "is")
  case (Suc n)
  let ?R = "{(x, y). y \<in> set (f x)}"
  have first: "(\<exists>m\<le>Suc n. Q m) \<longleftrightarrow> (\<exists>m\<le>n. Q m) \<or> (\<exists>m\<le>n. Q (Suc m))" for Q
    by (metis Suc_le_mono le_SucI le_Suc_eq le0 nat.exhaust)
  have "(\<exists>i\<in>set (remdups (is @ concat (map f is))). (i, k) \<in> ?R ^^ m) \<longleftrightarrow>
      (\<exists>i\<in>set is. (i, k) \<in> ?R ^^ m) \<or> (\<exists>i\<in>set is. (i, k) \<in> ?R ^^ Suc m)" for m k
  proof -
    have "(i, k) \<in> ?R ^^ Suc m \<longleftrightarrow> (\<exists>j\<in>set (f i). (j, k) \<in> ?R ^^ m)" for i
      by (auto simp: relpow_commute [symmetric])
    then show ?thesis by (auto simp del: relpow.simps)
  qed
  then show ?case unfolding rounds.simps Suc first by blast
qed simp

text \<open>A chain of matches without empty ones is no longer than the text.\<close>

lemma chain_length: "forward n R \<Longrightarrow> (i, k) \<in> (R - Id) ^^ m \<Longrightarrow> i \<le> n \<Longrightarrow> i + m \<le> k \<and> k \<le> n"
proof (induction m arbitrary: k)
  case (Suc m)
  then obtain j where j: "(i, j) \<in> (R - Id) ^^ m" "(j, k) \<in> R" "j \<noteq> k" by auto
  then show ?case using Suc.IH [OF Suc.prems(1) j(1) Suc.prems(3)] Suc.prems(1) by (fastforce simp: forward_def)
qed simp

theorem ends_are_matches: "i \<le> length s \<Longrightarrow> j \<in> set (ends r s i) \<longleftrightarrow> (i, j) \<in> matches r s"
proof (induction r arbitrary: i j)
  case (Then a b)
  have "j \<le> length s" if "(i, j) \<in> matches a s" for j
    using matches_forward [of s a] that Then.prems by (auto simp: forward_def)
  then show ?case using Then by auto
next
  case (Many a)
  let ?R = "{(x, y). y \<in> set (ends a s x)}" and ?M = "matches a s"
  have eq: "(i, k) \<in> ?R ^^ m \<longleftrightarrow> (i, k) \<in> ?M ^^ m \<and> k \<le> length s" for m k
  proof (induction m arbitrary: k)
    case (Suc m)
    have "(x, k) \<in> ?R \<longleftrightarrow> (x, k) \<in> ?M" "(x, k) \<in> ?M \<Longrightarrow> k \<le> length s" if "x \<le> length s" for x
      using Many.IH [OF that] matches_forward [of s a] that by (auto simp: forward_def)
    moreover have "(i, x) \<in> ?M ^^ m \<Longrightarrow> x \<le> length s" for x
      using forward_star [OF matches_forward, of s a] Many.prems relpow_imp_rtrancl [of "(i, x)" m ?M] by (auto simp: forward_def)
    ultimately show ?case using Suc by (auto simp: relcomp_unfold)
  qed (use Many.prems in auto)
  have "j \<in> set (rounds (ends a s) (length s) [i]) \<longleftrightarrow> (\<exists>m\<le>length s. (i, j) \<in> ?M ^^ m \<and> j \<le> length s)"
    by (simp add: set_rounds eq)
  also have "\<dots> \<longleftrightarrow> (i, j) \<in> ?M\<^sup>*"
  proof
    assume star: "(i, j) \<in> ?M\<^sup>*"
    then have "(i, j) \<in> (?M - Id)\<^sup>*" by (simp add: rtrancl_r_diff_Id)
    then obtain m where m: "(i, j) \<in> (?M - Id) ^^ m" using rtrancl_imp_relpow by blast
    from chain_length [OF matches_forward this Many.prems] have "m \<le> length s" "j \<le> length s" by auto
    moreover have "(?M - Id) ^^ m \<subseteq> ?M ^^ m" by (induction m) auto
    ultimately show "\<exists>m\<le>length s. (i, j) \<in> ?M ^^ m \<and> j \<le> length s" using m by blast
  qed (auto dest: relpow_imp_rtrancl)
  finally show ?case by simp
qed auto

corollary rx_test_iff: "rx_test r s \<longleftrightarrow> (\<exists>i j. i \<le> length s \<and> (i, j) \<in> matches r s)"
proof -
  have "ends r s i \<noteq> [] \<longleftrightarrow> (\<exists>j. (i, j) \<in> matches r s)" if "i \<le> length s" for i
    using ends_are_matches [OF that, of _ r] by (cases "ends r s i") (auto simp: set_empty [symmetric] simp del: set_empty)
  moreover have "rx_test r s \<longleftrightarrow> (\<exists>i\<le>length s. ends r s i \<noteq> [])"
    by (auto simp: rx_test_def list_ex_iff less_Suc_eq_le simp del: upt_Suc)
  ultimately show ?thesis by auto
qed

end
