(* ===== verification/Repo_Checks.thy ===== *)
theory Repo_Checks
  imports Regex
begin

section \<open>Checks on the repository\<close>

text \<open>
  \<open>scripts/generate-terminal-governance-docs.mjs\<close> and \<open>scripts/verify-go-toolchain.mjs\<close>.  The files of the
  repository are the function \<open>fs\<close> from their paths (relative to its root, as the scripts join them) to what is there.
  The parsed JSON files are records with the shape the scripts rely on.  A script ends by passing, by printing errors
  and exiting with 1, or by an exception.
\<close>

datatype fs_entry = Directory | File jsstring

type_synonym files = "jsstring \<Rightarrow> fs_entry option"

datatype check_result = Passed | Failed "jsstring list" | Thrown jsstring

subsection \<open>Texts\<close>

definition starts_with :: "jsstring \<Rightarrow> jsstring \<Rightarrow> bool" where
  "starts_with p s \<longleftrightarrow> take (length p) s = p"

definition ends_with :: "jsstring \<Rightarrow> jsstring \<Rightarrow> bool" where
  "ends_with p s \<longleftrightarrow> length p \<le> length s \<and> drop (length s - length p) s = p"

text \<open>\<open>indexOf\<close>, and \<open>-1\<close> as \<open>None\<close>.\<close>

fun index_of :: "jsstring \<Rightarrow> jsstring \<Rightarrow> nat option" where
  "index_of p [] = (if p = [] then Some 0 else None)"
| "index_of p (u # s) = (if starts_with p (u # s) then Some 0 else map_option Suc (index_of p s))"

fun join_with :: "jsstring \<Rightarrow> jsstring list \<Rightarrow> jsstring" where
  "join_with sep [] = []"
| "join_with sep [s] = s"
| "join_with sep (s # t # ts) = s @ sep @ join_with sep (t # ts)"

definition newline :: jsstring where "newline = [10]"

text \<open>\<open>[...new Set(texts)].sort()\<close>: by code units.\<close>

fun text_less :: "jsstring \<Rightarrow> jsstring \<Rightarrow> bool" where
  "text_less _ [] = False"
| "text_less [] (_ # _) = True"
| "text_less (u # s) (v # t) \<longleftrightarrow> u < v \<or> u = v \<and> text_less s t"

fun insert_text :: "jsstring \<Rightarrow> jsstring list \<Rightarrow> jsstring list" where
  "insert_text s [] = [s]"
| "insert_text s (t # ts) = (if s = t then t # ts else if text_less s t then s # t # ts else t # insert_text s ts)"

definition unique_sorted :: "jsstring list \<Rightarrow> jsstring list" where
  "unique_sorted ss = foldr insert_text ss []"

subsection \<open>The governance map\<close>

record ownership =
  ow_path :: jsstring
  ow_description :: jsstring

record trace_entry =
  te_requirement :: jsstring
  te_unitIntegration :: jsstring
  te_e2e :: jsstring

record governance =
  moduleOwnership :: "ownership list"
  traceability :: "trace_entry list"
  runtimeHealthLane :: "jsstring list"

text \<open>An absent \<open>traceId\<close> stands for any value that is not a string.\<close>

record trace_assertion =
  ta_lane :: jsstring
  ta_path :: jsstring
  ta_traceId :: "jsstring option"

record trace_requirement =
  tr_id :: jsstring
  tr_assertions :: "trace_assertion list"

definition normalizeGovernancePath :: "jsstring \<Rightarrow> jsstring" where
  "normalizeGovernancePath v = (if ends_with (js ''/*'') v then take (length v - 2) v else v)"

text \<open>What stands between a backtick and the next one, when it is not empty; the matches do not overlap.\<close>

function extractBacktickPaths :: "jsstring \<Rightarrow> jsstring list" where
  "extractBacktickPaths s =
     (case s of
        [] \<Rightarrow> []
      | u # rest \<Rightarrow>
          if u \<noteq> 96 then extractBacktickPaths rest
          else let inner = takeWhile (\<lambda>v. v \<noteq> 96) rest; after = dropWhile (\<lambda>v. v \<noteq> 96) rest
               in if inner = [] \<or> after = [] then extractBacktickPaths rest
                  else inner # extractBacktickPaths (drop 1 after))"
  by pat_completeness auto
termination
proof (relation "measure length", goal_cases)
  case (4 s u rest inner after)
  have "length (dropWhile (\<lambda>v. v \<noteq> 96) rest) \<le> length rest" by (rule length_dropWhile_le)
  then show ?case using 4 by simp
qed auto

declare extractBacktickPaths.simps [simp del]

definition digit :: rx where "digit = Unit (\<lambda>u. 48 \<le> u \<and> u \<le> 57)"

definition spaces :: rx where "spaces = Many (Unit is_space)"

definition TEST_FILE_RX :: rx where
  "TEST_FILE_RX = rx_seq [lit ''.'', Either (lit ''test'') (lit ''spec''), lit ''.'', some_of ''jt'', lit ''s'',
     optional (lit ''x''), Text_end]"

definition isTraceabilityTestFile :: "jsstring \<Rightarrow> bool" where
  "isTraceabilityTestFile path \<longleftrightarrow> rx_test TEST_FILE_RX path \<or> ends_with (js ''_test.go'') path"

definition GO_TEST_RX :: rx where
  "GO_TEST_RX = rx_seq [lit ''func'', once_or_more (Unit is_space), lit ''Test'', once_or_more (Unit is_word), spaces, lit ''('']"

definition TS_TEST_RX :: rx where
  "TS_TEST_RX = rx_seq [Either (lit ''it'') (lit ''test''), spaces, lit ''('']"

definition hasExecutableTestPattern :: "jsstring \<Rightarrow> jsstring \<Rightarrow> bool" where
  "hasExecutableTestPattern path source =
     rx_test (Then Word_boundary (if ends_with (js ''_test.go'') path then GO_TEST_RX else TS_TEST_RX)) source"

text \<open>A comment with the id, then comment lines, then a test.  The id is escaped, so it matches itself.\<close>

definition trace_rx :: "jsstring \<Rightarrow> rx \<Rightarrow> rx" where
  "trace_rx traceId test =
     rx_seq [lit ''//'', spaces, literal traceId, spaces, Line_end, literal newline,
       Many (rx_seq [spaces, lit ''//'', Many (Unit (\<lambda>u. u \<noteq> 10)), literal newline]), spaces, test]"

definition hasTraceIdBoundToTestCase :: "jsstring \<Rightarrow> jsstring \<Rightarrow> jsstring \<Rightarrow> bool" where
  "hasTraceIdBoundToTestCase path source traceId =
     rx_test (trace_rx traceId (if ends_with (js ''_test.go'') path then GO_TEST_RX else TS_TEST_RX)) source"

text \<open>\<open>FR-\<close> and digits, all there are, with no word character after them.\<close>

definition requirementIdFromLabel :: "jsstring \<Rightarrow> jsstring option" where
  "requirementIdFromLabel label =
     (let rest = drop 3 label; digits = takeWhile (\<lambda>u. 48 \<le> u \<and> u \<le> 57) rest; after = drop (length digits) rest
      in if starts_with (js ''FR-'') label \<and> digits \<noteq> [] \<and> \<not> unit_at is_word after 0
         then Some (js ''FR-'' @ digits) else None)"

subsection \<open>Paths, identifiers and lanes\<close>

definition linked_paths :: "trace_entry \<Rightarrow> jsstring list" where
  "linked_paths entry =
     filter (\<lambda>v. starts_with (js ''apps/'') v \<or> starts_with (js ''docs/'') v)
       (extractBacktickPaths (te_unitIntegration entry) @ extractBacktickPaths (te_e2e entry))"

text \<open>A linked path is missing, also when it names a test and cannot be read, or a test without tests.\<close>

definition path_missing :: "files \<Rightarrow> jsstring \<Rightarrow> bool" where
  "path_missing fs path =
     (case fs path of
        None \<Rightarrow> True
      | Some Directory \<Rightarrow> isTraceabilityTestFile path
      | Some (File _) \<Rightarrow> False)"

definition path_without_tests :: "files \<Rightarrow> jsstring \<Rightarrow> bool" where
  "path_without_tests fs path =
     (case fs path of
        Some (File source) \<Rightarrow> isTraceabilityTestFile path \<and> \<not> hasExecutableTestPattern path source
      | _ \<Rightarrow> False)"

definition missing_paths :: "files \<Rightarrow> governance \<Rightarrow> jsstring list" where
  "missing_paths fs g =
     filter (\<lambda>p. fs p = None) (map (\<lambda>e. normalizeGovernancePath (ow_path e)) (moduleOwnership g)) @
     filter (path_missing fs) (concat (map linked_paths (traceability g)))"

definition nonexecutable_paths :: "files \<Rightarrow> governance \<Rightarrow> jsstring list" where
  "nonexecutable_paths fs g = filter (path_without_tests fs) (concat (map linked_paths (traceability g)))"

text \<open>The values of a set in the order of their insertion.\<close>

definition first_occurrences :: "'a list \<Rightarrow> 'a list" where
  "first_occurrences xs = rev (remdups (rev xs))"

definition map_ids :: "governance \<Rightarrow> jsstring list" where
  "map_ids g = first_occurrences (List.map_filter (\<lambda>e. requirementIdFromLabel (te_requirement e)) (traceability g))"

definition assertion_ids :: "trace_requirement list \<Rightarrow> jsstring list" where
  "assertion_ids rs = first_occurrences (map tr_id rs)"

definition id_failures :: "governance \<Rightarrow> trace_requirement list \<Rightarrow> jsstring list" where
  "id_failures g rs =
     map (\<lambda>e. js ''Traceability requirement is missing FR-* prefix: '' @ te_requirement e)
       (filter (\<lambda>e. requirementIdFromLabel (te_requirement e) = None) (traceability g)) @
     map (\<lambda>i. js ''No assertions defined for governance requirement '' @ i)
       (filter (\<lambda>i. i \<notin> set (assertion_ids rs)) (map_ids g)) @
     map (\<lambda>i. js ''Assertion manifest requirement '' @ i @ js '' is not present in governance map'')
       (filter (\<lambda>i. i \<notin> set (map_ids g)) (assertion_ids rs))"

text \<open>The trace id of an assertion, when it has a stable one.\<close>

definition stable_id :: "trace_assertion \<Rightarrow> jsstring option" where
  "stable_id a = (case ta_traceId a of None \<Rightarrow> None | Some t \<Rightarrow> if trim t = [] then None else Some t)"

text \<open>Reading a directory is an exception that nothing catches here.\<close>

definition assertion_throws :: "files \<Rightarrow> trace_assertion \<Rightarrow> bool" where
  "assertion_throws fs a \<longleftrightarrow> stable_id a \<noteq> None \<and> fs (ta_path a) = Some Directory"

definition assertion_failures :: "files \<Rightarrow> jsstring \<Rightarrow> trace_assertion \<Rightarrow> jsstring list" where
  "assertion_failures fs rid a =
     (case stable_id a of
        None \<Rightarrow> [rid @ js '': assertion is missing a stable traceId in '' @ ta_path a]
      | Some traceId \<Rightarrow>
          (case fs (ta_path a) of
             Some (File source) \<Rightarrow>
               (if isTraceabilityTestFile (ta_path a) \<and> \<not> hasExecutableTestPattern (ta_path a) source
                then [rid @ js '': assertion path has no executable tests '' @ ta_path a] else []) @
               (if \<not> hasTraceIdBoundToTestCase (ta_path a) source traceId
                then [rid @ js '': traceId is not bound to an executable test case in '' @ ta_path a @ js '': '' @ traceId]
                else [])
           | _ \<Rightarrow> [rid @ js '': missing assertion path '' @ ta_path a]))"

definition lane_failures :: "trace_requirement \<Rightarrow> jsstring list" where
  "lane_failures r =
     (let lanes = map ta_lane (tr_assertions r)
      in (if js ''unitIntegration'' \<notin> set lanes then [tr_id r @ js '': missing unitIntegration assertion lane''] else []) @
         (if js ''e2e'' \<notin> set lanes then [tr_id r @ js '': missing e2e assertion lane''] else []))"

definition assertGovernancePathsExist :: "files \<Rightarrow> governance \<Rightarrow> trace_requirement list \<Rightarrow> check_result" where
  "assertGovernancePathsExist fs g rs =
     (let missing = missing_paths fs g; idle = nonexecutable_paths fs g; ids = id_failures g rs;
          lanes = concat (map lane_failures rs);
          semantic = concat (map (\<lambda>r. concat (map (assertion_failures fs (tr_id r)) (tr_assertions r))) rs)
      in if missing \<noteq> [] then Failed (map (\<lambda>p. js ''Missing governance path: '' @ p) (unique_sorted missing))
         else if idle \<noteq> [] then
           Failed (map (\<lambda>p. js ''Governance traceability test has no executable test pattern: '' @ p) (unique_sorted idle))
         else if list_ex (\<lambda>r. list_ex (assertion_throws fs) (tr_assertions r)) rs then Thrown (js ''EISDIR'')
         else if ids \<noteq> [] then Failed (map (\<lambda>f. js ''Governance traceability id mismatch: '' @ f) ids)
         else if lanes \<noteq> [] then Failed (map (\<lambda>f. js ''Governance traceability lane mismatch: '' @ f) lanes)
         else if semantic \<noteq> [] then Failed (map (\<lambda>f. js ''Governance traceability assertion failed: '' @ f) semantic)
         else Passed)"

subsection \<open>The documents\<close>

definition ownershipSection :: "governance \<Rightarrow> jsstring" where
  "ownershipSection g =
     join_with newline (map (\<lambda>e. js ''- `'' @ ow_path e @ js ''`: '' @ ow_description e) (moduleOwnership g))"

definition traceabilityRows :: "governance \<Rightarrow> jsstring" where
  "traceabilityRows g =
     join_with newline (map (\<lambda>e. js ''| '' @ te_requirement e @ js '' | '' @ te_unitIntegration e @ js '' | '' @ te_e2e e @ js '' |'')
       (traceability g))"

definition traceabilityContent :: "governance \<Rightarrow> jsstring" where
  "traceabilityContent g =
     join_with newline
       ([js ''# WooTTY Web UI Traceability Matrix'', [],
         js ''This matrix ties each web UI functional requirement to concrete automated checks.'', [],
         js ''| Requirement | Unit/Integration tests | E2E tests |'', js ''| --- | --- | --- |'', traceabilityRows g, [],
         js ''## Runtime health lane'', []] @ map (\<lambda>line. js ''- '' @ line) (runtimeHealthLane g) @ [[]])"

definition startMarker :: jsstring where
  "startMarker = js ''<!-- governance:module-ownership:start -->''"

definition endMarker :: jsstring where
  "endMarker = js ''<!-- governance:module-ownership:end -->''"

text \<open>The text with the block between the markers replaced; nothing when the markers are missing or in the wrong order.\<close>

definition architectureNext :: "jsstring \<Rightarrow> jsstring \<Rightarrow> jsstring option" where
  "architectureNext section_text source =
     (case (index_of startMarker source, index_of endMarker source) of
        (Some startIndex, Some endIndex) \<Rightarrow>
          if endIndex \<le> startIndex then None
          else Some (take startIndex source @ join_with newline [startMarker, section_text, endMarker] @
                     drop (endIndex + length endMarker) source)
      | _ \<Rightarrow> None)"

datatype docs_result = Docs_check check_result | Docs_written jsstring jsstring

definition architecturePath :: jsstring where "architecturePath = js ''docs/architecture.md''"

definition traceabilityPath :: jsstring where "traceabilityPath = js ''docs/web-ui-traceability.md''"

definition governance_docs :: "files \<Rightarrow> bool \<Rightarrow> governance \<Rightarrow> trace_requirement list \<Rightarrow> docs_result" where
  "governance_docs fs checkOnly g rs =
     (case assertGovernancePathsExist fs g rs of
        Passed \<Rightarrow>
          (case fs architecturePath of
             Some (File source) \<Rightarrow>
               (case architectureNext (ownershipSection g) source of
                  None \<Rightarrow> Docs_check (Thrown (js ''Architecture governance ownership markers are missing or invalid.''))
                | Some architecture \<Rightarrow>
                    if \<not> checkOnly then Docs_written architecture (traceabilityContent g)
                    else (case fs traceabilityPath of
                            Some (File current) \<Rightarrow>
                              (let stale =
                                 (if architecture \<noteq> source
                                  then [js ''docs/architecture.md is out of date with governance map.''] else []) @
                                 (if traceabilityContent g \<noteq> current
                                  then [js ''docs/web-ui-traceability.md is out of date with governance map.''] else [])
                               in Docs_check (if stale = [] then Passed else Failed stale))
                          | None \<Rightarrow> Docs_check (Thrown (js ''ENOENT''))
                          | Some Directory \<Rightarrow> Docs_check (Thrown (js ''EISDIR''))))
           | None \<Rightarrow> Docs_check (Thrown (js ''ENOENT''))
           | Some Directory \<Rightarrow> Docs_check (Thrown (js ''EISDIR'')))
      | r \<Rightarrow> Docs_check r)"

subsection \<open>What the check accepts\<close>

definition assertion_holds :: "files \<Rightarrow> trace_assertion \<Rightarrow> bool" where
  "assertion_holds fs a \<longleftrightarrow>
     (case (stable_id a, fs (ta_path a)) of
        (Some traceId, Some (File source)) \<Rightarrow>
          (isTraceabilityTestFile (ta_path a) \<longrightarrow> hasExecutableTestPattern (ta_path a) source) \<and>
          hasTraceIdBoundToTestCase (ta_path a) source traceId
      | _ \<Rightarrow> False)"

lemma set_first [simp]: "set (first_occurrences xs) = set xs"
  by (simp add: first_occurrences_def)

lemma filter_none: "filter p xs = [] \<longleftrightarrow> (\<forall>x\<in>set xs. \<not> p x)"
  by (induction xs) auto

lemma assertion_ok: "assertion_failures fs i a = [] \<and> \<not> assertion_throws fs a \<longleftrightarrow> assertion_holds fs a"
  by (auto simp: assertion_failures_def assertion_throws_def assertion_holds_def split: option.split fs_entry.split)

lemma ids_ok:
  "id_failures g rs = [] \<longleftrightarrow>
     (\<forall>e\<in>set (traceability g). requirementIdFromLabel (te_requirement e) \<noteq> None) \<and>
     {i. \<exists>e\<in>set (traceability g). requirementIdFromLabel (te_requirement e) = Some i} = tr_id ` set rs"
proof -
  have "set (List.map_filter f xs) = {i. \<exists>x\<in>set xs. f x = Some i}" for f and xs :: "trace_entry list"
  proof (induction xs)
    case (Cons x xs)
    then show ?case by (cases "f x") (auto simp: List.map_filter_simps)
  qed (simp add: List.map_filter_simps)
  then have "set (map_ids g) = {i. \<exists>e\<in>set (traceability g). requirementIdFromLabel (te_requirement e) = Some i}"
    by (simp add: map_ids_def)
  then show ?thesis by (auto simp: id_failures_def filter_none assertion_ids_def)
qed

text \<open>The check passes exactly when every module and every linked path exists, every linked test file has a test, the
  requirements of the map are those of the manifest, and each of those has assertions in both lanes, every one bound by
  its id to a test of a file that exists.\<close>

theorem governance_accepts_exactly:
  "assertGovernancePathsExist fs g rs = Passed \<longleftrightarrow>
     (\<forall>e\<in>set (moduleOwnership g). fs (normalizeGovernancePath (ow_path e)) \<noteq> None) \<and>
     (\<forall>e\<in>set (traceability g). \<forall>p\<in>set (linked_paths e). \<not> path_missing fs p \<and> \<not> path_without_tests fs p) \<and>
     (\<forall>e\<in>set (traceability g). requirementIdFromLabel (te_requirement e) \<noteq> None) \<and>
     {i. \<exists>e\<in>set (traceability g). requirementIdFromLabel (te_requirement e) = Some i} = tr_id ` set rs \<and>
     (\<forall>r\<in>set rs. {js ''unitIntegration'', js ''e2e''} \<subseteq> ta_lane ` set (tr_assertions r) \<and>
        (\<forall>a\<in>set (tr_assertions r). assertion_holds fs a))"
proof -
  have missing: "missing_paths fs g = [] \<longleftrightarrow> (\<forall>e\<in>set (moduleOwnership g). fs (normalizeGovernancePath (ow_path e)) \<noteq> None) \<and>
      (\<forall>e\<in>set (traceability g). \<forall>p\<in>set (linked_paths e). \<not> path_missing fs p)"
    by (auto simp: missing_paths_def filter_none)
  have idle: "nonexecutable_paths fs g = [] \<longleftrightarrow> (\<forall>e\<in>set (traceability g). \<forall>p\<in>set (linked_paths e). \<not> path_without_tests fs p)"
    by (auto simp: nonexecutable_paths_def filter_none)
  have lanes: "concat (map lane_failures rs) = [] \<longleftrightarrow>
      (\<forall>r\<in>set rs. {js ''unitIntegration'', js ''e2e''} \<subseteq> ta_lane ` set (tr_assertions r))"
    by (auto simp: lane_failures_def Let_def)
  have semantic: "\<not> list_ex (\<lambda>r. list_ex (assertion_throws fs) (tr_assertions r)) rs \<and>
      concat (map (\<lambda>r. concat (map (assertion_failures fs (tr_id r)) (tr_assertions r))) rs) = [] \<longleftrightarrow>
      (\<forall>r\<in>set rs. \<forall>a\<in>set (tr_assertions r). assertion_holds fs a)"
    using assertion_ok [of fs] by (simp add: list_ex_iff) blast
  have "assertGovernancePathsExist fs g rs = Passed \<longleftrightarrow> missing_paths fs g = [] \<and> nonexecutable_paths fs g = [] \<and>
      id_failures g rs = [] \<and> concat (map lane_failures rs) = [] \<and>
      (\<not> list_ex (\<lambda>r. list_ex (assertion_throws fs) (tr_assertions r)) rs \<and>
       concat (map (\<lambda>r. concat (map (assertion_failures fs (tr_id r)) (tr_assertions r))) rs) = [])"
    by (simp add: assertGovernancePathsExist_def Let_def del: concat_eq_Nil_conv Nil_eq_concat_conv)
  then show ?thesis by (simp only: missing idle lanes semantic ids_ok ball_conj_distrib conj_ac)
qed

subsection \<open>Regeneration\<close>

definition occurs_at :: "jsstring \<Rightarrow> jsstring \<Rightarrow> nat \<Rightarrow> bool" where
  "occurs_at p s m \<longleftrightarrow> take (length p) (drop m s) = p"

lemma index_of_iff:
  "p \<noteq> [] \<Longrightarrow> index_of p s = Some n \<longleftrightarrow> occurs_at p s n \<and> (\<forall>m<n. \<not> occurs_at p s m)"
proof (induction s arbitrary: n)
  case (Cons u s)
  have shift: "occurs_at p (u # s) (Suc m) = occurs_at p s m" for m by (simp add: occurs_at_def)
  have all: "(\<forall>m<Suc k. \<not> occurs_at p (u # s) m) \<longleftrightarrow> \<not> occurs_at p (u # s) 0 \<and> (\<forall>m<k. \<not> occurs_at p s m)" for k
    by (metis shift less_Suc_eq_0_disj)
  have start: "starts_with p (u # s) = occurs_at p (u # s) 0" by (simp add: starts_with_def occurs_at_def)
  show ?case
  proof (cases n)
    case 0
    then show ?thesis by (simp add: start)
  next
    case (Suc k)
    then show ?thesis using Cons by (auto simp: start all shift)
  qed
qed (auto simp: occurs_at_def)

lemma index_of_none: "p \<noteq> [] \<Longrightarrow> index_of p s = None \<longleftrightarrow> (\<forall>m. \<not> occurs_at p s m)"
proof -
  assume p: "p \<noteq> []"
  have "(\<exists>n. occurs_at p s n) \<longleftrightarrow> (\<exists>n. occurs_at p s n \<and> (\<forall>m<n. \<not> occurs_at p s m))"
    using exists_least_iff [of "occurs_at p s"] by blast
  then show ?thesis by (metis index_of_iff [OF p] not_None_eq)
qed

lemma occurs_nth: "occurs_at p s m \<Longrightarrow> k < length p \<Longrightarrow> m + k < length s \<and> s ! (m + k) = p ! k"
proof -
  assume p: "occurs_at p s m" and k: "k < length p"
  have l: "length (take (length p) (drop m s)) = length p" using p by (simp add: occurs_at_def)
  have "take (length p) (drop m s) ! k = p ! k" using p by (simp add: occurs_at_def)
  then show ?thesis using l k by (auto simp: min_def split: if_splits)
qed

lemma occurs_inside: "m + length p \<le> length xs \<Longrightarrow> occurs_at p (xs @ ys) m = occurs_at p xs m"
  by (simp add: occurs_at_def)

text \<open>An occurrence that does not contain a character is on one side of it.\<close>

lemma occurs_beside:
  assumes "c \<notin> set p" "occurs_at p (xs @ c # ys) m" "p \<noteq> []"
  shows "m + length p \<le> length xs \<and> occurs_at p xs m \<or> length xs < m \<and> occurs_at p ys (m - Suc (length xs))"
proof (cases "length xs < m")
  case True
  then obtain k where "m = Suc (length xs + k)" using less_imp_Suc_add by blast
  then show ?thesis using assms(2) by (simp add: occurs_at_def)
next
  case False
  have "m + length p \<le> length xs"
  proof (rule ccontr)
    assume "\<not> ?thesis"
    then have "length xs - m < length p" using False by simp
    from occurs_nth [OF assms(2) this] have "p ! (length xs - m) = c" using False by simp
    then show False using assms(1) \<open>length xs - m < length p\<close> nth_mem by blast
  qed
  then show ?thesis using assms(2) occurs_inside [of m p xs "c # ys"] by blast
qed

text \<open>The end marker is two characters shorter than the start marker, both are on one line and begin with the only \<open><\<close>
  there is in them.\<close>

lemma markers:
  "10 \<notin> set startMarker" "10 \<notin> set endMarker" "startMarker \<noteq> []" "endMarker \<noteq> []"
  "length startMarker = length endMarker + 2" "endMarker ! 0 = 60" "startMarker ! 1 \<noteq> 60" "startMarker ! 2 \<noteq> 60"
  by code_simp+

text \<open>A regenerated architecture document is up to date: generating again changes nothing, unless the map itself
  contains the end marker.\<close>

theorem regeneration_is_stable:
  assumes "architectureNext section_text source = Some next_source" "index_of endMarker section_text = None"
  shows "architectureNext section_text next_source = Some next_source"
proof -
  obtain si ei where si: "index_of startMarker source = Some si" and ei: "index_of endMarker source = Some ei" and "si < ei"
    and eq: "next_source = take si source @ join_with newline [startMarker, section_text, endMarker] @
      drop (ei + length endMarker) source"
    using assms(1) by (auto simp: architectureNext_def split: option.splits if_splits)
  define pre where "pre = take si source @ startMarker"
  define post where "post = drop (ei + length endMarker) source"
  have s: "occurs_at startMarker source si" "\<And>m. m < si \<Longrightarrow> \<not> occurs_at startMarker source m"
    and e: "\<And>m. m < ei \<Longrightarrow> \<not> occurs_at endMarker source m"
    using si ei by (auto simp: index_of_iff markers)
  have "0 < length startMarker" using markers(3) by (simp only: length_greater_0_conv not_False_eq_True)
  then have "si < length source" using occurs_nth [OF s(1), of 0] by simp
  then have least: "min (length source) si = si" by simp
  then have len: "length (take si source) = si" by simp
  have src: "source = pre @ drop (length pre) source"
    using s(1) len unfolding pre_def occurs_at_def by (metis append_assoc append_take_drop_id drop_drop add.commute length_append)
  have next1: "next_source = pre @ 10 # section_text @ 10 # endMarker @ post"
    by (simp add: eq pre_def post_def newline_def)
  have lpre: "length pre = si + length startMarker" by (simp add: pre_def least)
  have start: "index_of startMarker next_source = Some si"
  proof -
    have same: "occurs_at startMarker next_source m = occurs_at startMarker source m" if "m \<le> si" for m
    proof -
      have "m + length startMarker \<le> length pre" using that lpre by simp
      then show ?thesis unfolding next1 by (subst src) (simp only: occurs_inside)
    qed
    show ?thesis using s same by (simp add: index_of_iff markers)
  qed
  define ee where "ee = length pre + 1 + length section_text + 1"
  have before: "\<not> occurs_at endMarker next_source m" if "m < ee" for m
  proof
    assume "occurs_at endMarker next_source m"
    from occurs_beside [OF markers(2) this [unfolded next1] markers(4)]
    consider (pre) "m + length endMarker \<le> length pre" "occurs_at endMarker pre m"
      | (rest) "length pre < m" "occurs_at endMarker (section_text @ 10 # endMarker @ post) (m - Suc (length pre))" by blast
    then show False
    proof cases
      case pre
      then have occ: "occurs_at endMarker source m" by (subst src) (simp add: occurs_inside)
      then have "ei \<le> m" using e by (meson not_le)
      then have "m = si + 1 \<or> m = si + 2" using \<open>si < ei\<close> pre(1) lpre markers(5) by linarith
      moreover have "source ! (si + 1) \<noteq> 60" "source ! (si + 2) \<noteq> 60"
        using occurs_nth [OF s(1), of 1] occurs_nth [OF s(1), of 2] markers(4,5,7,8) by simp_all
      moreover have "source ! m = 60" using occurs_nth [OF occ, of 0] markers(4,6) by simp
      ultimately show False by auto
    next
      case rest
      from occurs_beside [OF markers(2) rest(2) markers(4)] assms(2) show False
        using rest(1) that by (auto simp: ee_def index_of_none markers)
    qed
  qed
  have "occurs_at endMarker next_source ee" by (simp add: next1 ee_def occurs_at_def)
  then have finish: "index_of endMarker next_source = Some ee" using before by (simp add: index_of_iff markers)
  have parts: "take si next_source = take si source" "drop (ee + length endMarker) next_source = post"
    by (simp_all add: next1 ee_def pre_def least)
  have "si < ee" by (simp add: ee_def lpre)
  then have "architectureNext section_text next_source = Some (take si next_source @
      join_with newline [startMarker, section_text, endMarker] @ drop (ee + length endMarker) next_source)"
    by (simp add: architectureNext_def start finish)
  then show ?thesis unfolding parts post_def eq [symmetric] .
qed

subsection \<open>The Go toolchain\<close>

fun split_newlines :: "jsstring \<Rightarrow> jsstring list" where
  "split_newlines [] = [[]]"
| "split_newlines (u # s) =
     (if u = 10 then [] # split_newlines s
      else case split_newlines s of [] \<Rightarrow> [[u]] | l # ls \<Rightarrow> (u # l) # ls)"

text \<open>
  The version of the first line \<open>go\<close> white space version: after the white space only digits and dots can follow up to
  the end of a line, so that the parts of the expression are as long as they can be.
\<close>

definition VERSION_RX :: rx where
  "VERSION_RX = rx_seq [Text_start, once_or_more digit, lit ''.'', once_or_more digit,
     optional (Then (lit ''.'') (once_or_more digit)), Text_end]"

definition go_version_at :: "jsstring \<Rightarrow> nat \<Rightarrow> jsstring option" where
  "go_version_at s i =
     (let rest = drop (i + 2) s; space = takeWhile is_space rest; body = drop (length space) rest;
          version = takeWhile (\<lambda>u. 48 \<le> u \<and> u \<le> 57 \<or> u = 46) body; after = drop (length version) body
      in if ends Line_start s i \<noteq> [] \<and> starts_with (js ''go'') (drop i s) \<and> space \<noteq> [] \<and> rx_test VERSION_RX version \<and>
            (after = [] \<or> unit_at is_terminator after 0)
         then Some version else None)"

definition goDirective :: "jsstring \<Rightarrow> jsstring option" where
  "goDirective s =
     (case List.map_filter (go_version_at s) [0..<length s] of [] \<Rightarrow> None | v # _ \<Rightarrow> Some v)"

definition leadingSpaces :: "jsstring \<Rightarrow> nat" where
  "leadingSpaces line = length (takeWhile (\<lambda>u. u = 32) line)"

text \<open>A list item that is not indented more than \<open>indent\<close>.\<close>

definition item_within :: "nat \<Rightarrow> jsstring \<Rightarrow> bool" where
  "item_within indent line \<longleftrightarrow> starts_with (js ''- '') (trim line) \<and> leadingSpaces line \<le> indent"

fun search_up :: "jsstring list \<Rightarrow> nat \<Rightarrow> nat \<Rightarrow> nat option" where
  "search_up lines indent 0 = (if item_within indent (lines ! 0) then Some 0 else None)"
| "search_up lines indent (Suc k) = (if item_within indent (lines ! Suc k) then Some (Suc k) else search_up lines indent k)"

definition setupGoStep :: "jsstring list \<Rightarrow> nat \<Rightarrow> nat \<times> nat" where
  "setupGoStep lines usesLineIndex =
     (let usesIndent = leadingSpaces (lines ! usesLineIndex)
      in case search_up lines usesIndent usesLineIndex of
           Some index \<Rightarrow> (index, leadingSpaces (lines ! index))
         | None \<Rightarrow> (usesLineIndex, usesIndent - 2))"

definition setupGoLines :: "jsstring list \<Rightarrow> nat \<Rightarrow> jsstring list" where
  "setupGoLines lines usesLineIndex =
     (let (index, indent) = setupGoStep lines usesLineIndex
      in lines ! index # takeWhile (\<lambda>line. \<not> item_within indent line) (drop (Suc index) lines))"

definition setupGoBlock :: "jsstring list \<Rightarrow> nat \<Rightarrow> jsstring" where
  "setupGoBlock lines usesLineIndex = join_with newline (setupGoLines lines usesLineIndex)"

definition goVersionFile :: jsstring where "goVersionFile = js ''apps/server/go.mod''"

definition goCachePath :: jsstring where "goCachePath = js ''apps/server/go.sum''"

definition HARD_CODED_RX :: rx where
  "HARD_CODED_RX = rx_seq [Line_start, spaces, lit ''go-version'', spaces, lit '':'']"

definition setting_rx :: "string \<Rightarrow> jsstring \<Rightarrow> rx" where
  "setting_rx name value_text = rx_seq [Line_start, spaces, lit name, lit '':'', spaces, literal value_text, Line_end]"

definition line_failures :: "jsstring \<Rightarrow> jsstring list \<Rightarrow> nat \<Rightarrow> jsstring list" where
  "line_failures path lines index =
     (let block = setupGoBlock lines index; location = path @ js '':'' @ js (nat_digits (index + 1))
      in (if rx_test HARD_CODED_RX block
          then [location @ js '' hard-codes go-version; use go-version-file: '' @ goVersionFile] else []) @
         (if \<not> rx_test (setting_rx ''go-version-file'' goVersionFile) block
          then [location @ js '' must read Go from '' @ goVersionFile] else []) @
         (if \<not> rx_test (setting_rx ''cache-dependency-path'' goCachePath) block
          then [location @ js '' must cache modules from '' @ goCachePath] else []))"

text \<open>The lines that use the action, by index.\<close>

definition setup_lines :: "jsstring list \<Rightarrow> nat list" where
  "setup_lines lines = filter (\<lambda>i. index_of (js ''uses: actions/setup-go@'') (lines ! i) \<noteq> None) [0..<length lines]"

definition workflow_failures :: "(jsstring \<Rightarrow> jsstring) \<Rightarrow> jsstring \<Rightarrow> jsstring list" where
  "workflow_failures contents fileName =
     (let lines = split_newlines (contents fileName)
      in concat (map (line_failures (js ''.github/workflows/'' @ fileName) lines) (setup_lines lines)))"

definition fold_case :: "code_unit \<Rightarrow> code_unit" where
  "fold_case u = (if 65 \<le> u \<and> u \<le> 90 then u + 32 else u)"

definition GO_IMAGE_RX :: rx where
  "GO_IMAGE_RX = rx_seq ([Text_start] @ map (\<lambda>c. Unit (\<lambda>u. fold_case u = of_char c)) ''from'' @ [once_or_more (Unit is_space)] @
     map (\<lambda>c. Unit (\<lambda>u. fold_case u = of_char c)) ''golang:'')"

definition docker_failures :: "jsstring \<Rightarrow> jsstring \<Rightarrow> jsstring list" where
  "docker_failures goVersion dockerfile =
     (let images = filter (rx_test GO_IMAGE_RX) (split_newlines dockerfile);
          expected = js ''FROM golang:'' @ goVersion @ js ''-trixie AS server-builder''
      in (if images = [] then [js ''Dockerfile does not declare a golang server-builder image''] else []) @
         map (\<lambda>line. js ''Dockerfile Go builder must match '' @ goVersionFile @ js '': expected '' @ expected @ js '', got '' @ line)
           (filter (\<lambda>line. line \<noteq> expected) images))"

definition YAML_RX :: rx where
  "YAML_RX = rx_seq [lit ''.y'', optional (lit ''a''), lit ''ml'', Text_end]"

definition verify_go_toolchain :: "jsstring \<Rightarrow> jsstring list \<Rightarrow> (jsstring \<Rightarrow> jsstring) \<Rightarrow> jsstring \<Rightarrow> check_result" where
  "verify_go_toolchain goMod directory contents dockerfile =
     (case goDirective goMod of
        None \<Rightarrow> Failed [js ''Could not read Go directive from '' @ goVersionFile]
      | Some goVersion \<Rightarrow>
          (let workflows = unique_sorted (filter (rx_test YAML_RX) directory);
               steps = sum_list (map (\<lambda>f. length (setup_lines (split_newlines (contents f)))) workflows);
               failures = concat (map (workflow_failures contents) workflows) @
                 (if steps = 0 then [js ''No actions/setup-go steps found in GitHub workflows''] else []) @
                 docker_failures goVersion dockerfile
           in if failures = [] then Passed
              else Failed (js ''Go toolchain invariants failed:'' # map (\<lambda>f. js ''- '' @ f) failures)))"

text \<open>The block that is checked is a run of lines that begins with the step and contains the line that uses the action.\<close>

lemma search_up_spec:
  "case search_up lines indent k of
     Some i \<Rightarrow> i \<le> k \<and> item_within indent (lines ! i) \<and> (\<forall>m. i < m \<and> m \<le> k \<longrightarrow> \<not> item_within indent (lines ! m))
   | None \<Rightarrow> \<forall>m\<le>k. \<not> item_within indent (lines ! m)"
proof (induction k)
  case (Suc k)
  then show ?case by (cases "search_up lines indent k") (auto simp: le_Suc_eq)
qed auto

theorem block_contains_the_step:
  assumes "k < length lines"
  shows "let index = fst (setupGoStep lines k); block = setupGoLines lines k
    in index \<le> k \<and> block = take (length block) (drop index lines) \<and> k - index < length block \<and> block ! (k - index) = lines ! k"
proof -
  obtain i n where step: "setupGoStep lines k = (i, n)" by (metis prod.exhaust)
  have quiet: "i \<le> k" "\<And>m. i < m \<Longrightarrow> m \<le> k \<Longrightarrow> \<not> item_within n (lines ! m)"
    using step search_up_spec [where lines = lines and indent = "leadingSpaces (lines ! k)" and k = k]
    by (auto simp: setupGoStep_def Let_def item_within_def split: option.splits)
  let ?rest = "takeWhile (\<lambda>line. \<not> item_within n line) (drop (Suc i) lines)"
  have i: "i < length lines" using quiet(1) assms by simp
  have block: "setupGoLines lines k = lines ! i # ?rest" by (simp add: setupGoLines_def step)
  have "?rest = take (length ?rest) (drop (Suc i) lines)" by (rule takeWhile_eq_take)
  then have whole: "lines ! i # ?rest = take (Suc (length ?rest)) (drop i lines)"
    using Cons_nth_drop_Suc [OF i] by (metis take_Suc_Cons)
  have "k - i \<le> length ?rest"
  proof (rule ccontr)
    assume "\<not> ?thesis"
    then have short: "length ?rest < k - i" by simp
    then have "length ?rest < length (drop (Suc i) lines)" using assms by simp
    from nth_length_takeWhile [OF this] have "item_within n (drop (Suc i) lines ! length ?rest)" by blast
    moreover have "Suc i + length ?rest \<le> k" using short by simp
    ultimately show False using quiet(2) [of "Suc i + length ?rest"] assms by simp
  qed
  then have "k - i < length (lines ! i # ?rest)" by simp
  moreover have "(lines ! i # ?rest) ! (k - i) = lines ! k"
    using quiet(1) calculation assms i by (subst whole) simp
  moreover have "xs = take (length xs) ys" if "xs = take m ys" for m and xs ys :: "jsstring list"
    using that by (cases "m \<le> length ys") simp_all
  from this [OF whole] have "lines ! i # ?rest = take (length (lines ! i # ?rest)) (drop i lines)" .
  ultimately show ?thesis unfolding Let_def step fst_conv block using quiet(1) by (intro conjI)
qed

end
