(* ===== verification/Contract_Bindings.thy ===== *)
theory Contract_Bindings
  imports Repo_Checks Sessions_Payload
begin

section \<open>Bindings generated from the contract\<close>

text \<open>
  \<open>scripts/generate-terminal-contract-bindings.mjs\<close>: the TypeScript and Go constants generated from the three
  contract files, and the check that they are up to date.  The formatters \<open>biome\<close> and \<open>gofmt\<close> are arguments,
  as is \<open>JSON.stringify\<close> of a string (in \<open>host\<close>); the contract's numbers are whole.
\<close>

record contract =
  ct_version :: int
  ct_dimensionMin :: int
  ct_dimensionMax :: int
  ct_clientTypes :: "jsstring list"
  ct_serverTypes :: "jsstring list"
  ct_knownCodes :: "jsstring list"
  ct_unknownPolicy :: jsstring
  ct_sessionsHttp :: jsstring
  ct_terminalWs :: jsstring
  ct_envelopeField :: jsstring
  ct_required :: "jsstring list"
  ct_optional :: "jsstring list"

subsection \<open>Names\<close>

definition alphanumeric :: "code_unit \<Rightarrow> bool" where
  "alphanumeric u \<longleftrightarrow> is_word u \<and> u \<noteq> 95"

definition upper :: "code_unit \<Rightarrow> code_unit" where
  "upper u = (if 97 \<le> u \<and> u \<le> 122 then u - 32 else u)"

text \<open>A run of other characters becomes one underscore; \<open>gap\<close> says that the one before was already such a character.\<close>

fun underscored :: "bool \<Rightarrow> jsstring \<Rightarrow> jsstring" where
  "underscored gap [] = []"
| "underscored gap (u # s) =
     (if alphanumeric u then u # underscored False s
      else if gap then underscored True s else 95 # underscored True s)"

definition toUpperSnake :: "jsstring \<Rightarrow> jsstring" where
  "toUpperSnake input = map upper (underscored False input)"

text \<open>The parts between runs of other characters that are not empty.\<close>

function name_parts :: "jsstring \<Rightarrow> jsstring list" where
  "name_parts s =
     (let rest = dropWhile (\<lambda>u. \<not> alphanumeric u) s
      in if rest = [] then [] else takeWhile alphanumeric rest # name_parts (dropWhile alphanumeric rest))"
  by pat_completeness auto
termination
proof (relation "measure length", goal_cases)
  case (2 s rest)
  then have "rest \<noteq> []" by simp
  then obtain u t where rest: "rest = u # t" by (auto simp: neq_Nil_conv)
  then have u: "alphanumeric u" using 2(1) hd_dropWhile [of "\<lambda>u. \<not> alphanumeric u" s] by simp
  have "length (dropWhile alphanumeric rest) \<le> length t" using rest u length_dropWhile_le by simp
  also have "\<dots> < length s" using rest 2(1) length_dropWhile_le [of "\<lambda>u. \<not> alphanumeric u" s] by simp
  finally show ?case by simp
qed simp

declare name_parts.simps [simp del]

definition capitalised :: "jsstring \<Rightarrow> jsstring" where
  "capitalised part = map upper (take 1 part) @ drop 1 part"

definition toPascalCase :: "jsstring \<Rightarrow> jsstring" where
  "toPascalCase input = concat (map capitalised (name_parts input))"

subsection \<open>Texts\<close>

definition tsString :: "host \<Rightarrow> jsstring \<Rightarrow> jsstring" where
  "tsString H v = (case json_stringify H (J_str v) of Inr t \<Rightarrow> t | Inl _ \<Rightarrow> [])"

definition line_of :: "jsstring \<Rightarrow> jsstring" where
  "line_of s = s @ newline"

definition renderTsStringArray :: "host \<Rightarrow> jsstring list \<Rightarrow> jsstring" where
  "renderTsStringArray H values =
     (if values = [] then js ''[]''
      else line_of (js ''['') @ join_with (line_of (js '','')) (map (\<lambda>v. js ''  '' @ tsString H v) values) @ newline @ js '']'')"

definition renderGoStringArray :: "host \<Rightarrow> jsstring list \<Rightarrow> jsstring" where
  "renderGoStringArray H values =
     (if values = [] then js ''{}''
      else line_of (js ''{'') @ join_with newline (map (\<lambda>v. [9] @ tsString H v @ js '','') values) @ newline @ js ''}'')"

definition ts_entries :: "host \<Rightarrow> jsstring list \<Rightarrow> jsstring" where
  "ts_entries H names =
     line_of (join_with (line_of (js '','')) (map (\<lambda>n. js ''  '' @ toUpperSnake n @ js '': '' @ tsString H n) names) @ js '','')"

definition tsOutput :: "host \<Rightarrow> contract \<Rightarrow> jsstring" where
  "tsOutput H c =
     line_of (js ''// Code generated by scripts/generate-terminal-contract-bindings.mjs. DO NOT EDIT.'') @ newline @
     line_of (js ''export const TERMINAL_WIRE_CONTRACT_VERSION = '' @ js (int_digits (ct_version c)) @ js '' as const;'') @ newline @
     line_of (js ''export const TERMINAL_DIMENSION_LIMIT = {'') @
     line_of (js ''  MIN: '' @ js (int_digits (ct_dimensionMin c)) @ js '','') @
     line_of (js ''  MAX: '' @ js (int_digits (ct_dimensionMax c)) @ js '','') @
     line_of (js ''} as const;'') @ newline @
     line_of (js ''export const TERMINAL_BACKEND_ROUTE = {'') @
     line_of (js ''  SESSIONS_HTTP: '' @ tsString H (ct_sessionsHttp c) @ js '','') @
     line_of (js ''  TERMINAL_WS: '' @ tsString H (ct_terminalWs c) @ js '','') @
     line_of (js ''} as const;'') @ newline @
     line_of (js ''export const TERMINAL_CLIENT_MESSAGE_TYPE = {'') @ ts_entries H (ct_clientTypes c) @
     line_of (js ''} as const;'') @ newline @
     line_of (js ''export const TERMINAL_SERVER_MESSAGE_TYPE = {'') @ ts_entries H (ct_serverTypes c) @
     line_of (js ''} as const;'') @ newline @
     line_of (js ''export const TERMINAL_SERVER_ERROR_CODE = {'') @ ts_entries H (ct_knownCodes c) @
     line_of (js ''} as const;'') @ newline @
     line_of (js ''export const TERMINAL_SERVER_ERROR_CODES = '' @ renderTsStringArray H (ct_knownCodes c) @ js '' as const;'') @ newline @
     line_of (js ''export const TERMINAL_UNKNOWN_SERVER_ERROR_POLICY = '' @ tsString H (ct_unknownPolicy c) @ js '' as const;'') @ newline @
     line_of (js ''export const SESSIONS_ENVELOPE_FIELD = '' @ tsString H (ct_envelopeField c) @ js '' as const;'') @ newline @
     line_of (js ''export const SESSION_SNAPSHOT_REQUIRED_FIELDS = '' @ renderTsStringArray H (ct_required c) @ js '' as const;'') @ newline @
     line_of (js ''export const SESSION_SNAPSHOT_OPTIONAL_FIELDS = '' @ renderTsStringArray H (ct_optional c) @ js '' as const;'')"

definition go_constants :: "host \<Rightarrow> string \<Rightarrow> jsstring list \<Rightarrow> jsstring" where
  "go_constants H prefix names =
     line_of (js ''const ('') @
     line_of (join_with newline (map (\<lambda>n. [9] @ js prefix @ toPascalCase n @ js '' = '' @ tsString H n) names)) @
     line_of (js '')'') @ newline"

definition goOutput :: "host \<Rightarrow> contract \<Rightarrow> jsstring" where
  "goOutput H c =
     line_of (js ''// Code generated by scripts/generate-terminal-contract-bindings.mjs. DO NOT EDIT.'') @ newline @
     line_of (js ''package protocol'') @ newline @
     line_of (js ''const ('') @
     line_of ([9] @ js ''WireContractVersion = '' @ js (int_digits (ct_version c))) @
     line_of ([9] @ js ''MinDimension        = '' @ js (int_digits (ct_dimensionMin c))) @
     line_of ([9] @ js ''MaxDimension        = '' @ js (int_digits (ct_dimensionMax c))) @
     line_of (js '')'') @ newline @
     line_of (js ''const ('') @
     line_of ([9] @ js ''SessionsHTTPRoute = '' @ tsString H (ct_sessionsHttp c)) @
     line_of ([9] @ js ''TerminalWSRoute   = '' @ tsString H (ct_terminalWs c)) @
     line_of (js '')'') @ newline @
     go_constants H ''ClientMessageType'' (ct_clientTypes c) @
     go_constants H ''ServerMessageType'' (ct_serverTypes c) @
     go_constants H ''ServerErrorCode'' (ct_knownCodes c) @
     line_of (js ''const UnknownServerErrorCodePolicy = '' @ tsString H (ct_unknownPolicy c)) @ newline @
     line_of (js ''var ClientMessageTypes = []string'' @ renderGoStringArray H (ct_clientTypes c)) @ newline @
     line_of (js ''var ServerMessageTypes = []string'' @ renderGoStringArray H (ct_serverTypes c)) @ newline @
     line_of (js ''var KnownServerErrorCodes = []string'' @ renderGoStringArray H (ct_knownCodes c)) @ newline @
     line_of (js ''const SessionsEnvelopeField = '' @ tsString H (ct_envelopeField c)) @ newline @
     line_of (js ''var SessionSnapshotRequiredFields = []string'' @ renderGoStringArray H (ct_required c)) @ newline @
     line_of (js ''var SessionSnapshotOptionalFields = []string'' @ renderGoStringArray H (ct_optional c))"

subsection \<open>Writing and checking\<close>

definition tsOutputPath :: jsstring where
  "tsOutputPath = js ''apps/web/src/features/terminal/protocol/generated-wire-contract.ts''"

definition goOutputPath :: jsstring where
  "goOutputPath = js ''apps/server/internal/protocol/wire_contract.go''"

datatype bindings_result = Bindings_written "(jsstring \<times> jsstring) list" | Bindings_check check_result

definition contract_bindings ::
  "host \<Rightarrow> (jsstring \<Rightarrow> jsstring) \<Rightarrow> (jsstring \<Rightarrow> jsstring) \<Rightarrow> (jsstring \<Rightarrow> jsstring) \<Rightarrow> bool \<Rightarrow> contract \<Rightarrow> bindings_result" where
  "contract_bindings H biome gofmt contents check_only c =
     (let outputs = [(tsOutputPath, biome (tsOutput H c)), (goOutputPath, gofmt (goOutput H c))]
      in if \<not> check_only then Bindings_written outputs
         else let stale = filter (\<lambda>(path, expected). contents path \<noteq> expected) outputs
              in Bindings_check (if stale = [] then Passed
                 else Failed (js ''Terminal contract bindings are stale. Run pnpm generate:terminal-contracts.'' # map fst stale)))"

text \<open>What was written passes the check.\<close>

lemma written_bindings_pass:
  assumes "contract_bindings H biome gofmt before False c = Bindings_written outputs"
    "\<And>path text_value. (path, text_value) \<in> set outputs \<Longrightarrow> after path = text_value"
  shows "contract_bindings H biome gofmt after True c = Bindings_check Passed"
  using assms by (auto simp: contract_bindings_def Let_def)

subsection \<open>The contract of the repository\<close>

text \<open>\<open>contracts/terminal-wire-contract.json\<close>, \<open>contracts/sessions-contract.json\<close>, \<open>contracts/http-routes.json\<close>.\<close>

definition repository_contract :: contract where
  "repository_contract =
     \<lparr>ct_version = 1, ct_dimensionMin = 1, ct_dimensionMax = 2000,
      ct_clientTypes = map js [''attach'', ''input'', ''resize'', ''ping'', ''rename''],
      ct_serverTypes = map js [''ready'', ''output'', ''exit'', ''error'', ''pong''],
      ct_knownCodes = map js [''session_not_found'', ''attach_forbidden'', ''incompatible_version'', ''attach_required'',
        ''read_only_forbidden'', ''session_not_writable'', ''session_not_resizable''],
      ct_unknownPolicy = js ''preserve_raw_code'', ct_sessionsHttp = js ''/api/sessions'', ct_terminalWs = js ''/api/terminal'',
      ct_envelopeField = js ''sessions'',
      ct_required = map js [''id'', ''hasController'', ''canControl'', ''watchers'', ''createdAtMs'', ''lastActivityMs''],
      ct_optional = map js [''command'', ''name'']\<rparr>"


text \<open>The constants the client is modelled with are those of the contract, and no name is generated twice for its error codes,
  so that no entry of an object and no Go constant hides another.\<close>

theorem model_follows_contract:
  "TERMINAL_WIRE_CONTRACT_VERSION = of_int (ct_version repository_contract) \<and>
   (DIMENSION_MIN, DIMENSION_MAX) = (ct_dimensionMin repository_contract, ct_dimensionMax repository_contract) \<and>
   map error_code_name TERMINAL_SERVER_ERROR_CODES = ct_knownCodes repository_contract \<and>
   SESSIONS_ENVELOPE_FIELD = ct_envelopeField repository_contract \<and>
   distinct (map toUpperSnake (ct_knownCodes repository_contract)) \<and>
   distinct (map toPascalCase (ct_knownCodes repository_contract))"
proof -
  have "distinct (map toUpperSnake (ct_knownCodes repository_contract))" "distinct (map toPascalCase (ct_knownCodes repository_contract))"
    by code_simp+
  then show ?thesis
    by (simp add: TERMINAL_WIRE_CONTRACT_VERSION_def DIMENSION_MIN_def DIMENSION_MAX_def TERMINAL_SERVER_ERROR_CODES_def
        SESSIONS_ENVELOPE_FIELD_def) (simp add: repository_contract_def)
qed

end
