(* ===== verification/Spec2Isabelle.thy ===== *)
theory Spec2Isabelle
  imports Input_Properties Session_Reload Browser_Transport Interface_Properties Dom_Bindings
    Page_Properties Dev_Launcher Contract_Bindings
begin

text \<open>
  The browser client of Wootty: a terminal that talks over a WebSocket to a server holding shell sessions.  Paths
  below are relative to \<open>src/apps/web/src/features/terminal/\<close>.

  \<^bold>\<open>The program.\<close>  The client has two halves that never read each other's state.  The \<^emph>\<open>connection\<close>
  (\<open>app/engine/\<close>) owns a socket, a heartbeat, a reconnect timer, the outbox of keyboard input and the terminal widget.
  The \<^emph>\<open>session layer\<close> (\<open>session/\<close>) owns the identity of the session (its id and the attach mode), the list of
  sessions polled from the server, what is kept in the browser's storage, and the notices shown.  Handlers of the
  connection call the session layer (a session is ready, missing or forbidden; please refresh; show a notice); the
  session layer reaches the connection only through the next render, whose closures capture the new identity.  On top
  are the commands and preferences of the user and the components of the interface (\<open>commands/\<close>, \<open>preferences/\<close>,
  \<open>components/\<close>, \<open>view/\<close>, \<open>app/\<close>), below the resolution of endpoints (\<open>bootstrap/\<close>) and the adapter
  of the browser's WebSocket (\<open>adapters/\<close>).

  \<^bold>\<open>Conventions.\<close>  Strings are lists of 16-bit code units and values of type \<open>unknown\<close> are \<open>jsval\<close>
  (\<open>Prelude\<close>).  An exception is the left value of a sum, an absent value is \<open>None\<close>.  A class or a hook is a record;
  a class that holds another extends its record, so that an operation is polymorphic in what is built on top of it.
  Refs, states and local variables of hooks are fields, a closure handed to a timer or a promise is a value of a
  datatype (\<open>session_task\<close>, \<open>transport_task\<close>, \<open>ui_task\<close>) that the scheduler gives back when it fires.  What the
  code asks of its environment is an argument: \<open>host\<close> (JSON, the URL parser, the texts of the platform),
  \<open>web_platform\<close> (URLs being edited), \<open>fit\<close> (the size of the widget), the exceptions of storage and of sockets, and
  the outcomes of the network.  Nothing is assumed of them except where a theorem says so; \<open>Sample_Host\<close> is an
  instance that can be computed with and on which the concrete runs are evaluated.

  \<^bold>\<open>Runs.\<close>  Whatever happens between two turns of the event loop is one step: a timer that fires, a message, an answer
  of the network, a continuation of a promise, a commit of React with its effects, a click, a change of the clock.  A
  run is a list of steps in any order and a step that is not possible changes nothing (\<open>transport_run_step\<close>,
  \<open>coordinator_run_step\<close>, \<open>session_run_step\<close>, \<open>client_run_step\<close>, \<open>shell_step\<close>, \<open>page_step\<close>), so that \<open>coordinator_run\<close>, \<open>session_run\<close> and
  \<open>client_run\<close> from their initial states are the states the program can reach, in every interleaving.  No run has fuel:
  loops of the code are structural recursions, and the recursion of timers and retries is in the steps.  Handles of
  timers, sockets and requests are numbers that are never used twice.

  \<^bold>\<open>Theories.\<close>
  \<^item> \<open>Prelude\<close>: strings, numbers and values of the language, maps of unique keys.
  \<^item> \<open>Outbox\<close> (\<open>lib/terminal-outbox.ts\<close>), \<open>Throttle\<close> (\<open>shared/reliability/\<close>), \<open>Sanitize\<close>
    (\<open>shared/sanitization/\<close>, \<open>validation/\<close>), \<open>Wire_Protocol\<close> (\<open>protocol/\<close>), \<open>Scheduler\<close>
    (\<open>platform/scheduler.ts\<close>), \<open>Transport_State\<close> (\<open>app/engine/transport/state/\<close>), \<open>Notices\<close>
    (\<open>notifications/\<close>): the parts with no state of the client in them.  The outbox refines a bounded queue that drops its
    oldest input; the parser of server messages accepts exactly the documented messages and reads back every one of them.
  \<^item> \<open>Socket_Session\<close>, \<open>Reliability\<close>, \<open>Lifecycle\<close>: the transport (\<open>app/engine/transport/\<close>), one record layer
    per class.  \<open>Lifecycle_Laws\<close> states its invariant: the live timers are those of its slots, only the active socket has
    listeners, the displayed status agrees with the state.  \<open>Lifecycle_Steps\<close> shows that every step keeps it, that a
    disposed service is silent and that attempts to recover end.  \<open>Lifecycle_Frame\<close> has the frame rules for its owner.
  \<^item> \<open>Io_Bridge\<close> (\<open>app/engine/runtime/\<close>) and \<open>Coordinator\<close> (\<open>app/engine/connection-coordinator.ts\<close>,
    \<open>app/engine/protocol/\<close>): the owner of the transport; \<open>Coordinator_Laws\<close>, \<open>Transport_Properties\<close> and
    \<open>Input_Properties\<close> show the guarantees of the connection: one socket, no stall without a timer, bounded attempts,
    no key stroke lost except by the limit, watchers send nothing, a rejected message changes nothing but a notice.
  \<^item> \<open>Session_Store\<close>, \<open>Sessions_Payload\<close>, \<open>Session_Notices\<close>, \<open>Session_Refresh\<close>,
    \<open>Session_Orchestrator\<close>: the session layer (\<open>session/\<close>, \<open>bootstrap/sessions-client.ts\<close>); \<open>Session_Laws\<close>
    and \<open>Session_Steps\<close> its invariant \<open>layer_ok\<close>, \<open>Session_Time\<close> the bounds of its delays,
    \<open>Session_Properties\<close>, \<open>Session_Policies\<close> and \<open>Session_Reload\<close> its guarantees: superseded answers are never
    shown, every refresh ends, polling goes on and backs off, a reload finds the session again, an unmounted layer is silent.
  \<^item> \<open>Endpoints\<close> (\<open>bootstrap/\<close>) and \<open>Browser_Transport\<close> (\<open>adapters/\<close>): the resolution of the socket's and
    the sessions' URL, the sign-in token, and the adapter, which refines the listener lists \<open>Socket_Session\<close> assumes.
  \<^item> \<open>Commands\<close> (\<open>commands/\<close>), \<open>Preferences\<close> (\<open>preferences/\<close>, \<open>app/preferences/\<close>) and \<open>Client\<close>
    (\<open>app/composition/\<close>, \<open>app/controller-actions.ts\<close>): the whole client.  \<open>Client_Frame\<close> is the rule by which an
    invariant is carried through its steps, \<open>Client_Laws\<close> what keeps the identity, \<open>Client_Halves\<close> lifts the invariants of
    the two halves, \<open>Client_Properties\<close> refines an abstract identity machine and follows the identity to the first
    frame on a new socket, \<open>Client_Runs\<close> has the invariants of reached clients and the unmount.
  \<^item> \<open>Presentation\<close> (\<open>presentation/\<close>, \<open>view/\<close>, \<open>app/controller/\<close>), \<open>Components\<close> (\<open>components/\<close>,
    \<open>app/TerminalApp.tsx\<close>), \<open>Dom_Bindings\<close> (\<open>app/bindings/\<close>, \<open>runtime/\<close>): the interface as functions of
    the client's state and the small state machines of its parts; \<open>Interface_Properties\<close> relates what the buttons
    offer to what the client does.
  \<^item> \<open>App_Shell\<close> (\<open>app/TerminalApp.tsx\<close>, \<open>app/controller/\<close>, \<open>app/composition/\<close>): client and interface put
    together.  A render computes the models of the components and shows them; an input goes through the component it is made on,
    under the models of the last render, and the action it dispatches to the client.  \<open>Shell_Properties\<close> shows that the shell
    refines the client and that the user attaches only to what he is shown.  \<open>Web_Page\<close> (\<open>main.tsx\<close>, \<open>App.tsx\<close>,
    \<open>AppErrorBoundary.tsx\<close> and \<open>bootstrap/terminal-environment.ts\<close>) is the start: the import of the application, the sign-in
    and the first render of the shell; \<open>Page_Properties\<close> shows that no shell is there before the server has accepted the token.
  \<^item> \<open>Dev_Launcher\<close> (\<open>scripts/dev.mjs\<close> of the repository): the launcher of the development servers as a state machine; it
    leaves no child process behind.  \<open>Regex\<close> is a matcher proved to find exactly the matches of an expression, used by
    \<open>Repo_Checks\<close> (\<open>scripts/generate-terminal-governance-docs.mjs\<close>, \<open>scripts/verify-go-toolchain.mjs\<close>), where the
    check of the governance map is characterised and regeneration is shown to be stable; \<open>Contract_Bindings\<close>
    (\<open>scripts/generate-terminal-contract-bindings.mjs\<close>) generates the constants that \<open>Wire_Protocol\<close> uses.
    \<open>Doubles\<close> has the rounding of numbers and the numbers in texts.

  \<^bold>\<open>Interfaces.\<close>  \<open>timer_service\<close> (\<open>Scheduler\<close>) is what every owner of timers relies on, discharged by the timer
  table of the browser.  \<open>sink\<close> (\<open>Outbox\<close>) is what flushing asks of the function that sends, discharged by the
  transport.  \<open>transport_failure_sink\<close> and \<open>transport_client\<close> (\<open>Lifecycle_Laws\<close>) are what the transport asks of its owner,
  discharged by the coordinator; \<open>owner_frame\<close> and \<open>owner_invariant\<close> (\<open>Lifecycle_Frame\<close>) what it promises about the state of
  its owner, used for the terminal widget and for the calls on the session layer.  \<open>client_invariant\<close> and
  \<open>client_lifetime_invariant\<close> (\<open>Client_Frame\<close>) are the interface between the client and a predicate on it; the invariant of
  the connection, the one of the interface's state and the simulation by session runs are its interpretations.

  \<^bold>\<open>Not modelled.\<close>  The server (another program, in Go; its messages are inputs of the client), the xterm package, the
  DOM and React themselves (a render is a function of the state and a commit one step), markup, styles and icons, the
  declarations of injected interfaces (\<open>environment/\<close>), and the scripts that only start other tools (linters, compilers).
  The client accepts every choice in a menu at any time; the shell lets through only those its components offer.
  A render of React is a step that may be taken at any time, so the shell shows models as old as the scheduling of renders
  allows.  The second mount of the strict mode of development builds and a reload of the page are not modelled.
\<close>

end
